(* ===== verification/Prelude.thy ===== *)
theory Prelude
  imports Complex_Main "HOL-Library.Word" "HOL-Library.AList" "HOL-Library.Multiset"
    "HOL-Library.Sublist" "HOL-Library.Char_ord" "HOL-Library.List_Lexorder"
begin

text \<open>
  Shared vocabulary of the development: the Go notions that every component of the operator
  uses. A Go string or byte slice is a \<^typ>\<open>string\<close> (a list of bytes); a Go map that the
  code ranges over is an association list whose order is the (arbitrary) iteration order;
  a call that can panic yields an \<open>exec\<close> value; time is an integer number of nanoseconds
  and \<open>time.Time.Sub\<close> saturates as the standard library does; the conversions of
  \<open>strconv\<close> and the splitting and joining of \<open>strings\<close> are written out.
  The generic lemmas on lists, association lists and decimal numerals that the component
  theories share are collected here.
\<close>

named_theorems go_simps \<open>unfolding rules of the Go run-time vocabulary\<close>
named_theorems names \<open>facts about generated resource names\<close>

subsection \<open>Panics\<close>

datatype 'a exec = Panic string | Ok 'a

fun exec_bind :: "'a exec \<Rightarrow> ('a \<Rightarrow> 'b exec) \<Rightarrow> 'b exec" where
  "exec_bind (Panic m) f = Panic m"
| "exec_bind (Ok a) f = f a"

fun is_panic :: "'a exec \<Rightarrow> bool" where
  "is_panic (Panic m) = True"
| "is_panic (Ok a) = False"

lemma exec_bind_Ok_iff [simp]:
  "exec_bind m f = Ok b \<longleftrightarrow> (\<exists>a. m = Ok a \<and> f a = Ok b)"
  by (cases m) auto

lemma not_is_panic_iff: "\<not> is_panic m \<longleftrightarrow> (\<exists>a. m = Ok a)"
  by (cases m) auto

text \<open>The two outcomes of a Go call that may fail: an error or a value.\<close>

lemma case_error_Ok_Inr [simp]:
  "(case x of Inl e \<Rightarrow> Ok (Inl e) | Inr y \<Rightarrow> f y) = Ok (Inr z) \<longleftrightarrow> (\<exists>y. x = Inr y \<and> f y = Ok (Inr z))"
  by (cases x) auto

text \<open>A loop that collects the results of a body that may panic or \<open>continue\<close> (\<open>None\<close>).\<close>

fun exec_collect :: "('a \<Rightarrow> 'b option exec) \<Rightarrow> 'a list \<Rightarrow> 'b list exec" where
  "exec_collect f [] = Ok []"
| "exec_collect f (x # xs) =
     exec_bind (f x) (\<lambda>r. exec_bind (exec_collect f xs) (\<lambda>rs.
       Ok (case r of None \<Rightarrow> rs | Some y \<Rightarrow> y # rs)))"

lemma exec_collect_Ok:
  assumes "\<And>x. x \<in> set xs \<Longrightarrow> f x = Ok (g x)"
  shows "exec_collect f xs = Ok (List.map_filter g xs)"
  using assms by (induction xs) (auto simp: map_filter_simps split: option.splits)

lemma exec_collect_Ok_iff:
  "exec_collect f xs = Ok rs \<longleftrightarrow>
     (\<exists>g. (\<forall>x \<in> set xs. f x = Ok (g x)) \<and> rs = List.map_filter g xs)"
proof
  assume "exec_collect f xs = Ok rs"
  then show "\<exists>g. (\<forall>x \<in> set xs. f x = Ok (g x)) \<and> rs = List.map_filter g xs"
  proof (induction xs arbitrary: rs)
    case Nil
    then show ?case by (simp add: map_filter_simps)
  next
    case (Cons x xs)
    then obtain r rs' where r: "f x = Ok r" "exec_collect f xs = Ok rs'"
        "rs = (case r of None \<Rightarrow> rs' | Some y \<Rightarrow> y # rs')" by auto
    with Cons.IH obtain g where g: "\<forall>x \<in> set xs. f x = Ok (g x)" "rs' = List.map_filter g xs" by blast
    let ?g = "\<lambda>z. case f z of Ok v \<Rightarrow> v | Panic _ \<Rightarrow> None"
    have "List.map_filter ?g xs = List.map_filter g xs"
      using g(1) by (induction xs) (auto simp: map_filter_simps split: option.splits)
    with r g have "rs = List.map_filter ?g (x # xs)"
      by (simp add: map_filter_simps split: option.splits)
    moreover have "\<forall>z \<in> set (x # xs). f z = Ok (?g z)" using r g by auto
    ultimately show ?case by (intro exI [of _ ?g] conjI)
  qed
next
  assume "\<exists>g. (\<forall>x \<in> set xs. f x = Ok (g x)) \<and> rs = List.map_filter g xs"
  then show "exec_collect f xs = Ok rs" using exec_collect_Ok by metis
qed

text \<open>A loop over a state that returns at the first error.\<close>

fun each :: "('a \<Rightarrow> 's \<Rightarrow> 'e option \<times> 's) \<Rightarrow> 'a list \<Rightarrow> 's \<Rightarrow> 'e option \<times> 's" where
  "each step [] s = (None, s)"
| "each step (x # xs) s =
     (case step x s of (Some e, s') \<Rightarrow> (Some e, s') | (None, s') \<Rightarrow> each step xs s')"

subsection \<open>Time and durations\<close>

type_synonym time = int
type_synonym duration = int

definition maxDuration :: duration where "maxDuration = 2 ^ 63 - 1"
definition minDuration :: duration where "minDuration = - (2 ^ 63)"

text \<open>\<open>time.Time.Sub\<close>: the difference, saturated to the range of \<open>time.Duration\<close>.\<close>

definition time_Sub :: "time \<Rightarrow> time \<Rightarrow> duration" where
  "time_Sub t u = max minDuration (min maxDuration (t - u))"

definition time_Second :: duration where "time_Second = 1000000000"

text \<open>The zero \<open>time.Time\<close>, January 1 of the year 1, in nanoseconds of Unix time.\<close>

definition zeroTime :: time where "zeroTime = - 62135596800000000000"

lemma time_Sub_mono: "t \<le> t' \<Longrightarrow> time_Sub t u \<le> time_Sub t' u"
  by (auto simp: time_Sub_def)

lemma time_Sub_range: "minDuration \<le> time_Sub t u \<and> time_Sub t u \<le> maxDuration"
  by (auto simp: time_Sub_def minDuration_def maxDuration_def)

subsection \<open>Conversions to signed integers of 32 and 64 bits\<close>

definition int32_wrap :: "int \<Rightarrow> int" where
  "int32_wrap n = (n + 2 ^ 31) mod 2 ^ 32 - 2 ^ 31"

definition int64_wrap :: "int \<Rightarrow> int" where
  "int64_wrap n = (n + 2 ^ 63) mod 2 ^ 64 - 2 ^ 63"

subsection \<open>Decimal numerals: strconv\<close>

definition digit_char :: "nat \<Rightarrow> char" where
  "digit_char d = char_of (48 + d)"

definition is_digit :: "char \<Rightarrow> bool" where
  "is_digit c \<longleftrightarrow> 48 \<le> (of_char c :: nat) \<and> (of_char c :: nat) \<le> 57"

definition digit_val :: "char \<Rightarrow> nat" where
  "digit_val c = of_char c - 48"

fun dec_digits :: "nat \<Rightarrow> string" where
  "dec_digits n = (if n < 10 then [digit_char n] else dec_digits (n div 10) @ [digit_char (n mod 10)])"

declare dec_digits.simps [simp del]

definition dec_value :: "string \<Rightarrow> nat" where
  "dec_value s = foldl (\<lambda>a c. 10 * a + digit_val c) 0 s"

text \<open>\<open>strconv.FormatInt(n, 10)\<close> and the verb \<open>%d\<close>.\<close>

definition FormatInt :: "int \<Rightarrow> string" where
  "FormatInt n = (if n < 0 then CHR ''-'' # dec_digits (nat (- n)) else dec_digits (nat n))"

text \<open>
  \<open>strconv.ParseInt(s, 10, 64)\<close>: an optional sign and a non-empty run of digits. The first
  component is the value returned even on error (0 on a syntax error, the nearest bound on a
  range error), the second says that there was no error.
\<close>

definition ParseInt :: "string \<Rightarrow> int \<times> bool" where
  "ParseInt s =
     (let neg = (case s of c # _ \<Rightarrow> c = CHR ''-'' | [] \<Rightarrow> False);
          ds = (case s of c # cs \<Rightarrow> if c = CHR ''-'' \<or> c = CHR ''+'' then cs else s | [] \<Rightarrow> [])
      in if ds = [] \<or> \<not> list_all is_digit ds then (0, False)
         else let v = int (dec_value ds)
              in if neg then (if v > 2 ^ 63 then (- (2 ^ 63), False) else (- v, True))
                 else (if v \<ge> 2 ^ 63 then (2 ^ 63 - 1, False) else (v, True)))"

text \<open>\<open>strconv.ParseUint(s, 10, 64)\<close>: digits only, no sign.\<close>

definition ParseUint :: "string \<Rightarrow> 64 word \<times> bool" where
  "ParseUint s =
     (if s = [] \<or> \<not> list_all is_digit s then (0, False)
      else if dec_value s \<ge> 2 ^ 64 then (- 1, False)
      else (word_of_nat (dec_value s), True))"

lemma digit_char_digit: "d < 10 \<Longrightarrow> is_digit (digit_char d) \<and> digit_val (digit_char d) = d"
  by (simp add: is_digit_def digit_char_def digit_val_def of_char_of take_bit_eq_mod)

lemma is_digit_digit_char [simp]: "d < 10 \<Longrightarrow> is_digit (digit_char d)"
  by (simp add: digit_char_digit)

lemma digit_val_digit_char [simp]: "d < 10 \<Longrightarrow> digit_val (digit_char d) = d"
  by (simp add: digit_char_digit)

lemma dec_digits_nonempty [simp]: "dec_digits n \<noteq> []"
  by (subst dec_digits.simps) simp

lemma dec_digits_all_digits [simp]: "list_all is_digit (dec_digits n)"
proof (induction n rule: dec_digits.induct)
  case (1 n)
  show ?case
  proof (cases "n < 10")
    case True
    then show ?thesis by (subst dec_digits.simps) simp
  next
    case False
    with 1 show ?thesis by (subst dec_digits.simps) simp
  qed
qed

lemma dec_value_snoc [simp]: "dec_value (s @ [c]) = 10 * dec_value s + digit_val c"
  by (simp add: dec_value_def)

lemma dec_value_digits [simp]: "dec_value (dec_digits n) = n"
proof (induction n rule: dec_digits.induct)
  case (1 n)
  show ?case
  proof (cases "n < 10")
    case True
    then show ?thesis by (subst dec_digits.simps) (simp add: dec_value_def)
  next
    case False
    with 1 have "dec_value (dec_digits (n div 10)) = n div 10" by simp
    with False show ?thesis by (subst dec_digits.simps) simp
  qed
qed

lemma dec_digits_inj [simp]: "dec_digits m = dec_digits n \<longleftrightarrow> m = n"
  by (metis dec_value_digits)

lemma is_digit_not_sign: "is_digit c \<Longrightarrow> c \<noteq> CHR ''-'' \<and> c \<noteq> CHR ''+''"
  by (auto simp: is_digit_def)

lemma hd_dec_digits: "dec_digits n = c # cs \<Longrightarrow> c \<noteq> CHR ''-'' \<and> c \<noteq> CHR ''+''"
  using dec_digits_all_digits [of n] by (auto simp: is_digit_not_sign)

lemma dec_digits_length: "n < 10 ^ k \<Longrightarrow> 0 < k \<Longrightarrow> length (dec_digits n) \<le> k"
proof (induction k arbitrary: n)
  case 0
  then show ?case by simp
next
  case (Suc k)
  show ?case
  proof (cases "n < 10")
    case True
    then show ?thesis by (subst dec_digits.simps) simp
  next
    case False
    with Suc.prems have "n div 10 < 10 ^ k" "0 < k"
      by (auto simp: less_mult_imp_div_less mult.commute intro!: gr0I)
    with Suc.IH have "length (dec_digits (n div 10)) \<le> k" by blast
    with False show ?thesis by (subst dec_digits.simps) simp
  qed
qed

text \<open>Parsing a formatted 64-bit integer gives it back, with no error.\<close>

lemma ParseInt_FormatInt:
  assumes "- (2 ^ 63) \<le> n" and "n < 2 ^ 63"
  shows "ParseInt (FormatInt n) = (n, True)"
proof (cases "n < 0")
  case True
  with assms show ?thesis by (simp add: FormatInt_def ParseInt_def)
next
  case False
  obtain c cs where c: "dec_digits (nat n) = c # cs"
    by (cases "dec_digits (nat n)") auto
  have "list_all is_digit (c # cs)" using dec_digits_all_digits [of "nat n"] c by simp
  moreover have "dec_value (c # cs) = nat n" using dec_value_digits [of "nat n"] c by simp
  ultimately show ?thesis using False assms hd_dec_digits [OF c] c
    by (auto simp: FormatInt_def ParseInt_def)
qed

lemma FormatInt_inj: "0 \<le> i \<Longrightarrow> 0 \<le> j \<Longrightarrow> FormatInt i = FormatInt j \<longleftrightarrow> i = j"
  by (auto simp: FormatInt_def)

lemma FormatInt_digits: "0 \<le> i \<Longrightarrow> list_all is_digit (FormatInt i) \<and> FormatInt i \<noteq> []"
  by (simp add: FormatInt_def)

subsection \<open>Strings: strings.Split, strings.Join, strings.HasSuffix, strings.ReplaceAll\<close>

fun strings_Split :: "char \<Rightarrow> string \<Rightarrow> string list" where
  "strings_Split sep [] = [[]]"
| "strings_Split sep (c # cs) =
     (if c = sep then [] # strings_Split sep cs
      else (case strings_Split sep cs of p # ps \<Rightarrow> (c # p) # ps | [] \<Rightarrow> [[c]]))"

fun strings_Join :: "string \<Rightarrow> string list \<Rightarrow> string" where
  "strings_Join sep [] = []"
| "strings_Join sep [s] = s"
| "strings_Join sep (s # t # ss) = s @ sep @ strings_Join sep (t # ss)"

definition strings_HasSuffix :: "string \<Rightarrow> string \<Rightarrow> bool" where
  "strings_HasSuffix s suf \<longleftrightarrow> suffix suf s"

lemma strings_Split_nonempty [simp]: "strings_Split sep s \<noteq> []"
  by (cases s) (auto split: list.splits)

lemma strings_Split_no_sep: "sep \<notin> set s \<Longrightarrow> strings_Split sep s = [s]"
  by (induction s) auto

lemma strings_Split_append:
  "sep \<notin> set s \<Longrightarrow> strings_Split sep (s @ sep # t) = s # strings_Split sep t"
  by (induction s) auto

lemma strings_Split_parts: "p \<in> set (strings_Split sep s) \<Longrightarrow> sep \<notin> set p"
proof (induction s arbitrary: p)
  case Nil
  then show ?case by simp
next
  case (Cons c cs)
  then show ?case
    by (cases "strings_Split sep cs") (auto split: if_splits)
qed

lemma strings_Join_Split: "strings_Join [sep] (strings_Split sep s) = s"
proof (induction s)
  case Nil
  then show ?case by simp
next
  case (Cons c cs)
  obtain p ps where ps: "strings_Split sep cs = p # ps"
    by (cases "strings_Split sep cs") auto
  with Cons show ?case by (cases ps) auto
qed

subsection \<open>Association lists as Go maps\<close>

type_synonym labels = "(string \<times> string) list"

text \<open>\<open>m[k]\<close> on a map of strings: the zero value where the key is absent.\<close>

definition label_get :: "labels \<Rightarrow> string \<Rightarrow> string" where
  "label_get m k = (case map_of m k of None \<Rightarrow> [] | Some v \<Rightarrow> v)"

text \<open>Inserting every entry of a list of keyed values into an empty map, in order.\<close>

definition insert_all :: "('a \<Rightarrow> 'k) \<Rightarrow> 'a list \<Rightarrow> ('k \<times> 'a) list" where
  "insert_all key xs = foldl (\<lambda>m x. AList.update (key x) x m) [] xs"

lemma update_fresh: "k \<notin> fst ` set m \<Longrightarrow> AList.update k v m = m @ [(k, v)]"
  by (induction m) auto

lemma insert_all_snoc: "insert_all key (xs @ [x]) = AList.update (key x) x (insert_all key xs)"
  by (simp add: insert_all_def)

lemma fst_set_insert_all: "fst ` set (insert_all key xs) = key ` set xs"
  by (induction xs rule: rev_induct) (auto simp: insert_all_snoc dom_update insert_all_def)

lemma distinct_insert_all: "distinct (map fst (insert_all key xs))"
  by (induction xs rule: rev_induct) (simp_all add: insert_all_snoc distinct_update insert_all_def)

lemma insert_all_distinct:
  "distinct (map key xs) \<Longrightarrow> insert_all key xs = map (\<lambda>x. (key x, x)) xs"
proof (induction xs rule: rev_induct)
  case Nil
  then show ?case by (simp add: insert_all_def)
next
  case (snoc x xs)
  then have "insert_all key xs = map (\<lambda>x. (key x, x)) xs" by simp
  moreover from snoc.prems have "key x \<notin> key ` set xs" by auto
  ultimately show ?case by (simp add: insert_all_snoc update_fresh image_image)
qed

text \<open>The map has as many entries as the list exactly when no key occurs twice.\<close>

lemma length_insert_all_iff:
  "length (insert_all key xs) = length xs \<longleftrightarrow> distinct (map key xs)"
proof
  assume "length (insert_all key xs) = length xs"
  moreover have "length (insert_all key xs) = card (key ` set xs)"
    using distinct_card [OF distinct_insert_all [of key xs]] fst_set_insert_all [of key xs]
    by simp
  ultimately have "card (set (map key xs)) = length (map key xs)" by simp
  then show "distinct (map key xs)" by (rule card_distinct)
next
  assume "distinct (map key xs)"
  then show "length (insert_all key xs) = length xs" by (simp add: insert_all_distinct)
qed

lemma map_of_keyed_None:
  "map_of (map (\<lambda>x. (key x, x)) xs) k = None \<longleftrightarrow> k \<notin> key ` set xs"
  by (auto simp: map_of_eq_None_iff image_image)

lemma map_of_keyed_Some:
  "distinct (map key xs) \<Longrightarrow>
   map_of (map (\<lambda>x. (key x, x)) xs) k = Some v \<longleftrightarrow> v \<in> set xs \<and> key v = k"
  by (subst map_of_eq_Some_iff) (auto simp: comp_def)

lemma label_get_update [simp]:
  "label_get (AList.update k v m) k' = (if k = k' then v else label_get m k')"
  by (simp add: label_get_def update_conv')

subsection \<open>Sorting with an unspecified algorithm\<close>

text \<open>
  \<open>sort.Slice\<close> promises a permutation in which no later element is less than an earlier one,
  and nothing about equal elements; the elements often come from a Go map, whose iteration
  order is arbitrary. The code that sorts takes the sorting function as an argument, and its
  facts hold for every function with this contract.
\<close>

locale ordering_of =
  fixes srt :: "'a list \<Rightarrow> 'a list"
    and rank :: "'a \<Rightarrow> int"
  assumes srt_mset: "mset (srt xs) = mset xs"
    and srt_sorted: "sorted (map rank (srt xs))"
begin

lemma srt_set [simp]: "set (srt xs) = set xs"
  using srt_mset [of xs] by (metis set_mset_mset)

lemma srt_length [simp]: "length (srt xs) = length xs"
  using srt_mset [of xs] by (metis size_mset)

lemma srt_Nil_iff [simp]: "srt xs = [] \<longleftrightarrow> xs = []"
  by (metis length_0_conv srt_length)

lemma srt_empty [simp]: "srt [] = []"
  by simp

lemma srt_map_mset: "mset (map f (srt xs)) = mset (map f xs)"
  by (simp add: srt_mset)

lemma srt_distinct_map: "distinct (map f (srt xs)) \<longleftrightarrow> distinct (map f xs)"
  using srt_map_mset by (metis mset_eq_imp_distinct_iff)

end

end
