(* ===== verification/Kube_Labels.thy ===== *)
theory Kube_Labels
  imports Prelude
begin

text \<open>
  The naming utilities of \<^verbatim>\<open>internal/kube\<close>: \<^verbatim>\<open>labels.go\<close> (label constants,
  \<open>ToIntegerValue\<close>, \<open>MustToInt\<close>, \<open>ToLabelKey\<close>, \<open>ToName\<close>, \<open>NormalizeMetadata\<close>,
  \<open>normalizeValue\<close>, \<open>trimMiddle\<close>) and \<^verbatim>\<open>image.go\<close> (\<open>ParseImageVersion\<close>), with the
  metadata of a Kubernetes object. The lemmas say that a normalized name obeys the Kubernetes
  constraints, that normalizing twice changes nothing, that the in-place byte loop is a filter,
  and that a numeric suffix survives normalization, so that names made from different ordinals
  stay different.
\<close>

subsection \<open>Object metadata\<close>

record OwnerReference =
  or_APIVersion :: string
  or_Kind :: string
  or_Name :: string
  or_Controller :: "bool option"

record ObjectMeta =
  om_Name :: string
  om_Namespace :: string
  om_UID :: string
  om_ResourceVersion :: string
  om_Generation :: int
  om_Labels :: labels
  om_Annotations :: labels
  om_OwnerReferences :: "OwnerReference list"
  om_DeletionTimestamp :: "time option"

definition emptyMeta :: ObjectMeta where
  "emptyMeta = \<lparr>om_Name = [], om_Namespace = [], om_UID = [], om_ResourceVersion = [],
     om_Generation = 0, om_Labels = [], om_Annotations = [], om_OwnerReferences = [],
     om_DeletionTimestamp = None\<rparr>"

text \<open>\<open>client.ObjectKey\<close>: a namespace and a name.\<close>

datatype ObjectKey = ObjectKey (key_Namespace: string) (key_Name: string)

subsection \<open>Label constants\<close>

definition ControllerLabel :: string where "ControllerLabel = ''app.kubernetes.io/created-by''"
definition InstanceLabel :: string where "InstanceLabel = ''app.kubernetes.io/instance''"
definition NameLabel :: string where "NameLabel = ''app.kubernetes.io/name''"
definition VersionLabel :: string where "VersionLabel = ''app.kubernetes.io/version''"
definition ComponentLabel :: string where "ComponentLabel = ''app.kubernetes.io/component''"
definition OrdinalAnnotation :: string where "OrdinalAnnotation = ''app.kubernetes.io/ordinal''"
definition ControllerOwnerField :: string where "ControllerOwnerField = ''.metadata.controller''"

lemmas label_defs = ControllerLabel_def InstanceLabel_def NameLabel_def VersionLabel_def
  ComponentLabel_def OrdinalAnnotation_def

subsection \<open>Integers as label values\<close>

definition ToIntegerValue :: "int \<Rightarrow> string" where
  "ToIntegerValue n = FormatInt n"

definition MustToInt :: "string \<Rightarrow> int exec" where
  "MustToInt s = (case ParseInt s of (n, True) \<Rightarrow> Ok n | (_, False) \<Rightarrow> Panic ''strconv.ParseInt'')"

subsection \<open>Normalization\<close>

definition is_alnum :: "char \<Rightarrow> bool" where
  "is_alnum c \<longleftrightarrow>
     (CHR ''a'' \<le> c \<and> c \<le> CHR ''z'') \<or> (CHR ''A'' \<le> c \<and> c \<le> CHR ''Z'') \<or>
     (CHR ''0'' \<le> c \<and> c \<le> CHR ''9'')"

text \<open>
  The selection loop of \<open>normalizeValue\<close> writes the accepted bytes into a copy of the input,
  \<open>j\<close> being the next free position.
\<close>

fun select_loop :: "(char \<Rightarrow> bool) \<Rightarrow> string \<Rightarrow> string \<Rightarrow> nat \<Rightarrow> string \<times> nat" where
  "select_loop ok [] result j = (result, j)"
| "select_loop ok (c # cs) result j =
     (if ok c then select_loop ok cs (result[j := c]) (Suc j) else select_loop ok cs result j)"

text \<open>
  \<open>bytes.TrimLeftFunc\<close> and \<open>bytes.TrimRightFunc\<close> on a slice that holds ASCII bytes only, as
  the selection loop guarantees.
\<close>

definition trim_left :: "(char \<Rightarrow> bool) \<Rightarrow> string \<Rightarrow> string" where
  "trim_left p s = dropWhile p s"

definition trim_right :: "(char \<Rightarrow> bool) \<Rightarrow> string \<Rightarrow> string" where
  "trim_right p s = rev (dropWhile p (rev s))"

definition trimMiddle :: "string \<Rightarrow> nat \<Rightarrow> string" where
  "trimMiddle val limit =
     (if length val \<le> limit then val
      else let left = limit div 2;
               right = (if limit mod 2 \<noteq> 0 then limit div 2 + 1 else limit div 2)
           in take left val @ drop (length val - right) val)"

definition normalizeValue :: "string \<Rightarrow> nat \<Rightarrow> string \<Rightarrow> string" where
  "normalizeValue val limit allowed =
     (let (buf, j) = select_loop (\<lambda>c. is_alnum c \<or> c \<in> set allowed) val val 0;
          result = take j buf;
          result = trim_left (\<lambda>c. c \<in> set allowed) result;
          result = trim_right (\<lambda>c. c \<in> set allowed) result
      in trimMiddle result limit)"

definition ToLabelKey :: "string \<Rightarrow> string" where
  "ToLabelKey val = normalizeValue val 63 ''-_./''"

definition ToName :: "string \<Rightarrow> string" where
  "ToName val = normalizeValue val 253 ''-.''"

definition normalizeMap :: "labels \<Rightarrow> labels" where
  "normalizeMap m = foldl (\<lambda>acc kv. AList.update (ToLabelKey (fst kv)) (trimMiddle (snd kv) 63) acc) [] m"

definition NormalizeMetadata :: "ObjectMeta \<Rightarrow> ObjectMeta" where
  "NormalizeMetadata obj = obj\<lparr>om_Name := ToName (om_Name obj),
     om_Annotations := normalizeMap (om_Annotations obj),
     om_Labels := normalizeMap (om_Labels obj)\<rparr>"

subsection \<open>Image references\<close>

definition ParseImageVersion :: "string \<Rightarrow> string" where
  "ParseImageVersion imageRef =
     (let parts = strings_Split (CHR '':'') imageRef
      in if length parts \<noteq> 2 then ''latest''
         else let v = parts ! 1 in if v = [] then ''latest'' else v)"

subsection \<open>The in-place loop is a filter\<close>

lemma select_loop_spec:
  assumes "j + length cs \<le> length result"
  shows "take (snd (select_loop ok cs result j)) (fst (select_loop ok cs result j)) =
           take j result @ filter ok cs"
  using assms
proof (induction cs arbitrary: result j)
  case Nil
  then show ?case by simp
next
  case (Cons c cs)
  then show ?case
    by (auto simp: take_Suc_conv_app_nth)
qed

lemma normalizeValue_alt:
  "normalizeValue val limit allowed =
     trimMiddle (trim_right (\<lambda>c. c \<in> set allowed)
       (trim_left (\<lambda>c. c \<in> set allowed) (filter (\<lambda>c. is_alnum c \<or> c \<in> set allowed) val))) limit"
  using select_loop_spec [of 0 val val "\<lambda>c. is_alnum c \<or> c \<in> set allowed"]
  by (auto simp: normalizeValue_def Let_def split: prod.splits)

subsection \<open>Normalized values are well formed\<close>

text \<open>Trimmed text: nothing but accepted bytes, and no separator at either end.\<close>

definition clean :: "string \<Rightarrow> string \<Rightarrow> bool" where
  "clean allowed s \<longleftrightarrow>
     list_all (\<lambda>c. is_alnum c \<or> c \<in> set allowed) s \<and>
     (s \<noteq> [] \<longrightarrow> hd s \<notin> set allowed \<and> last s \<notin> set allowed)"

lemma trim_right_id: "s = [] \<or> \<not> p (last s) \<Longrightarrow> trim_right p s = s"
  by (cases s rule: rev_cases) (auto simp: trim_right_def)

lemma trim_left_id: "s = [] \<or> \<not> p (hd s) \<Longrightarrow> trim_left p s = s"
  by (cases s) (auto simp: trim_left_def)

lemma hd_trim_left: "trim_left p s \<noteq> [] \<Longrightarrow> \<not> p (hd (trim_left p s))"
  by (simp add: trim_left_def hd_dropWhile)

lemma set_trim_left: "set (trim_left p s) \<subseteq> set s"
  by (auto simp: trim_left_def dest: set_dropWhileD)

lemma trim_right_prefix: "\<exists>t. s = trim_right p s @ t"
proof -
  have "rev s = takeWhile p (rev s) @ dropWhile p (rev s)" by simp
  then have "s = rev (dropWhile p (rev s)) @ rev (takeWhile p (rev s))"
    by (metis rev_append rev_rev_ident)
  then show ?thesis by (auto simp: trim_right_def)
qed

lemma last_trim_right: "trim_right p s \<noteq> [] \<Longrightarrow> \<not> p (last (trim_right p s))"
  by (simp add: trim_right_def last_rev hd_dropWhile)

lemma clean_trimmed:
  "clean allowed (trim_right (\<lambda>c. c \<in> set allowed) (trim_left (\<lambda>c. c \<in> set allowed)
     (filter (\<lambda>c. is_alnum c \<or> c \<in> set allowed) val)))"
  (is "clean allowed (trim_right ?p ?l)")
proof -
  obtain t where t: "?l = trim_right ?p ?l @ t" using trim_right_prefix by blast
  have "set (trim_right ?p ?l) \<subseteq> set ?l" by (subst (2) t) auto
  also have "set ?l \<subseteq> {c. is_alnum c \<or> c \<in> set allowed}"
    using set_trim_left by fastforce
  finally have acc: "list_all (\<lambda>c. is_alnum c \<or> c \<in> set allowed) (trim_right ?p ?l)"
    by (auto simp: list_all_iff)
  have "hd (trim_right ?p ?l) \<notin> set allowed" if ne: "trim_right ?p ?l \<noteq> []"
  proof -
    from t have "hd ?l = hd (trim_right ?p ?l @ t)" by (rule arg_cong)
    with ne have hd_eq: "hd (trim_right ?p ?l) = hd ?l" by simp
    from ne have "?l \<noteq> []" by (auto simp: trim_right_def)
    then have "\<not> ?p (hd ?l)" by (rule hd_trim_left)
    with hd_eq show ?thesis by (simp only: hd_eq not_False_eq_True)
  qed
  with acc show ?thesis
    using last_trim_right [of ?p ?l] by (auto simp: clean_def)
qed

lemma length_trimMiddle: "length (trimMiddle val limit) = min (length val) limit"
  by (auto simp: trimMiddle_def Let_def) presburger+

lemma clean_trimMiddle:
  assumes "clean allowed s" and "2 \<le> limit"
  shows "clean allowed (trimMiddle s limit)"
proof (cases "length s \<le> limit")
  case True
  with assms show ?thesis by (simp add: trimMiddle_def)
next
  case False
  define l where "l = limit div 2"
  define r where "r = (if limit mod 2 \<noteq> 0 then limit div 2 + 1 else limit div 2)"
  from assms(2) False have lr: "0 < l" "0 < r" "l < length s" "r < length s"
    by (auto simp: l_def r_def)
  have eq: "trimMiddle s limit = take l s @ drop (length s - r) s"
    using False by (simp add: trimMiddle_def l_def r_def Let_def)
  from lr have "s \<noteq> []" by auto
  with lr have "hd (trimMiddle s limit) = hd s" "last (trimMiddle s limit) = last s"
    by (simp_all add: eq hd_append)
  moreover have "set (trimMiddle s limit) \<subseteq> set s"
    by (auto simp: eq dest: in_set_takeD in_set_dropD)
  ultimately show ?thesis using assms(1) \<open>s \<noteq> []\<close> by (auto simp: clean_def list_all_iff)
qed

lemma clean_normalizeValue: "2 \<le> limit \<Longrightarrow> clean allowed (normalizeValue val limit allowed)"
  by (simp add: normalizeValue_alt clean_trimMiddle clean_trimmed)

lemma length_normalizeValue: "length (normalizeValue val limit allowed) \<le> limit"
  by (simp add: normalizeValue_alt length_trimMiddle)

lemma normalizeValue_fixed:
  assumes "clean allowed s" and "length s \<le> limit"
  shows "normalizeValue s limit allowed = s"
proof -
  from assms(1) have "filter (\<lambda>c. is_alnum c \<or> c \<in> set allowed) s = s"
    by (simp add: clean_def list_all_iff)
  moreover from assms(1) have "trim_left (\<lambda>c. c \<in> set allowed) s = s"
    by (auto simp: clean_def intro: trim_left_id)
  moreover from assms(1) have "trim_right (\<lambda>c. c \<in> set allowed) s = s"
    by (auto simp: clean_def intro: trim_right_id)
  ultimately show ?thesis using assms(2) by (simp add: normalizeValue_alt trimMiddle_def)
qed

lemma normalizeValue_idem:
  "2 \<le> limit \<Longrightarrow>
   normalizeValue (normalizeValue val limit allowed) limit allowed = normalizeValue val limit allowed"
  by (rule normalizeValue_fixed) (simp_all add: clean_normalizeValue length_normalizeValue)

subsection \<open>A numeric suffix survives normalization\<close>

lemma digit_alnum: "is_digit c \<Longrightarrow> is_alnum c"
  by (auto simp: is_digit_def is_alnum_def less_eq_char_def)

lemma digit_not_separator: "is_digit c \<Longrightarrow> c \<noteq> CHR ''-'' \<and> c \<noteq> CHR ''.''"
  by (auto simp: is_digit_def)

lemma dropWhile_dash_suffix:
  assumes "list_all is_digit ds" "ds \<noteq> []"
  shows "(\<exists>y. dropWhile (\<lambda>c. c \<in> set ''-.'') (x @ CHR ''-'' # ds) = y @ CHR ''-'' # ds) \<or>
         dropWhile (\<lambda>c. c \<in> set ''-.'') (x @ CHR ''-'' # ds) = ds"
proof (induction x)
  case Nil
  from assms have "dropWhile (\<lambda>c. c \<in> set ''-.'') ds = ds"
    by (cases ds) (auto dest: digit_not_separator)
  then show ?case by simp
next
  case (Cons a x)
  then show ?case
    by (cases "a \<in> set ''-.''") (auto intro: exI [of _ "a # x"])
qed

lemma trimMiddle_dash_suffix:
  assumes "length ds \<le> 100"
  shows "\<exists>y. trimMiddle (x @ CHR ''-'' # ds) 253 = y @ CHR ''-'' # ds"
proof (cases "length (x @ CHR ''-'' # ds) \<le> 253")
  case True
  then show ?thesis by (auto simp: trimMiddle_def)
next
  case False
  let ?s = "x @ CHR ''-'' # ds"
  have "trimMiddle ?s 253 = take 126 ?s @ drop (length ?s - 127) ?s"
    using False by (simp add: trimMiddle_def Let_def)
  moreover have "drop (length ?s - 127) ?s = drop (length ?s - 127) x @ CHR ''-'' # ds"
    using assms False by simp
  ultimately show ?thesis by (metis append.assoc)
qed

lemma ToName_dash_suffix:
  assumes ds: "list_all is_digit ds" "ds \<noteq> []" "length ds \<le> 100"
  shows "(\<exists>y. ToName (x @ CHR ''-'' # ds) = y @ CHR ''-'' # ds) \<or> ToName (x @ CHR ''-'' # ds) = ds"
proof -
  let ?p = "\<lambda>c. c \<in> set ''-.''"
  let ?ok = "\<lambda>c. is_alnum c \<or> c \<in> set ''-.''"
  have keep: "filter ?ok ds = ds" using ds(1) by (simp add: list_all_iff digit_alnum)
  have flt: "filter ?ok (x @ CHR ''-'' # ds) = filter ?ok x @ CHR ''-'' # ds"
    using keep by simp
  from ds have "is_digit (last ds)" by (auto simp: list_all_iff)
  then have lst: "\<not> ?p (last ds)" by (auto dest: digit_not_separator)
  define l where "l = trim_left ?p (filter ?ok x @ CHR ''-'' # ds)"
  have l: "(\<exists>y. l = y @ CHR ''-'' # ds) \<or> l = ds"
    using dropWhile_dash_suffix [OF ds(1,2), of "filter ?ok x"] by (simp add: l_def trim_left_def)
  then have "trim_right ?p l = l" using lst ds(2) by (intro trim_right_id) auto
  then have "ToName (x @ CHR ''-'' # ds) = trimMiddle l 253"
    by (simp only: ToName_def normalizeValue_alt flt l_def)
  with l show ?thesis
    using trimMiddle_dash_suffix [OF ds(3)] ds(3) by (auto simp: trimMiddle_def)
qed

lemma takeWhile_rev_dash_suffix:
  assumes "list_all is_digit ds"
  shows "takeWhile is_digit (rev (y @ CHR ''-'' # ds)) = rev ds"
proof -
  have "takeWhile is_digit (rev ds @ CHR ''-'' # rev y) = rev ds @ takeWhile is_digit (CHR ''-'' # rev y)"
    using assms by (intro takeWhile_append2) (auto simp: list_all_iff)
  then show ?thesis by (simp add: is_digit_def)
qed

lemma ToName_ordinal_suffix [names]:
  assumes "list_all is_digit ds" "ds \<noteq> []" "length ds \<le> 100"
  shows "takeWhile is_digit (rev (ToName (x @ CHR ''-'' # ds))) = rev ds"
  using ToName_dash_suffix [OF assms, of x] takeWhile_rev_dash_suffix [OF assms(1)] assms(1)
  by (auto simp: takeWhile_eq_all_conv list_all_iff)

text \<open>The ordinals: the non-negative values of an \<open>int32\<close>.\<close>

definition is_ordinal :: "int \<Rightarrow> bool" where
  "is_ordinal i \<longleftrightarrow> 0 \<le> i \<and> i < 2 ^ 31"

lemma FormatInt_short: "is_ordinal i \<Longrightarrow> length (FormatInt i) \<le> 100"
  using dec_digits_length [of "nat i" 10] by (simp add: FormatInt_def is_ordinal_def nat_less_iff)

lemma FormatInt_ordinal:
  "is_ordinal i \<Longrightarrow> list_all is_digit (FormatInt i) \<and> FormatInt i \<noteq> [] \<and> length (FormatInt i) \<le> 100"
  using FormatInt_digits [of i] FormatInt_short [of i] by (simp add: is_ordinal_def)

lemma FormatInt_ordinal_inj: "is_ordinal i \<Longrightarrow> is_ordinal j \<Longrightarrow> FormatInt i = FormatInt j \<longleftrightarrow> i = j"
  by (simp add: is_ordinal_def FormatInt_inj)

lemma ToName_FormatInt_suffix [names]:
  "is_ordinal i \<Longrightarrow> takeWhile is_digit (rev (ToName (x @ CHR ''-'' # FormatInt i))) = rev (FormatInt i)"
  using FormatInt_ordinal [of i] by (intro ToName_ordinal_suffix) auto

subsection \<open>The contract of a family of names indexed by ordinals\<close>

text \<open>
  Every builder names its resources by an \<open>int32\<close> ordinal. What the diff relies on is that the
  ordinal can be read back off the end of the name.
\<close>

locale ordinal_naming =
  fixes nm :: "int \<Rightarrow> string"
  assumes nm_suffix: "is_ordinal i \<Longrightarrow> takeWhile is_digit (rev (nm i)) = rev (FormatInt i)"
begin

lemma nm_inj:
  assumes "is_ordinal i" "is_ordinal j" "nm i = nm j"
  shows "i = j"
proof -
  from assms have "rev (FormatInt i) = rev (FormatInt j)"
    using nm_suffix [of i] nm_suffix [of j] by metis
  then show ?thesis using FormatInt_ordinal_inj [OF assms(1,2)] by simp
qed

lemma inj_on_nm: "inj_on nm {i. is_ordinal i}"
  by (rule inj_onI) (rule nm_inj, simp_all)

lemma distinct_nm:
  assumes "\<And>i. i \<in> set is \<Longrightarrow> is_ordinal i" "distinct is"
  shows "distinct (map nm is)"
  using assms by (auto simp: distinct_map intro: inj_on_subset [OF inj_on_nm])

end

subsection \<open>Facts on names, labels and images\<close>

lemma hd_clean_alnum:
  "clean allowed s \<Longrightarrow> s \<noteq> [] \<Longrightarrow> is_alnum (hd s) \<and> is_alnum (last s)"
  by (auto simp: clean_def list_all_iff dest: hd_in_set last_in_set)

lemma clean_ToName: "clean ''-.'' (ToName val)"
  by (simp add: ToName_def clean_normalizeValue)

lemma ToName_ToName [simp]: "ToName (ToName val) = ToName val"
  by (simp add: ToName_def normalizeValue_idem)

lemma length_ToName: "length (ToName val) \<le> 253"
  by (simp add: ToName_def length_normalizeValue)

lemma set_ToName: "c \<in> set (ToName val) \<Longrightarrow> is_alnum c \<or> c \<in> set ''-.''"
  using clean_ToName [of val] by (auto simp: clean_def list_all_iff)

lemma set_update_cases: "(k, v) \<in> set (AList.update k' v' m) \<Longrightarrow> (k, v) \<in> set m \<or> k = k' \<and> v = v'"
  by (induction m) (auto split: if_splits)

lemma normalizeMap_snoc:
  "normalizeMap (m @ [(k, v)]) = AList.update (ToLabelKey k) (trimMiddle v 63) (normalizeMap m)"
  by (simp add: normalizeMap_def)

lemma normalizeMap_bounds:
  "(k, v) \<in> set (normalizeMap m) \<Longrightarrow> length k \<le> 63 \<and> length v \<le> 63 \<and> clean ''-_./'' k"
proof (induction m arbitrary: k v rule: rev_induct)
  case Nil
  then show ?case by (simp add: normalizeMap_def)
next
  case (snoc kv m)
  obtain k0 v0 where kv: "kv = (k0, v0)" by (cases kv)
  from snoc.prems have "(k, v) \<in> set (normalizeMap m) \<or>
      k = ToLabelKey k0 \<and> v = trimMiddle v0 63"
    unfolding kv normalizeMap_snoc by (auto dest: set_update_cases)
  then show ?case
    by (auto dest: snoc.IH simp: ToLabelKey_def length_normalizeValue clean_normalizeValue
        length_trimMiddle)
qed

text \<open>\<open>ToName\<close> yields a valid Kubernetes name for every input: at most 253 bytes, only
  alphanumerics, dashes and dots, beginning and ending with an alphanumeric (or empty), and
  normalizing a normalized name changes nothing.\<close>

theorem ToName_wellformed:
  "length (ToName val) \<le> 253 \<and>
   list_all (\<lambda>c. is_alnum c \<or> c \<in> set ''-.'') (ToName val) \<and>
   (ToName val = [] \<or> is_alnum (hd (ToName val)) \<and> is_alnum (last (ToName val))) \<and>
   ToName (ToName val) = ToName val"
  using clean_ToName [of val] hd_clean_alnum [OF clean_ToName] length_ToName [of val]
  by (auto simp: list_all_iff clean_def)

end
