(* ===== verification/Kube_Client.thy ===== *)
theory Kube_Client
  imports Kube_Labels
begin

text \<open>
  The error vocabulary of the operator (\<^verbatim>\<open>internal/kube/error.go\<close>), Kubernetes objects, and
  the API server as the operator sees it. A Go error is its message with the API reason that
  wrapping by \<open>%w\<close> preserves. The server is a parameter: a function that answers a write call,
  given the history of the write calls before it, so that every deterministic or adversarial
  behaviour of the API is covered; the state threaded through the controllers is that history.
  \<^verbatim>\<open>create_or_update.go\<close>, \<^verbatim>\<open>find.go\<close>, \<^verbatim>\<open>indexer.go\<close> are here as well.
\<close>

subsection \<open>Errors\<close>

datatype api_reason = NotFound | AlreadyExists | OtherReason

record goerror =
  ge_msg :: string
  ge_reason :: api_reason

definition errorNew :: "string \<Rightarrow> goerror" where
  "errorNew msg = \<lparr>ge_msg = msg, ge_reason = OtherReason\<rparr>"

text \<open>\<open>fmt.Errorf("prefix: %w", err)\<close>.\<close>

definition wrap :: "string \<Rightarrow> goerror \<Rightarrow> goerror" where
  "wrap pre e = e\<lparr>ge_msg := pre @ ge_msg e\<rparr>"

text \<open>\<open>errors.Join\<close>: the messages of the errors that are not nil, one per line.\<close>

definition errors_Join :: "goerror option list \<Rightarrow> goerror option" where
  "errors_Join errs =
     (case List.map_filter id errs of
        [] \<Rightarrow> None
      | e # es \<Rightarrow> Some (e\<lparr>ge_msg := strings_Join [CHR 0x0A] (map ge_msg (e # es))\<rparr>))"

record ReconcileError =
  re_error :: goerror
  re_isTransient :: bool

definition TransientError :: "goerror \<Rightarrow> ReconcileError" where
  "TransientError e = \<lparr>re_error = e, re_isTransient = True\<rparr>"

definition UnrecoverableError :: "goerror \<Rightarrow> ReconcileError" where
  "UnrecoverableError e = \<lparr>re_error = e, re_isTransient = False\<rparr>"

definition IsNotFound :: "goerror option \<Rightarrow> bool" where
  "IsNotFound e = (case e of None \<Rightarrow> False | Some g \<Rightarrow> ge_reason g = NotFound)"

definition IgnoreNotFound :: "goerror option \<Rightarrow> goerror option" where
  "IgnoreNotFound e = (if IsNotFound e then None else e)"

definition IsAlreadyExists :: "goerror option \<Rightarrow> bool" where
  "IsAlreadyExists e = (case e of None \<Rightarrow> False | Some g \<Rightarrow> ge_reason g = AlreadyExists)"

definition IgnoreAlreadyExists :: "goerror option \<Rightarrow> goerror option" where
  "IgnoreAlreadyExists e = (if IsAlreadyExists e then None else e)"

text \<open>\<open>ReconcileErrors\<close>: the errors collected in one reconcile loop.\<close>

type_synonym ReconcileErrors = "ReconcileError list"

definition ReconcileErrors_Error :: "ReconcileErrors \<Rightarrow> string" where
  "ReconcileErrors_Error errs = strings_Join ''; '' (map (\<lambda>e. ge_msg (re_error e)) errs)"

fun ReconcileErrors_IsTransient :: "ReconcileErrors \<Rightarrow> bool" where
  "ReconcileErrors_IsTransient [] = True"
| "ReconcileErrors_IsTransient (e # es) =
     (if \<not> re_isTransient e then False else ReconcileErrors_IsTransient es)"

definition ReconcileErrors_Append :: "ReconcileErrors \<Rightarrow> ReconcileError \<Rightarrow> ReconcileErrors" where
  "ReconcileErrors_Append errs e = errs @ [e]"

definition ReconcileErrors_Any :: "ReconcileErrors \<Rightarrow> bool" where
  "ReconcileErrors_Any errs \<longleftrightarrow> length errs > 0"

lemma ReconcileErrors_IsTransient_iff:
  "ReconcileErrors_IsTransient errs \<longleftrightarrow> (\<forall>e \<in> set errs. re_isTransient e)"
  by (induction errs) auto

lemma IsNotFound_wrap [simp]: "IsNotFound (Some (wrap pre e)) = IsNotFound (Some e)"
  by (simp add: IsNotFound_def wrap_def)

lemma IgnoreNotFound_cases:
  "IgnoreNotFound e = None \<longleftrightarrow> e = None \<or> IsNotFound e"
  by (auto simp: IgnoreNotFound_def IsNotFound_def split: option.splits)

lemma IgnoreAlreadyExists_cases:
  "IgnoreAlreadyExists e = None \<longleftrightarrow> e = None \<or> IsAlreadyExists e"
  by (auto simp: IgnoreAlreadyExists_def IsAlreadyExists_def split: option.splits)

subsection \<open>Objects\<close>

text \<open>\<open>client.Object\<close>: the type and object metadata every resource carries, and its own part.\<close>

record 'b kobject =
  ob_Kind :: string
  ob_APIVersion :: string
  ob_Meta :: ObjectMeta
  ob_Body :: 'b

definition GetName :: "'b kobject \<Rightarrow> string" where "GetName obj = om_Name (ob_Meta obj)"
definition GetNamespace :: "'b kobject \<Rightarrow> string" where "GetNamespace obj = om_Namespace (ob_Meta obj)"

definition ObjectKeyFromObject :: "'b kobject \<Rightarrow> ObjectKey" where
  "ObjectKeyFromObject obj = ObjectKey (GetNamespace obj) (GetName obj)"

definition upd_meta :: "(ObjectMeta \<Rightarrow> ObjectMeta) \<Rightarrow> 'b kobject \<Rightarrow> 'b kobject" where
  "upd_meta f obj = obj\<lparr>ob_Meta := f (ob_Meta obj)\<rparr>"

lemmas object_defs = GetName_def GetNamespace_def ObjectKeyFromObject_def upd_meta_def

subsection \<open>The API server\<close>

datatype 'b call =
    Create "'b kobject"
  | Update "'b kobject"
  | Delete "'b kobject"
  | Patch "'b kobject"

type_synonym 'b history = "'b call list"
type_synonym 'b server = "'b history \<Rightarrow> 'b call \<Rightarrow> goerror option"

text \<open>One write call: the server's answer, and the history with the call.\<close>

definition send :: "'b server \<Rightarrow> 'b call \<Rightarrow> 'b history \<Rightarrow> goerror option \<times> 'b history" where
  "send srv c h = (srv h c, h @ [c])"

definition CreateOrUpdate :: "'b server \<Rightarrow> 'b kobject \<Rightarrow> 'b history \<Rightarrow> goerror option \<times> 'b history" where
  "CreateOrUpdate srv obj h =
     (let (err, h1) = send srv (Create obj) h
      in if IsAlreadyExists err then send srv (Update obj) h1 else (err, h1))"

lemma CreateOrUpdate_calls:
  "snd (CreateOrUpdate srv obj h) =
     (if IsAlreadyExists (srv h (Create obj)) then h @ [Create obj, Update obj] else h @ [Create obj])"
  by (simp add: CreateOrUpdate_def send_def)

subsection \<open>Finding and indexing objects\<close>

text \<open>
  \<open>FindOrDefaultCopy\<close>: the first existing object with the comparator's name and namespace, or
  the comparator. A nil label or annotation map and an empty one are the same association list,
  so the defaulting of nil maps is the identity here.
\<close>

fun FindOrDefaultCopy :: "'b kobject list \<Rightarrow> 'b kobject \<Rightarrow> 'b kobject" where
  "FindOrDefaultCopy [] comparator = comparator"
| "FindOrDefaultCopy (item # existing) comparator =
     (if GetName item = GetName comparator \<and> GetNamespace item = GetNamespace comparator then item
      else FindOrDefaultCopy existing comparator)"

lemma FindOrDefaultCopy_key [simp]:
  "ObjectKeyFromObject (FindOrDefaultCopy existing c) = ObjectKeyFromObject c"
  by (induction existing) (auto simp: object_defs)

lemma FindOrDefaultCopy_cases:
  "FindOrDefaultCopy existing c \<in> set existing \<or>
   FindOrDefaultCopy existing c = c \<and> ObjectKeyFromObject c \<notin> ObjectKeyFromObject ` set existing"
  by (induction existing) (auto simp: object_defs)

text \<open>
  \<open>IndexOwner\<close>: the controller owner's name, when that owner is of the operator's group version
  and of the given kind. \<open>metav1.GetControllerOf\<close> is the first owner reference marked as the
  controller.
\<close>

fun GetControllerOf :: "OwnerReference list \<Rightarrow> OwnerReference option" where
  "GetControllerOf [] = None"
| "GetControllerOf (r # rs) = (if or_Controller r = Some True then Some r else GetControllerOf rs)"

definition IndexOwner :: "string \<Rightarrow> string \<Rightarrow> 'b kobject \<Rightarrow> string list" where
  "IndexOwner groupVersion kind obj =
     (case GetControllerOf (om_OwnerReferences (ob_Meta obj)) of
        None \<Rightarrow> []
      | Some owner \<Rightarrow>
          if or_APIVersion owner \<noteq> groupVersion \<or> or_Kind owner \<noteq> kind then []
          else [or_Name owner])"

end
