(* ===== verification/Kube_Objects.thy ===== *)
theory Kube_Objects
  imports Kube_Client
begin

text \<open>
  The Kubernetes resources the operator reads and writes, with the fields it uses, and the
  predicates of \<^verbatim>\<open>internal/kube\<close> on them: \<^verbatim>\<open>pod.go\<close> (readiness and availability),
  \<^verbatim>\<open>job.go\<close> and \<^verbatim>\<open>volume_snapshot.go\<close> (the most recent ready snapshot). Parts the
  operator only copies (affinities, tolerations, and the like) are opaque strings. A quantity is
  its exact amount with its display format. A map that may be nil and is written to is an option.
\<close>

subsection \<open>Quantities\<close>

record Quantity =
  q_Amount :: rat
  q_Format :: string

definition zeroQuantity :: Quantity where "zeroQuantity = \<lparr>q_Amount = 0, q_Format = []\<rparr>"

text \<open>\<open>Quantity.Cmp\<close>: -1, 0 or 1.\<close>

definition q_Cmp :: "Quantity \<Rightarrow> Quantity \<Rightarrow> int" where
  "q_Cmp a b = (if q_Amount a < q_Amount b then - 1 else if q_Amount a = q_Amount b then 0 else 1)"

lemma q_Cmp_pos [simp]: "q_Cmp a b > 0 \<longleftrightarrow> q_Amount b < q_Amount a"
  by (auto simp: q_Cmp_def)

lemma q_Cmp_nonneg [simp]: "q_Cmp a b \<ge> 0 \<longleftrightarrow> q_Amount b \<le> q_Amount a"
  by (auto simp: q_Cmp_def)

type_synonym ResourceList = "(string \<times> Quantity) list"

definition ResourceStorage :: string where "ResourceStorage = ''storage''"
definition ResourceCPU :: string where "ResourceCPU = ''cpu''"
definition ResourceMemory :: string where "ResourceMemory = ''memory''"

definition quantity_get :: "ResourceList \<Rightarrow> string \<Rightarrow> Quantity" where
  "quantity_get m k = (case map_of m k of None \<Rightarrow> zeroQuantity | Some q \<Rightarrow> q)"

lemma quantity_get_update [simp]:
  "quantity_get (AList.update k v m) k' = (if k = k' then v else quantity_get m k')"
  by (simp add: quantity_get_def update_conv')

record ResourceRequirements =
  rr_Requests :: "ResourceList option"
  rr_Limits :: "ResourceList option"

definition noResources :: ResourceRequirements where
  "noResources = \<lparr>rr_Requests = None, rr_Limits = None\<rparr>"

text \<open>Reading a key of a nil map gives the zero value.\<close>

definition requests_get :: "ResourceRequirements \<Rightarrow> string \<Rightarrow> Quantity" where
  "requests_get r k = (case rr_Requests r of None \<Rightarrow> zeroQuantity | Some m \<Rightarrow> quantity_get m k)"

subsection \<open>Pods\<close>

record ContainerPort =
  cp_Name :: string
  cp_ContainerPort :: int
  cp_Protocol :: string

record EnvVar =
  env_Name :: string
  env_Value :: string

record VolumeMount =
  vm_Name :: string
  vm_MountPath :: string
  vm_SubPath :: string
  vm_ReadOnly :: bool

record Probe =
  pr_Path :: string
  pr_Port :: int
  pr_Scheme :: string
  pr_InitialDelaySeconds :: int
  pr_TimeoutSeconds :: int
  pr_PeriodSeconds :: int
  pr_SuccessThreshold :: int
  pr_FailureThreshold :: int

record SecurityContext =
  sc_RunAsUser :: "int option"
  sc_RunAsGroup :: "int option"
  sc_RunAsNonRoot :: "bool option"
  sc_AddCapabilities :: "string list option"
  sc_AllowPrivilegeEscalation :: "bool option"
  sc_Privileged :: "bool option"

record PodSecurityContext =
  psc_RunAsUser :: "int option"
  psc_RunAsGroup :: "int option"
  psc_FSGroup :: "int option"
  psc_FSGroupChangePolicy :: "string option"
  psc_RunAsNonRoot :: "bool option"
  psc_SeccompProfileType :: "string option"

record Container =
  ct_Name :: string
  ct_Image :: string
  ct_Command :: "string list"
  ct_Args :: "string list"
  ct_Env :: "EnvVar list"
  ct_Ports :: "ContainerPort list"
  ct_Resources :: ResourceRequirements
  ct_ReadinessProbe :: "Probe option"
  ct_ImagePullPolicy :: string
  ct_WorkingDir :: string
  ct_SecurityContext :: "SecurityContext option"
  ct_VolumeMounts :: "VolumeMount list"

definition emptyContainer :: Container where
  "emptyContainer = \<lparr>ct_Name = [], ct_Image = [], ct_Command = [], ct_Args = [], ct_Env = [],
     ct_Ports = [], ct_Resources = noResources, ct_ReadinessProbe = None, ct_ImagePullPolicy = [],
     ct_WorkingDir = [], ct_SecurityContext = None, ct_VolumeMounts = []\<rparr>"

text \<open>A volume's source; \<open>KeyToPath\<close> items are pairs of a key and a path.\<close>

datatype VolumeSource =
    PersistentVolumeClaimSource string
  | EmptyDirSource
  | ConfigMapSource string "(string \<times> string) list"
  | SecretSource string "(string \<times> string) list"
  | OtherSource string

record Volume =
  vol_Name :: string
  vol_Source :: VolumeSource

fun claimName :: "VolumeSource \<Rightarrow> string option" where
  "claimName (PersistentVolumeClaimSource c) = Some c"
| "claimName _ = None"

record PodSpec =
  ps_ServiceAccountName :: string
  ps_ShareProcessNamespace :: "bool option"
  ps_SecurityContext :: "PodSecurityContext option"
  ps_Hostname :: string
  ps_Subdomain :: string
  ps_InitContainers :: "Container list"
  ps_Containers :: "Container list"
  ps_Volumes :: "Volume list"
  ps_RestartPolicy :: string
  ps_Affinity :: "string option"
  ps_ImagePullSecrets :: "string list"
  ps_NodeSelector :: labels
  ps_Priority :: "int option"
  ps_PriorityClassName :: string
  ps_TerminationGracePeriodSeconds :: "int option"
  ps_Tolerations :: "string list"

definition emptyPodSpec :: PodSpec where
  "emptyPodSpec = \<lparr>ps_ServiceAccountName = [], ps_ShareProcessNamespace = None,
     ps_SecurityContext = None, ps_Hostname = [], ps_Subdomain = [], ps_InitContainers = [],
     ps_Containers = [], ps_Volumes = [], ps_RestartPolicy = [], ps_Affinity = None,
     ps_ImagePullSecrets = [], ps_NodeSelector = [], ps_Priority = None, ps_PriorityClassName = [],
     ps_TerminationGracePeriodSeconds = None, ps_Tolerations = []\<rparr>"

record PodCondition =
  pc_Type :: string
  pc_Status :: string
  pc_LastTransitionTime :: time

record PodStatus =
  pst_Phase :: string
  pst_PodIP :: string
  pst_Conditions :: "PodCondition list"

definition emptyPodStatus :: PodStatus where
  "emptyPodStatus = \<lparr>pst_Phase = [], pst_PodIP = [], pst_Conditions = []\<rparr>"

record PodBody =
  pb_Spec :: PodSpec
  pb_Status :: PodStatus

type_synonym Pod = "PodBody kobject"

definition upd_spec :: "(PodSpec \<Rightarrow> PodSpec) \<Rightarrow> Pod \<Rightarrow> Pod" where
  "upd_spec f pod = pod\<lparr>ob_Body := (ob_Body pod)\<lparr>pb_Spec := f (pb_Spec (ob_Body pod))\<rparr>\<rparr>"

abbreviation pod_Spec :: "Pod \<Rightarrow> PodSpec" where "pod_Spec pod \<equiv> pb_Spec (ob_Body pod)"
abbreviation pod_Status :: "Pod \<Rightarrow> PodStatus" where "pod_Status pod \<equiv> pb_Status (ob_Body pod)"

lemma upd_spec_simps [simp]:
  "pod_Spec (upd_spec f pod) = f (pod_Spec pod)" "ob_Meta (upd_spec f pod) = ob_Meta pod"
  "pod_Status (upd_spec f pod) = pod_Status pod"
  by (simp_all add: upd_spec_def)

subsection \<open>Volumes claims, snapshots, services, jobs\<close>

record TypedLocalObjectReference =
  tr_APIGroup :: "string option"
  tr_Kind :: string
  tr_Name :: string

record PVCBody =
  pvc_AccessModes :: "string list"
  pvc_Resources :: ResourceRequirements
  pvc_StorageClassName :: "string option"
  pvc_VolumeMode :: "string option"
  pvc_DataSource :: "TypedLocalObjectReference option"
  pvc_Phase :: string
  pvc_Capacity :: ResourceList

type_synonym PVC = "PVCBody kobject"

definition emptyPVCBody :: PVCBody where
  "emptyPVCBody = \<lparr>pvc_AccessModes = [], pvc_Resources = noResources, pvc_StorageClassName = None,
     pvc_VolumeMode = None, pvc_DataSource = None, pvc_Phase = [], pvc_Capacity = []\<rparr>"

definition ClaimBound :: string where "ClaimBound = ''Bound''"

record VolumeSnapshotStat =
  vss_ReadyToUse :: "bool option"
  vss_CreationTime :: "time option"
  vss_RestoreSize :: "Quantity option"

record VolumeSnapshotBody =
  vs_SourcePVC :: "string option"
  vs_ClassName :: "string option"
  vs_Status :: "VolumeSnapshotStat option"

type_synonym VolumeSnapshot = "VolumeSnapshotBody kobject"

record ServicePort =
  sp_Name :: string
  sp_Protocol :: string
  sp_Port :: int
  sp_TargetPort :: string

record ServiceBody =
  svc_Ports :: "ServicePort list"
  svc_Selector :: labels
  svc_Type :: string
  svc_ExternalTrafficPolicy :: string
  svc_PublishNotReadyAddresses :: bool
  svc_IngressHosts :: "(string \<times> string) list"

type_synonym Service = "ServiceBody kobject"

definition emptyServiceBody :: ServiceBody where
  "emptyServiceBody = \<lparr>svc_Ports = [], svc_Selector = [], svc_Type = [],
     svc_ExternalTrafficPolicy = [], svc_PublishNotReadyAddresses = False, svc_IngressHosts = []\<rparr>"

record JobStatus =
  js_Conditions :: "(string \<times> string) list"
  js_StartTime :: "time option"
  js_CompletionTime :: "time option"
  js_Active :: int
  js_Succeeded :: int
  js_Failed :: int

subsection \<open>Pod readiness\<close>

text \<open>The first condition of the type with its index, or -1.\<close>

fun getPodConditionFromList_at :: "nat \<Rightarrow> PodCondition list \<Rightarrow> string \<Rightarrow> int \<times> PodCondition option" where
  "getPodConditionFromList_at i [] t = (- 1, None)"
| "getPodConditionFromList_at i (c # cs) t =
     (if pc_Type c = t then (int i, Some c) else getPodConditionFromList_at (Suc i) cs t)"

definition getPodConditionFromList :: "PodCondition list \<Rightarrow> string \<Rightarrow> int \<times> PodCondition option" where
  "getPodConditionFromList conditions t = getPodConditionFromList_at 0 conditions t"

definition getPodCondition :: "PodStatus option \<Rightarrow> string \<Rightarrow> int \<times> PodCondition option" where
  "getPodCondition status t =
     (case status of None \<Rightarrow> (- 1, None) | Some st \<Rightarrow> getPodConditionFromList (pst_Conditions st) t)"

definition getPodReadyCondition :: "PodStatus \<Rightarrow> PodCondition option" where
  "getPodReadyCondition status = snd (getPodCondition (Some status) ''Ready'')"

definition isPodReadyConditionTrue :: "PodStatus \<Rightarrow> bool" where
  "isPodReadyConditionTrue status =
     (case getPodReadyCondition status of None \<Rightarrow> False | Some c \<Rightarrow> pc_Status c = ''True'')"

definition IsPodReady :: "Pod \<Rightarrow> bool" where
  "IsPodReady pod = isPodReadyConditionTrue (pod_Status pod)"

definition IsPodAvailable :: "Pod \<Rightarrow> duration \<Rightarrow> time \<Rightarrow> bool" where
  "IsPodAvailable pod minReady now =
     (if \<not> isPodReadyConditionTrue (pod_Status pod) then False
      else case getPodReadyCondition (pod_Status pod) of
             None \<Rightarrow> False
           | Some c \<Rightarrow> minReady = 0 \<or>
               (pc_LastTransitionTime c \<noteq> zeroTime \<and> pc_LastTransitionTime c + minReady < now))"

definition AvailablePods :: "Pod list \<Rightarrow> duration \<Rightarrow> time \<Rightarrow> Pod list" where
  "AvailablePods pods minReady now = filter (\<lambda>p. IsPodAvailable p minReady now) pods"

lemma getPodConditionFromList_find:
  "snd (getPodConditionFromList cs t) = find (\<lambda>c. pc_Type c = t) cs"
proof -
  have "snd (getPodConditionFromList_at i cs t) = find (\<lambda>c. pc_Type c = t) cs" for i
    by (induction cs arbitrary: i) auto
  then show ?thesis by (simp add: getPodConditionFromList_def)
qed

text \<open>The nil check of the ready condition in \<open>IsPodAvailable\<close> is never needed.\<close>

lemma IsPodAvailable_ready: "IsPodAvailable pod minReady now \<Longrightarrow> IsPodReady pod"
  by (auto simp: IsPodAvailable_def IsPodReady_def split: if_splits)

lemma IsPodAvailable_zero: "IsPodAvailable pod 0 now = IsPodReady pod"
  by (auto simp: IsPodAvailable_def IsPodReady_def isPodReadyConditionTrue_def split: option.splits)

subsection \<open>Jobs and snapshots\<close>

fun IsJobFinished_loop :: "(string \<times> string) list \<Rightarrow> bool" where
  "IsJobFinished_loop [] = False"
| "IsJobFinished_loop (c # cs) =
     (if (fst c = ''Complete'' \<or> fst c = ''Failed'') \<and> snd c = ''True'' then True
      else IsJobFinished_loop cs)"

definition IsJobFinished :: "JobStatus \<Rightarrow> bool" where
  "IsJobFinished status = IsJobFinished_loop (js_Conditions status)"

definition VolumeSnapshotIsReady :: "VolumeSnapshotStat option \<Rightarrow> bool" where
  "VolumeSnapshotIsReady status =
     (case status of None \<Rightarrow> False
      | Some st \<Rightarrow> (case vss_ReadyToUse st of None \<Rightarrow> False | Some b \<Rightarrow> b))"

definition statusCreationTime :: "VolumeSnapshotStat option \<Rightarrow> time" where
  "statusCreationTime status =
     (case status of None \<Rightarrow> zeroTime
      | Some st \<Rightarrow> (case vss_CreationTime st of None \<Rightarrow> zeroTime | Some t \<Rightarrow> t))"

definition snapshot_age :: "VolumeSnapshot \<Rightarrow> int" where
  "snapshot_age s = - statusCreationTime (vs_Status (ob_Body s))"

text \<open>
  \<open>RecentVolumeSnapshot\<close> on the answer of the list call. The comparison \<open>!lhs.Before(rhs)\<close> is
  not a strict order: on two snapshots of one creation time each is less than the other. What is
  relied on is that the sort puts later creation times first.
\<close>

definition RecentVolumeSnapshot ::
  "(VolumeSnapshot list \<Rightarrow> VolumeSnapshot list) \<Rightarrow> goerror + VolumeSnapshot list \<Rightarrow>
   goerror + VolumeSnapshot" where
  "RecentVolumeSnapshot srt listed =
     (case listed of Inl err \<Rightarrow> Inl err
      | Inr items \<Rightarrow>
          (let filtered = filter (\<lambda>s. VolumeSnapshotIsReady (vs_Status (ob_Body s))) items
           in if length filtered = 0 then Inl (errorNew ''no ready to use VolumeSnapshots found'')
              else Inr (srt filtered ! 0)))"

lemma IsJobFinished_iff:
  "IsJobFinished st \<longleftrightarrow> (\<exists>t \<in> {''Complete'', ''Failed''}. (t, ''True'') \<in> set (js_Conditions st))"
proof -
  have "IsJobFinished_loop cs \<longleftrightarrow> (\<exists>t \<in> {''Complete'', ''Failed''}. (t, ''True'') \<in> set cs)" for cs
    by (induction cs) auto
  then show ?thesis by (simp add: IsJobFinished_def)
qed

context ordering_of
begin

lemma srt_hd_least:
  assumes "srt xs = y # ys" and "x \<in> set xs"
  shows "rank y \<le> rank x"
proof -
  from assms have "x \<in> set (y # ys)" by (metis srt_set)
  with srt_sorted [of xs] assms(1) show ?thesis by auto
qed

end

interpretation by_age: ordering_of "sort_key snapshot_age" snapshot_age
  by unfold_locales simp_all

text \<open>The newest ready snapshot is found.\<close>

lemma RecentVolumeSnapshot_spec:
  assumes "ordering_of srt snapshot_age"
  shows "case RecentVolumeSnapshot srt (Inr items) of
      Inl _ \<Rightarrow> \<not> (\<exists>s \<in> set items. VolumeSnapshotIsReady (vs_Status (ob_Body s)))
    | Inr found \<Rightarrow> found \<in> set items \<and> VolumeSnapshotIsReady (vs_Status (ob_Body found)) \<and>
        (\<forall>s \<in> set items. VolumeSnapshotIsReady (vs_Status (ob_Body s)) \<longrightarrow>
           statusCreationTime (vs_Status (ob_Body s)) \<le> statusCreationTime (vs_Status (ob_Body found)))"
proof -
  let ?f = "filter (\<lambda>s. VolumeSnapshotIsReady (vs_Status (ob_Body s))) items"
  show ?thesis
  proof (cases "srt ?f")
    case Nil
    with ordering_of.srt_Nil_iff [OF assms, of ?f] show ?thesis
      by (simp add: RecentVolumeSnapshot_def filter_empty_conv)
  next
    case (Cons y ys)
    then have "y \<in> set ?f" using ordering_of.srt_set [OF assms, of ?f] by (metis list.set_intros(1))
    moreover have "snapshot_age y \<le> snapshot_age s" if "s \<in> set ?f" for s
      using ordering_of.srt_hd_least [OF assms Cons that] .
    moreover have "?f \<noteq> []" using \<open>y \<in> set ?f\<close> by (metis empty_iff list.set(1))
    ultimately show ?thesis
      using Cons by (auto simp: RecentVolumeSnapshot_def snapshot_age_def Let_def)
  qed
qed

text \<open>\<open>RecentVolumeSnapshot\<close> returns a ready snapshot than which no ready snapshot is newer,
  whatever the sort does with equal creation times, and fails exactly when none is ready.\<close>

theorem RecentVolumeSnapshot_newest:
  assumes "ordering_of srt snapshot_age"
  shows "case RecentVolumeSnapshot srt (Inr items) of
      Inl _ \<Rightarrow> \<not> (\<exists>s \<in> set items. VolumeSnapshotIsReady (vs_Status (ob_Body s)))
    | Inr found \<Rightarrow> found \<in> set items \<and> VolumeSnapshotIsReady (vs_Status (ob_Body found)) \<and>
        (\<forall>s \<in> set items. VolumeSnapshotIsReady (vs_Status (ob_Body s)) \<longrightarrow>
           statusCreationTime (vs_Status (ob_Body s)) \<le> statusCreationTime (vs_Status (ob_Body found)))"
  by (rule RecentVolumeSnapshot_spec [OF assms])

definition sample_snapshot :: "string \<Rightarrow> time \<Rightarrow> bool \<Rightarrow> VolumeSnapshot" where
  "sample_snapshot n t ready = \<lparr>ob_Kind = ''VolumeSnapshot'', ob_APIVersion = ''v1'',
     ob_Meta = emptyMeta\<lparr>om_Name := n\<rparr>,
     ob_Body = \<lparr>vs_SourcePVC = None, vs_ClassName = None,
       vs_Status = Some \<lparr>vss_ReadyToUse = Some ready, vss_CreationTime = Some t, vss_RestoreSize = None\<rparr>\<rparr>\<rparr>"

theorem RecentVolumeSnapshot_newest_witness:
  "\<exists>found. RecentVolumeSnapshot (sort_key snapshot_age)
       (Inr [sample_snapshot ''a'' 1 True, sample_snapshot ''c'' 3 False, sample_snapshot ''b'' 2 True])
       = Inr found \<and> om_Name (ob_Meta found) = ''b'' \<and> VolumeSnapshotIsReady (vs_Status (ob_Body found))"
  using RecentVolumeSnapshot_newest [OF by_age.ordering_of_axioms,
      of "[sample_snapshot ''a'' 1 True, sample_snapshot ''c'' 3 False, sample_snapshot ''b'' 2 True]"]
  by (simp add: RecentVolumeSnapshot_def sample_snapshot_def VolumeSnapshotIsReady_def
      snapshot_age_def statusCreationTime_def)

end
