(* ===== verification/Kube_Rollout.thy ===== *)
theory Kube_Rollout
  imports Kube_Client
begin

text \<open>
  \<^verbatim>\<open>internal/kube/rollout.go\<close>: how many replicas may be taken down. The scaling of an
  \<open>intstr.IntOrString\<close> is library code and a parameter; what the operator relies on is stated as
  the contract \<open>scaled_contract\<close>.
\<close>

datatype IntOrString = IntVal int | StrVal string

type_synonym scaler = "IntOrString \<Rightarrow> int \<Rightarrow> goerror + int"

definition defaultMaxUnavail :: IntOrString where
  "defaultMaxUnavail = StrVal ''25%''"

definition ComputeRollout :: "scaler \<Rightarrow> IntOrString option \<Rightarrow> int \<Rightarrow> int \<Rightarrow> int exec" where
  "ComputeRollout scaled maxUnavail desired ready =
     (if desired < 0 then Panic ''desired must be >= 0''
      else if ready < 0 then Panic ''ready must be >= 0''
      else
        let mu = (case maxUnavail of None \<Rightarrow> defaultMaxUnavail | Some m \<Rightarrow> m)
        in case scaled mu desired of
             Inl err \<Rightarrow> Panic (ge_msg err)
           | Inr unavail0 \<Rightarrow>
               (let unavail = (if unavail0 < 1 then 1 else unavail0);
                    minAvail = desired - unavail
                in if ready \<le> minAvail then Ok 0
                   else let target = unavail - (desired - ready)
                        in if target > desired then Ok desired else Ok target))"

text \<open>
  The documented behaviour of \<open>intstr.GetScaledValueFromIntOrPercent(v, total, false)\<close>: an
  integer is returned as it is; a percentage is taken of the total, rounded down; any other
  string is an error.
\<close>

definition percent_value :: "string \<Rightarrow> int option" where
  "percent_value s =
     (if s \<noteq> [] \<and> last s = CHR ''%'' \<and> snd (ParseInt (butlast s)) then Some (fst (ParseInt (butlast s)))
      else None)"

definition scaled_contract :: "scaler \<Rightarrow> bool" where
  "scaled_contract scaled \<longleftrightarrow>
     (\<forall>n tot. scaled (IntVal n) tot = Inr n) \<and>
     (\<forall>s tot p. percent_value s = Some p \<longrightarrow> 0 \<le> p \<longrightarrow> 0 \<le> tot \<longrightarrow>
        scaled (StrVal s) tot = Inr (p * tot div 100))"

text \<open>A function with that behaviour.\<close>

definition scaled_ref :: scaler where
  "scaled_ref v tot =
     (case v of
        IntVal n \<Rightarrow> Inr n
      | StrVal s \<Rightarrow>
          (case percent_value s of None \<Rightarrow> Inl (errorNew ''invalid type: string is not a percentage'')
           | Some p \<Rightarrow> Inr (p * tot div 100)))"

lemma scaled_ref_contract: "scaled_contract scaled_ref"
  by (simp add: scaled_contract_def scaled_ref_def)

lemma ComputeRollout_bounds:
  assumes "ComputeRollout scaled mu desired ready = Ok n"
  shows "0 \<le> n \<and> n \<le> desired"
  using assms by (auto simp: ComputeRollout_def Let_def split: if_splits sum.splits)

lemma ComputeRollout_default:
  assumes "scaled_contract scaled" and "0 \<le> desired" and "0 \<le> ready"
  shows "\<exists>n. ComputeRollout scaled None desired ready = Ok n"
proof -
  have "percent_value ''25%'' = Some 25" by code_simp
  with assms(1,2) have "scaled (StrVal ''25%'') desired = Inr (25 * desired div 100)"
    by (auto simp: scaled_contract_def)
  with assms(2,3) show ?thesis by (simp add: ComputeRollout_def defaultMaxUnavail_def Let_def)
qed

text \<open>A rollout keeps the availability threshold. With \<open>unavail\<close> the scaled maximum (at least
  one), taking down the returned number of replicas leaves at least \<open>desired - unavail\<close> of the
  ready ones whenever it takes any down, never exceeds the desired count, and is not zero as
  soon as more than \<open>desired - unavail\<close> replicas are ready and any replica is wanted.\<close>

theorem ComputeRollout_keeps_availability:
  assumes "0 \<le> desired" and "0 \<le> ready"
    and "scaled (case mu of None \<Rightarrow> defaultMaxUnavail | Some m \<Rightarrow> m) desired = Inr u"
  shows "\<exists>n. ComputeRollout scaled mu desired ready = Ok n \<and> 0 \<le> n \<and> n \<le> desired \<and>
           (n = 0 \<or> desired - max 1 u \<le> ready - n) \<and>
           (n = 0 \<longleftrightarrow> desired = 0 \<or> ready \<le> desired - max 1 u)"
  using assms
  by (auto simp: ComputeRollout_def Let_def max_def split: option.splits)

theorem ComputeRollout_keeps_availability_witness:
  "\<exists>n. ComputeRollout scaled_ref (Some (StrVal ''30%'')) 10 9 = Ok n \<and> 0 \<le> n \<and> n \<le> 10 \<and>
     (n = 0 \<or> 10 - max 1 3 \<le> 9 - n) \<and> (n = 0 \<longleftrightarrow> (10::int) = 0 \<or> 9 \<le> 10 - max 1 (3::int))"
proof -
  have s: "scaled_ref (case Some (StrVal ''30%'') of None \<Rightarrow> defaultMaxUnavail | Some m \<Rightarrow> m) 10 = Inr 3"
    by code_simp
  show ?thesis
    using ComputeRollout_keeps_availability [of 10 9 scaled_ref "Some (StrVal ''30%'')" 3, OF _ _ s]
    by simp
qed

end
