(* ===== verification/Api_V1.thy ===== *)
theory Api_V1
  imports Kube_Objects Kube_Rollout
begin

text \<open>
  The custom resources of \<^verbatim>\<open>api/v1\<close>: \<open>CosmosFullNode\<close> with its specification and status, the
  self-healing part of both, and \<open>StuckHeightRecovery\<close>. Each Go struct is a record with the same
  fields in the same order; a pointer is an option, a Go map an association list, a string enum
  that the code only compares and prints is a string with its constants. Heights are
  \<open>uint64\<close> and kept as 64-bit words.
\<close>

type_synonym uint64 = "64 word"

definition CosmosFullNodeController :: string where "CosmosFullNodeController = ''CosmosFullNode''"

type_synonym FullNodeType = string

definition FullNode :: FullNodeType where "FullNode = ''FullNode''"
definition Sentry :: FullNodeType where "Sentry = ''Sentry''"

record Metadata =
  md_Labels :: labels
  md_Annotations :: labels

definition noMetadata :: Metadata where "noMetadata = \<lparr>md_Labels = [], md_Annotations = []\<rparr>"

type_synonym FullNodeProbeStrategy = string

definition FullNodeProbeStrategyNone :: FullNodeProbeStrategy where
  "FullNodeProbeStrategyNone = ''None''"

record FullNodeProbesSpec =
  fp_Strategy :: FullNodeProbeStrategy

text \<open>\<open>PodSpec\<close>: the pod template of a full node.\<close>

record PodTemplate =
  tpl_Metadata :: Metadata
  tpl_Image :: string
  tpl_ImagePullPolicy :: string
  tpl_ImagePullSecrets :: "string list"
  tpl_NodeSelector :: labels
  tpl_Affinity :: "string option"
  tpl_Tolerations :: "string list"
  tpl_PriorityClassName :: string
  tpl_Priority :: "int option"
  tpl_Resources :: ResourceRequirements
  tpl_TerminationGracePeriodSeconds :: "int option"
  tpl_Probes :: FullNodeProbesSpec
  tpl_Volumes :: "Volume list"
  tpl_InitContainers :: "Container list"
  tpl_Containers :: "Container list"

record AutoDataSource =
  ads_VolumeSnapshotSelector :: labels
  ads_MatchInstance :: bool

record PersistentVolumeClaimSpec =
  vct_Metadata :: Metadata
  vct_StorageClassName :: string
  vct_Resources :: ResourceRequirements
  vct_AccessModes :: "string list"
  vct_VolumeMode :: "string option"
  vct_DataSource :: "TypedLocalObjectReference option"
  vct_AutoDataSource :: "AutoDataSource option"

type_synonym RetentionPolicy = string

definition RetentionPolicyRetain :: RetentionPolicy where "RetentionPolicyRetain = ''Retain''"
definition RetentionPolicyDelete :: RetentionPolicy where "RetentionPolicyDelete = ''Delete''"

record RolloutStrategy =
  ro_MaxUnavailable :: "IntOrString option"

record ChainVersion =
  cv_UpgradeHeight :: uint64
  cv_Image :: string
  cv_InitContainers :: "(string \<times> string) list"
  cv_Containers :: "(string \<times> string) list"
  cv_SetHaltHeight :: bool

record CometConfig =
  cc_PersistentPeers :: string
  cc_Seeds :: string
  cc_PrivatePeerIDs :: string
  cc_UnconditionalPeerIDs :: string
  cc_MaxInboundPeers :: "int option"
  cc_MaxOutboundPeers :: "int option"
  cc_CorsAllowedOrigins :: "string list option"
  cc_TomlOverrides :: "string option"

type_synonym PruningStrategy = string

definition PruningDefault :: PruningStrategy where "PruningDefault = ''default''"
definition PruningNothing :: PruningStrategy where "PruningNothing = ''nothing''"
definition PruningEverything :: PruningStrategy where "PruningEverything = ''everything''"
definition PruningCustom :: PruningStrategy where "PruningCustom = ''custom''"

record Pruning =
  pn_Strategy :: PruningStrategy
  pn_Interval :: "32 word option"
  pn_KeepEvery :: "32 word option"
  pn_KeepRecent :: "32 word option"
  pn_MinRetainBlocks :: "32 word option"

record SDKAppConfig =
  app_MinGasPrice :: string
  app_APIEnableUnsafeCORS :: bool
  app_GRPCWebEnableUnsafeCORS :: bool
  app_Pruning :: "Pruning option"
  app_HaltHeight :: "uint64 option"
  app_TomlOverrides :: "string option"

record ChainSpec =
  ch_ChainID :: string
  ch_Network :: string
  ch_Binary :: string
  ch_HomeDir :: string
  ch_Comet :: CometConfig
  ch_App :: SDKAppConfig
  ch_LogLevel :: "string option"
  ch_LogFormat :: "string option"
  ch_AddrbookURL :: "string option"
  ch_AddrbookScript :: "string option"
  ch_GenesisURL :: "string option"
  ch_GenesisScript :: "string option"
  ch_SkipInvariants :: bool
  ch_SnapshotURL :: "string option"
  ch_SnapshotScript :: "string option"
  ch_PrivvalSleepSeconds :: "int option"
  ch_DatabaseBackend :: "string option"
  ch_Versions :: "ChainVersion list"
  ch_AdditionalInitArgs :: "string list"
  ch_AdditionalStartArgs :: "string list"

record ServiceOverridesSpec =
  so_Metadata :: Metadata
  so_Type :: "string option"
  so_ExternalTrafficPolicy :: "string option"

record ServiceSpec =
  ss_MaxP2PExternalAddresses :: "int option"
  ss_P2PTemplate :: ServiceOverridesSpec
  ss_RPCTemplate :: ServiceOverridesSpec

type_synonym DisableStrategy = string

definition DisableAll :: DisableStrategy where "DisableAll = ''All''"
definition DisablePod :: DisableStrategy where "DisablePod = ''Pod''"

record InstanceOverridesSpec =
  io_DisableStrategy :: "DisableStrategy option"
  io_VolumeClaimTemplate :: "PersistentVolumeClaimSpec option"
  io_Image :: string
  io_ExternalAddress :: "string option"

subsection \<open>Self healing\<close>

record PVCAutoScaleSpec =
  pa_UsedSpacePercentage :: int
  pa_IncreaseQuantity :: string
  pa_MaxSize :: Quantity

record HeightDriftMitigationSpec =
  hd_Threshold :: "32 word"

record PruningPodSpec =
  pp_Image :: string
  pp_PruningCommand :: string

record SelfHealSpec =
  sh_PVCAutoScale :: "PVCAutoScaleSpec option"
  sh_HeightDriftMitigation :: "HeightDriftMitigationSpec option"
  sh_PruningSpec :: "PruningPodSpec option"

record PVCAutoScaleStatus =
  as_RequestedSize :: Quantity
  as_RequestedAt :: time

record SelfHealingStatus =
  shs_PVCAutoScale :: "(string \<times> PVCAutoScaleStatus) list option"

subsection \<open>CosmosFullNode\<close>

record FullNodeSpec =
  sp_Replicas :: int
  sp_Type :: FullNodeType
  sp_ChainSpec :: ChainSpec
  sp_PodTemplate :: PodTemplate
  sp_RolloutStrategy :: RolloutStrategy
  sp_VolumeClaimTemplate :: PersistentVolumeClaimSpec
  sp_RetentionPolicy :: "RetentionPolicy option"
  sp_Service :: ServiceSpec
  sp_InstanceOverrides :: "(string \<times> InstanceOverridesSpec) list"
  sp_SelfHeal :: "SelfHealSpec option"

record SyncInfoPodStatus =
  si_Timestamp :: time
  si_Height :: "uint64 option"
  si_InSync :: "bool option"
  si_Error :: "string option"

record FullNodeSnapshotStatus =
  fs_PodCandidate :: string

datatype FullNodePhase =
    FullNodePhaseNone
  | FullNodePhaseCompete
  | FullNodePhaseError
  | FullNodePhaseP2PServices
  | FullNodePhaseProgressing
  | FullNodePhaseTransientError

record FullNodeStatus =
  st_ObservedGeneration :: int
  st_Phase :: FullNodePhase
  st_StatusMessage :: "string option"
  st_ScheduledSnapshotStatus :: "(string \<times> FullNodeSnapshotStatus) list"
  st_SelfHealing :: SelfHealingStatus
  st_Peers :: "string list"
  st_SyncInfo :: "(string \<times> SyncInfoPodStatus) list"
  st_Height :: "(string \<times> uint64) list"

record CosmosFullNode =
  fn_Meta :: ObjectMeta
  fn_Spec :: FullNodeSpec
  fn_Status :: FullNodeStatus

type_synonym CosmosFullNodeList = "CosmosFullNode list"

abbreviation fn_Chain :: "CosmosFullNode \<Rightarrow> ChainSpec" where
  "fn_Chain crd \<equiv> sp_ChainSpec (fn_Spec crd)"

abbreviation fn_Tpl :: "CosmosFullNode \<Rightarrow> PodTemplate" where
  "fn_Tpl crd \<equiv> sp_PodTemplate (fn_Spec crd)"

abbreviation fn_Name :: "CosmosFullNode \<Rightarrow> string" where
  "fn_Name crd \<equiv> om_Name (fn_Meta crd)"

abbreviation fn_Namespace :: "CosmosFullNode \<Rightarrow> string" where
  "fn_Namespace crd \<equiv> om_Namespace (fn_Meta crd)"

subsection \<open>StuckHeightRecovery\<close>

record FullNodeRef =
  fr_Name :: string

record RecoveryPodTemplate =
  rt_Image :: string
  rt_ImagePullPolicy :: string
  rt_ImagePullSecrets :: "string list"
  rt_Resources :: ResourceRequirements
  rt_Env :: "EnvVar list"
  rt_VolumeMounts :: "VolumeMount list"
  rt_Volumes :: "Volume list"

record StuckHeightRecoverySpec =
  sr_FullNodeRef :: FullNodeRef
  sr_StuckDuration :: string
  sr_RecoveryScript :: string
  sr_PodTemplate :: "RecoveryPodTemplate option"
  sr_CreateVolumeSnapshot :: bool
  sr_VolumeSnapshotClassName :: string
  sr_MaxRetries :: "int option"
  sr_RateLimitWindow :: string
  sr_Suspend :: bool

text \<open>The phases; the first is the empty string of a resource that was never reconciled.\<close>

datatype StuckHeightRecoveryPhase =
    StuckHeightRecoveryPhaseNone
  | StuckHeightRecoveryPhaseMonitoring
  | StuckHeightRecoveryPhaseHeightStuck
  | StuckHeightRecoveryPhaseCreatingSnapshot
  | StuckHeightRecoveryPhaseWaitingForSnapshot
  | StuckHeightRecoveryPhaseRunningRecovery
  | StuckHeightRecoveryPhaseWaitingForRecovery
  | StuckHeightRecoveryPhaseRecoveryComplete
  | StuckHeightRecoveryPhaseRecoveryFailed
  | StuckHeightRecoveryPhaseRateLimited
  | StuckHeightRecoveryPhaseSuspended

record StuckHeightRecoveryStatus =
  ssr_Phase :: StuckHeightRecoveryPhase
  ssr_LastRecoveryTime :: "time option"
  ssr_RecoveryAttempts :: int
  ssr_RateLimitWindowStart :: "time option"
  ssr_LastObservedHeight :: uint64
  ssr_LastHeightUpdateTime :: "time option"
  ssr_StuckPodName :: string
  ssr_VolumeSnapshotName :: string
  ssr_RecoveryPodName :: string
  ssr_Message :: string
  ssr_ObservedGeneration :: int

record StuckHeightRecovery =
  shr_Meta :: ObjectMeta
  shr_Spec :: StuckHeightRecoverySpec
  shr_Status :: StuckHeightRecoveryStatus

type_synonym StuckHeightRecoveryList = "StuckHeightRecovery list"

subsection \<open>A sample resource\<close>

text \<open>
  A full node with three replicas, two chain versions and one disabled instance, on which the
  witnesses of the components evaluate the code.
\<close>

definition sample_tpl :: PodTemplate where
  "sample_tpl = \<lparr>tpl_Metadata = noMetadata, tpl_Image = ''osmosis:v24'', tpl_ImagePullPolicy = [],
     tpl_ImagePullSecrets = [], tpl_NodeSelector = [], tpl_Affinity = None, tpl_Tolerations = [],
     tpl_PriorityClassName = [], tpl_Priority = None, tpl_Resources = noResources,
     tpl_TerminationGracePeriodSeconds = None, tpl_Probes = \<lparr>fp_Strategy = []\<rparr>, tpl_Volumes = [],
     tpl_InitContainers = [], tpl_Containers = []\<rparr>"

definition sample_vct :: PersistentVolumeClaimSpec where
  "sample_vct = \<lparr>vct_Metadata = noMetadata, vct_StorageClassName = ''ssd'',
     vct_Resources = \<lparr>rr_Requests = Some [(ResourceStorage, \<lparr>q_Amount = 100, q_Format = []\<rparr>)], rr_Limits = None\<rparr>,
     vct_AccessModes = [], vct_VolumeMode = None, vct_DataSource = None, vct_AutoDataSource = None\<rparr>"

definition sample_comet :: CometConfig where
  "sample_comet = \<lparr>cc_PersistentPeers = [], cc_Seeds = [], cc_PrivatePeerIDs = [],
     cc_UnconditionalPeerIDs = [], cc_MaxInboundPeers = None, cc_MaxOutboundPeers = None,
     cc_CorsAllowedOrigins = None, cc_TomlOverrides = None\<rparr>"

definition sample_version :: "uint64 \<Rightarrow> string \<Rightarrow> ChainVersion" where
  "sample_version h img = \<lparr>cv_UpgradeHeight = h, cv_Image = img, cv_InitContainers = [],
     cv_Containers = [], cv_SetHaltHeight = True\<rparr>"

definition sample_chain :: ChainSpec where
  "sample_chain = \<lparr>ch_ChainID = ''osmosis-1'', ch_Network = ''mainnet'', ch_Binary = ''osmosisd'',
     ch_HomeDir = [], ch_Comet = sample_comet,
     ch_App = \<lparr>app_MinGasPrice = ''0.1uosmo'', app_APIEnableUnsafeCORS = False,
       app_GRPCWebEnableUnsafeCORS = False, app_Pruning = None, app_HaltHeight = None,
       app_TomlOverrides = None\<rparr>,
     ch_LogLevel = None, ch_LogFormat = None, ch_AddrbookURL = None, ch_AddrbookScript = None,
     ch_GenesisURL = None, ch_GenesisScript = None, ch_SkipInvariants = False, ch_SnapshotURL = None,
     ch_SnapshotScript = None, ch_PrivvalSleepSeconds = None, ch_DatabaseBackend = None,
     ch_Versions = [sample_version 0 ''osmosis:v24'', sample_version 100 ''osmosis:v25''],
     ch_AdditionalInitArgs = [], ch_AdditionalStartArgs = []\<rparr>"

definition sample_service :: ServiceOverridesSpec where
  "sample_service = \<lparr>so_Metadata = noMetadata, so_Type = None, so_ExternalTrafficPolicy = None\<rparr>"

definition sample_override :: InstanceOverridesSpec where
  "sample_override = \<lparr>io_DisableStrategy = Some DisablePod, io_VolumeClaimTemplate = None,
     io_Image = [], io_ExternalAddress = None\<rparr>"

definition sample_spec :: FullNodeSpec where
  "sample_spec = \<lparr>sp_Replicas = 3, sp_Type = FullNode, sp_ChainSpec = sample_chain,
     sp_PodTemplate = sample_tpl, sp_RolloutStrategy = \<lparr>ro_MaxUnavailable = None\<rparr>,
     sp_VolumeClaimTemplate = sample_vct, sp_RetentionPolicy = None,
     sp_Service = \<lparr>ss_MaxP2PExternalAddresses = None, ss_P2PTemplate = sample_service, ss_RPCTemplate = sample_service\<rparr>,
     sp_InstanceOverrides = [(''osmo-1'', sample_override)], sp_SelfHeal = None\<rparr>"

definition sample_crd :: CosmosFullNode where
  "sample_crd = \<lparr>fn_Meta = emptyMeta\<lparr>om_Name := ''osmo'', om_Namespace := ''chains''\<rparr>, fn_Spec = sample_spec,
     fn_Status = \<lparr>st_ObservedGeneration = 0, st_Phase = FullNodePhaseNone, st_StatusMessage = None,
       st_ScheduledSnapshotStatus = [], st_SelfHealing = \<lparr>shs_PVCAutoScale = None\<rparr>, st_Peers = [],
       st_SyncInfo = [], st_Height = [(''osmo-0'', 150), (''osmo-2'', 7)]\<rparr>\<rparr>"

lemmas sample_crd_defs = sample_crd_def sample_spec_def sample_chain_def sample_tpl_def
  sample_vct_def sample_comet_def sample_service_def sample_version_def sample_override_def

end
