(* ===== verification/Diff.thy ===== *)
theory Diff
  imports Kube_Client
begin

text \<open>
  \<^verbatim>\<open>internal/diff\<close>: the steps that bring the resources of the cluster to the desired ones.
  \<open>Adapt\<close> pairs an object with its ordinal and with a revision, the FNV-1 hash of its JSON
  text (the JSON encoder is a parameter); \<open>Diff_New\<close> is \<open>diff.New\<close>. The maps of the code are
  association lists, the order in which Go visits a map and the unstable sort are the one
  parameter \<open>srt\<close>. The specification is an abstract map from object keys to revisions:
  carrying out a diff takes the abstract state of the cluster to the desired one, after which
  a further diff is empty.
\<close>

unbundle bit_operations_syntax

definition revisionLabel :: string where "revisionLabel = ''app.kubernetes.io/revision''"

text \<open>\<open>Resource[T]\<close>: an object, its revision and its ordinal (an \<open>int64\<close>).\<close>

record 'b Resource =
  rs_Object :: "'b kobject"
  rs_Revision :: string
  rs_Ordinal :: int

subsection \<open>Adapting an object\<close>

definition fnv32 :: "string \<Rightarrow> 32 word" where
  "fnv32 bs = foldl (\<lambda>h b. (h * 16777619) XOR word_of_nat (of_char b)) 2166136261 bs"

definition hex_digit :: "nat \<Rightarrow> char" where
  "hex_digit d = (if d < 10 then char_of (48 + d) else char_of (87 + d))"

text \<open>\<open>hex.EncodeToString\<close> of the four big-endian bytes of the sum.\<close>

definition hex32 :: "32 word \<Rightarrow> string" where
  "hex32 w = map (\<lambda>i. hex_digit (unat (drop_bit (4 * i) w AND 15))) [7, 6, 5, 4, 3, 2, 1, 0]"

type_synonym 'b marshaler = "'b kobject \<Rightarrow> goerror + string"

definition Adapt :: "'b marshaler \<Rightarrow> 'b kobject \<Rightarrow> int \<Rightarrow> 'b Resource exec" where
  "Adapt marshal obj ord =
     (case marshal obj of
        Inl err \<Rightarrow> Panic (ge_msg err)
      | Inr b \<Rightarrow> Ok \<lparr>rs_Object = obj, rs_Revision = hex32 (fnv32 b), rs_Ordinal = ord\<rparr>)"

text \<open>The JSON encoder succeeds on every object, as it does on Kubernetes types.\<close>

definition encodes :: "'b marshaler \<Rightarrow> bool" where
  "encodes marshal \<longleftrightarrow> (\<forall>ob. \<exists>b. marshal ob = Inr b)"

lemma Adapt_Ok: "Adapt marshal ob i = Ok r \<Longrightarrow> rs_Object r = ob \<and> rs_Ordinal r = i"
  by (auto simp: Adapt_def split: sum.splits)

lemma Adapt_total:
  assumes "encodes marshal"
  shows "\<exists>r. Adapt marshal ob i = Ok r \<and> rs_Object r = ob \<and> rs_Ordinal r = i"
  using assms [unfolded encodes_def, rule_format, of ob] by (auto simp: Adapt_def)

text \<open>\<open>currentAdapter\<close>: revision and ordinal of an existing object, read off its metadata.\<close>

definition currentAdapter :: "'b kobject \<Rightarrow> 'b Resource" where
  "currentAdapter obj = \<lparr>rs_Object = obj,
     rs_Revision = label_get (om_Labels (ob_Meta obj)) revisionLabel,
     rs_Ordinal = fst (ParseInt (label_get (om_Annotations (ob_Meta obj)) OrdinalAnnotation))\<rparr>"

subsection \<open>The diff\<close>

record 'b Diff =
  df_creates :: "'b kobject list"
  df_deletes :: "'b kobject list"
  df_updates :: "'b kobject list"

definition rs_key :: "'b Resource \<Rightarrow> ObjectKey" where
  "rs_key r = ObjectKeyFromObject (rs_Object r)"

definition currentToSet :: "'b kobject list \<Rightarrow> (ObjectKey \<times> 'b Resource) list" where
  "currentToSet current = insert_all rs_key (map currentAdapter current)"

definition toSet :: "'b Resource list \<Rightarrow> (ObjectKey \<times> 'b Resource) list" where
  "toSet lst = insert_all rs_key lst"

text \<open>The labels that the next diff reads.\<close>

definition stamp :: "'b Resource \<Rightarrow> 'b kobject" where
  "stamp r = upd_meta (\<lambda>m. m\<lparr>
     om_Labels := AList.update revisionLabel (rs_Revision r) (om_Labels m),
     om_Annotations := AList.update OrdinalAnnotation (FormatInt (rs_Ordinal r)) (om_Annotations m)\<rparr>)
     (rs_Object r)"

definition toObjects :: "'b Resource list \<Rightarrow> 'b kobject list" where
  "toObjects lst = map stamp lst"

definition computeCreates ::
  "('b Resource list \<Rightarrow> 'b Resource list) \<Rightarrow> (ObjectKey \<times> 'b Resource) list \<Rightarrow>
   (ObjectKey \<times> 'b Resource) list \<Rightarrow> 'b kobject list" where
  "computeCreates srt current want =
     toObjects (srt (map snd (filter (\<lambda>kr. map_of current (fst kr) = None) want)))"

definition computeDeletes ::
  "('b Resource list \<Rightarrow> 'b Resource list) \<Rightarrow> (ObjectKey \<times> 'b Resource) list \<Rightarrow>
   (ObjectKey \<times> 'b Resource) list \<Rightarrow> 'b kobject list" where
  "computeDeletes srt current want =
     toObjects (srt (map snd (filter (\<lambda>kr. map_of want (fst kr) = None) current)))"

text \<open>Server-assigned metadata that an update must carry over from the existing object.\<close>

definition carryOver :: "'b Resource \<Rightarrow> 'b Resource \<Rightarrow> 'b Resource" where
  "carryOver existing target = target\<lparr>rs_Object := upd_meta (\<lambda>m. m\<lparr>
      om_ResourceVersion := om_ResourceVersion (ob_Meta (rs_Object existing)),
      om_UID := om_UID (ob_Meta (rs_Object existing)),
      om_Generation := om_Generation (ob_Meta (rs_Object existing)),
      om_OwnerReferences := om_OwnerReferences (ob_Meta (rs_Object existing))\<rparr>)
      (rs_Object target)\<rparr>"

definition changed ::
  "(ObjectKey \<times> 'b Resource) list \<Rightarrow> 'b Resource \<Rightarrow> 'b Resource option" where
  "changed want existing =
     (case map_of want (rs_key existing) of
        None \<Rightarrow> None
      | Some target \<Rightarrow>
          let t = carryOver existing target
          in if rs_Revision existing \<noteq> rs_Revision t then Some t else None)"

definition computeUpdates ::
  "('b Resource list \<Rightarrow> 'b Resource list) \<Rightarrow> (ObjectKey \<times> 'b Resource) list \<Rightarrow>
   (ObjectKey \<times> 'b Resource) list \<Rightarrow> 'b kobject list" where
  "computeUpdates srt current want =
     toObjects (srt (List.map_filter (\<lambda>kr. changed want (snd kr)) current))"

definition Diff_New ::
  "('b Resource list \<Rightarrow> 'b Resource list) \<Rightarrow> 'b kobject list \<Rightarrow> 'b Resource list \<Rightarrow> 'b Diff exec" where
  "Diff_New srt current want =
     (let currentSet = currentToSet current;
          wantSet = toSet want
      in if length currentSet \<noteq> length current
         then Panic ''each resource in current must have unique .metadata.name''
         else if length wantSet \<noteq> length want
         then Panic ''each resource in want must have unique .metadata.name''
         else Ok \<lparr>df_creates = computeCreates srt currentSet wantSet,
                  df_deletes = computeDeletes srt currentSet wantSet,
                  df_updates = computeUpdates srt currentSet wantSet\<rparr>)"

subsection \<open>Specification: keys to revisions\<close>

definition obj_rev :: "'b kobject \<Rightarrow> string" where
  "obj_rev obj = label_get (om_Labels (ob_Meta obj)) revisionLabel"

definition cluster_revs :: "'b kobject list \<Rightarrow> ObjectKey \<rightharpoonup> string" where
  "cluster_revs objs = map_of (map (\<lambda>ob. (ObjectKeyFromObject ob, obj_rev ob)) objs)"

definition wanted_revs :: "'b Resource list \<Rightarrow> ObjectKey \<rightharpoonup> string" where
  "wanted_revs rs = map_of (map (\<lambda>r. (rs_key r, rs_Revision r)) rs)"

text \<open>The cluster after every create, delete and update of a diff was carried out.\<close>

definition apply_diff :: "'b Diff \<Rightarrow> 'b kobject list \<Rightarrow> 'b kobject list" where
  "apply_diff d current =
     map (\<lambda>ob. case find (\<lambda>u. ObjectKeyFromObject u = ObjectKeyFromObject ob) (df_updates d) of
                 Some u \<Rightarrow> u | None \<Rightarrow> ob)
       (filter (\<lambda>ob. ObjectKeyFromObject ob \<notin> ObjectKeyFromObject ` set (df_deletes d)) current)
     @ df_creates d"

subsection \<open>Keys and stamps\<close>

lemma key_upd_meta:
  "(\<And>m. om_Name (f m) = om_Name m) \<Longrightarrow> (\<And>m. om_Namespace (f m) = om_Namespace m) \<Longrightarrow>
   ObjectKeyFromObject (upd_meta f obj) = ObjectKeyFromObject obj"
  by (simp add: object_defs)

lemma key_stamp [simp]: "ObjectKeyFromObject (stamp r) = rs_key r"
  by (simp add: stamp_def rs_key_def key_upd_meta)

lemma obj_rev_stamp [simp]: "obj_rev (stamp r) = rs_Revision r"
  by (simp add: stamp_def obj_rev_def upd_meta_def)

lemma ob_Body_stamp [simp]: "ob_Body (stamp r) = ob_Body (rs_Object r)"
  by (simp add: stamp_def upd_meta_def)

lemma key_carryOver [simp]: "rs_key (carryOver e t) = rs_key t"
  by (simp add: carryOver_def rs_key_def key_upd_meta)

lemma rev_carryOver [simp]: "rs_Revision (carryOver e t) = rs_Revision t"
  by (simp add: carryOver_def)

lemma body_carryOver [simp]: "ob_Body (rs_Object (carryOver e t)) = ob_Body (rs_Object t)"
  by (simp add: carryOver_def upd_meta_def)

lemma ordinal_carryOver [simp]: "rs_Ordinal (carryOver e t) = rs_Ordinal t"
  by (simp add: carryOver_def)

lemma key_currentAdapter [simp]: "rs_key (currentAdapter ob) = ObjectKeyFromObject ob"
  by (simp add: currentAdapter_def rs_key_def)

lemma rev_currentAdapter [simp]: "rs_Revision (currentAdapter ob) = obj_rev ob"
  by (simp add: currentAdapter_def obj_rev_def)

lemma object_currentAdapter [simp]: "rs_Object (currentAdapter ob) = ob"
  by (simp add: currentAdapter_def)

text \<open>
  Reading a stamped object back gives the revision and the ordinal it was stamped with, the
  round trip that makes one reconcile see what the last one wrote.
\<close>

lemma currentAdapter_stamp:
  assumes "- (2 ^ 63) \<le> rs_Ordinal r" "rs_Ordinal r < 2 ^ 63"
  shows "rs_Revision (currentAdapter (stamp r)) = rs_Revision r \<and>
         rs_Ordinal (currentAdapter (stamp r)) = rs_Ordinal r"
  using ParseInt_FormatInt [OF assms]
  by (simp add: currentAdapter_def stamp_def upd_meta_def)

subsection \<open>The maps of the diff\<close>

abbreviation cur_keys :: "'b kobject list \<Rightarrow> ObjectKey list" where
  "cur_keys \<equiv> map ObjectKeyFromObject"

lemma Diff_New_panics_iff:
  "is_panic (Diff_New srt current want) \<longleftrightarrow>
     \<not> distinct (cur_keys current) \<or> \<not> distinct (map rs_key want)"
  using length_insert_all_iff [of rs_key "map currentAdapter current"]
    length_insert_all_iff [of rs_key want]
  by (auto simp: Diff_New_def currentToSet_def toSet_def Let_def comp_def)

lemma currentToSet_distinct:
  "distinct (cur_keys current) \<Longrightarrow>
   currentToSet current = map (\<lambda>ob. (ObjectKeyFromObject ob, currentAdapter ob)) current"
  by (simp add: currentToSet_def insert_all_distinct comp_def)

lemma toSet_distinct: "distinct (map rs_key want) \<Longrightarrow> toSet want = map (\<lambda>r. (rs_key r, r)) want"
  by (simp add: toSet_def insert_all_distinct)

lemma Diff_New_Ok_distinct:
  "Diff_New srt current want = Ok d \<Longrightarrow> distinct (cur_keys current) \<and> distinct (map rs_key want)"
  using Diff_New_panics_iff [of srt current want] by auto

lemma map_of_cur_None:
  "map_of (map (\<lambda>ob. (ObjectKeyFromObject ob, g ob)) current) k = None \<longleftrightarrow> k \<notin> set (cur_keys current)"
  by (auto simp: map_of_eq_None_iff image_image)

text \<open>The three lists of a diff of distinct resources, without the maps.\<close>

lemma Diff_New_lists:
  assumes dc: "distinct (cur_keys current)" and dw: "distinct (map rs_key want)"
  shows "Diff_New srt current want = Ok
    \<lparr>df_creates = map stamp (srt (filter (\<lambda>r. rs_key r \<notin> set (cur_keys current)) want)),
     df_deletes = map stamp (srt (map currentAdapter
        (filter (\<lambda>ob. ObjectKeyFromObject ob \<notin> set (map rs_key want)) current))),
     df_updates = map stamp (srt (List.map_filter
        (\<lambda>ob. changed (map (\<lambda>r. (rs_key r, r)) want) (currentAdapter ob)) current))\<rparr>"
proof -
  have c: "map snd (filter (\<lambda>kr. map_of (map (\<lambda>ob. (ObjectKeyFromObject ob, currentAdapter ob)) current) (fst kr) = None)
             (map (\<lambda>r. (rs_key r, r)) want)) = filter (\<lambda>r. rs_key r \<notin> set (cur_keys current)) want"
    by (induction want) (simp_all add: map_of_cur_None)
  have d: "map snd (filter (\<lambda>kr. map_of (map (\<lambda>r. (rs_key r, r)) want) (fst kr) = None)
             (map (\<lambda>ob. (ObjectKeyFromObject ob, currentAdapter ob)) current)) =
           map currentAdapter (filter (\<lambda>ob. ObjectKeyFromObject ob \<notin> set (map rs_key want)) current)"
    by (induction current) (simp_all add: map_of_keyed_None)
  have u: "List.map_filter (\<lambda>kr. changed w (snd kr)) (map (\<lambda>ob. (ObjectKeyFromObject ob, currentAdapter ob)) current) =
           List.map_filter (\<lambda>ob. changed w (currentAdapter ob)) current" for w
    by (induction current) (simp_all add: map_filter_simps split: option.splits)
  show ?thesis
    using dc dw
    by (simp only: Diff_New_def Let_def currentToSet_distinct toSet_distinct computeCreates_def
        computeDeletes_def computeUpdates_def toObjects_def c d u) simp
qed


subsection \<open>What a diff holds, for every order of the maps\<close>

lemma changed_Some:
  assumes "distinct (map rs_key want)"
  shows "changed (map (\<lambda>r. (rs_key r, r)) want) e = Some t \<longleftrightarrow>
    (\<exists>w \<in> set want. rs_key w = rs_key e \<and> rs_Revision w \<noteq> rs_Revision e \<and> t = carryOver e w)"
proof (cases "map_of (map (\<lambda>r. (rs_key r, r)) want) (rs_key e)")
  case None
  then have "\<forall>w \<in> set want. rs_key w \<noteq> rs_key e"
    by (metis imageI map_of_keyed_None)
  with None show ?thesis by (auto simp: changed_def)
next
  case (Some w)
  with assms have w: "w \<in> set want" "rs_key w = rs_key e" by (simp_all add: map_of_keyed_Some)
  have uniq: "w' = w" if "w' \<in> set want" "rs_key w' = rs_key e" for w'
    using assms that w by (auto simp: distinct_map inj_on_def)
  show ?thesis using Some w by (auto simp: changed_def Let_def dest: uniq)
qed

lemma set_map_filter: "y \<in> set (List.map_filter f xs) \<longleftrightarrow> (\<exists>x \<in> set xs. f x = Some y)"
  by (auto simp: List.map_filter_def) force

text \<open>At a key of the cluster, the wanted resource there is unique.\<close>

lemma wanted_revs_Some:
  "distinct (map rs_key want) \<Longrightarrow> wanted_revs want k = Some v \<longleftrightarrow>
     (\<exists>r \<in> set want. rs_key r = k \<and> rs_Revision r = v)"
  unfolding wanted_revs_def by (subst map_of_eq_Some_iff) (auto simp: comp_def)

lemma cluster_revs_Some:
  "distinct (cur_keys objs) \<Longrightarrow> cluster_revs objs k = Some v \<longleftrightarrow>
     (\<exists>ob \<in> set objs. ObjectKeyFromObject ob = k \<and> obj_rev ob = v)"
  unfolding cluster_revs_def by (subst map_of_eq_Some_iff) (auto simp: comp_def)

locale diff_order = ordering_of srt rs_Ordinal
  for srt :: "'b Resource list \<Rightarrow> 'b Resource list"
begin

lemma creates_iff:
  assumes "Diff_New srt current want = Ok d"
  shows "ob \<in> set (df_creates d) \<longleftrightarrow>
    (\<exists>r \<in> set want. ob = stamp r \<and> rs_key r \<notin> set (cur_keys current))"
  using assms Diff_New_Ok_distinct [OF assms] by (auto simp: Diff_New_lists)

lemma deletes_iff:
  assumes "Diff_New srt current want = Ok d"
  shows "ob \<in> set (df_deletes d) \<longleftrightarrow>
    (\<exists>c \<in> set current. ob = stamp (currentAdapter c) \<and> ObjectKeyFromObject c \<notin> rs_key ` set want)"
  using assms Diff_New_Ok_distinct [OF assms] by (auto simp: Diff_New_lists)

lemma updates_iff:
  assumes "Diff_New srt current want = Ok d"
  shows "ob \<in> set (df_updates d) \<longleftrightarrow>
    (\<exists>c \<in> set current. \<exists>r \<in> set want. rs_key r = ObjectKeyFromObject c \<and>
       rs_Revision r \<noteq> obj_rev c \<and> ob = stamp (carryOver (currentAdapter c) r))"
proof -
  have d: "distinct (cur_keys current)" "distinct (map rs_key want)"
    using Diff_New_Ok_distinct [OF assms] by auto
  have "df_updates d = map stamp (srt (List.map_filter
      (\<lambda>ob. changed (map (\<lambda>r. (rs_key r, r)) want) (currentAdapter ob)) current))"
    using assms d by (auto simp: Diff_New_lists)
  then have "ob \<in> set (df_updates d) \<longleftrightarrow> (\<exists>t. ob = stamp t \<and>
      (\<exists>c \<in> set current. changed (map (\<lambda>r. (rs_key r, r)) want) (currentAdapter c) = Some t))"
    by (simp add: image_iff Bex_def set_map_filter) blast
  also have "\<dots> \<longleftrightarrow> (\<exists>c \<in> set current. \<exists>r \<in> set want. rs_key r = ObjectKeyFromObject c \<and>
       rs_Revision r \<noteq> obj_rev c \<and> ob = stamp (carryOver (currentAdapter c) r))"
    by (simp add: changed_Some [OF d(2)]) blast
  finally show ?thesis .
qed

lemma creates_sorted:
  assumes "Diff_New srt current want = Ok d"
  shows "\<exists>rs. df_creates d = map stamp rs \<and> sorted (map rs_Ordinal rs)"
  using assms Diff_New_Ok_distinct [OF assms] by (auto simp: Diff_New_lists srt_sorted)

lemma distinct_update_keys:
  assumes "Diff_New srt current want = Ok d"
  shows "distinct (cur_keys (df_updates d))"
proof -
  let ?w = "map (\<lambda>r. (rs_key r, r)) want"
  have d: "distinct (cur_keys current)" "distinct (map rs_key want)"
    using Diff_New_Ok_distinct [OF assms] by auto
  have "distinct (map rs_key (List.map_filter (\<lambda>ob. changed ?w (currentAdapter ob)) current))"
    using d(1)
  proof (induction current)
    case Nil
    then show ?case by (simp add: map_filter_simps)
  next
    case (Cons c cs)
    show ?case
    proof (cases "changed ?w (currentAdapter c)")
      case None
      with Cons show ?thesis by (simp add: map_filter_simps)
    next
      case (Some t)
      then have t: "rs_key t = ObjectKeyFromObject c" by (auto simp: changed_Some [OF d(2)])
      have "rs_key t \<notin> rs_key ` set (List.map_filter (\<lambda>ob. changed ?w (currentAdapter ob)) cs)"
        using Cons.prems t by (auto simp: set_map_filter changed_Some [OF d(2)])
      with Some Cons show ?thesis by (simp add: map_filter_simps)
    qed
  qed
  with assms d show ?thesis
    by (auto simp: Diff_New_lists comp_def srt_distinct_map)
qed

lemma distinct_create_keys:
  assumes "Diff_New srt current want = Ok d"
  shows "distinct (cur_keys (df_creates d))"
  using assms Diff_New_Ok_distinct [OF assms]
  by (auto simp: Diff_New_lists comp_def srt_distinct_map distinct_map_filter)

text \<open>The object at a surviving key of the cluster, after the diff.\<close>

lemma find_update:
  assumes D: "Diff_New srt current want = Ok d" and c: "c \<in> set current"
    and r: "r \<in> set want" "rs_key r = ObjectKeyFromObject c"
  shows "find (\<lambda>u. ObjectKeyFromObject u = ObjectKeyFromObject c) (df_updates d) =
    (if rs_Revision r = obj_rev c then None else Some (stamp (carryOver (currentAdapter c) r)))"
proof -
  have d: "distinct (cur_keys current)" "distinct (map rs_key want)"
    using Diff_New_Ok_distinct [OF D] by auto
  have cu: "c' = c" if "c' \<in> set current" "ObjectKeyFromObject c' = ObjectKeyFromObject c" for c'
    using d(1) that c by (auto simp: distinct_map inj_on_def)
  have ru: "r' = r" if "r' \<in> set want" "rs_key r' = ObjectKeyFromObject c" for r'
    using d(2) that r by (auto simp: distinct_map inj_on_def)
  have at: "u \<in> set (df_updates d) \<and> ObjectKeyFromObject u = ObjectKeyFromObject c \<longleftrightarrow>
      rs_Revision r \<noteq> obj_rev c \<and> u = stamp (carryOver (currentAdapter c) r)" for u
    using c r by (auto simp: updates_iff [OF D] dest: cu ru)
  show ?thesis
  proof (cases "rs_Revision r = obj_rev c")
    case True
    then show ?thesis using at by (auto simp: find_None_iff)
  next
    case False
    then obtain u where "find (\<lambda>u. ObjectKeyFromObject u = ObjectKeyFromObject c) (df_updates d) = Some u"
      using at by (cases "find (\<lambda>u. ObjectKeyFromObject u = ObjectKeyFromObject c) (df_updates d)")
        (auto simp: find_None_iff)
    moreover from this have "u \<in> set (df_updates d) \<and> ObjectKeyFromObject u = ObjectKeyFromObject c"
      by (auto simp: find_Some_iff in_set_conv_nth)
    ultimately show ?thesis using False at by simp
  qed
qed

lemma key_after:
  "Diff_New srt current want = Ok d \<Longrightarrow>
   ObjectKeyFromObject (case find (\<lambda>u. ObjectKeyFromObject u = ObjectKeyFromObject ob) (df_updates d) of
       Some u \<Rightarrow> u | None \<Rightarrow> ob) = ObjectKeyFromObject ob"
  by (auto simp: find_Some_iff split: option.splits)

lemma survivors:
  assumes "Diff_New srt current want = Ok d" and "c \<in> set current"
  shows "ObjectKeyFromObject c \<notin> ObjectKeyFromObject ` set (df_deletes d) \<longleftrightarrow>
    ObjectKeyFromObject c \<in> rs_key ` set want"
  using assms(2) by (auto simp: deletes_iff [OF assms(1)] image_iff Bex_def)

lemma apply_keys:
  assumes D: "Diff_New srt current want = Ok d"
  shows "distinct (cur_keys (apply_diff d current))"
proof -
  have "distinct (cur_keys current)" using Diff_New_Ok_distinct [OF D] by auto
  then show ?thesis
    using distinct_create_keys [OF D]
    by (auto simp: apply_diff_def comp_def key_after [OF D] distinct_map_filter creates_iff [OF D]
        image_iff) metis
qed

lemma apply_members:
  assumes D: "Diff_New srt current want = Ok d"
  shows "(\<exists>ob \<in> set (apply_diff d current). ObjectKeyFromObject ob = k \<and> obj_rev ob = v) \<longleftrightarrow>
    (\<exists>r \<in> set want. rs_key r = k \<and> rs_Revision r = v)" (is "?L = ?R")
proof
  assume ?L
  then obtain ob where ob: "ob \<in> set (apply_diff d current)" "ObjectKeyFromObject ob = k" "obj_rev ob = v"
    by blast
  show ?R
  proof (cases "ob \<in> set (df_creates d)")
    case True
    with ob show ?thesis by (auto simp: creates_iff [OF D])
  next
    case False
    with ob(1) obtain c where c: "c \<in> set current"
        "ObjectKeyFromObject c \<notin> ObjectKeyFromObject ` set (df_deletes d)"
      and ob': "ob = (case find (\<lambda>u. ObjectKeyFromObject u = ObjectKeyFromObject c) (df_updates d) of
             Some u \<Rightarrow> u | None \<Rightarrow> c)"
      by (auto simp: apply_diff_def)
    from c obtain r where r: "r \<in> set want" "rs_key r = ObjectKeyFromObject c"
      using survivors [OF D] by (metis imageE)
    show ?thesis
      using ob(2,3) r find_update [OF D c(1) r] unfolding ob'
      by (intro bexI [of _ r]) (auto split: if_splits)
  qed
next
  assume ?R
  then obtain r where r: "r \<in> set want" "rs_key r = k" "rs_Revision r = v" by blast
  show ?L
  proof (cases "k \<in> set (cur_keys current)")
    case False
    with r have "stamp r \<in> set (df_creates d)" by (auto simp: creates_iff [OF D])
    with r show ?thesis by (intro bexI [of _ "stamp r"]) (auto simp: apply_diff_def)
  next
    case True
    then obtain c where c: "c \<in> set current" "ObjectKeyFromObject c = k" by auto
    with r have rc: "rs_key r = ObjectKeyFromObject c" by simp
    let ?ob = "case find (\<lambda>u. ObjectKeyFromObject u = ObjectKeyFromObject c) (df_updates d) of
             Some u \<Rightarrow> u | None \<Rightarrow> c"
    have "ObjectKeyFromObject c \<in> rs_key ` set want" using r(1) rc by (metis imageI)
    with c(1) have "?ob \<in> set (apply_diff d current)"
      using survivors [OF D c(1)] by (auto simp: apply_diff_def)
    moreover have "ObjectKeyFromObject ?ob = k" "obj_rev ?ob = v"
      using c(2) r rc find_update [OF D c(1) r(1) rc] by auto
    ultimately show ?thesis by blast
  qed
qed

lemma refines:
  assumes "Diff_New srt current want = Ok d"
  shows "cluster_revs (apply_diff d current) = wanted_revs want"
proof (rule ext, rule option.expand)
  have dw: "distinct (map rs_key want)" using Diff_New_Ok_distinct [OF assms] by auto
  note ca = cluster_revs_Some [OF apply_keys [OF assms]] and wa = wanted_revs_Some [OF dw]
  fix k
  have eq: "cluster_revs (apply_diff d current) k = Some v \<longleftrightarrow> wanted_revs want k = Some v" for v
    by (simp only: ca wa apply_members [OF assms])
  show "(cluster_revs (apply_diff d current) k = None) = (wanted_revs want k = None)"
    using eq by (metis not_None_eq)
  assume "cluster_revs (apply_diff d current) k \<noteq> None"
  then show "the (cluster_revs (apply_diff d current) k) = the (wanted_revs want k)"
    using eq by (metis option.exhaust_sel)
qed

text \<open>A diff is empty exactly when cluster and wish agree on every key.\<close>

lemma empty_if_equal:
  assumes dc: "distinct (cur_keys current)" and dw: "distinct (map rs_key want)"
    and eq: "cluster_revs current = wanted_revs want"
  shows "Diff_New srt current want = Ok \<lparr>df_creates = [], df_deletes = [], df_updates = []\<rparr>"
proof -
  have both: "(\<exists>ob \<in> set current. ObjectKeyFromObject ob = k \<and> obj_rev ob = v) \<longleftrightarrow>
      (\<exists>r \<in> set want. rs_key r = k \<and> rs_Revision r = v)" for k v
    using cluster_revs_Some [OF dc, of k v] wanted_revs_Some [OF dw, of k v] eq by simp
  have "filter (\<lambda>r. rs_key r \<notin> set (cur_keys current)) want = []"
    using both by (auto simp: filter_empty_conv image_iff) metis
  moreover have "filter (\<lambda>ob. ObjectKeyFromObject ob \<notin> set (map rs_key want)) current = []"
    using both by (auto simp: filter_empty_conv image_iff) metis
  moreover have "changed (map (\<lambda>r. (rs_key r, r)) want) (currentAdapter c) = None" if "c \<in> set current" for c
  proof (rule ccontr)
    assume "changed (map (\<lambda>r. (rs_key r, r)) want) (currentAdapter c) \<noteq> None"
    then obtain r where r: "r \<in> set want" "rs_key r = ObjectKeyFromObject c" "rs_Revision r \<noteq> obj_rev c"
      by (auto simp: changed_Some [OF dw])
    from that both obtain r' where "r' \<in> set want" "rs_key r' = ObjectKeyFromObject c"
      "rs_Revision r' = obj_rev c" by metis
    with r dw show False by (metis distinct_map inj_onD)
  qed
  then have "List.map_filter (\<lambda>ob. changed (map (\<lambda>r. (rs_key r, r)) want) (currentAdapter ob)) current = []"
    by (auto simp: List.map_filter_def filter_empty_conv)
  ultimately show ?thesis by (simp add: Diff_New_lists [OF dc dw])
qed

lemma fixpoint:
  assumes "Diff_New srt current want = Ok d"
  shows "Diff_New srt (apply_diff d current) want = Ok \<lparr>df_creates = [], df_deletes = [], df_updates = []\<rparr>"
  using assms Diff_New_Ok_distinct [OF assms]
  by (intro empty_if_equal refines apply_keys) auto

end

text \<open>A stable sort by ordinal over the order of the list is one of the orders.\<close>

interpretation by_ordinal: ordering_of "sort_key rs_Ordinal" rs_Ordinal
  by unfold_locales simp_all

interpretation by_ordinal_diff: diff_order "sort_key rs_Ordinal"
  by unfold_locales

subsection \<open>Properties\<close>

text \<open>C2: Carrying out a diff reaches the desired state and stops there. For resources with
  distinct keys on both sides, and every order in which the Go maps are visited and equal ordinals
  are sorted, \<open>diff.New\<close> does not panic; after its creates, deletes and updates the cluster holds
  exactly the wanted keys at the wanted revisions; a second diff is then empty.\<close>

theorem Diff_New_converges:
  assumes "ordering_of srt rs_Ordinal"
    and "distinct (map ObjectKeyFromObject current)" and "distinct (map rs_key want)"
  shows "\<exists>d. Diff_New srt current want = Ok d \<and>
    cluster_revs (apply_diff d current) = wanted_revs want \<and>
    Diff_New srt (apply_diff d current) want = Ok \<lparr>df_creates = [], df_deletes = [], df_updates = []\<rparr>"
  using Diff_New_lists [OF assms(2,3)] diff_order.refines [OF diff_order.intro [OF assms(1)]]
    diff_order.fixpoint [OF diff_order.intro [OF assms(1)]]
  by blast

text \<open>C10: A diff does no needless work and loses no identity. A created object is the stamped wish
  at a key the cluster lacks, a deleted one sits at a key nobody wants, an updated one is at a key
  of both sides whose revision differs; the update has the wanted body and revision, and the UID,
  resource version and owner references of the object it replaces.\<close>

theorem Diff_New_minimal:
  assumes srt: "ordering_of srt rs_Ordinal" and D: "Diff_New srt current want = Ok d"
  shows "ObjectKeyFromObject ` set (df_creates d) = rs_key ` set want - ObjectKeyFromObject ` set current \<and>
    ObjectKeyFromObject ` set (df_deletes d) = ObjectKeyFromObject ` set current - rs_key ` set want \<and>
    (\<forall>u \<in> set (df_updates d). \<exists>c \<in> set current. \<exists>r \<in> set want.
       ObjectKeyFromObject u = ObjectKeyFromObject c \<and> ObjectKeyFromObject u = rs_key r \<and>
       obj_rev c \<noteq> obj_rev u \<and> obj_rev u = rs_Revision r \<and> ob_Body u = ob_Body (rs_Object r) \<and>
       om_UID (ob_Meta u) = om_UID (ob_Meta c) \<and>
       om_ResourceVersion (ob_Meta u) = om_ResourceVersion (ob_Meta c) \<and>
       om_OwnerReferences (ob_Meta u) = om_OwnerReferences (ob_Meta c))"
proof (intro conjI ballI)
  note ord = diff_order.intro [OF srt]
  show "ObjectKeyFromObject ` set (df_creates d) = rs_key ` set want - ObjectKeyFromObject ` set current"
    by (rule set_eqI) (simp add: image_iff Bex_def diff_order.creates_iff [OF ord D], metis key_stamp)
  show "ObjectKeyFromObject ` set (df_deletes d) = ObjectKeyFromObject ` set current - rs_key ` set want"
    by (rule set_eqI)
      (simp add: image_iff Bex_def diff_order.deletes_iff [OF ord D], metis key_stamp key_currentAdapter)
  fix u assume "u \<in> set (df_updates d)"
  then obtain c r where "c \<in> set current" "r \<in> set want" "rs_key r = ObjectKeyFromObject c"
      "rs_Revision r \<noteq> obj_rev c" "u = stamp (carryOver (currentAdapter c) r)"
    by (auto simp: diff_order.updates_iff [OF ord D])
  then show "\<exists>c \<in> set current. \<exists>r \<in> set want.
       ObjectKeyFromObject u = ObjectKeyFromObject c \<and> ObjectKeyFromObject u = rs_key r \<and>
       obj_rev c \<noteq> obj_rev u \<and> obj_rev u = rs_Revision r \<and> ob_Body u = ob_Body (rs_Object r) \<and>
       om_UID (ob_Meta u) = om_UID (ob_Meta c) \<and>
       om_ResourceVersion (ob_Meta u) = om_ResourceVersion (ob_Meta c) \<and>
       om_OwnerReferences (ob_Meta u) = om_OwnerReferences (ob_Meta c)"
    by (intro bexI [of _ c] bexI [of _ r])
      (auto simp: stamp_def carryOver_def upd_meta_def obj_rev_def rs_key_def object_defs)
qed


text \<open>A cluster with one resource to keep, one to change and one to delete, and a new wish.\<close>

definition sample_object :: "string \<Rightarrow> labels \<Rightarrow> nat kobject" where
  "sample_object n lbls = \<lparr>ob_Kind = ''Pod'', ob_APIVersion = ''v1'',
     ob_Meta = emptyMeta\<lparr>om_Name := n, om_Namespace := ''ns'', om_UID := ''uid-'' @ n, om_Labels := lbls\<rparr>,
     ob_Body = 7\<rparr>"

definition sample_current :: "nat kobject list" where
  "sample_current = [sample_object ''a-0'' [(revisionLabel, ''r1'')],
     sample_object ''a-1'' [(revisionLabel, ''r1'')], sample_object ''old'' []]"

definition sample_want :: "nat Resource list" where
  "sample_want = [\<lparr>rs_Object = sample_object ''a-2'' [], rs_Revision = ''r2'', rs_Ordinal = 2\<rparr>,
     \<lparr>rs_Object = sample_object ''a-1'' [], rs_Revision = ''r2'', rs_Ordinal = 1\<rparr>,
     \<lparr>rs_Object = sample_object ''a-0'' [], rs_Revision = ''r1'', rs_Ordinal = 0\<rparr>]"

lemmas sample_defs = sample_object_def sample_current_def sample_want_def rs_key_def object_defs

theorem Diff_New_converges_witness:
  "\<exists>d. Diff_New (sort_key rs_Ordinal) sample_current sample_want = Ok d \<and>
     cluster_revs (apply_diff d sample_current) = wanted_revs sample_want \<and>
     Diff_New (sort_key rs_Ordinal) (apply_diff d sample_current) sample_want =
       Ok \<lparr>df_creates = [], df_deletes = [], df_updates = []\<rparr>"
  by (rule Diff_New_converges [OF by_ordinal.ordering_of_axioms])
    (simp_all add: sample_defs emptyMeta_def)

lemma sample_diff:
  "case Diff_New (sort_key rs_Ordinal) sample_current sample_want of
     Panic _ \<Rightarrow> False | Ok d \<Rightarrow> length (df_updates d) = 1"
  by code_simp

theorem Diff_New_minimal_witness:
  "\<exists>d. Diff_New (sort_key rs_Ordinal) sample_current sample_want = Ok d \<and> length (df_updates d) = 1 \<and>
     ObjectKeyFromObject ` set (df_creates d) =
       rs_key ` set sample_want - ObjectKeyFromObject ` set sample_current"
proof -
  obtain d where d: "Diff_New (sort_key rs_Ordinal) sample_current sample_want = Ok d"
      "length (df_updates d) = 1"
    using sample_diff by (auto split: exec.splits)
  then show ?thesis using Diff_New_minimal [OF by_ordinal.ordering_of_axioms d(1)] by blast
qed

end
