(* ===== verification/Fullnode_Names.thy ===== *)
theory Fullnode_Names
  imports Api_V1 Diff
begin

text \<open>
  What every builder of \<^verbatim>\<open>internal/fullnode\<close> shares: \<^verbatim>\<open>labels.go\<close> (default labels, the
  names of a full node and its instances, merging of user labels), \<^verbatim>\<open>ports.go\<close>, \<^verbatim>\<open>ptr.go\<close>,
  the names of the resources of each kind, and the part of the package \<open>path\<close> they use. The
  names are interpretations of \<open>ordinal_naming\<close>: two ordinals never share a name.
\<close>

subsection \<open>Helpers\<close>

definition valOrDefault :: "'a option \<Rightarrow> 'a \<Rightarrow> 'a" where
  "valOrDefault v d = (case v of None \<Rightarrow> d | Some x \<Rightarrow> x)"

definition sliceOrDefault :: "'a list \<Rightarrow> 'a list \<Rightarrow> 'a list" where
  "sliceOrDefault s d = (if length s = 0 then d else s)"

text \<open>The ordinals \<open>for i := int32(0); i < n; i++\<close> visits.\<close>

definition ordinals :: "int \<Rightarrow> int list" where
  "ordinals n = map int [0..<nat n]"

lemma set_ordinals [simp]: "i \<in> set (ordinals n) \<longleftrightarrow> 0 \<le> i \<and> i < n"
proof -
  have "i \<in> int ` {0..<nat n} \<longleftrightarrow> 0 \<le> i \<and> i < n"
    by (auto simp: image_iff intro: bexI [of _ "nat i"])
  then show ?thesis by (simp add: ordinals_def)
qed

lemma distinct_ordinals [simp]: "distinct (ordinals n)"
  by (simp add: ordinals_def distinct_map)

lemma length_ordinals [simp]: "length (ordinals n) = nat n"
  by (simp add: ordinals_def)

lemma sorted_ordinals [simp]: "sorted (ordinals n)"
  by (simp add: ordinals_def sorted_map sorted_wrt_upt sorted_wrt_mono_rel [of _ "(<)"])

text \<open>\<open>Replicas\<close> is an \<open>int32\<close>.\<close>

definition int32_replicas :: "CosmosFullNode \<Rightarrow> bool" where
  "int32_replicas crd \<longleftrightarrow> sp_Replicas (fn_Spec crd) < 2 ^ 31"

lemma ordinals_is_ordinal:
  "int32_replicas crd \<Longrightarrow> i \<in> set (ordinals (sp_Replicas (fn_Spec crd))) \<Longrightarrow> is_ordinal i"
  by (auto simp: int32_replicas_def is_ordinal_def)

subsection \<open>Names\<close>

definition appName :: "CosmosFullNode \<Rightarrow> string" where
  "appName crd = ToName (fn_Name crd)"

definition instanceName :: "CosmosFullNode \<Rightarrow> int \<Rightarrow> string" where
  "instanceName crd ordinal = ToName (appName crd @ ''-'' @ FormatInt ordinal)"

definition pvcName :: "CosmosFullNode \<Rightarrow> int \<Rightarrow> string" where
  "pvcName crd ordinal = ToName (''pvc-'' @ appName crd @ ''-'' @ FormatInt ordinal)"

definition nodeKeySecretName :: "CosmosFullNode \<Rightarrow> int \<Rightarrow> string" where
  "nodeKeySecretName crd ordinal = ToName (appName crd @ ''-node-key-'' @ FormatInt ordinal)"

definition p2pServiceName :: "CosmosFullNode \<Rightarrow> int \<Rightarrow> string" where
  "p2pServiceName crd ordinal = appName crd @ ''-p2p-'' @ FormatInt ordinal"

definition sentryServiceName :: "CosmosFullNode \<Rightarrow> int \<Rightarrow> string" where
  "sentryServiceName crd ordinal = appName crd @ ''-sentry-'' @ FormatInt ordinal"

definition rpcServiceName :: "CosmosFullNode \<Rightarrow> string" where
  "rpcServiceName crd = appName crd @ ''-rpc''"

definition serviceAccountName :: "CosmosFullNode \<Rightarrow> string" where
  "serviceAccountName crd = fn_Name crd @ ''-vc-sa''"

definition roleName :: "CosmosFullNode \<Rightarrow> string" where
  "roleName crd = fn_Name crd @ ''-vc-r''"

definition roleBindingName :: "CosmosFullNode \<Rightarrow> string" where
  "roleBindingName crd = fn_Name crd @ ''-vc-rb''"

interpretation instance_names: ordinal_naming "instanceName crd" for crd
  by unfold_locales (use ToName_FormatInt_suffix [of _ "appName crd"] in \<open>simp add: instanceName_def\<close>)

interpretation pvc_names: ordinal_naming "pvcName crd" for crd
  by unfold_locales (use ToName_FormatInt_suffix [of _ "''pvc-'' @ appName crd"] in \<open>simp add: pvcName_def\<close>)

interpretation node_key_names: ordinal_naming "nodeKeySecretName crd" for crd
  by unfold_locales
    (use ToName_FormatInt_suffix [of _ "appName crd @ ''-node-key''"] in \<open>simp add: nodeKeySecretName_def\<close>)

lemma FormatInt_rev_suffix [names]:
  "is_ordinal i \<Longrightarrow> takeWhile is_digit (rev (x @ CHR ''-'' # FormatInt i)) = rev (FormatInt i)"
  using takeWhile_rev_dash_suffix [of "FormatInt i"] FormatInt_ordinal by blast

interpretation p2p_names: ordinal_naming "p2pServiceName crd" for crd
  by unfold_locales
    (use FormatInt_rev_suffix [of _ "appName crd @ ''-p2p''"] in \<open>simp add: p2pServiceName_def\<close>)

interpretation sentry_names: ordinal_naming "sentryServiceName crd" for crd
  by unfold_locales
    (use FormatInt_rev_suffix [of _ "appName crd @ ''-sentry''"] in \<open>simp add: sentryServiceName_def\<close>)

lemma instanceName_normal [simp]: "ToName (instanceName crd i) = instanceName crd i"
  by (simp add: instanceName_def)

lemma pvcName_normal [simp]: "ToName (pvcName crd i) = pvcName crd i"
  by (simp add: pvcName_def)

subsection \<open>Labels\<close>

definition networkLabel :: string where "networkLabel = ''cosmos.bharvest.io/network''"
definition typeLabel :: string where "typeLabel = ''cosmos.bharvest.io/type''"

fun put_pairs :: "labels \<Rightarrow> string list \<Rightarrow> labels" where
  "put_pairs m (k # v # kvs) = put_pairs (AList.update k v m) kvs"
| "put_pairs m _ = m"

definition defaultLabels :: "CosmosFullNode \<Rightarrow> string list \<Rightarrow> labels exec" where
  "defaultLabels crd kvPairs =
     (if length kvPairs mod 2 \<noteq> 0 then Panic ''key/value pairs must be even''
      else
        let nodeType = (if sp_Type (fn_Spec crd) \<noteq> [] then sp_Type (fn_Spec crd) else FullNode);
            lbls = [(ControllerLabel, ''cosmos-operator''),
                    (ComponentLabel, CosmosFullNodeController),
                    (NameLabel, appName crd),
                    (VersionLabel, ParseImageVersion (tpl_Image (fn_Tpl crd))),
                    (networkLabel, ch_Network (fn_Chain crd)),
                    (typeLabel, nodeType)]
        in Ok (put_pairs lbls kvPairs))"

text \<open>User labels never overwrite the ones already set.\<close>

definition preserveMergeInto :: "labels \<Rightarrow> labels \<Rightarrow> labels" where
  "preserveMergeInto into other =
     foldl (\<lambda>m kv. if map_of m (fst kv) = None then AList.update (fst kv) (snd kv) m else m) into other"

text \<open>The merge as one map: the defaults win, the first of the user's entries fills a gap.\<close>

lemma preserveMergeInto_map_of:
  "map_of (preserveMergeInto into other) = map_of other ++ map_of into"
proof (induction other arbitrary: into)
  case Nil
  then show ?case by (simp add: preserveMergeInto_def)
next
  case (Cons kv other)
  obtain k v where kv: "kv = (k, v)" by (cases kv)
  let ?i = "if map_of into k = None then AList.update k v into else into"
  have "preserveMergeInto into (kv # other) = preserveMergeInto ?i other"
    by (simp add: preserveMergeInto_def kv)
  then have "map_of (preserveMergeInto into (kv # other)) = map_of other ++ map_of ?i"
    using Cons by simp
  also have "\<dots> = map_of (kv # other) ++ map_of into"
    by (rule ext) (auto simp: kv map_add_def update_conv' split: option.splits)
  finally show ?case .
qed

lemma preserveMergeInto_keeps:
  "map_of into k = Some v \<Longrightarrow> map_of (preserveMergeInto into other) k = Some v"
  by (simp add: preserveMergeInto_map_of map_add_def)

lemma defaultLabels_total: "even (length kvs) \<Longrightarrow> \<exists>lbls. defaultLabels crd kvs = Ok lbls"
  by (auto simp: defaultLabels_def Let_def)

subsection \<open>Ports\<close>

definition apiPort :: int where "apiPort = 1317"
definition grpcPort :: int where "grpcPort = 9090"
definition grpcWebPort :: int where "grpcWebPort = 9091"
definition p2pPort :: int where "p2pPort = 26656"
definition privvalPort :: int where "privvalPort = 1234"
definition promPort :: int where "promPort = 26660"
definition rosettaPort :: int where "rosettaPort = 8080"
definition jsonrpcPort :: int where "jsonrpcPort = 8545"
definition jsonrpcWsPort :: int where "jsonrpcWsPort = 8546"
definition rpcPort :: int where "rpcPort = 26657"
definition healthCheckPort :: int where "healthCheckPort = 1251"

lemmas port_defs = apiPort_def grpcPort_def grpcWebPort_def p2pPort_def privvalPort_def promPort_def
  rosettaPort_def jsonrpcPort_def jsonrpcWsPort_def rpcPort_def healthCheckPort_def

definition tcpPort :: "string \<Rightarrow> int \<Rightarrow> ContainerPort" where
  "tcpPort n p = \<lparr>cp_Name = n, cp_ContainerPort = p, cp_Protocol = ''TCP''\<rparr>"

definition defaultPorts :: "ContainerPort list" where
  "defaultPorts =
     [tcpPort ''api'' apiPort, tcpPort ''rosetta'' rosettaPort, tcpPort ''grpc'' grpcPort,
      tcpPort ''prometheus'' promPort, tcpPort ''p2p'' p2pPort, tcpPort ''jsonrpc'' jsonrpcPort,
      tcpPort ''jsonrpc-ws'' jsonrpcWsPort, tcpPort ''rpc'' rpcPort, tcpPort ''grpc-web'' grpcWebPort]"

definition buildPorts :: "FullNodeType \<Rightarrow> ContainerPort list" where
  "buildPorts nodeType =
     (if nodeType = Sentry then defaultPorts @ [tcpPort ''privval'' privvalPort] else defaultPorts)"

lemma distinct_buildPorts:
  "distinct (map cp_ContainerPort (buildPorts t)) \<and> distinct (map cp_Name (buildPorts t))"
  by (simp add: buildPorts_def defaultPorts_def tcpPort_def port_defs)

subsection \<open>Paths\<close>

text \<open>\<open>path.Clean\<close> and \<open>path.Join\<close>.\<close>

definition clean_step :: "bool \<Rightarrow> string list \<Rightarrow> string \<Rightarrow> string list" where
  "clean_step rooted out seg =
     (if seg = [] \<or> seg = ''.'' then out
      else if seg = ''..''
      then (if out \<noteq> [] \<and> last out \<noteq> ''..'' then butlast out
            else if rooted then out else out @ [seg])
      else out @ [seg])"

definition path_Clean :: "string \<Rightarrow> string" where
  "path_Clean p =
     (if p = [] then ''.''
      else let rooted = (hd p = CHR ''/'');
               segs = foldl (clean_step rooted) [] (strings_Split (CHR ''/'') p);
               res = (if rooted then ''/'' else []) @ strings_Join ''/'' segs
           in if res = [] then ''.'' else res)"

definition path_Join :: "string list \<Rightarrow> string" where
  "path_Join elem =
     (let es = filter (\<lambda>e. e \<noteq> []) elem
      in if es = [] then [] else path_Clean (strings_Join ''/'' es))"

subsection \<open>Properties\<close>

text \<open>The generated names are unique per kind: two instances of one full node never share a
  pod, claim, node-key secret or p2p service name, for every name of the full node (also one that
  is cut to the length limit) and all ordinals an \<open>int32\<close> holds.\<close>

theorem resource_names_injective:
  assumes "is_ordinal i" and "is_ordinal j" and "i \<noteq> j"
  shows "instanceName crd i \<noteq> instanceName crd j \<and> pvcName crd i \<noteq> pvcName crd j \<and>
         nodeKeySecretName crd i \<noteq> nodeKeySecretName crd j \<and>
         p2pServiceName crd i \<noteq> p2pServiceName crd j \<and>
         sentryServiceName crd i \<noteq> sentryServiceName crd j"
  using assms instance_names.nm_inj pvc_names.nm_inj node_key_names.nm_inj p2p_names.nm_inj
    sentry_names.nm_inj by blast

theorem resource_names_injective_witness:
  "is_ordinal 1 \<and> is_ordinal 11 \<and> instanceName sample_crd 1 \<noteq> instanceName sample_crd 11"
proof -
  have "is_ordinal 1" "is_ordinal 11" by (simp_all add: is_ordinal_def)
  with resource_names_injective [of 1 11 sample_crd] show ?thesis by simp
qed

end
