(* ===== verification/Pod_Builder.thy ===== *)
theory Pod_Builder
  imports Fullnode_Names
begin

text \<open>
  \<^verbatim>\<open>internal/fullnode/pod_builder.go\<close> with the init-container commands of \<^verbatim>\<open>genesis.go\<close>,
  \<^verbatim>\<open>addrbook.go\<close> and \<^verbatim>\<open>snapshot.go\<close>, \<^verbatim>\<open>internal/kube/patch.go\<close> and
  \<^verbatim>\<open>internal/version\<close>: the pod of one ordinal, from the template of the full node. The
  build version and the embedded shell scripts are the record \<open>build_env\<close>; the strategic merge
  patch of the Kubernetes libraries is a parameter.
\<close>

subsection \<open>Build-time values\<close>

record build_env =
  be_version :: string
  be_scriptDownloadGenesis :: string
  be_scriptUseInitGenesis :: string
  be_scriptDownloadAddrbook :: string
  be_scriptDownloadSnapshot :: string

definition DockerTag :: "build_env \<Rightarrow> string" where
  "DockerTag env = (if be_version env = [] then ''latest'' else be_version env)"

definition AppVersion :: "build_env \<Rightarrow> string" where
  "AppVersion env = (if be_version env = [] then ''(devel)'' else be_version env)"

subsection \<open>Strategic merge patch\<close>

text \<open>
  \<open>ApplyStrategicMergePatch\<close> converts target and patch to unstructured maps, merges them by the
  patch schema of the target's type and converts back; the four library calls are parameters.
\<close>

record ('a, 'u, 's) patch_lib =
  pl_ToUnstructured :: "'a \<Rightarrow> goerror + 'u"
  pl_NewPatchMetaFromStruct :: "'a \<Rightarrow> goerror + 's"
  pl_StrategicMerge :: "'u \<Rightarrow> 'u \<Rightarrow> 's \<Rightarrow> goerror + 'u"
  pl_FromUnstructured :: "'u \<Rightarrow> goerror + 'a"

definition ApplyStrategicMergePatch :: "('a, 'u, 's) patch_lib \<Rightarrow> 'a \<Rightarrow> 'a \<Rightarrow> goerror + 'a" where
  "ApplyStrategicMergePatch lib target patch =
     (case pl_ToUnstructured lib target of Inl err \<Rightarrow> Inl err | Inr targetMap \<Rightarrow>
      case pl_ToUnstructured lib patch of Inl err \<Rightarrow> Inl err | Inr patchMap \<Rightarrow>
      case pl_NewPatchMetaFromStruct lib target of Inl err \<Rightarrow> Inl err | Inr schema \<Rightarrow>
      case pl_StrategicMerge lib targetMap patchMap schema of Inl err \<Rightarrow> Inl err | Inr result \<Rightarrow>
      pl_FromUnstructured lib result)"

subsection \<open>Directories, environment and commands\<close>

definition mainContainer :: string where "mainContainer = ''node''"
definition chainInitContainer :: string where "chainInitContainer = ''chain-init''"
definition volChainHome :: string where "volChainHome = ''vol-chain-home''"
definition volTmp :: string where "volTmp = ''vol-tmp''"
definition volConfig :: string where "volConfig = ''vol-config''"
definition volSystemTmp :: string where "volSystemTmp = ''vol-system-tmp''"
definition volNodeKey :: string where "volNodeKey = ''vol-node-key''"
definition workDir :: string where "workDir = ''/home/operator''"
definition tmpDir :: string where "tmpDir = workDir @ ''/.tmp''"
definition tmpConfigDir :: string where "tmpConfigDir = workDir @ ''/.config''"
definition infraToolImage :: string where
  "infraToolImage = ''ghcr.io/bharvest-devops/infratoolkit:v0.1.0''"
definition systemTmpDir :: string where "systemTmpDir = ''/tmp''"
definition nodeKeyFile :: string where "nodeKeyFile = ''node_key.json''"
definition configOverlayFile :: string where "configOverlayFile = ''config-overlay.toml''"
definition appOverlayFile :: string where "appOverlayFile = ''app-overlay.toml''"

lemmas volume_names = volChainHome_def volTmp_def volConfig_def volSystemTmp_def volNodeKey_def

definition getCometbftDir :: "CosmosFullNode \<Rightarrow> string" where
  "getCometbftDir crd = []"

definition ChainHomeDir :: "CosmosFullNode \<Rightarrow> string" where
  "ChainHomeDir crd =
     (let home = ch_HomeDir (fn_Chain crd)
      in if home \<noteq> [] then path_Join [workDir, home] else workDir @ ''/cosmos'')"

definition envVar :: "string \<Rightarrow> string \<Rightarrow> EnvVar" where
  "envVar n v = \<lparr>env_Name = n, env_Value = v\<rparr>"

definition envVars :: "CosmosFullNode \<Rightarrow> EnvVar list" where
  "envVars crd =
     (let home = ChainHomeDir crd
      in [envVar ''HOME'' workDir,
          envVar ''WORK_DIR'' workDir,
          envVar ''CHAIN_HOME'' home,
          envVar ''GENESIS_FILE'' (path_Join [home, getCometbftDir crd @ ''/config'', ''genesis.json'']),
          envVar ''ADDRBOOK_FILE'' (path_Join [home, getCometbftDir crd @ ''/config'', ''addrbook.json'']),
          envVar ''CONFIG_DIR'' (path_Join [home, getCometbftDir crd, ''/config'']),
          envVar ''DATA_DIR'' (path_Join [home, getCometbftDir crd, ''/data'']),
          envVar ''CHAIN_ID'' (ch_ChainID (fn_Chain crd))])"

definition addrbookScriptWrapper :: "string \<Rightarrow> string" where
  \<open>addrbookScriptWrapper script =
     ''ls $CONFIG_DIR/addrbook.json 1> /dev/null 2>&1\<newline>'' @
     ''ADDRBOOK_EXISTS=$?\<newline>'' @
     ''if [ $ADDRBOOK_EXISTS -eq 0 ]; then\<newline>'' @
     ''	echo "Address book already exists"\<newline>'' @
     ''	exit 0\<newline>'' @
     ''fi\<newline>'' @
     ''ls -l $CONFIG_DIR/addrbook.json \<newline>'' @ script @
     ''\<newline>'' @
     ''ls -l $CONFIG_DIR/addrbook.json \<newline>'' @
     ''\<newline>'' @
     ''echo "Address book $ADDRBOOK_FILE downloaded"\<newline>''\<close>

definition DownloadAddrbookCommand :: "build_env \<Rightarrow> ChainSpec \<Rightarrow> string \<times> string list" where
  "DownloadAddrbookCommand env cfg =
     (''sh'', ''-c'' #
        (case ch_AddrbookScript cfg of
           Some script \<Rightarrow> [addrbookScriptWrapper script]
         | None \<Rightarrow>
             (case ch_AddrbookURL cfg of
                Some url \<Rightarrow> [addrbookScriptWrapper (be_scriptDownloadAddrbook env), ''-s'', url]
              | None \<Rightarrow> [''echo Using default address book''])))"

definition genesisScriptWrapper :: "string \<Rightarrow> string" where
  \<open>genesisScriptWrapper script =
     ''ls $DATA_DIR/*.db 1> /dev/null 2>&1\<newline>'' @
     ''DB_INIT=$?\<newline>'' @
     ''if [ $DB_INIT -eq 0 ]; then\<newline>'' @
     ''	echo "Database already initialized, skipping genesis initialization"\<newline>'' @
     ''	exit 0\<newline>'' @
     ''fi\<newline>'' @
     ''\<newline>'' @ script @
     ''\<newline>'' @
     ''\<newline>'' @
     ''echo "Genesis $GENESIS_FILE initialized."\<newline>''\<close>

definition DownloadGenesisCommand :: "build_env \<Rightarrow> ChainSpec \<Rightarrow> string \<times> string list" where
  "DownloadGenesisCommand env cfg =
     (''sh'', ''-c'' #
        (case ch_GenesisScript cfg of
           Some script \<Rightarrow> [genesisScriptWrapper script]
         | None \<Rightarrow>
             (case ch_GenesisURL cfg of
                Some url \<Rightarrow> [genesisScriptWrapper (be_scriptDownloadGenesis env), ''-s'', url]
              | None \<Rightarrow> [genesisScriptWrapper (be_scriptUseInitGenesis env)])))"

definition snapshotScriptWrapper :: "string \<Rightarrow> string" where
  \<open>snapshotScriptWrapper script =
     ''set -eu\<newline>'' @
     ''if test -n "$(find $DATA_DIR -maxdepth 1 -name '*.db' -print -quit)"; then\<newline>'' @
     ''	echo "Databases in $DATA_DIR already exists; skipping initialization."\<newline>'' @
     ''	exit 0\<newline>'' @
     ''fi\<newline>'' @
     ''\<newline>'' @ script @
     ''\<newline>'' @
     ''\<newline>'' @
     ''echo "$DATA_DIR initialized."\<newline>''\<close>

definition DownloadSnapshotCommand :: "build_env \<Rightarrow> ChainSpec \<Rightarrow> (string \<times> string list) exec" where
  "DownloadSnapshotCommand env cfg =
     (case ch_SnapshotScript cfg of
        Some script \<Rightarrow> Ok (''sh'', [''-c'', snapshotScriptWrapper script])
      | None \<Rightarrow>
          (case ch_SnapshotURL cfg of
             Some url \<Rightarrow> Ok (''sh'', [''-c'', snapshotScriptWrapper (be_scriptDownloadSnapshot env), ''-s'', url])
           | None \<Rightarrow> Panic ''attempted to restore from a snapshot but snapshots are not configured''))"

definition willRestoreFromSnapshot :: "CosmosFullNode \<Rightarrow> bool" where
  "willRestoreFromSnapshot crd \<longleftrightarrow>
     ch_SnapshotURL (fn_Chain crd) \<noteq> None \<or> ch_SnapshotScript (fn_Chain crd) \<noteq> None"

definition startCommandArgs :: "CosmosFullNode \<Rightarrow> string list" where
  "startCommandArgs crd =
     (let cfg = fn_Chain crd;
          args = [''start'', ''--home'', ChainHomeDir crd];
          args = (if ch_SkipInvariants cfg then args @ [''--x-crisis-skip-assert-invariants''] else args);
          args = (case ch_LogLevel cfg of Some lvl \<Rightarrow> args @ [''--log_level'', lvl] | None \<Rightarrow> args);
          args = (case ch_LogFormat cfg of Some format \<Rightarrow> args @ [''--log_format'', format] | None \<Rightarrow> args)
      in if length (ch_AdditionalStartArgs cfg) > 0 then args @ ch_AdditionalStartArgs cfg else args)"

definition startCmdAndArgs :: "CosmosFullNode \<Rightarrow> string \<times> string list" where
  "startCmdAndArgs crd =
     (let binary = ch_Binary (fn_Chain crd);
          args = startCommandArgs crd;
          privvalSleep = (case ch_PrivvalSleepSeconds (fn_Chain crd) of None \<Rightarrow> 10 | Some v \<Rightarrow> v)
      in if sp_Type (fn_Spec crd) = Sentry \<and> privvalSleep > 0
         then (''sh'', [''-c'', ''sleep '' @ FormatInt privvalSleep @ ''\<newline>'' @ binary @ '' '' @
                 strings_Join '' '' args])
         else (binary, args))"

subsection \<open>Probes and security contexts\<close>

definition httpProbe :: "string \<Rightarrow> int \<Rightarrow> int \<Rightarrow> Probe" where
  "httpProbe pth port failures = \<lparr>pr_Path = pth, pr_Port = port, pr_Scheme = ''HTTP'',
     pr_InitialDelaySeconds = 1, pr_TimeoutSeconds = 10, pr_PeriodSeconds = 10,
     pr_SuccessThreshold = 1, pr_FailureThreshold = failures\<rparr>"

definition podReadinessProbes :: "CosmosFullNode \<Rightarrow> Probe option list" where
  "podReadinessProbes crd =
     (if fp_Strategy (tpl_Probes (fn_Tpl crd)) = FullNodeProbeStrategyNone then [None, None]
      else [Some (httpProbe ''/health'' rpcPort 5), Some (httpProbe ''/'' healthCheckPort 3)])"

definition mainSecurity :: SecurityContext where
  "mainSecurity = \<lparr>sc_RunAsUser = Some 1025, sc_RunAsGroup = Some 1025, sc_RunAsNonRoot = Some True,
     sc_AddCapabilities = Some [''SYS_PTRACE''], sc_AllowPrivilegeEscalation = None, sc_Privileged = None\<rparr>"

definition initSecurity :: SecurityContext where
  "initSecurity = \<lparr>sc_RunAsUser = Some 1025, sc_RunAsGroup = Some 1025, sc_RunAsNonRoot = Some True,
     sc_AddCapabilities = None, sc_AllowPrivilegeEscalation = Some False, sc_Privileged = Some False\<rparr>"

definition podSecurity :: PodSecurityContext where
  "podSecurity = \<lparr>psc_RunAsUser = Some 1025, psc_RunAsGroup = Some 1025, psc_FSGroup = Some 1025,
     psc_FSGroupChangePolicy = Some ''OnRootMismatch'', psc_RunAsNonRoot = Some True,
     psc_SeccompProfileType = Some ''RuntimeDefault''\<rparr>"

definition sidecarResources :: ResourceRequirements where
  "sidecarResources = \<lparr>rr_Requests = Some [(ResourceCPU, \<lparr>q_Amount = 5 / 1000, q_Format = ''DecimalSI''\<rparr>),
     (ResourceMemory, \<lparr>q_Amount = 16777216, q_Format = ''BinarySI''\<rparr>)], rr_Limits = None\<rparr>"

definition operatorImage :: "build_env \<Rightarrow> string" where
  "operatorImage env = ''ghcr.io/b-harvest/cosmos-operator:'' @ DockerTag env"

definition versionCheckArgs :: "CosmosFullNode \<Rightarrow> string list \<Rightarrow> string list" where
  "versionCheckArgs crd cmd =
     (case ch_DatabaseBackend (fn_Chain crd) of None \<Rightarrow> cmd | Some b \<Rightarrow> cmd @ [''-b'', b])"

subsection \<open>The base pod\<close>

record PodBuilder =
  bld_crd :: CosmosFullNode
  bld_pod :: Pod

definition mainContainerSpec :: "CosmosFullNode \<Rightarrow> Container" where
  "mainContainerSpec crd = emptyContainer\<lparr>ct_Name := mainContainer, ct_Image := tpl_Image (fn_Tpl crd),
     ct_Command := [fst (startCmdAndArgs crd)], ct_Args := snd (startCmdAndArgs crd),
     ct_Env := envVars crd, ct_Ports := buildPorts (sp_Type (fn_Spec crd)),
     ct_Resources := tpl_Resources (fn_Tpl crd), ct_ReadinessProbe := podReadinessProbes crd ! 0,
     ct_ImagePullPolicy := tpl_ImagePullPolicy (fn_Tpl crd), ct_WorkingDir := workDir,
     ct_SecurityContext := Some mainSecurity\<rparr>"

definition healthcheckSpec :: "build_env \<Rightarrow> CosmosFullNode \<Rightarrow> Container" where
  "healthcheckSpec env crd = emptyContainer\<lparr>ct_Name := ''healthcheck'', ct_Image := operatorImage env,
     ct_Command := [''/manager'', ''healthcheck''],
     ct_Ports := [\<lparr>cp_Name = [], cp_ContainerPort = healthCheckPort, cp_Protocol = ''TCP''\<rparr>],
     ct_Resources := sidecarResources, ct_ReadinessProbe := podReadinessProbes crd ! 1,
     ct_ImagePullPolicy := tpl_ImagePullPolicy (fn_Tpl crd), ct_SecurityContext := Some mainSecurity\<rparr>"

definition versionCheckSidecar :: "build_env \<Rightarrow> CosmosFullNode \<Rightarrow> Container" where
  "versionCheckSidecar env crd = emptyContainer\<lparr>ct_Name := ''version-check-interval'',
     ct_Image := operatorImage env,
     ct_Command := versionCheckArgs crd [''/manager'', ''versioncheck'', ''-d''],
     ct_Resources := sidecarResources, ct_Env := envVars crd,
     ct_ImagePullPolicy := tpl_ImagePullPolicy (fn_Tpl crd), ct_WorkingDir := workDir,
     ct_SecurityContext := Some mainSecurity\<rparr>"

definition NewPodBuilder :: "build_env \<Rightarrow> CosmosFullNode option \<Rightarrow> PodBuilder exec" where
  "NewPodBuilder env crdp =
     (case crdp of
        None \<Rightarrow> Panic ''nil CosmosFullNode''
      | Some crd \<Rightarrow>
          exec_bind (defaultLabels crd []) (\<lambda>lbls.
            let containers = [mainContainerSpec crd, healthcheckSpec env crd];
                containers = (if length (ch_Versions (fn_Chain crd)) > 0
                              then containers @ [versionCheckSidecar env crd] else containers);
                meta = emptyMeta\<lparr>om_Namespace := fn_Namespace crd, om_Labels := lbls, om_Annotations := []\<rparr>;
                spec = emptyPodSpec\<lparr>ps_ServiceAccountName := serviceAccountName crd,
                  ps_ShareProcessNamespace := Some False, ps_SecurityContext := Some podSecurity,
                  ps_Subdomain := fn_Name crd, ps_Containers := containers\<rparr>;
                meta = meta\<lparr>om_Labels := preserveMergeInto (om_Labels meta) (md_Labels (tpl_Metadata (fn_Tpl crd))),
                  om_Annotations := preserveMergeInto (om_Annotations meta) (md_Annotations (tpl_Metadata (fn_Tpl crd)))\<rparr>
            in Ok \<lparr>bld_crd = crd,
                   bld_pod = \<lparr>ob_Kind = ''Pod'', ob_APIVersion = ''v1'', ob_Meta = meta,
                              ob_Body = \<lparr>pb_Spec = spec, pb_Status = emptyPodStatus\<rparr>\<rparr>\<rparr>))"

subsection \<open>Init containers\<close>

definition cleanInitScript :: string where
  \<open>cleanInitScript = ''if [ -d $WORK_DIR/.tmp/ ]; then rm -rf "$WORK_DIR/.tmp/*"; fi''\<close>

definition initContainer :: "EnvVar list \<Rightarrow> PodTemplate \<Rightarrow> string \<Rightarrow> string \<Rightarrow> string \<Rightarrow> string list \<Rightarrow> Container" where
  "initContainer env tpl n img cmd args = emptyContainer\<lparr>ct_Name := n, ct_Image := img,
     ct_Command := [cmd], ct_Args := args, ct_Env := env,
     ct_ImagePullPolicy := tpl_ImagePullPolicy tpl, ct_WorkingDir := workDir\<rparr>"

definition getCleanInitContainer :: "EnvVar list \<Rightarrow> PodTemplate \<Rightarrow> Container" where
  "getCleanInitContainer env tpl =
     initContainer env tpl ''clean-init'' infraToolImage ''sh'' [''-c'', cleanInitScript]"

definition chainInitScript :: "string \<Rightarrow> string" where
  \<open>chainInitScript initCmd =
     ''\<newline>'' @
     ''set -u\<newline>'' @
     ''if [ ! -d "$DATA_DIR" ]; then\<newline>'' @
     ''	echo "Initializing chain..."\<newline>'' @
     ''	'' @ initCmd @
     '' --home "$CHAIN_HOME" || true\<newline>'' @
     ''else\<newline>'' @
     ''	echo "Skipping chain init; already initialized."\<newline>'' @
     ''fi\<newline>'' @
     ''echo "Initializing into tmp dir for downstream processing..."\<newline>'' @ initCmd @
     '' --home "$WORK_DIR/.tmp" || true\<newline>''\<close>

definition getCosmosChainInitContainer :: "EnvVar list \<Rightarrow> PodTemplate \<Rightarrow> string \<Rightarrow> Container" where
  "getCosmosChainInitContainer env tpl initCmd =
     initContainer env tpl chainInitContainer (tpl_Image tpl) ''sh'' [''-c'', chainInitScript initCmd]"

text \<open>The counterpart for Namada, which no caller uses yet. The format string has no verb, so \<open>Sprintf\<close> copies it.\<close>

definition namadaInitScript :: string where
  \<open>namadaInitScript =
     ''\<newline>'' @
     ''set -eu\<newline>'' @
     ''echo "Initializing into tmp dir for downstream processing..."\<newline>'' @
     ''\<newline>'' @
     ''mkdir -p -m 0777 $CHAIN_HOME/$CHAIN_ID/cometbft/config\<newline>'' @
     ''mkdir -p $HOME/.tmp/config\<newline>'' @
     ''\<newline>'' @
     ''cp $CHAIN_HOME/$CHAIN_ID/default-config.toml $CHAIN_HOME/$CHAIN_ID/config.toml\<newline>'' @
     ''cat "$CHAIN_HOME/$CHAIN_ID/config.toml" > "$HOME/.tmp/config/config.toml"\<newline>''\<close>

definition getNamadaChainInitContainer :: "EnvVar list \<Rightarrow> PodTemplate \<Rightarrow> string \<Rightarrow> Container" where
  "getNamadaChainInitContainer env tpl initCmd =
     initContainer env tpl chainInitContainer (tpl_Image tpl) ''sh'' [''-c'', namadaInitScript]"

definition getGenesisInitContainer ::
  "EnvVar list \<Rightarrow> PodTemplate \<Rightarrow> string \<Rightarrow> string list \<Rightarrow> string \<Rightarrow> Container" where
  "getGenesisInitContainer env tpl genesisCmd genesisArgs genesisImage =
     initContainer env tpl ''genesis-init'' genesisImage genesisCmd genesisArgs"

definition getAddrbookInitContainer ::
  "EnvVar list \<Rightarrow> PodTemplate \<Rightarrow> string \<Rightarrow> string list \<Rightarrow> Container" where
  "getAddrbookInitContainer env tpl addrbookCmd addrbookArgs =
     initContainer env tpl ''addrbook-init'' infraToolImage addrbookCmd addrbookArgs"

definition configMergeScript :: string where
  \<open>configMergeScript =
     ''\<newline>'' @
     ''set -eu\<newline>'' @
     ''TMP_DIR="$WORK_DIR/.tmp/config"\<newline>'' @
     ''OVERLAY_DIR="$WORK_DIR/.config"\<newline>'' @
     ''\<newline>'' @
     ''# This is a hack to prevent adding another init container.\<newline>'' @
     ''# Ideally, this step is not concerned with merging config, so it would live elsewhere.\<newline>'' @
     ''# The node key is a secret mounted into the main "node" container, so we do not need this one.\<newline>'' @
     ''echo "Removing node key from chain's init subcommand..."\<newline>'' @
     ''rm -rf "$CONFIG_DIR/node_key.json"\<newline>'' @
     ''\<newline>'' @
     ''echo "Merging config..."\<newline>'' @
     ''set -x\<newline>'' @
     ''config-merge -f toml -a overwrite "$TMP_DIR/config.toml" "$OVERLAY_DIR/config-overlay.toml" > "$CONFIG_DIR/config.toml"\<newline>'' @
     ''config-merge -f toml -a overwrite "$TMP_DIR/app.toml" "$OVERLAY_DIR/app-overlay.toml" > "$CONFIG_DIR/app.toml"\<newline>'' @
     ''\<newline>''\<close>

definition getConfigMergeContainer :: "EnvVar list \<Rightarrow> PodTemplate \<Rightarrow> Container" where
  "getConfigMergeContainer env tpl =
     initContainer env tpl ''config-merge'' infraToolImage ''sh'' [''-c'', configMergeScript]"

definition initContainers :: "build_env \<Rightarrow> CosmosFullNode \<Rightarrow> string \<Rightarrow> Container list exec" where
  "initContainers benv crd moniker =
     (let tpl = fn_Tpl crd;
          (genesisCmd, genesisArgs) = DownloadGenesisCommand benv (fn_Chain crd);
          (addrbookCmd, addrbookArgs) = DownloadAddrbookCommand benv (fn_Chain crd);
          env = envVars crd;
          initCmd = ch_Binary (fn_Chain crd) @ '' init --chain-id '' @ ch_ChainID (fn_Chain crd) @ '' '' @ moniker;
          initCmd = (if length (ch_AdditionalInitArgs (fn_Chain crd)) > 0
                     then initCmd @ '' '' @ strings_Join '' '' (ch_AdditionalInitArgs (fn_Chain crd)) else initCmd);
          required = [getCleanInitContainer env tpl,
                      getCosmosChainInitContainer env tpl initCmd,
                      getGenesisInitContainer env tpl genesisCmd genesisArgs infraToolImage,
                      getAddrbookInitContainer env tpl addrbookCmd addrbookArgs,
                      getConfigMergeContainer env tpl]
      in exec_bind
           (if willRestoreFromSnapshot crd
            then exec_bind (DownloadSnapshotCommand benv (fn_Chain crd)) (\<lambda>(cmd, args).
                   Ok (required @ [initContainer env tpl ''snapshot-restore'' infraToolImage cmd args]))
            else Ok required)
           (\<lambda>required.
              let required = map (\<lambda>c. c\<lparr>ct_SecurityContext := Some initSecurity\<rparr>) required
              in Ok (required @ [emptyContainer\<lparr>ct_Name := ''version-check'', ct_Image := operatorImage benv,
                   ct_Command := versionCheckArgs crd [''/manager'', ''versioncheck''],
                   ct_Resources := sidecarResources, ct_Env := env,
                   ct_ImagePullPolicy := tpl_ImagePullPolicy tpl, ct_WorkingDir := workDir,
                   ct_SecurityContext := Some initSecurity\<rparr>])))"

subsection \<open>The pod of an ordinal\<close>

definition mount :: "string \<Rightarrow> string \<Rightarrow> VolumeMount" where
  "mount n p = \<lparr>vm_Name = n, vm_MountPath = p, vm_SubPath = [], vm_ReadOnly = False\<rparr>"

definition podVolumes :: "CosmosFullNode \<Rightarrow> int \<Rightarrow> Volume list" where
  "podVolumes crd ordinal =
     [\<lparr>vol_Name = volChainHome, vol_Source = PersistentVolumeClaimSource (pvcName crd ordinal)\<rparr>,
      \<lparr>vol_Name = volTmp, vol_Source = EmptyDirSource\<rparr>,
      \<lparr>vol_Name = volConfig, vol_Source = ConfigMapSource (instanceName crd ordinal)
         [(configOverlayFile, configOverlayFile), (appOverlayFile, appOverlayFile)]\<rparr>,
      \<lparr>vol_Name = volSystemTmp, vol_Source = EmptyDirSource\<rparr>,
      \<lparr>vol_Name = volNodeKey, vol_Source = SecretSource (nodeKeySecretName crd ordinal)
         [(nodeKeyFile, nodeKeyFile)]\<rparr>]"

text \<open>
  The containers' mounts by position: the main container, the health check and, when present, the
  version check. Indexing a slice that is too short panics.
\<close>

definition mountContainers :: "CosmosFullNode \<Rightarrow> Container list \<Rightarrow> Container list exec" where
  "mountContainers crd cs =
     (let mounts = [mount volChainHome (ChainHomeDir crd), mount volSystemTmp systemTmpDir]
      in if length cs < 2 then Panic ''index out of range''
         else
           let cs = cs[0 := (cs ! 0)\<lparr>ct_VolumeMounts := mounts @
                 [(mount volNodeKey (path_Join [ChainHomeDir crd, getCometbftDir crd @ ''/config'', nodeKeyFile]))
                    \<lparr>vm_SubPath := nodeKeyFile\<rparr>]\<rparr>];
               cs = cs[1 := (cs ! 1)\<lparr>ct_VolumeMounts :=
                 [(mount volChainHome (ChainHomeDir crd))\<lparr>vm_ReadOnly := True\<rparr>]\<rparr>];
               cs = (if length cs > 2 then cs[2 := (cs ! 2)\<lparr>ct_VolumeMounts := mounts\<rparr>] else cs)
           in Ok cs)"

definition WithOrdinal :: "build_env \<Rightarrow> PodBuilder \<Rightarrow> int \<Rightarrow> PodBuilder exec" where
  "WithOrdinal env b ordinal =
     (let crd = bld_crd b;
          pod = bld_pod b;
          name = instanceName crd ordinal;
          mounts = [mount volChainHome (ChainHomeDir crd), mount volSystemTmp systemTmpDir]
      in exec_bind (initContainers env crd name) (\<lambda>inits.
         exec_bind (mountContainers crd (ps_Containers (pod_Spec pod))) (\<lambda>containers.
           let pod = upd_meta (\<lambda>m. m\<lparr>om_Labels := AList.update InstanceLabel name (om_Labels m), om_Name := name\<rparr>) pod;
               pod = upd_spec (\<lambda>s. s\<lparr>
                 ps_InitContainers := map (\<lambda>c. c\<lparr>ct_VolumeMounts :=
                    mounts @ [mount volTmp tmpDir, mount volConfig tmpConfigDir]\<rparr>) inits,
                 ps_Hostname := name, ps_Subdomain := fn_Name crd,
                 ps_Volumes := podVolumes crd ordinal,
                 ps_Containers := containers\<rparr>) pod
           in Ok (b\<lparr>bld_pod := pod\<rparr>))))"

definition podPatch :: "CosmosFullNode \<Rightarrow> Pod" where
  "podPatch crd =
     (let tpl = fn_Tpl crd
      in \<lparr>ob_Kind = [], ob_APIVersion = [], ob_Meta = emptyMeta,
          ob_Body = \<lparr>pb_Spec = emptyPodSpec\<lparr>
             ps_Affinity := tpl_Affinity tpl,
             ps_Containers := sliceOrDefault (tpl_Containers tpl) [],
             ps_ImagePullSecrets := sliceOrDefault (tpl_ImagePullSecrets tpl) [],
             ps_InitContainers := sliceOrDefault (tpl_InitContainers tpl) [],
             ps_NodeSelector := tpl_NodeSelector tpl,
             ps_Priority := tpl_Priority tpl,
             ps_PriorityClassName := tpl_PriorityClassName tpl,
             ps_TerminationGracePeriodSeconds := Some (valOrDefault (tpl_TerminationGracePeriodSeconds tpl) 30),
             ps_Tolerations := sliceOrDefault (tpl_Tolerations tpl) [],
             ps_Volumes := sliceOrDefault (tpl_Volumes tpl) []\<rparr>,
            pb_Status = emptyPodStatus\<rparr>\<rparr>)"

subsection \<open>Images\<close>

fun findVersion_loop :: "ChainVersion option \<Rightarrow> ChainVersion list \<Rightarrow> uint64 \<Rightarrow> ChainVersion option" where
  "findVersion_loop selected [] h = selected"
| "findVersion_loop selected (v # vs) h =
     findVersion_loop
       (if cv_UpgradeHeight v \<le> h
        then (case selected of None \<Rightarrow> Some v
              | Some s \<Rightarrow> if cv_UpgradeHeight v > cv_UpgradeHeight s then Some v else selected)
        else selected) vs h"

definition findVersion :: "ChainVersion list \<Rightarrow> uint64 \<Rightarrow> ChainVersion option" where
  "findVersion versions currentHeight = findVersion_loop None versions currentHeight"

text \<open>The loop that sets the image of the first container of a name and breaks.\<close>

fun setImage :: "string \<Rightarrow> string \<Rightarrow> Container list \<Rightarrow> Container list" where
  "setImage n img [] = []"
| "setImage n img (c # cs) =
     (if ct_Name c = n then c\<lparr>ct_Image := img\<rparr> # cs else c # setImage n img cs)"

definition setChainContainerImage :: "Pod \<Rightarrow> string \<Rightarrow> Pod" where
  "setChainContainerImage pod img =
     upd_spec (\<lambda>s. s\<lparr>ps_Containers := setImage mainContainer img (ps_Containers s),
       ps_InitContainers := setImage chainInitContainer img (ps_InitContainers s)\<rparr>) pod"

definition setChainContainerImages :: "Pod \<Rightarrow> ChainVersion \<Rightarrow> Pod" where
  "setChainContainerImages pod v =
     upd_spec (\<lambda>s. s\<lparr>
       ps_InitContainers := foldl (\<lambda>cs ni. setImage (fst ni) (snd ni) cs) (ps_InitContainers s) (cv_InitContainers v),
       ps_Containers := foldl (\<lambda>cs ni. setImage (fst ni) (snd ni) cs) (ps_Containers s) (cv_Containers v)\<rparr>)
       (setChainContainerImage pod (cv_Image v))"

subsection \<open>Building\<close>

text \<open>
  \<open>Build\<close>: no pod for a disabled instance; otherwise the patched pod with the image of the version
  for its height, then of the override, under normalized metadata.
\<close>

definition Build :: "(Pod \<Rightarrow> Pod \<Rightarrow> goerror + Pod) \<Rightarrow> PodBuilder \<Rightarrow> goerror + Pod option" where
  "Build patch b =
     (let crd = bld_crd b;
          pod = bld_pod b;
          override = (if GetName pod \<noteq> [] then map_of (sp_InstanceOverrides (fn_Spec crd)) (GetName pod) else None)
      in if (case override of None \<Rightarrow> False
             | Some v \<Rightarrow> io_DisableStrategy v = Some DisablePod \<or> io_DisableStrategy v = Some DisableAll)
         then Inr None
         else case patch pod (podPatch crd) of
           Inl err \<Rightarrow> Inl err
         | Inr pod \<Rightarrow>
             (let pod = (if GetName pod \<noteq> [] \<and> length (ch_Versions (fn_Chain crd)) > 0
                         then (case map_of (st_Height (fn_Status crd)) (GetName pod) of
                                 None \<Rightarrow> pod
                               | Some currentHeight \<Rightarrow>
                                   (case findVersion (ch_Versions (fn_Chain crd)) currentHeight of
                                      None \<Rightarrow> pod
                                    | Some v \<Rightarrow> setChainContainerImages pod v))
                         else pod);
                  override = (if GetName pod \<noteq> [] then map_of (sp_InstanceOverrides (fn_Spec crd)) (GetName pod) else None);
                  pod = (case override of None \<Rightarrow> pod
                         | Some v \<Rightarrow>
                             if io_Image v \<noteq> []
                             then upd_spec (\<lambda>s. s\<lparr>ps_Containers := setImage mainContainer (io_Image v) (ps_Containers s)\<rparr>) pod
                             else pod)
              in Inr (Some (upd_meta NormalizeMetadata pod))))"

definition PVCName :: "Pod \<Rightarrow> string" where
  "PVCName pod =
     (case find (\<lambda>v. vol_Name v = volChainHome) (ps_Volumes (pod_Spec pod)) of
        None \<Rightarrow> []
      | Some v \<Rightarrow> (case claimName (vol_Source v) of None \<Rightarrow> [] | Some c \<Rightarrow> c))"

subsection \<open>The pruner pod\<close>

definition pruningPodImageDefault :: string where
  "pruningPodImageDefault = ''ghcr.io/bharvest-devops/cosmos-pruner:latest''"

definition GetPrunerPodName :: "string \<Rightarrow> string" where
  "GetPrunerPodName podName = podName @ ''-pruner''"

definition BuildPruningContainer :: "Pod option \<Rightarrow> CosmosFullNode \<Rightarrow> Pod option exec" where
  "BuildPruningContainer p crd =
     (case (p, sp_SelfHeal (fn_Spec crd)) of
        (Some pod, Some heal) \<Rightarrow>
          (case sh_PruningSpec heal of
             None \<Rightarrow> Ok None
           | Some prn \<Rightarrow>
               (let pruningImage = (if pp_Image prn = [] then pruningPodImageDefault else pp_Image prn);
                    pruningCommand = (if pp_PruningCommand prn = []
                      then ''cosmos-pruner compact /home/operator/cosmos/data/ 2>&1'' else pp_PruningCommand prn);
                    name = GetPrunerPodName (GetName pod)
                in case ps_Containers (pod_Spec pod) of
                     [] \<Rightarrow> Panic ''index out of range''
                   | c # _ \<Rightarrow>
                       Ok (Some (upd_spec (\<lambda>s. s\<lparr>ps_InitContainers := [],
                         ps_Containers := [emptyContainer\<lparr>ct_Name := GetPrunerPodName name,
                           ct_Image := pruningImage, ct_Command := [''/bin/sh''],
                           ct_Args := [''-c'', pruningCommand], ct_WorkingDir := ''/home/operator'',
                           ct_VolumeMounts := ct_VolumeMounts c,
                           ct_ReadinessProbe := podReadinessProbes crd ! 0\<rparr>],
                         ps_RestartPolicy := ''Never''\<rparr>)
                         (upd_meta (\<lambda>m. m\<lparr>om_Name := name\<rparr>) pod)))))
      | _ \<Rightarrow> Ok None)"

end
