(* ===== verification/Control_Loops.thy ===== *)
theory Control_Loops
  imports Diff
begin

text \<open>
  The loops that the controls of \<^verbatim>\<open>internal/fullnode\<close> share: create, create or update, update
  and delete every object of a list of a diff, returning at the first error. The contract of one
  step is the locale \<open>call_step\<close>; the effect of the calls on the cluster is the abstract map from
  keys to revisions of the diff, \<open>run_calls\<close>.
\<close>

type_synonym 'b setref = "'b kobject \<Rightarrow> goerror + 'b kobject"

text \<open>The verb \<open>%q\<close> on a name; the labels of an object in error messages.\<close>

definition quoted :: "string \<Rightarrow> string" where
  "quoted n = CHR 0x22 # n @ [CHR 0x22]"

definition named :: "string \<Rightarrow> string \<Rightarrow> string" where
  "named what n = what @ '' '' @ quoted n"

subsection \<open>One object\<close>

definition create_step ::
  "'b server \<Rightarrow> 'b setref \<Rightarrow> (string \<Rightarrow> string) \<Rightarrow> (string \<Rightarrow> string) \<Rightarrow> 'b kobject \<Rightarrow> 'b history \<Rightarrow> ReconcileError option \<times> 'b history" where
  "create_step srv setRef what msg ob h =
     (case setRef ob of
        Inl err \<Rightarrow> (Some (TransientError (wrap (''set controller reference on '' @ what (GetName ob) @ '': '') err)), h)
      | Inr ob' \<Rightarrow>
          (case send srv (Create ob') h of
             (err, h') \<Rightarrow>
               (case err of
                  None \<Rightarrow> (None, h')
                | Some e \<Rightarrow> if IgnoreAlreadyExists err \<noteq> None
                    then (Some (TransientError (wrap (msg (GetName ob) @ '': '') e)), h')
                    else (None, h'))))"

definition createOrUpdate_step ::
  "'b server \<Rightarrow> 'b setref \<Rightarrow> (string \<Rightarrow> string) \<Rightarrow> (string \<Rightarrow> string) \<Rightarrow> 'b kobject \<Rightarrow> 'b history \<Rightarrow> ReconcileError option \<times> 'b history" where
  "createOrUpdate_step srv setRef what msg ob h =
     (case setRef ob of
        Inl err \<Rightarrow> (Some (TransientError (wrap (''set controller reference on '' @ what (GetName ob) @ '': '') err)), h)
      | Inr ob' \<Rightarrow>
          (case CreateOrUpdate srv ob' h of
             (None, h') \<Rightarrow> (None, h')
           | (Some e, h') \<Rightarrow> (Some (TransientError (wrap (msg (GetName ob) @ '': '') e)), h')))"

definition update_step ::
  "'b server \<Rightarrow> (string \<Rightarrow> string) \<Rightarrow> 'b kobject \<Rightarrow> 'b history \<Rightarrow> ReconcileError option \<times> 'b history" where
  "update_step srv msg ob h =
     (case send srv (Update ob) h of
        (None, h') \<Rightarrow> (None, h')
      | (Some e, h') \<Rightarrow> (Some (TransientError (wrap (msg (GetName ob) @ '': '') e)), h'))"

definition delete_step ::
  "'b server \<Rightarrow> (string \<Rightarrow> string) \<Rightarrow> 'b kobject \<Rightarrow> 'b history \<Rightarrow> ReconcileError option \<times> 'b history" where
  "delete_step srv msg ob h =
     (case send srv (Delete ob) h of
        (None, h') \<Rightarrow> (None, h')
      | (Some e, h') \<Rightarrow> (Some (TransientError (wrap (msg (GetName ob) @ '': '') e)), h'))"

subsection \<open>The contract of a step\<close>

text \<open>
  A step only appends calls to the history, calls that are allowed for its object; an error is
  transient; with a server that accepts everything it succeeds with exactly one call.
\<close>

definition accepts :: "'b server \<Rightarrow> bool" where
  "accepts srv \<longleftrightarrow> (\<forall>h c. srv h c = None)"

locale call_step =
  fixes srv :: "'b server"
    and step :: "'b kobject \<Rightarrow> 'b history \<Rightarrow> ReconcileError option \<times> 'b history"
    and the_call :: "'b kobject \<Rightarrow> 'b call"
    and allowed :: "'b kobject \<Rightarrow> 'b call \<Rightarrow> bool"
  assumes step_appends: "\<exists>cs. snd (step ob h) = h @ cs \<and> list_all (allowed ob) cs"
    and step_transient: "fst (step ob h) = Some e \<Longrightarrow> re_isTransient e"
    and step_accepted: "accepts srv \<Longrightarrow> step ob h = (None, h @ [the_call ob])"
begin

lemma each_appends:
  "\<exists>cs. snd (each step obs h) = h @ cs \<and> (\<forall>c \<in> set cs. \<exists>ob \<in> set obs. allowed ob c)"
proof (induction obs arbitrary: h)
  case Nil
  then show ?case by simp
next
  case (Cons ob obs)
  obtain cs where cs: "snd (step ob h) = h @ cs" "list_all (allowed ob) cs" using step_appends by blast
  obtain r h' where r: "step ob h = (r, h')" by (cases "step ob h")
  show ?case
  proof (cases r)
    case None
    from Cons obtain cs' where "snd (each step obs h') = h' @ cs'"
      "\<forall>c \<in> set cs'. \<exists>ob \<in> set obs. allowed ob c" by blast
    with None r cs show ?thesis
      by (intro exI [of _ "cs @ cs'"]) (auto simp: list_all_iff)
  next
    case (Some e)
    with r cs show ?thesis by (intro exI [of _ cs]) (auto simp: list_all_iff)
  qed
qed

lemma each_transient: "fst (each step obs h) = Some e \<Longrightarrow> re_isTransient e"
proof (induction obs arbitrary: h)
  case Nil
  then show ?case by simp
next
  case (Cons ob obs)
  then show ?case using step_transient [of ob h]
    by (cases "step ob h") (auto split: option.splits)
qed

lemma each_accepted: "accepts srv \<Longrightarrow> each step obs h = (None, h @ map the_call obs)"
  by (induction obs arbitrary: h) (simp_all add: step_accepted)

end

lemma call_step_weaken:
  assumes "call_step srv step call_of P" and "\<And>ob c. P ob c \<Longrightarrow> Q ob c"
  shows "call_step srv step call_of Q"
proof
  fix ob h
  show "\<exists>cs. snd (step ob h) = h @ cs \<and> list_all (Q ob) cs"
    using call_step.step_appends [OF assms(1), of ob h] assms(2) by (metis list.pred_mono_strong)
qed (use call_step.step_transient [OF assms(1)] call_step.step_accepted [OF assms(1)] in blast)+

text \<open>\<open>SetControllerReference\<close> only adds an owner reference, and fails on none of these objects.\<close>

definition setref_ok :: "'b setref \<Rightarrow> bool" where
  "setref_ok setRef \<longleftrightarrow> (\<forall>ob. \<exists>ob'. setRef ob = Inr ob' \<and> ObjectKeyFromObject ob' = ObjectKeyFromObject ob \<and>
     om_Labels (ob_Meta ob') = om_Labels (ob_Meta ob) \<and> ob_Body ob' = ob_Body ob)"

definition owned :: "'b setref \<Rightarrow> 'b kobject \<Rightarrow> 'b kobject" where
  "owned setRef ob = (case setRef ob of Inr ob' \<Rightarrow> ob' | Inl _ \<Rightarrow> ob)"

lemma owned_simps:
  assumes "setref_ok setRef"
  shows "ObjectKeyFromObject (owned setRef ob) = ObjectKeyFromObject ob"
    and "obj_rev (owned setRef ob) = obj_rev ob" and "setRef ob = Inr (owned setRef ob)"
  using assms [unfolded setref_ok_def, rule_format, of ob] by (auto simp: owned_def obj_rev_def)

interpretation updates: call_step srv "update_step srv msg" Update "\<lambda>ob c. c = Update ob"
  for srv :: "'b server" and msg
  by unfold_locales
    (auto simp: update_step_def send_def accepts_def TransientError_def split: option.splits)

interpretation deletes: call_step srv "delete_step srv msg" Delete "\<lambda>ob c. c = Delete ob"
  for srv :: "'b server" and msg
  by unfold_locales
    (auto simp: delete_step_def send_def accepts_def TransientError_def split: option.splits)

text \<open>The creating steps fulfil the contract for every \<open>setRef\<close> that succeeds.\<close>

lemma call_step_create:
  assumes "setref_ok setRef"
  shows "call_step srv (create_step srv setRef what msg) (\<lambda>ob. Create (owned setRef ob)) (\<lambda>ob c. c = Create (owned setRef ob))"
  by unfold_locales
    (auto simp: create_step_def owned_simps(3) [OF assms] send_def accepts_def TransientError_def
      split: option.splits if_splits)

lemma call_step_createOrUpdate:
  assumes "setref_ok setRef"
  shows "call_step srv (createOrUpdate_step srv setRef what msg) (\<lambda>ob. Create (owned setRef ob))
    (\<lambda>ob c. c = Create (owned setRef ob) \<or> c = Update (owned setRef ob))"
  by unfold_locales
    (auto simp: createOrUpdate_step_def owned_simps(3) [OF assms] CreateOrUpdate_def send_def accepts_def
      TransientError_def IsAlreadyExists_def split: option.splits if_splits)

definition ref_setref :: "OwnerReference \<Rightarrow> 'b setref" where
  "ref_setref own ob = Inr (upd_meta (\<lambda>m. m\<lparr>om_OwnerReferences := om_OwnerReferences m @ [own]\<rparr>) ob)"

lemma ref_setref_ok: "setref_ok (ref_setref own)"
  by (simp add: setref_ok_def ref_setref_def object_defs)

interpretation creates: call_step srv "create_step srv (ref_setref own) what msg"
    "\<lambda>ob. Create (owned (ref_setref own) ob)" "\<lambda>ob c. c = Create (owned (ref_setref own) ob)"
  for srv :: "'b server" and own what msg
  by (rule call_step_create) (rule ref_setref_ok)

subsection \<open>The effect of accepted calls\<close>

type_synonym revs = "ObjectKey \<rightharpoonup> string"

fun call_effect :: "'b call \<Rightarrow> revs \<Rightarrow> revs" where
  "call_effect (Create ob) m = m(ObjectKeyFromObject ob \<mapsto> obj_rev ob)"
| "call_effect (Update ob) m = m(ObjectKeyFromObject ob \<mapsto> obj_rev ob)"
| "call_effect (Patch ob) m = m(ObjectKeyFromObject ob \<mapsto> obj_rev ob)"
| "call_effect (Delete ob) m = m(ObjectKeyFromObject ob := None)"

definition run_calls :: "'b call list \<Rightarrow> revs \<Rightarrow> revs" where
  "run_calls cs m = foldl (\<lambda>m c. call_effect c m) m cs"

lemma run_calls_append: "run_calls (cs @ cs') m = run_calls cs' (run_calls cs m)"
  by (simp add: run_calls_def)

lemma run_puts:
  assumes "\<And>ob m. call_effect (put ob) m = m(ObjectKeyFromObject ob \<mapsto> obj_rev ob)"
    and "distinct (map ObjectKeyFromObject obs)"
  shows "run_calls (map put obs) m = m ++ cluster_revs obs"
  using assms(2)
proof (induction obs arbitrary: m)
  case Nil
  then show ?case by (simp add: run_calls_def cluster_revs_def)
next
  case (Cons ob obs)
  have "run_calls (map put (ob # obs)) m = m(ObjectKeyFromObject ob \<mapsto> obj_rev ob) ++ cluster_revs obs"
    using Cons by (simp add: run_calls_def assms(1))
  moreover have "ObjectKeyFromObject ob \<notin> dom (cluster_revs obs)"
    using Cons.prems by (simp add: cluster_revs_def dom_map_of_conv_image_fst image_image)
  ultimately show ?case
    by (auto simp: cluster_revs_def map_add_def fun_eq_iff dom_def split: option.splits)
qed

lemma run_deletes: "run_calls (map Delete obs) m = m |` (- ObjectKeyFromObject ` set obs)"
proof (induction obs arbitrary: m)
  case Nil
  then show ?case by (simp add: run_calls_def)
next
  case (Cons ob obs)
  have "run_calls (map Delete (ob # obs)) m = run_calls (map Delete obs) (m(ObjectKeyFromObject ob := None))"
    by (simp add: run_calls_def)
  then show ?case using Cons by (auto simp: restrict_map_def fun_eq_iff)
qed

lemma cluster_revs_owned:
  assumes "setref_ok setRef"
  shows "run_calls (map (\<lambda>ob. Create (owned setRef ob)) obs) m = run_calls (map Create obs) m"
proof -
  have "call_effect (Create (owned setRef ob)) m = call_effect (Create ob) m" for ob and m :: revs
    by (simp add: owned_simps [OF assms])
  then show ?thesis by (induction obs arbitrary: m) (simp_all add: run_calls_def)
qed

context diff_order
begin

lemma revs_at_creates:
  assumes D: "Diff_New srt current want = Ok d"
  shows "cluster_revs (df_creates d) = wanted_revs want |` (- dom (cluster_revs current))"
proof -
  have dw: "distinct (map rs_key want)" and dc: "distinct (cur_keys current)"
    using Diff_New_Ok_distinct [OF D] by auto
  have dm: "k \<in> dom (cluster_revs current) \<longleftrightarrow> k \<in> set (cur_keys current)" for k
    by (simp add: cluster_revs_def dom_map_of_conv_image_fst image_image)
  have "cluster_revs (df_creates d) k = Some v \<longleftrightarrow> (wanted_revs want |` (- dom (cluster_revs current))) k = Some v" for k v
    unfolding cluster_revs_Some [OF distinct_create_keys [OF D]] restrict_map_def
    by (simp add: dm wanted_revs_Some [OF dw] Bex_def creates_iff [OF D]) (metis key_stamp obj_rev_stamp)
  then show ?thesis by (intro ext) (metis not_None_eq)
qed

lemma revs_at_updates:
  assumes D: "Diff_New srt current want = Ok d"
  shows "cluster_revs current ++ cluster_revs (df_updates d) =
    (\<lambda>k. if k \<in> dom (cluster_revs current) \<and> k \<in> dom (wanted_revs want) then wanted_revs want k
         else cluster_revs current k)"
proof
  fix k
  have dw: "distinct (map rs_key want)" and dc: "distinct (cur_keys current)"
    using Diff_New_Ok_distinct [OF D] by auto
  note W = wanted_revs_Some [OF dw] and C = cluster_revs_Some [OF dc]
    and U = cluster_revs_Some [OF distinct_update_keys [OF D]]
  have at: "cluster_revs (df_updates d) k = Some v \<longleftrightarrow>
      cluster_revs current k \<noteq> None \<and> wanted_revs want k = Some v \<and> cluster_revs current k \<noteq> Some v" for v
  proof -
    have "cluster_revs (df_updates d) k = Some v \<longleftrightarrow>
        (\<exists>c \<in> set current. \<exists>r \<in> set want. ObjectKeyFromObject c = k \<and> rs_key r = k \<and>
           rs_Revision r = v \<and> v \<noteq> obj_rev c)" (is "?L \<longleftrightarrow> ?R")
    proof
      assume ?L
      then obtain u where "u \<in> set (df_updates d)" "ObjectKeyFromObject u = k" "obj_rev u = v"
        unfolding U by blast
      then obtain c r where "c \<in> set current" "r \<in> set want" "rs_key r = ObjectKeyFromObject c"
          "rs_Revision r \<noteq> obj_rev c" "rs_key r = k" "rs_Revision r = v"
        by (auto simp: updates_iff [OF D])
      then show ?R by auto
    next
      assume ?R
      then obtain c r where cr: "c \<in> set current" "r \<in> set want" "ObjectKeyFromObject c = k" "rs_key r = k"
          "rs_Revision r = v" "v \<noteq> obj_rev c" by blast
      then have "stamp (carryOver (currentAdapter c) r) \<in> set (df_updates d)"
        unfolding updates_iff [OF D] by auto
      with cr show ?L unfolding U by (intro bexI [of _ "stamp (carryOver (currentAdapter c) r)"]) auto
    qed
    also have "\<dots> \<longleftrightarrow> (\<exists>w. cluster_revs current k = Some w \<and> w \<noteq> v) \<and> wanted_revs want k = Some v"
      unfolding W C by (simp only: bex_simps ex_simps) (auto, metis)
    finally show ?thesis by auto
  qed
  show "(cluster_revs current ++ cluster_revs (df_updates d)) k =
      (if k \<in> dom (cluster_revs current) \<and> k \<in> dom (wanted_revs want) then wanted_revs want k
       else cluster_revs current k)"
    using at by (cases "wanted_revs want k"; cases "cluster_revs current k"; cases "cluster_revs (df_updates d) k")
      (auto simp: map_add_def)
qed

text \<open>Creates and updates alone: the wanted keys at the wanted revisions, every other key as it was.\<close>

lemma run_create_update:
  assumes D: "Diff_New srt current want = Ok d" and r: "setref_ok setRef"
  shows "run_calls (map (\<lambda>ob. Create (owned setRef ob)) (df_creates d) @ map Update (df_updates d)) (cluster_revs current) =
    cluster_revs current ++ wanted_revs want"
proof
  fix k
  have "run_calls (map (\<lambda>ob. Create (owned setRef ob)) (df_creates d) @ map Update (df_updates d)) (cluster_revs current) k =
      ((cluster_revs current ++ cluster_revs (df_creates d)) ++ cluster_revs (df_updates d)) k"
    using distinct_create_keys [OF D] distinct_update_keys [OF D]
    by (simp add: run_calls_append cluster_revs_owned [OF r] run_puts)
  also have "\<dots> = ((cluster_revs current ++ cluster_revs (df_updates d)) ++ cluster_revs (df_creates d)) k"
  proof -
    have "dom (cluster_revs (df_creates d)) \<inter> dom (cluster_revs (df_updates d)) = {}"
    proof -
      have "dom (cluster_revs (df_updates d)) \<subseteq> dom (cluster_revs current)"
      proof
        fix k assume "k \<in> dom (cluster_revs (df_updates d))"
        then obtain u where "u \<in> set (df_updates d)" "ObjectKeyFromObject u = k"
          by (auto simp: cluster_revs_def dom_map_of_conv_image_fst)
        then show "k \<in> dom (cluster_revs current)"
          by (auto simp: updates_iff [OF D] cluster_revs_def dom_map_of_conv_image_fst image_image)
      qed
      then show ?thesis by (auto simp: revs_at_creates [OF D] restrict_map_def dom_def split: if_splits)
    qed
    then show ?thesis by (metis map_add_assoc map_add_comm)
  qed
  also have "\<dots> = (cluster_revs current ++ wanted_revs want) k"
    unfolding revs_at_updates [OF D] revs_at_creates [OF D]
    by (auto simp: map_add_def restrict_map_def dom_def split: option.splits)
  finally show "run_calls (map (\<lambda>ob. Create (owned setRef ob)) (df_creates d) @ map Update (df_updates d)) (cluster_revs current) k =
    (cluster_revs current ++ wanted_revs want) k" .
qed


lemma create_update_sum:
  assumes D: "Diff_New srt current want = Ok d"
  shows "cluster_revs current ++ cluster_revs (df_creates d) ++ cluster_revs (df_updates d) =
    cluster_revs current ++ wanted_revs want"
proof -
  have r: "setref_ok (Inr :: 'b setref)" by (simp add: setref_ok_def)
  have "owned Inr ob = (ob :: 'b kobject)" for ob by (simp add: owned_def)
  then show ?thesis
    using run_create_update [OF D r] distinct_create_keys [OF D] distinct_update_keys [OF D]
    by (simp add: run_calls_append run_puts)
qed

text \<open>Creates, deletes and updates together: exactly the wanted keys.\<close>

lemma run_create_delete_update:
  assumes D: "Diff_New srt current want = Ok d" and r: "setref_ok setRef"
  shows "run_calls (map (\<lambda>ob. Create (owned setRef ob)) (df_creates d) @ map Delete (df_deletes d) @
      map Update (df_updates d)) (cluster_revs current) = wanted_revs want"
proof
  fix k
  let ?c = "cluster_revs current" and ?n = "cluster_revs (df_creates d)" and ?u = "cluster_revs (df_updates d)"
  have domc: "dom ?c = set (cur_keys current)"
    by (simp add: cluster_revs_def dom_map_of_conv_image_fst image_image)
  have domw: "dom (wanted_revs want) = rs_key ` set want"
    by (simp add: wanted_revs_def dom_map_of_conv_image_fst image_image)
  have del: "k \<in> ObjectKeyFromObject ` set (df_deletes d) \<longleftrightarrow> k \<in> dom ?c \<and> k \<notin> dom (wanted_revs want)"
    unfolding domc domw
    by (simp add: image_iff Bex_def deletes_iff [OF D]) (metis key_currentAdapter key_stamp)
  have upd: "?u k = None" if "k \<notin> dom (wanted_revs want)"
  proof -
    have "k \<notin> set (cur_keys (df_updates d))"
      using that unfolding domw by (auto simp: updates_iff [OF D]) (metis imageI)
    then show ?thesis by (auto simp: cluster_revs_def map_of_eq_None_iff)
  qed
  have sum: "(?c ++ ?n ++ ?u) k = (?c ++ wanted_revs want) k" by (simp add: create_update_sum [OF D])
  have new: "?n k = None" if "k \<notin> dom (wanted_revs want)"
    using that by (auto simp: revs_at_creates [OF D] restrict_map_def)
  have "run_calls (map (\<lambda>ob. Create (owned setRef ob)) (df_creates d) @ map Delete (df_deletes d) @
      map Update (df_updates d)) ?c k = (((?c ++ ?n) |` (- ObjectKeyFromObject ` set (df_deletes d))) ++ ?u) k"
    using distinct_create_keys [OF D] distinct_update_keys [OF D]
    by (simp add: run_calls_append cluster_revs_owned [OF r] run_puts run_deletes)
  also have "\<dots> = wanted_revs want k"
  proof (cases "k \<in> dom (wanted_revs want)")
    case True
    then have "(((?c ++ ?n) |` (- ObjectKeyFromObject ` set (df_deletes d))) ++ ?u) k = (?c ++ ?n ++ ?u) k"
      using del by (auto simp: map_add_def restrict_map_def split: option.splits)
    with sum True show ?thesis by auto
  next
    case False
    then show ?thesis using del upd new
      by (auto simp: map_add_def restrict_map_def dom_def split: option.splits)
  qed
  finally show "run_calls (map (\<lambda>ob. Create (owned setRef ob)) (df_creates d) @ map Delete (df_deletes d) @
      map Update (df_updates d)) ?c k = wanted_revs want k" .
qed

end

subsection \<open>Two shapes of a control\<close>

text \<open>
  The loops of a control that never deletes: first the creates, then the updates. A control lists
  the current objects first; its read error is the caller's.
\<close>

definition create_then_update ::
  "'b server \<Rightarrow> ('b kobject \<Rightarrow> 'b history \<Rightarrow> ReconcileError option \<times> 'b history) \<Rightarrow> (string \<Rightarrow> string) \<Rightarrow>
   'b Diff \<Rightarrow> 'b history \<Rightarrow> ReconcileError option \<times> 'b history" where
  "create_then_update srv create msg d h =
     (case each create (df_creates d) h of
        (Some e, h') \<Rightarrow> (Some e, h')
      | (None, h') \<Rightarrow> each (update_step srv msg) (df_updates d) h')"

text \<open>What such a control does to the cluster, for any step that creates or updates one object.\<close>

lemma create_then_update_appends:
  assumes "call_step srv create call_of (\<lambda>ob c. c = Create (own ob) \<or> c = Update (own ob))"
  shows "\<exists>cs. snd (create_then_update srv create msg d h) = h @ cs \<and>
    (\<forall>c \<in> set cs. \<exists>ob. c = Create ob \<or> c = Update ob)"
proof -
  obtain cs where cs: "snd (each create (df_creates d) h) = h @ cs"
      "\<forall>c \<in> set cs. \<exists>ob \<in> set (df_creates d). c = Create (own ob) \<or> c = Update (own ob)"
    using call_step.each_appends [OF assms] by blast
  obtain cs' where cs': "snd (each (update_step srv msg) (df_updates d) (h @ cs)) = h @ cs @ cs'"
      "\<forall>c \<in> set cs'. \<exists>ob \<in> set (df_updates d). c = Update ob"
    using updates.each_appends [of srv msg "df_updates d" "h @ cs"] by auto
  show ?thesis
  proof (cases "each create (df_creates d) h")
    case (Pair r h')
    with cs cs' show ?thesis
      by (cases r) (auto simp: create_then_update_def intro!: exI [of _ "cs @ cs'"] exI [of _ cs])
  qed
qed

lemma create_then_update_transient:
  assumes "call_step srv create call_of allowed"
    and "fst (create_then_update srv create msg d h) = Some e"
  shows "re_isTransient e"
  using assms(2) call_step.each_transient [OF assms(1), of "df_creates d" h]
    updates.each_transient [of srv msg "df_updates d"]
  by (auto simp: create_then_update_def split: prod.splits option.splits)

lemma create_then_update_accepted:
  assumes "call_step srv create call_of allowed" and "accepts srv"
  shows "create_then_update srv create msg d h = (None, h @ map call_of (df_creates d) @ map Update (df_updates d))"
  using call_step.each_accepted [OF assms] updates.each_accepted [OF assms(2)]
  by (simp add: create_then_update_def)

end
