(* ===== verification/Node_Keys.thy ===== *)
theory Node_Keys
  imports Pod_Builder Control_Loops
begin

text \<open>
  \<^verbatim>\<open>internal/fullnode/node_key_builder.go\<close>: the secrets that hold the identity of each
  instance. A key that exists is reused, so the node identity survives every reconcile. Key
  generation, hashing and JSON are library code and parameters.
\<close>

record NodeKeyPrivKey =
  npk_Type :: string
  npk_Value :: string

record NodeKey =
  nk_PrivKey :: NodeKeyPrivKey

record SecretBody =
  sec_Data :: "(string \<times> string) list"
  sec_Immutable :: "bool option"
  sec_Type :: string

type_synonym Secret = "SecretBody kobject"

text \<open>The library: the key drawn for an ordinal, its public part, SHA-256, JSON. \<open>kl_Public\<close> stands for \<open>Public\<close> on
  keys of at least 32 bytes, which the operator's own keys have; on a shorter one \<open>Public\<close> slices out of range and panics,
  a case that the model leaves out.\<close>

record key_lib =
  kl_GenerateKey :: "int \<Rightarrow> goerror + string"
  kl_Public :: "string \<Rightarrow> string"
  kl_sha256 :: "string \<Rightarrow> string"
  kl_hex :: "string \<Rightarrow> string"
  kl_Marshal :: "NodeKey \<Rightarrow> goerror + string"
  kl_Unmarshal :: "string \<Rightarrow> goerror + NodeKey"

definition NodeKey_ID :: "key_lib \<Rightarrow> NodeKey \<Rightarrow> string" where
  "NodeKey_ID lib nk = kl_hex lib (take 20 (kl_sha256 lib (kl_Public lib (npk_Value (nk_PrivKey nk)))))"

definition randNodeKey :: "key_lib \<Rightarrow> int \<Rightarrow> goerror + string" where
  "randNodeKey lib draw =
     (case kl_GenerateKey lib draw of
        Inl err \<Rightarrow> Inl (wrap ''failed to generate ed25519 node key: '' err)
      | Inr pk \<Rightarrow> kl_Marshal lib \<lparr>nk_PrivKey = \<lparr>npk_Type = ''tendermint/PrivKeyEd25519'', npk_Value = pk\<rparr>\<rparr>)"

definition emptySecret :: "CosmosFullNode \<Rightarrow> int \<Rightarrow> Secret" where
  "emptySecret crd i = \<lparr>ob_Kind = [], ob_APIVersion = [],
     ob_Meta = emptyMeta\<lparr>om_Name := nodeKeySecretName crd i, om_Namespace := fn_Namespace crd\<rparr>,
     ob_Body = \<lparr>sec_Data = [], sec_Immutable = None, sec_Type = []\<rparr>\<rparr>"

text \<open>One iteration of the loop: an error of the key generation, or the adapted secret.\<close>

definition nodeKeySecret ::
  "key_lib \<Rightarrow> SecretBody marshaler \<Rightarrow> Secret list \<Rightarrow> CosmosFullNode \<Rightarrow> int \<Rightarrow> (goerror + SecretBody Resource) exec" where
  "nodeKeySecret lib marshal existing crd i =
     (let s = FindOrDefaultCopy existing (emptySecret crd i)
      in exec_bind (defaultLabels crd [InstanceLabel, instanceName crd i]) (\<lambda>lbls.
           let mk = (\<lambda>data. \<lparr>ob_Kind = ''Secret'', ob_APIVersion = ''v1'',
                 ob_Meta = emptyMeta\<lparr>om_Name := GetName s, om_Namespace := GetNamespace s, om_Labels := lbls\<rparr>,
                 ob_Body = \<lparr>sec_Data = data, sec_Immutable = Some True, sec_Type = ''Opaque''\<rparr>\<rparr>)
           in case map_of (sec_Data (ob_Body s)) nodeKeyFile of
                Some _ \<Rightarrow> exec_bind (Adapt marshal (mk (sec_Data (ob_Body s))) i) (\<lambda>r. Ok (Inr r))
              | None \<Rightarrow>
                  (case randNodeKey lib i of
                     Inl err \<Rightarrow> Ok (Inl err)
                   | Inr nk \<Rightarrow> exec_bind (Adapt marshal (mk [(nodeKeyFile, nk)]) i) (\<lambda>r. Ok (Inr r)))))"

fun nodeKeySecrets ::
  "key_lib \<Rightarrow> SecretBody marshaler \<Rightarrow> Secret list \<Rightarrow> CosmosFullNode \<Rightarrow> int list \<Rightarrow> (goerror + SecretBody Resource list) exec" where
  "nodeKeySecrets lib marshal existing crd [] = Ok (Inr [])"
| "nodeKeySecrets lib marshal existing crd (i # is) =
     exec_bind (nodeKeySecret lib marshal existing crd i) (\<lambda>res.
       case res of
         Inl err \<Rightarrow> Ok (Inl err)
       | Inr r \<Rightarrow> exec_bind (nodeKeySecrets lib marshal existing crd is) (\<lambda>rest.
           case rest of Inl err \<Rightarrow> Ok (Inl err) | Inr rs \<Rightarrow> Ok (Inr (r # rs))))"

definition BuildNodeKeySecrets ::
  "key_lib \<Rightarrow> SecretBody marshaler \<Rightarrow> Secret list \<Rightarrow> CosmosFullNode \<Rightarrow> (goerror + SecretBody Resource list) exec" where
  "BuildNodeKeySecrets lib marshal existing crd =
     (if sp_Replicas (fn_Spec crd) < 0 then Panic ''makeslice: len out of range''
      else nodeKeySecrets lib marshal existing crd (ordinals (sp_Replicas (fn_Spec crd))))"

subsection \<open>Lemmas\<close>

text \<open>The wanted secret of an ordinal: named after it, immutable, with the existing key if any.\<close>

definition key_secret_of :: "Secret list \<Rightarrow> CosmosFullNode \<Rightarrow> int \<Rightarrow> SecretBody Resource \<Rightarrow> bool" where
  "key_secret_of existing crd i r \<longleftrightarrow>
     rs_key r = ObjectKey (fn_Namespace crd) (nodeKeySecretName crd i) \<and> rs_Ordinal r = i \<and>
     sec_Immutable (ob_Body (rs_Object r)) = Some True \<and>
     map_of (sec_Data (ob_Body (rs_Object r))) nodeKeyFile \<noteq> None \<and>
     (\<forall>s. find (\<lambda>s. ObjectKeyFromObject s = ObjectKey (fn_Namespace crd) (nodeKeySecretName crd i)) existing = Some s \<longrightarrow>
        map_of (sec_Data (ob_Body s)) nodeKeyFile \<noteq> None \<longrightarrow> sec_Data (ob_Body (rs_Object r)) = sec_Data (ob_Body s))"

lemma FindOrDefaultCopy_find:
  "FindOrDefaultCopy existing c = (case find (\<lambda>s. ObjectKeyFromObject s = ObjectKeyFromObject c) existing of None \<Rightarrow> c | Some s \<Rightarrow> s)"
  by (induction existing) (auto simp: ObjectKeyFromObject_def)

lemma emptySecret_key: "ObjectKeyFromObject (emptySecret crd i) = ObjectKey (fn_Namespace crd) (nodeKeySecretName crd i)"
  by (simp add: emptySecret_def object_defs)

lemma nodeKeySecret_total:
  assumes "encodes marshal" and "\<And>i. \<exists>k. randNodeKey lib i = Inr k"
  shows "\<exists>r. nodeKeySecret lib marshal existing crd i = Ok (Inr r) \<and> key_secret_of existing crd i r"
proof -
  let ?s = "FindOrDefaultCopy existing (emptySecret crd i)"
  have key: "GetName ?s = nodeKeySecretName crd i" "GetNamespace ?s = fn_Namespace crd"
    using FindOrDefaultCopy_key [of existing "emptySecret crd i"] by (auto simp: emptySecret_def object_defs)
  obtain lbls where l: "defaultLabels crd [InstanceLabel, instanceName crd i] = Ok lbls"
    using defaultLabels_total [of "[InstanceLabel, instanceName crd i]" crd] by auto
  obtain nk where nk: "randNodeKey lib i = Inr nk" using assms(2) by blast
  define data where "data = (if map_of (sec_Data (ob_Body ?s)) nodeKeyFile \<noteq> None then sec_Data (ob_Body ?s) else [(nodeKeyFile, nk)])"
  let ?ob = "\<lparr>ob_Kind = ''Secret'', ob_APIVersion = ''v1'',
     ob_Meta = emptyMeta\<lparr>om_Name := GetName ?s, om_Namespace := GetNamespace ?s, om_Labels := lbls\<rparr>,
     ob_Body = \<lparr>sec_Data = data, sec_Immutable = Some True, sec_Type = ''Opaque''\<rparr>\<rparr>"
  obtain r where r: "Adapt marshal ?ob i = Ok r" "rs_Object r = ?ob" "rs_Ordinal r = i"
    using Adapt_total [OF assms(1)] by blast
  have "nodeKeySecret lib marshal existing crd i = Ok (Inr r)"
    using l nk r(1) by (auto simp: nodeKeySecret_def Let_def data_def split: option.splits)
  moreover have "key_secret_of existing crd i r"
  proof -
    have "rs_key r = ObjectKey (fn_Namespace crd) (nodeKeySecretName crd i)"
      using r(2) key by (simp add: rs_key_def object_defs)
    moreover have "?s = s" if "find (\<lambda>s. ObjectKeyFromObject s = ObjectKey (fn_Namespace crd) (nodeKeySecretName crd i)) existing = Some s" for s
      using FindOrDefaultCopy_find [of existing "emptySecret crd i"] that by (simp add: emptySecret_key)
    ultimately show ?thesis using r(2,3) by (auto simp: key_secret_of_def data_def)
  qed
  ultimately show ?thesis by blast
qed

lemma nodeKeySecrets_total:
  assumes "encodes marshal" and "\<And>i. \<exists>k. randNodeKey lib i = Inr k"
  shows "\<exists>rs. nodeKeySecrets lib marshal existing crd xs = Ok (Inr rs) \<and> list_all2 (key_secret_of existing crd) xs rs"
proof (induction xs)
  case Nil
  then show ?case by simp
next
  case (Cons i xs)
  with nodeKeySecret_total [OF assms, of existing crd i] show ?case by auto
qed

lemma BuildNodeKeySecrets_distinct:
  assumes "0 \<le> sp_Replicas (fn_Spec crd)" and "int32_replicas crd" and "encodes marshal"
    and "\<And>i. \<exists>k. randNodeKey lib i = Inr k"
  shows "\<exists>rs. BuildNodeKeySecrets lib marshal existing crd = Ok (Inr rs) \<and> distinct (map rs_key rs)"
proof -
  let ?os = "ordinals (sp_Replicas (fn_Spec crd))"
  obtain rs where rs: "nodeKeySecrets lib marshal existing crd ?os = Ok (Inr rs)" "list_all2 (key_secret_of existing crd) ?os rs"
    using nodeKeySecrets_total [OF assms(3,4)] by blast
  have "map rs_key rs = map (\<lambda>i. ObjectKey (fn_Namespace crd) (nodeKeySecretName crd i)) ?os"
    using rs(2) by (induction rule: list_all2_induct) (auto simp: key_secret_of_def)
  moreover have "distinct (map (nodeKeySecretName crd) ?os)"
    using ordinals_is_ordinal [OF assms(2)] by (intro node_key_names.distinct_nm) simp_all
  ultimately have "distinct (map rs_key rs)" by (simp add: distinct_map inj_on_def)
  with rs(1) assms(1) show ?thesis by (simp add: BuildNodeKeySecrets_def)
qed

subsection \<open>Property\<close>

text \<open>C15: Node identities are stable. When keys can be generated, \<open>BuildNodeKeySecrets\<close> wants one
  immutable secret with a node key per ordinal; where the cluster already holds a secret with a node
  key for an ordinal, the wanted secret carries exactly its data.\<close>

theorem BuildNodeKeySecrets_stable:
  assumes "0 \<le> sp_Replicas (fn_Spec crd)" and "encodes marshal"
    and "\<And>i. \<exists>k. randNodeKey lib i = Inr k"
  shows "\<exists>rs. BuildNodeKeySecrets lib marshal existing crd = Ok (Inr rs) \<and>
    list_all2 (\<lambda>i r. rs_key r = ObjectKey (fn_Namespace crd) (nodeKeySecretName crd i) \<and>
        sec_Immutable (ob_Body (rs_Object r)) = Some True \<and>
        map_of (sec_Data (ob_Body (rs_Object r))) nodeKeyFile \<noteq> None \<and>
        (\<forall>s. find (\<lambda>s. ObjectKeyFromObject s = rs_key r) existing = Some s \<longrightarrow>
           map_of (sec_Data (ob_Body s)) nodeKeyFile \<noteq> None \<longrightarrow>
           sec_Data (ob_Body (rs_Object r)) = sec_Data (ob_Body s)))
      (ordinals (sp_Replicas (fn_Spec crd))) rs"
proof -
  obtain rs where "nodeKeySecrets lib marshal existing crd (ordinals (sp_Replicas (fn_Spec crd))) = Ok (Inr rs)"
      "list_all2 (key_secret_of existing crd) (ordinals (sp_Replicas (fn_Spec crd))) rs"
    using nodeKeySecrets_total [OF assms(2,3)] by blast
  then show ?thesis using assms(1)
    by (auto simp: BuildNodeKeySecrets_def key_secret_of_def elim!: list_all2_mono)
qed

definition sample_keys :: key_lib where
  "sample_keys = \<lparr>kl_GenerateKey = (\<lambda>i. Inr (FormatInt i)), kl_Public = id, kl_sha256 = id, kl_hex = id,
     kl_Marshal = (\<lambda>nk. Inr (npk_Value (nk_PrivKey nk))),
     kl_Unmarshal = (\<lambda>s. Inr \<lparr>nk_PrivKey = \<lparr>npk_Type = [], npk_Value = s\<rparr>\<rparr>)\<rparr>"

definition sample_secret :: Secret where
  "sample_secret = (emptySecret sample_crd 1)\<lparr>ob_Body := \<lparr>sec_Data = [(nodeKeyFile, ''kept'')],
     sec_Immutable = Some True, sec_Type = ''Opaque''\<rparr>\<rparr>"

lemma sample_keys_total: "\<exists>k. randNodeKey sample_keys i = Inr k"
  by (simp add: randNodeKey_def sample_keys_def)

definition sample_secret_marshal :: "SecretBody marshaler" where
  "sample_secret_marshal ob = Inr (GetName ob)"

theorem BuildNodeKeySecrets_stable_witness:
  "\<exists>rs. BuildNodeKeySecrets sample_keys sample_secret_marshal [sample_secret] sample_crd = Ok (Inr rs) \<and>
     length rs = 3 \<and> sec_Data (ob_Body (rs_Object (rs ! 1))) = [(nodeKeyFile, ''kept'')]"
proof -
  have o3: "ordinals (sp_Replicas (fn_Spec sample_crd)) = [0, 1, 2]" by code_simp
  have "encodes sample_secret_marshal" by (simp add: encodes_def sample_secret_marshal_def)
  moreover have "0 \<le> sp_Replicas (fn_Spec sample_crd)" by (simp add: sample_crd_defs)
  ultimately show ?thesis
    using BuildNodeKeySecrets_stable [OF _ _ sample_keys_total, of sample_crd sample_secret_marshal "[sample_secret]"]
    unfolding o3 by (auto simp: list_all2_Cons1 sample_secret_def emptySecret_def object_defs)
qed

end
