(* ===== verification/Service_Builder.thy ===== *)
theory Service_Builder
  imports Fullnode_Names Control_Loops
begin

text \<open>
  \<^verbatim>\<open>internal/fullnode/service_builder.go\<close>: one p2p service per instance, of which only the
  first \<open>maxP2PExternalAddresses\<close> are reachable from outside, one sentry service per instance of a
  sentry, and one RPC service.
\<close>

definition maxP2PServiceDefault :: int where "maxP2PServiceDefault = 1"

definition clamp :: "int \<Rightarrow> int \<Rightarrow> int \<Rightarrow> int" where
  "clamp v lo hi = (if v < lo then lo else if v > hi then hi else v)"

definition svcObject :: "CosmosFullNode \<Rightarrow> string \<Rightarrow> labels \<Rightarrow> ServiceBody \<Rightarrow> Service" where
  "svcObject crd name lbls body = \<lparr>ob_Kind = ''Service'', ob_APIVersion = ''v1'',
     ob_Meta = emptyMeta\<lparr>om_Name := name, om_Namespace := fn_Namespace crd, om_Labels := lbls\<rparr>,
     ob_Body = body\<rparr>"

definition svcPort :: "string \<Rightarrow> int \<Rightarrow> string \<Rightarrow> ServicePort" where
  "svcPort n p t = \<lparr>sp_Name = n, sp_Protocol = ''TCP'', sp_Port = p, sp_TargetPort = t\<rparr>"

definition maxExternal :: "CosmosFullNode \<Rightarrow> int" where
  "maxExternal crd =
     (let mx = (case ss_MaxP2PExternalAddresses (sp_Service (fn_Spec crd)) of
                  None \<Rightarrow> maxP2PServiceDefault | Some v \<Rightarrow> v)
      in clamp mx 0 (sp_Replicas (fn_Spec crd)))"

definition mergeServiceMeta :: "ServiceOverridesSpec \<Rightarrow> Service \<Rightarrow> Service" where
  "mergeServiceMeta tpl svc = upd_meta (\<lambda>m. m\<lparr>
     om_Labels := preserveMergeInto (om_Labels m) (md_Labels (so_Metadata tpl)),
     om_Annotations := preserveMergeInto (om_Annotations m) (md_Annotations (so_Metadata tpl))\<rparr>) svc"

definition p2pService :: "ServiceBody marshaler \<Rightarrow> CosmosFullNode \<Rightarrow> int \<Rightarrow> ServiceBody Resource exec" where
  "p2pService marshal crd i =
     exec_bind (defaultLabels crd [InstanceLabel, instanceName crd i, ComponentLabel, ''p2p'']) (\<lambda>lbls.
       let tpl = ss_P2PTemplate (sp_Service (fn_Spec crd));
           svc = svcObject crd (p2pServiceName crd i) lbls (emptyServiceBody\<lparr>
             svc_Ports := [svcPort ''p2p'' p2pPort ''p2p''],
             svc_Selector := [(InstanceLabel, instanceName crd i)]\<rparr>);
           svc = (if i < maxExternal crd
                  then (mergeServiceMeta tpl svc)\<lparr>ob_Body := (ob_Body svc)\<lparr>
                    svc_Type := valOrDefault (so_Type tpl) ''LoadBalancer'',
                    svc_ExternalTrafficPolicy := valOrDefault (so_ExternalTrafficPolicy tpl) ''Local''\<rparr>\<rparr>
                  else svc\<lparr>ob_Body := (ob_Body svc)\<lparr>svc_Type := ''ClusterIP''\<rparr>\<rparr>)
       in Adapt marshal svc i)"

definition sentryService :: "ServiceBody marshaler \<Rightarrow> CosmosFullNode \<Rightarrow> int \<Rightarrow> ServiceBody Resource exec" where
  "sentryService marshal crd i =
     exec_bind (defaultLabels crd [InstanceLabel, instanceName crd i, ComponentLabel, ''sentry'']) (\<lambda>lbls.
       let svc = svcObject crd (sentryServiceName crd i) lbls (emptyServiceBody\<lparr>
             svc_Ports := [svcPort ''sentry-privval'' privvalPort ''privval''],
             svc_Selector := [(InstanceLabel, instanceName crd i)]\<rparr>);
           svc = mergeServiceMeta (ss_P2PTemplate (sp_Service (fn_Spec crd))) svc;
           svc = svc\<lparr>ob_Body := (ob_Body svc)\<lparr>svc_Type := ''ClusterIP'', svc_PublishNotReadyAddresses := True\<rparr>\<rparr>
       in Adapt marshal svc (sp_Replicas (fn_Spec crd) + i))"

definition rpcService :: "CosmosFullNode \<Rightarrow> Service exec" where
  "rpcService crd =
     exec_bind (defaultLabels crd [ComponentLabel, ''rpc'']) (\<lambda>lbls.
       let rpcSpec = ss_RPCTemplate (sp_Service (fn_Spec crd));
           svc = svcObject crd (rpcServiceName crd) lbls (emptyServiceBody\<lparr>
             svc_Ports := [svcPort ''api'' apiPort ''api'', svcPort ''jsonrpc'' jsonrpcPort ''jsonrpc'',
               svcPort ''jsonrpc-ws'' jsonrpcWsPort ''jsonrpc-ws'', svcPort ''rosetta'' rosettaPort ''rosetta'',
               svcPort ''grpc'' grpcPort ''grpc'', svcPort ''rpc'' rpcPort ''rpc'',
               svcPort ''grpc-web'' grpcWebPort ''grpc-web''],
             svc_Selector := [(NameLabel, appName crd)], svc_Type := ''ClusterIP''\<rparr>);
           svc = upd_meta NormalizeMetadata (mergeServiceMeta rpcSpec svc);
           svc = (case so_ExternalTrafficPolicy rpcSpec of None \<Rightarrow> svc
                  | Some v \<Rightarrow> svc\<lparr>ob_Body := (ob_Body svc)\<lparr>svc_ExternalTrafficPolicy := v\<rparr>\<rparr>);
           svc = (case so_Type rpcSpec of None \<Rightarrow> svc
                  | Some v \<Rightarrow> svc\<lparr>ob_Body := (ob_Body svc)\<lparr>svc_Type := v\<rparr>\<rparr>)
       in Ok svc)"

text \<open>
  \<open>BuildServices\<close>. The slice is made with \<open>Replicas\<close> elements, twice as many for a sentry;
  \<open>make\<close> panics on a negative length, which the doubling of an \<open>int32\<close> can give.
\<close>

definition BuildServices :: "ServiceBody marshaler \<Rightarrow> CosmosFullNode \<Rightarrow> ServiceBody Resource list exec" where
  "BuildServices marshal crd =
     (let n = sp_Replicas (fn_Spec crd);
          size = (if sp_Type (fn_Spec crd) = Sentry then int32_wrap (n * 2) else n)
      in if size < 0 then Panic ''makeslice: len out of range''
         else
           exec_bind (exec_collect (\<lambda>i. exec_bind (p2pService marshal crd i) (\<lambda>r. Ok (Some r))) (ordinals n)) (\<lambda>p2p.
           exec_bind (rpcService crd) (\<lambda>rpc.
           exec_bind (if sp_Type (fn_Spec crd) = Sentry
                      then exec_collect (\<lambda>i. exec_bind (sentryService marshal crd i) (\<lambda>r. Ok (Some r))) (ordinals n)
                      else Ok []) (\<lambda>sentry.
           exec_bind (Adapt marshal rpc size) (\<lambda>r. Ok (p2p @ sentry @ [r]))))))"

subsection \<open>Lemmas\<close>

lemma length_normalizeValue_le: "length (normalizeValue val limit allowed) \<le> length val"
proof -
  let ?f = "filter (\<lambda>c. is_alnum c \<or> c \<in> set allowed) val"
  have "length (trim_right p (trim_left p ?f)) \<le> length ?f" for p
    using length_dropWhile_le [of p "rev (dropWhile p ?f)"] length_dropWhile_le [of p ?f]
    by (simp add: trim_right_def trim_left_def)
  then have "length (trim_right p (trim_left p ?f)) \<le> length val" for p
    using length_filter_le order_trans by blast
  then show ?thesis by (simp add: normalizeValue_alt length_trimMiddle min.coboundedI1)
qed

lemma svcObject_simps [simp]:
  "GetName (svcObject crd n l b) = n" "GetNamespace (svcObject crd n l b) = fn_Namespace crd"
  "ob_Body (svcObject crd n l b) = b"
  by (simp_all add: svcObject_def object_defs)

lemma mergeServiceMeta_simps [simp]:
  "GetName (mergeServiceMeta tpl svc) = GetName svc" "GetNamespace (mergeServiceMeta tpl svc) = GetNamespace svc"
  "ob_Body (mergeServiceMeta tpl svc) = ob_Body svc"
  by (simp_all add: mergeServiceMeta_def object_defs)

lemma GetName_body [simp]: "GetName (ob\<lparr>ob_Body := b\<rparr>) = GetName ob" "GetNamespace (ob\<lparr>ob_Body := b\<rparr>) = GetNamespace ob"
  by (simp_all add: object_defs)

text \<open>The p2p service of an instance: its name, what it selects, and whether it is external.\<close>

definition p2p_of :: "CosmosFullNode \<Rightarrow> int \<Rightarrow> ServiceBody Resource \<Rightarrow> bool" where
  "p2p_of crd i r \<longleftrightarrow> rs_key r = ObjectKey (fn_Namespace crd) (p2pServiceName crd i) \<and> rs_Ordinal r = i \<and>
     svc_Selector (ob_Body (rs_Object r)) = [(InstanceLabel, instanceName crd i)] \<and>
     svc_Type (ob_Body (rs_Object r)) =
       (if i < maxExternal crd then valOrDefault (so_Type (ss_P2PTemplate (sp_Service (fn_Spec crd)))) ''LoadBalancer''
        else ''ClusterIP'')"

definition sentry_of :: "CosmosFullNode \<Rightarrow> int \<Rightarrow> ServiceBody Resource \<Rightarrow> bool" where
  "sentry_of crd i r \<longleftrightarrow> rs_key r = ObjectKey (fn_Namespace crd) (sentryServiceName crd i) \<and>
     rs_Ordinal r = sp_Replicas (fn_Spec crd) + i \<and>
     svc_Selector (ob_Body (rs_Object r)) = [(InstanceLabel, instanceName crd i)] \<and>
     svc_Type (ob_Body (rs_Object r)) = ''ClusterIP'' \<and> svc_PublishNotReadyAddresses (ob_Body (rs_Object r))"

lemma p2pService_total:
  assumes "encodes marshal"
  shows "\<exists>r. p2pService marshal crd i = Ok r \<and> p2p_of crd i r"
proof -
  obtain lbls where l: "defaultLabels crd [InstanceLabel, instanceName crd i, ComponentLabel, ''p2p''] = Ok lbls"
    using defaultLabels_total [of "[InstanceLabel, instanceName crd i, ComponentLabel, ''p2p'']" crd] by auto
  obtain svc where "p2pService marshal crd i = Adapt marshal svc i"
      "p2p_of crd i \<lparr>rs_Object = svc, rs_Revision = r, rs_Ordinal = i\<rparr>" for r
    by (simp add: p2pService_def l Let_def p2p_of_def rs_key_def ObjectKeyFromObject_def)
  with Adapt_total [OF assms, of svc i] show ?thesis by (auto simp: p2p_of_def rs_key_def)
qed

lemma sentryService_total:
  assumes "encodes marshal"
  shows "\<exists>r. sentryService marshal crd i = Ok r \<and> sentry_of crd i r"
proof -
  obtain lbls where l: "defaultLabels crd [InstanceLabel, instanceName crd i, ComponentLabel, ''sentry''] = Ok lbls"
    using defaultLabels_total [of "[InstanceLabel, instanceName crd i, ComponentLabel, ''sentry'']" crd] by auto
  let ?i = "sp_Replicas (fn_Spec crd) + i"
  obtain svc where "sentryService marshal crd i = Adapt marshal svc ?i"
      "sentry_of crd i \<lparr>rs_Object = svc, rs_Revision = r, rs_Ordinal = ?i\<rparr>" for r
    by (simp add: sentryService_def l Let_def sentry_of_def rs_key_def ObjectKeyFromObject_def)
  with Adapt_total [OF assms, of svc ?i] show ?thesis by (auto simp: sentry_of_def rs_key_def)
qed

lemma rpcService_total:
  "\<exists>svc. rpcService crd = Ok svc \<and> GetName svc = ToName (rpcServiceName crd) \<and> GetNamespace svc = fn_Namespace crd"
proof -
  obtain lbls where "defaultLabels crd [ComponentLabel, ''rpc''] = Ok lbls"
    using defaultLabels_total [of "[ComponentLabel, ''rpc'']" crd] by auto
  then show ?thesis
    by (auto simp: rpcService_def Let_def NormalizeMetadata_def svcObject_def mergeServiceMeta_def object_defs
        split: option.splits)
qed

text \<open>A family of resources built per ordinal, from the totality of one.\<close>

lemma collect_total:
  assumes "\<And>i. \<exists>r. mk i = Ok r \<and> P i r"
  shows "\<exists>rs. exec_collect (\<lambda>i. exec_bind (mk i) (\<lambda>r. Ok (Some r))) xs = Ok rs \<and> list_all2 P xs rs"
proof (induction xs)
  case Nil
  then show ?case by simp
next
  case (Cons i xs)
  obtain r where "mk i = Ok r" "P i r" using assms by blast
  with Cons show ?case by auto
qed

lemma list_all2_map_eq: "list_all2 P xs ys \<Longrightarrow> (\<And>x y. P x y \<Longrightarrow> g y = f x) \<Longrightarrow> map g ys = map f xs"
  by (induction rule: list_all2_induct) auto

lemma p2p_sentry_rpc_names:
  "p2pServiceName crd i \<noteq> sentryServiceName crd j" "p2pServiceName crd i \<noteq> ToName (rpcServiceName crd)"
  "sentryServiceName crd i \<noteq> ToName (rpcServiceName crd)"
proof -
  show "p2pServiceName crd i \<noteq> sentryServiceName crd j"
    by (simp add: p2pServiceName_def sentryServiceName_def)
  have le: "length (ToName (rpcServiceName crd)) \<le> length (appName crd) + 4"
    using length_normalizeValue_le [of "rpcServiceName crd" 253 "''-.''"] by (simp add: ToName_def rpcServiceName_def)
  show "p2pServiceName crd i \<noteq> ToName (rpcServiceName crd)" "sentryServiceName crd i \<noteq> ToName (rpcServiceName crd)"
    using le by (auto simp: p2pServiceName_def sentryServiceName_def dest!: arg_cong [of _ _ length])
qed

subsection \<open>Property\<close>

lemma int32_double: "0 \<le> n \<Longrightarrow> n < 2 ^ 30 \<Longrightarrow> int32_wrap (n * 2) = n * 2"
  by (simp add: int32_wrap_def)

lemma BuildServices_spec:
  assumes "0 \<le> sp_Replicas (fn_Spec crd)" and "sp_Replicas (fn_Spec crd) < 2 ^ 30"
    and enc: "encodes marshal"
  shows "\<exists>p2p sentry rpc. BuildServices marshal crd = Ok (p2p @ sentry @ [rpc]) \<and>
    list_all2 (p2p_of crd) (ordinals (sp_Replicas (fn_Spec crd))) p2p \<and>
    list_all2 (sentry_of crd) (if sp_Type (fn_Spec crd) = Sentry then ordinals (sp_Replicas (fn_Spec crd)) else []) sentry \<and>
    GetName (rs_Object rpc) = ToName (rpcServiceName crd) \<and>
    distinct (map rs_key (p2p @ sentry @ [rpc]))"
proof -
  let ?n = "sp_Replicas (fn_Spec crd)"
  let ?s = "if sp_Type (fn_Spec crd) = Sentry then ordinals ?n else []"
  obtain p2p where p: "exec_collect (\<lambda>i. exec_bind (p2pService marshal crd i) (\<lambda>r. Ok (Some r))) (ordinals ?n) = Ok p2p"
      "list_all2 (p2p_of crd) (ordinals ?n) p2p"
    using collect_total [where mk = "p2pService marshal crd", OF p2pService_total [OF enc]] by blast
  obtain sentry where s: "(if sp_Type (fn_Spec crd) = Sentry
        then exec_collect (\<lambda>i. exec_bind (sentryService marshal crd i) (\<lambda>r. Ok (Some r))) (ordinals ?n) else Ok []) = Ok sentry"
      "list_all2 (sentry_of crd) ?s sentry"
    using collect_total [where mk = "sentryService marshal crd" and P = "sentry_of crd", OF sentryService_total [OF enc]] by (cases "sp_Type (fn_Spec crd) = Sentry") auto
  obtain svc where svc: "rpcService crd = Ok svc" "GetName svc = ToName (rpcServiceName crd)" "GetNamespace svc = fn_Namespace crd"
    using rpcService_total by blast
  obtain rpc where rpc: "Adapt marshal svc (if sp_Type (fn_Spec crd) = Sentry then int32_wrap (?n * 2) else ?n) = Ok rpc"
      "rs_Object rpc = svc" using Adapt_total [OF enc] by blast
  have res: "BuildServices marshal crd = Ok (p2p @ sentry @ [rpc])"
    using assms(1,2) p(1) s(1) svc(1) rpc(1) int32_double [OF assms(1,2)] by (auto simp: BuildServices_def Let_def)
  let ?k = "ObjectKey (fn_Namespace crd)"
  have kp: "map rs_key p2p = map (\<lambda>i. ?k (p2pServiceName crd i)) (ordinals ?n)"
    by (rule list_all2_map_eq [OF p(2)]) (simp add: p2p_of_def)
  have ks: "map rs_key sentry = map (\<lambda>i. ?k (sentryServiceName crd i)) ?s"
    by (rule list_all2_map_eq [OF s(2)]) (simp add: sentry_of_def)
  have kr: "rs_key rpc = ?k (ToName (rpcServiceName crd))"
    using rpc(2) svc by (simp add: rs_key_def ObjectKeyFromObject_def)
  have ord: "\<And>i. i \<in> set (ordinals ?n) \<Longrightarrow> is_ordinal i" using assms(2) by (auto simp: is_ordinal_def)
  have "distinct (map (p2pServiceName crd) (ordinals ?n))" "distinct (map (sentryServiceName crd) ?s)"
    using ord by (auto intro!: p2p_names.distinct_nm sentry_names.distinct_nm)
  then have d: "distinct (map (\<lambda>i. ?k (p2pServiceName crd i)) (ordinals ?n))"
      "distinct (map (\<lambda>i. ?k (sentryServiceName crd i)) ?s)"
    by (simp_all add: distinct_map inj_on_def)
  have "distinct (map rs_key (p2p @ sentry @ [rpc]))"
    unfolding map_append list.map kp ks kr
    using d by (auto simp: p2p_sentry_rpc_names p2p_sentry_rpc_names [symmetric] simp del: set_ordinals)
  with res p(2) s(2) rpc(2) svc(2) show ?thesis by blast
qed

lemma BuildServices_distinct:
  assumes "0 \<le> sp_Replicas (fn_Spec crd)" and "sp_Replicas (fn_Spec crd) < 2 ^ 30" and "encodes marshal"
  shows "\<exists>rs. BuildServices marshal crd = Ok rs \<and> distinct (map rs_key rs)"
  using BuildServices_spec [OF assms] by blast

text \<open>C14: \<open>BuildServices\<close> wants exactly its services. With fewer than \<open>2^30\<close> replicas (so that doubling
  does not overflow) there is no panic; the result is one p2p service per instance, in order, the
  first \<open>maxExternal\<close> of the configured external type and all others internal, then for a sentry
  one internal service per instance that publishes pods that are not ready, then the RPC service;
  every p2p and sentry service selects the pod of its instance and all keys differ.\<close>

theorem BuildServices_exact:
  assumes "0 \<le> sp_Replicas (fn_Spec crd)" and "sp_Replicas (fn_Spec crd) < 2 ^ 30"
    and enc: "encodes marshal"
  shows "\<exists>p2p sentry rpc. BuildServices marshal crd = Ok (p2p @ sentry @ [rpc]) \<and>
    list_all2 (p2p_of crd) (ordinals (sp_Replicas (fn_Spec crd))) p2p \<and>
    list_all2 (sentry_of crd) (if sp_Type (fn_Spec crd) = Sentry then ordinals (sp_Replicas (fn_Spec crd)) else []) sentry \<and>
    GetName (rs_Object rpc) = ToName (rpcServiceName crd) \<and>
    distinct (map rs_key (p2p @ sentry @ [rpc]))"
  using BuildServices_spec [OF assms] .

definition ref_svc_marshal :: "ServiceBody marshaler" where
  "ref_svc_marshal ob = Inr (GetName ob)"

theorem BuildServices_exact_witness:
  "\<exists>p2p sentry rpc. BuildServices ref_svc_marshal sample_crd = Ok (p2p @ sentry @ [rpc]) \<and> length p2p = 3 \<and>
     length sentry = 0 \<and> distinct (map rs_key (p2p @ sentry @ [rpc]))"
proof -
  have r: "sp_Replicas (fn_Spec sample_crd) = 3" "sp_Type (fn_Spec sample_crd) \<noteq> Sentry"
    by (simp_all add: sample_crd_defs FullNode_def Sentry_def)
  then obtain p2p sentry rpc where "BuildServices ref_svc_marshal sample_crd = Ok (p2p @ sentry @ [rpc])"
      "list_all2 (p2p_of sample_crd) (ordinals 3) p2p" "list_all2 (sentry_of sample_crd) [] sentry"
      "distinct (map rs_key (p2p @ sentry @ [rpc]))"
    using BuildServices_exact [of sample_crd ref_svc_marshal] by (auto simp: ref_svc_marshal_def encodes_def)
  moreover from this have "length p2p = 3" by (metis length_ordinals list_all2_lengthD nat_numeral)
  ultimately show ?thesis by auto
qed

end
