(* ===== verification/Peers.thy ===== *)
theory Peers
  imports Node_Keys Service_Builder
begin

text \<open>
  \<^verbatim>\<open>internal/fullnode/peer_collector.go\<close>: the peers of a full node, collected from the node-key
  secrets and the p2p services. \<open>Peers\<close> is a Go map, here an association list with distinct keys.
\<close>

record Peer =
  pe_NodeID :: string
  pe_PrivateAddress :: string
  pe_ExternalAddress :: string
  pe_hasExternalAddress :: bool

definition emptyPeer :: Peer where
  "emptyPeer = \<lparr>pe_NodeID = [], pe_PrivateAddress = [], pe_ExternalAddress = [], pe_hasExternalAddress = False\<rparr>"

type_synonym Peers = "(ObjectKey \<times> Peer) list"

text \<open>\<open>net.JoinHostPort\<close>.\<close>

definition JoinHostPort :: "string \<Rightarrow> string \<Rightarrow> string" where
  "JoinHostPort host port =
     (if CHR '':'' \<in> set host then ''['' @ host @ '']:'' @ port else host @ '':'' @ port)"

definition PrivatePeer :: "Peer \<Rightarrow> string" where
  "PrivatePeer peer = pe_NodeID peer @ ''@'' @ pe_PrivateAddress peer"

definition ExternalPeer :: "Peer \<Rightarrow> string" where
  "ExternalPeer peer =
     (if pe_ExternalAddress peer = [] then pe_NodeID peer @ ''@'' @ JoinHostPort ''0.0.0.0'' (FormatInt p2pPort)
      else pe_NodeID peer @ ''@'' @ pe_ExternalAddress peer)"

definition Peers_Get :: "Peers \<Rightarrow> string \<Rightarrow> string \<Rightarrow> Peer" where
  "Peers_Get peers name namespace =
     (case map_of peers (ObjectKey namespace name) of None \<Rightarrow> emptyPeer | Some p \<Rightarrow> p)"

definition Peers_Except :: "Peers \<Rightarrow> string \<Rightarrow> string \<Rightarrow> Peers" where
  "Peers_Except peers name namespace = filter (\<lambda>kp. fst kp \<noteq> ObjectKey namespace name) peers"

fun HasIncompleteExternalAddress :: "Peers \<Rightarrow> bool" where
  "HasIncompleteExternalAddress [] = False"
| "HasIncompleteExternalAddress (kp # peers) =
     (if pe_hasExternalAddress (snd kp) \<and> pe_ExternalAddress (snd kp) = [] then True
      else HasIncompleteExternalAddress peers)"

definition NodeIDs :: "Peers \<Rightarrow> string list" where
  "NodeIDs peers = sort (map (\<lambda>kp. pe_NodeID (snd kp)) peers)"

definition AllExternal :: "Peers \<Rightarrow> string list" where
  "AllExternal peers = sort (map (\<lambda>kp. ExternalPeer (snd kp)) peers)"

definition AllPrivate :: "Peers \<Rightarrow> string list" where
  "AllPrivate peers = sort (map (\<lambda>kp. PrivatePeer (snd kp)) peers)"

subsection \<open>Collecting\<close>

record peer_reads =
  rd_Secret :: "string \<Rightarrow> goerror + Secret"
  rd_Service :: "string \<Rightarrow> goerror + Service"

definition peer_objectKey :: "CosmosFullNode \<Rightarrow> int \<Rightarrow> ObjectKey" where
  "peer_objectKey crd ordinal = ObjectKey (fn_Namespace crd) (instanceName crd ordinal)"

definition addExternalAddress :: "peer_reads \<Rightarrow> Peers \<Rightarrow> CosmosFullNode \<Rightarrow> int \<Rightarrow> goerror + Peers" where
  "addExternalAddress rd peers crd ordinal =
     (let svcName = p2pServiceName crd ordinal
      in case rd_Service rd svcName of
           Inl err \<Rightarrow> Inl (wrap (''get server '' @ svcName @ '': '') err)
         | Inr svc \<Rightarrow>
             if svc_Type (ob_Body svc) \<noteq> ''LoadBalancer'' then Inr peers
             else
               let objKey = peer_objectKey crd ordinal;
                   info = (case map_of peers objKey of None \<Rightarrow> emptyPeer | Some p \<Rightarrow> p)\<lparr>pe_hasExternalAddress := True\<rparr>;
                   info = (case svc_IngressHosts (ob_Body svc) of
                             [] \<Rightarrow> info
                           | lb # _ \<Rightarrow>
                               (let host = (if fst lb \<noteq> [] then fst lb else snd lb)
                                in if host \<noteq> [] then info\<lparr>pe_ExternalAddress := JoinHostPort host (FormatInt p2pPort)\<rparr>
                                   else info))
               in Inr (AList.update objKey info peers))"

definition collectPeer :: "key_lib \<Rightarrow> peer_reads \<Rightarrow> CosmosFullNode \<Rightarrow> int \<Rightarrow> Peers \<Rightarrow> ReconcileError + Peers" where
  "collectPeer lib rd crd i peers =
     (let secretName = nodeKeySecretName crd i
      in case rd_Secret rd secretName of
           Inl err \<Rightarrow> Inl (TransientError (wrap (''get secret '' @ secretName @ '': '') err))
         | Inr secret \<Rightarrow>
             (case kl_Unmarshal lib (label_get (sec_Data (ob_Body secret)) nodeKeyFile) of
                Inl err \<Rightarrow> Inl (UnrecoverableError err)
              | Inr nodeKey \<Rightarrow>
                  (let peers = AList.update (peer_objectKey crd i)
                         (emptyPeer\<lparr>pe_NodeID := NodeKey_ID lib nodeKey,
                            pe_PrivateAddress := p2pServiceName crd i @ ''.'' @ GetNamespace secret @
                              ''.svc.cluster.local:'' @ FormatInt p2pPort\<rparr>) peers
                   in case addExternalAddress rd peers crd i of
                        Inl err \<Rightarrow> Inl (TransientError err)
                      | Inr peers \<Rightarrow> Inr peers)))"

fun collect_loop :: "key_lib \<Rightarrow> peer_reads \<Rightarrow> CosmosFullNode \<Rightarrow> int list \<Rightarrow> Peers \<Rightarrow> ReconcileError + Peers" where
  "collect_loop lib rd crd [] peers = Inr peers"
| "collect_loop lib rd crd (i # is) peers =
     (case collectPeer lib rd crd i peers of Inl err \<Rightarrow> Inl err | Inr peers' \<Rightarrow> collect_loop lib rd crd is peers')"

definition PeerCollector_Collect :: "key_lib \<Rightarrow> peer_reads \<Rightarrow> CosmosFullNode \<Rightarrow> ReconcileError + Peers" where
  "PeerCollector_Collect lib rd crd = collect_loop lib rd crd (ordinals (sp_Replicas (fn_Spec crd))) []"

subsection \<open>Lemmas\<close>

lemma HasIncompleteExternalAddress_iff:
  "HasIncompleteExternalAddress peers \<longleftrightarrow>
     (\<exists>kp \<in> set peers. pe_hasExternalAddress (snd kp) \<and> pe_ExternalAddress (snd kp) = [])"
  by (induction peers) auto

lemma Peers_Except_map_of: "map_of (Peers_Except peers n ns) = (map_of peers)(ObjectKey ns n := None)"
  by (induction peers) (auto simp: Peers_Except_def)

lemma JoinHostPort_nonempty: "JoinHostPort h p \<noteq> []"
  by (simp add: JoinHostPort_def)

text \<open>What one iteration leaves in the map.\<close>

definition address_of :: "Service \<Rightarrow> string" where
  "address_of svc =
     (if svc_Type (ob_Body svc) \<noteq> ''LoadBalancer'' then []
      else case svc_IngressHosts (ob_Body svc) of [] \<Rightarrow> []
        | lb # _ \<Rightarrow> if fst lb \<noteq> [] then JoinHostPort (fst lb) (FormatInt p2pPort)
            else if snd lb \<noteq> [] then JoinHostPort (snd lb) (FormatInt p2pPort) else [])"

lemma addExternalAddress_Inr:
  assumes "addExternalAddress rd peers crd i = Inr peers'" and "map_of peers (peer_objectKey crd i) = Some p"
    and "pe_ExternalAddress p = []" and "\<not> pe_hasExternalAddress p"
  shows "\<exists>svc. rd_Service rd (p2pServiceName crd i) = Inr svc \<and>
    map_of peers' = (map_of peers)(peer_objectKey crd i \<mapsto> p\<lparr>pe_ExternalAddress := address_of svc,
       pe_hasExternalAddress := (svc_Type (ob_Body svc) = ''LoadBalancer'')\<rparr>)"
proof -
  obtain svc where svc: "rd_Service rd (p2pServiceName crd i) = Inr svc"
    using assms(1) by (auto simp: addExternalAddress_def Let_def split: sum.splits)
  show ?thesis
  proof (cases "svc_Type (ob_Body svc) = ''LoadBalancer''")
    case True
    with assms svc show ?thesis
      by (cases "svc_IngressHosts (ob_Body svc)")
        (auto simp: addExternalAddress_def Let_def address_of_def update_conv' JoinHostPort_nonempty)
  next
    case False
    with assms svc have "peers' = peers" "p\<lparr>pe_ExternalAddress := [], pe_hasExternalAddress := False\<rparr> = p"
      by (cases p; simp add: addExternalAddress_def Let_def)+
    with False svc assms(2) show ?thesis by (auto simp: address_of_def)
  qed
qed

lemma collectPeer_Inr:
  assumes "collectPeer lib rd crd i peers = Inr peers'"
  shows "\<exists>secret nodeKey svc. rd_Secret rd (nodeKeySecretName crd i) = Inr secret \<and>
    kl_Unmarshal lib (label_get (sec_Data (ob_Body secret)) nodeKeyFile) = Inr nodeKey \<and>
    rd_Service rd (p2pServiceName crd i) = Inr svc \<and>
    map_of peers' = (map_of peers)(peer_objectKey crd i \<mapsto>
      \<lparr>pe_NodeID = NodeKey_ID lib nodeKey,
       pe_PrivateAddress = p2pServiceName crd i @ ''.'' @ GetNamespace secret @ ''.svc.cluster.local:'' @ FormatInt p2pPort,
       pe_ExternalAddress = address_of svc,
       pe_hasExternalAddress = (svc_Type (ob_Body svc) = ''LoadBalancer'')\<rparr>)"
proof -
  obtain secret nodeKey p1 where s: "rd_Secret rd (nodeKeySecretName crd i) = Inr secret"
      "kl_Unmarshal lib (label_get (sec_Data (ob_Body secret)) nodeKeyFile) = Inr nodeKey"
      "addExternalAddress rd p1 crd i = Inr peers'"
      "p1 = AList.update (peer_objectKey crd i) (emptyPeer\<lparr>pe_NodeID := NodeKey_ID lib nodeKey,
         pe_PrivateAddress := p2pServiceName crd i @ ''.'' @ GetNamespace secret @
           ''.svc.cluster.local:'' @ FormatInt p2pPort\<rparr>) peers"
    using assms by (auto simp: collectPeer_def Let_def split: sum.splits)
  then show ?thesis
    using addExternalAddress_Inr [OF s(3)] by (auto simp: update_conv' emptyPeer_def)
qed

lemma collect_loop_total:
  assumes "\<And>n. \<exists>s. rd_Secret rd n = Inr s" and "\<And>n. \<exists>s. rd_Service rd n = Inr s"
    and "\<And>b. \<exists>k. kl_Unmarshal lib b = Inr k"
  shows "\<exists>peers'. collect_loop lib rd crd xs peers = Inr peers'"
proof (induction xs arbitrary: peers)
  case Nil
  then show ?case by simp
next
  case (Cons i xs)
  have ext: "\<exists>ps'. addExternalAddress rd ps crd i = Inr ps'" for ps
    using assms(2) [of "p2pServiceName crd i"] by (auto simp: addExternalAddress_def Let_def)
  obtain secret where s: "rd_Secret rd (nodeKeySecretName crd i) = Inr secret" using assms(1) by blast
  obtain k where k: "kl_Unmarshal lib (label_get (sec_Data (ob_Body secret)) nodeKeyFile) = Inr k" using assms(3) by blast
  have "\<exists>ps'. collectPeer lib rd crd i peers = Inr ps'"
    using ext s k by (auto simp: collectPeer_def Let_def split: sum.splits) (metis sum.distinct(1))
  with Cons show ?case by auto
qed

lemma distinct_addExternalAddress:
  "addExternalAddress rd peers crd i = Inr peers' \<Longrightarrow> distinct (map fst peers) \<Longrightarrow> distinct (map fst peers')"
  by (auto simp: addExternalAddress_def Let_def distinct_update split: sum.splits if_splits)

lemma distinct_collect_loop:
  "collect_loop lib rd crd xs peers = Inr peers' \<Longrightarrow> distinct (map fst peers) \<Longrightarrow> distinct (map fst peers')"
proof (induction xs arbitrary: peers)
  case Nil
  then show ?case by simp
next
  case (Cons i xs)
  then show ?case
    by (auto simp: collectPeer_def Let_def distinct_update split: sum.splits dest: distinct_addExternalAddress)
qed

lemma collect_loop_dom:
  "collect_loop lib rd crd xs peers = Inr peers' \<Longrightarrow>
   dom (map_of peers') = dom (map_of peers) \<union> peer_objectKey crd ` set xs"
proof (induction xs arbitrary: peers)
  case Nil
  then show ?case by simp
next
  case (Cons i xs)
  from Cons.prems obtain p1 where p1: "collectPeer lib rd crd i peers = Inr p1" "collect_loop lib rd crd xs p1 = Inr peers'"
    by (auto split: sum.splits)
  obtain v where "map_of p1 = (map_of peers)(peer_objectKey crd i \<mapsto> v)" using collectPeer_Inr [OF p1(1)] by blast
  with Cons.IH [OF p1(2)] show ?case by auto
qed

lemma collect_loop_later:
  assumes "collect_loop lib rd crd xs peers = Inr peers'" and "k \<notin> peer_objectKey crd ` set xs"
  shows "map_of peers' k = map_of peers k"
  using assms
proof (induction xs arbitrary: peers)
  case Nil
  then show ?case by simp
next
  case (Cons i xs)
  from Cons.prems obtain p1 where p1: "collectPeer lib rd crd i peers = Inr p1" "collect_loop lib rd crd xs p1 = Inr peers'"
    by (auto split: sum.splits)
  obtain v where "map_of p1 = (map_of peers)(peer_objectKey crd i \<mapsto> v)" using collectPeer_Inr [OF p1(1)] by blast
  with Cons p1 show ?case by auto
qed

text \<open>The entry of an ordinal is the one its own iteration wrote.\<close>

lemma collect_loop_entry:
  assumes "collect_loop lib rd crd xs peers = Inr peers'" and "i \<in> set xs" and "distinct xs"
    and "inj_on (peer_objectKey crd) (set xs)"
  shows "\<exists>svc. rd_Service rd (p2pServiceName crd i) = Inr svc \<and>
    (\<exists>p. map_of peers' (peer_objectKey crd i) = Some p \<and> pe_ExternalAddress p = address_of svc \<and>
       pe_hasExternalAddress p = (svc_Type (ob_Body svc) = ''LoadBalancer''))"
  using assms
proof (induction xs arbitrary: peers)
  case Nil
  then show ?case by simp
next
  case (Cons j xs)
  from Cons.prems(1) obtain p1 where p1: "collectPeer lib rd crd j peers = Inr p1" "collect_loop lib rd crd xs p1 = Inr peers'"
    by (auto split: sum.splits)
  show ?case
  proof (cases "i = j")
    case True
    from Cons.prems(3,4) have "peer_objectKey crd j \<notin> peer_objectKey crd ` set xs"
      by (auto simp: inj_on_def)
    with collect_loop_later [OF p1(2)] collectPeer_Inr [OF p1(1)] True show ?thesis by auto
  next
    case False
    with Cons p1(2) show ?thesis by (auto simp: inj_on_def)
  qed
qed

lemma inj_peer_objectKey:
  "\<forall>i \<in> set xs. is_ordinal i \<Longrightarrow> inj_on (peer_objectKey crd) (set xs)"
  using instance_names.nm_inj [where crd = crd] by (auto simp: inj_on_def peer_objectKey_def)

lemma Peers_Except_collected:
  assumes "distinct (map fst peers)"
  shows "mset (Peers_Except peers n ns) = mset peers - (case map_of peers (ObjectKey ns n) of
      None \<Rightarrow> {#} | Some p \<Rightarrow> {#(ObjectKey ns n, p)#})"
  using assms
proof (induction peers)
  case Nil
  then show ?case by (simp add: Peers_Except_def)
next
  case (Cons kp peers)
  show ?case
  proof (cases "fst kp = ObjectKey ns n")
    case True
    with Cons.prems have "Peers_Except (kp # peers) n ns = peers"
      by (auto simp: Peers_Except_def filter_id_conv image_iff)
    with True show ?thesis by (cases kp) simp
  next
    case False
    with Cons show ?thesis
      by (cases kp) (auto simp: Peers_Except_def split: option.splits)
  qed
qed

subsection \<open>Properties\<close>

text \<open>C16: A successful collection knows every instance and only those, and it tells precisely whether
  an address is still missing: the keys are the instance names of all ordinals, and
  \<open>HasIncompleteExternalAddress\<close> holds exactly when the p2p service of some instance is a load
  balancer without an assigned address.\<close>

theorem Collect_complete:
  assumes "int32_replicas crd" and "PeerCollector_Collect lib rd crd = Inr peers"
  shows "dom (map_of peers) = (\<lambda>i. ObjectKey (fn_Namespace crd) (instanceName crd i)) ` {0..<sp_Replicas (fn_Spec crd)} \<and>
    (HasIncompleteExternalAddress peers \<longleftrightarrow>
      (\<exists>i \<in> {0..<sp_Replicas (fn_Spec crd)}. \<exists>svc. rd_Service rd (p2pServiceName crd i) = Inr svc \<and>
         svc_Type (ob_Body svc) = ''LoadBalancer'' \<and> address_of svc = []))"
proof
  let ?os = "ordinals (sp_Replicas (fn_Spec crd))"
  have c: "collect_loop lib rd crd ?os [] = Inr peers" using assms(2) by (simp add: PeerCollector_Collect_def)
  have so: "set ?os = {0..<sp_Replicas (fn_Spec crd)}" by (auto simp: set_eq_iff)
  have inj: "inj_on (peer_objectKey crd) (set ?os)"
    using ordinals_is_ordinal [OF assms(1)] by (intro inj_peer_objectKey) blast
  show dom: "dom (map_of peers) = (\<lambda>i. ObjectKey (fn_Namespace crd) (instanceName crd i)) ` {0..<sp_Replicas (fn_Spec crd)}"
    using collect_loop_dom [OF c] unfolding so by (simp add: peer_objectKey_def [abs_def])
  have dist: "distinct (map fst peers)" using distinct_collect_loop [OF c] by simp
  have mem: "kp \<in> set peers \<longleftrightarrow> map_of peers (fst kp) = Some (snd kp)" for kp
    using dist by (cases kp) auto
  have ent: "\<exists>svc. rd_Service rd (p2pServiceName crd i) = Inr svc \<and>
      (\<exists>p. map_of peers (peer_objectKey crd i) = Some p \<and> pe_ExternalAddress p = address_of svc \<and>
         pe_hasExternalAddress p = (svc_Type (ob_Body svc) = ''LoadBalancer''))" if "i \<in> set ?os" for i
    using collect_loop_entry [OF c that _ inj] by simp
  show "HasIncompleteExternalAddress peers \<longleftrightarrow>
      (\<exists>i \<in> {0..<sp_Replicas (fn_Spec crd)}. \<exists>svc. rd_Service rd (p2pServiceName crd i) = Inr svc \<and>
         svc_Type (ob_Body svc) = ''LoadBalancer'' \<and> address_of svc = [])" (is "?L \<longleftrightarrow> ?R")
  proof
    assume ?L
    then obtain kp where kp: "kp \<in> set peers" "pe_hasExternalAddress (snd kp)" "pe_ExternalAddress (snd kp) = []"
      by (auto simp: HasIncompleteExternalAddress_iff)
    then have "map_of peers (fst kp) = Some (snd kp)" using mem by blast
    moreover from this obtain i where "i \<in> set ?os" "fst kp = peer_objectKey crd i"
      using collect_loop_dom [OF c] by (auto simp del: set_ordinals)
    ultimately show ?R using ent [of i] kp so by (intro bexI [of _ i]) auto
  next
    assume ?R
    then obtain i svc where i: "i \<in> set ?os" "rd_Service rd (p2pServiceName crd i) = Inr svc"
        "svc_Type (ob_Body svc) = ''LoadBalancer''" "address_of svc = []" using so by blast
    with ent [of i] obtain p where "map_of peers (peer_objectKey crd i) = Some p" "pe_ExternalAddress p = []"
        "pe_hasExternalAddress p" by auto
    then show ?L using mem [of "(peer_objectKey crd i, p)"] unfolding HasIncompleteExternalAddress_iff
      by (intro bexI [of _ "(peer_objectKey crd i, p)"]) auto
  qed
qed

definition sample_reads :: peer_reads where
  "sample_reads = \<lparr>rd_Secret = (\<lambda>n. Inr ((emptySecret sample_crd 0)\<lparr>ob_Body := \<lparr>sec_Data = [(nodeKeyFile, n)],
       sec_Immutable = Some True, sec_Type = ''Opaque''\<rparr>\<rparr>)),
     rd_Service = (\<lambda>n. Inr (svcObject sample_crd n [] (emptyServiceBody\<lparr>svc_Type := ''LoadBalancer''\<rparr>)))\<rparr>"

lemma sample_collect: "\<exists>peers. PeerCollector_Collect sample_keys sample_reads sample_crd = Inr peers"
  unfolding PeerCollector_Collect_def
  by (rule collect_loop_total) (simp_all add: sample_reads_def sample_keys_def)

theorem Collect_complete_witness:
  "\<exists>peers. PeerCollector_Collect sample_keys sample_reads sample_crd = Inr peers \<and> HasIncompleteExternalAddress peers"
proof -
  have "int32_replicas sample_crd" and r: "sp_Replicas (fn_Spec sample_crd) = 3"
    by (simp_all add: int32_replicas_def sample_crd_defs)
  moreover obtain peers where peers: "PeerCollector_Collect sample_keys sample_reads sample_crd = Inr peers"
    using sample_collect by blast
  ultimately have "HasIncompleteExternalAddress peers \<longleftrightarrow>
      (\<exists>i \<in> {0..<3}. \<exists>svc. rd_Service sample_reads (p2pServiceName sample_crd i) = Inr svc \<and>
         svc_Type (ob_Body svc) = ''LoadBalancer'' \<and> address_of svc = [])"
    using Collect_complete [of sample_crd sample_keys sample_reads peers] by simp
  also have "\<dots>" by (intro bexI [of _ 0]) (simp_all add: sample_reads_def address_of_def emptyServiceBody_def)
  finally show ?thesis using peers by blast
qed

end
