(* ===== verification/Configmap_Builder.thy ===== *)
theory Configmap_Builder
  imports Peers
begin

text \<open>
  \<^verbatim>\<open>internal/fullnode/configmap_builder.go\<close>: the overlay files \<open>config.toml\<close> and \<open>app.toml\<close>
  of every instance. TOML decoding and encoding, the recursive merge of maps and the embedded
  default files are the record \<open>toml_lib\<close>. The lemmas concern the halt height, which makes a node
  stop where the next chain version takes over, and the peers a node is told about.
\<close>

text \<open>A decoded TOML document: \<open>map[string]any\<close> with the values the builder stores.\<close>

datatype toml =
    TStr string
  | TStrs "string list"
  | TBool bool
  | TInt int
  | TTable "(string \<times> toml) list"

type_synonym decodedToml = "(string \<times> toml) list"

record toml_lib =
  tl_Decode :: "string \<Rightarrow> goerror + decodedToml"
  tl_Encode :: "decodedToml \<Rightarrow> goerror + string"
  tl_Merge :: "decodedToml \<Rightarrow> decodedToml \<Rightarrow> decodedToml"
  tl_defaultCometToml :: string
  tl_defaultAppToml :: string

record ConfigMapBody =
  cm_Data :: labels

definition defaultComet :: "toml_lib \<Rightarrow> decodedToml exec" where
  "defaultComet lib = (case tl_Decode lib (tl_defaultCometToml lib) of Inl err \<Rightarrow> Panic (ge_msg err) | Inr d \<Rightarrow> Ok d)"

definition defaultApp :: "toml_lib \<Rightarrow> decodedToml exec" where
  "defaultApp lib = (case tl_Decode lib (tl_defaultAppToml lib) of Inl err \<Rightarrow> Panic (ge_msg err) | Inr d \<Rightarrow> Ok d)"

definition commaDelimited :: "string list \<Rightarrow> string" where
  "commaDelimited s = strings_Join '','' (filter (\<lambda>x. x \<noteq> []) s)"

text \<open>Setting a key under its name with underscores and its name with dashes.\<close>

definition put2 :: "string \<Rightarrow> string \<Rightarrow> toml \<Rightarrow> decodedToml \<Rightarrow> decodedToml" where
  "put2 k k' v m = AList.update k' v (AList.update k v m)"

definition put_nonempty :: "string \<Rightarrow> string \<Rightarrow> string \<Rightarrow> decodedToml \<Rightarrow> decodedToml" where
  "put_nonempty k k' v m = (if v \<noteq> [] then put2 k k' (TStr v) m else m)"

definition put_option :: "string \<Rightarrow> string \<Rightarrow> int option \<Rightarrow> decodedToml \<Rightarrow> decodedToml" where
  "put_option k k' v m = (case v of None \<Rightarrow> m | Some n \<Rightarrow> put2 k k' (TInt n) m)"

text \<open>The external address: the override's, else the one collected from the service.\<close>

definition put_external :: "CosmosFullNode \<Rightarrow> string \<Rightarrow> Peers \<Rightarrow> decodedToml \<Rightarrow> decodedToml" where
  "put_external crd inst peers p2p =
     (case map_option io_ExternalAddress (map_of (sp_InstanceOverrides (fn_Spec crd)) inst) of
        Some (Some addr) \<Rightarrow> put2 ''external_address'' ''external-address'' (TStr addr) p2p
      | _ \<Rightarrow> put_nonempty ''external_address'' ''external-address''
               (pe_ExternalAddress (Peers_Get peers inst (fn_Namespace crd))) p2p)"

definition p2pTable :: "CosmosFullNode \<Rightarrow> string \<Rightarrow> Peers \<Rightarrow> decodedToml" where
  "p2pTable crd inst peers =
     (let comet = ch_Comet (fn_Chain crd);
          privatePeers = Peers_Except peers inst (fn_Namespace crd);
          privatePeerStr = commaDelimited (AllPrivate privatePeers);
          persistentPeers = commaDelimited [privatePeerStr, cc_PersistentPeers comet];
          p2p = [(''persistent_peers'', TStr persistentPeers), (''persistent-peers'', TStr persistentPeers),
                 (''seeds'', TStr (cc_Seeds comet))];
          privateIDStr = commaDelimited (NodeIDs privatePeers);
          privateIDs = commaDelimited [privateIDStr, cc_PrivatePeerIDs comet];
          p2p = put_nonempty ''private_peer_ids'' ''private-peer-ids'' privateIDs p2p;
          unconditionalIDs = commaDelimited [privateIDStr, cc_UnconditionalPeerIDs comet];
          p2p = put_nonempty ''unconditional_peer_ids'' ''unconditional-peer-ids'' unconditionalIDs p2p;
          p2p = put_option ''max_num_inbound_peers'' ''max-num-inbound-peers'' (cc_MaxInboundPeers comet) p2p;
          p2p = put_option ''max_num_outbound_peers'' ''max-num-outbound-peers'' (cc_MaxOutboundPeers comet) p2p
      in put_external crd inst peers p2p)"

definition addConfigToml ::
  "toml_lib \<Rightarrow> CosmosFullNode \<Rightarrow> string \<Rightarrow> Peers \<Rightarrow> labels \<Rightarrow> (goerror + labels) exec" where
  "addConfigToml lib crd inst peers cmData =
     (let spec = fn_Chain crd;
          base = [];
          base = (if sp_Type (fn_Spec crd) = Sentry
                  then put2 ''tx_index'' ''tx-index'' (TTable [(''indexer'', TStr ''null'')])
                    (put2 ''priv_validator_laddr'' ''priv-validator-laddr''
                       (TStr (''tcp://0.0.0.0:'' @ FormatInt privvalPort)) base)
                  else base);
          base = (case ch_LogLevel spec of None \<Rightarrow> base | Some v \<Rightarrow> put2 ''log_level'' ''log-level'' (TStr v) base);
          base = (case ch_LogFormat spec of None \<Rightarrow> base | Some v \<Rightarrow> put2 ''log_format'' ''log-format'' (TStr v) base);
          base = AList.update ''p2p'' (TTable (p2pTable crd inst peers)) base;
          base = (case cc_CorsAllowedOrigins (ch_Comet spec) of None \<Rightarrow> base
                  | Some v \<Rightarrow> AList.update ''rpc''
                      (TTable [(''cors_allowed_origins'', TStrs v), (''cors-allowed-origins'', TStrs v)]) base)
      in exec_bind (defaultComet lib) (\<lambda>dst.
           let dst = tl_Merge lib dst base
           in Ok (case (case cc_TomlOverrides (ch_Comet spec) of
                          None \<Rightarrow> Inr dst
                        | Some overrides \<Rightarrow>
                            (case tl_Decode lib overrides of
                               Inl err \<Rightarrow> Inl (wrap ''invalid toml in comet overrides: '' err)
                             | Inr decoded \<Rightarrow> Inr (tl_Merge lib dst decoded))) of
                    Inl err \<Rightarrow> Inl err
                  | Inr dst \<Rightarrow>
                      (case tl_Encode lib dst of Inl err \<Rightarrow> Inl err
                       | Inr body \<Rightarrow> Inr (AList.update configOverlayFile body cmData)))))"

definition intStr :: "32 word option \<Rightarrow> string" where
  "intStr n = FormatInt (uint (valOrDefault n 0))"

definition addAppToml :: "toml_lib \<Rightarrow> SDKAppConfig \<Rightarrow> labels \<Rightarrow> (goerror + labels) exec" where
  "addAppToml lib app cmData =
     (let base = [(''minimum-gas-prices'', TStr (app_MinGasPrice app)),
                  (''api'', TTable [(''enabled-unsafe-cors'', TBool (app_APIEnableUnsafeCORS app))]),
                  (''grpc-web'', TTable [(''enable-unsafe-cors'', TBool (app_GRPCWebEnableUnsafeCORS app))])];
          base = (case app_HaltHeight app of None \<Rightarrow> base | Some v \<Rightarrow> AList.update ''halt-height'' (TInt (uint v)) base);
          base = (case app_Pruning app of None \<Rightarrow> base
                  | Some pruning \<Rightarrow>
                      base @ [(''pruning'', TStr (pn_Strategy pruning)),
                              (''pruning-interval'', TStr (intStr (pn_Interval pruning))),
                              (''pruning-keep-every'', TStr (intStr (pn_KeepEvery pruning))),
                              (''pruning-keep-recent'', TStr (intStr (pn_KeepRecent pruning))),
                              (''min-retain-blocks'', TInt (uint (valOrDefault (pn_MinRetainBlocks pruning) 0)))])
      in exec_bind (defaultApp lib) (\<lambda>dst.
           let dst = tl_Merge lib dst base
           in Ok (case (case app_TomlOverrides app of
                          None \<Rightarrow> Inr dst
                        | Some overrides \<Rightarrow>
                            (case tl_Decode lib overrides of
                               Inl err \<Rightarrow> Inl (wrap ''invalid toml in app overrides: '' err)
                             | Inr decoded \<Rightarrow> Inr (tl_Merge lib dst decoded))) of
                    Inl err \<Rightarrow> Inl err
                  | Inr dst \<Rightarrow>
                      (case tl_Encode lib dst of Inl err \<Rightarrow> Inl err
                       | Inr body \<Rightarrow> Inr (AList.update appOverlayFile body cmData)))))"

text \<open>The loop over the versions that finds the height to halt at.\<close>

fun haltHeight_loop :: "ChainVersion list \<Rightarrow> uint64 \<Rightarrow> uint64 \<Rightarrow> uint64" where
  "haltHeight_loop [] instanceHeight haltHeight = haltHeight"
| "haltHeight_loop (v # vs) instanceHeight haltHeight =
     (let haltHeight = (if cv_SetHaltHeight v then cv_UpgradeHeight v else 0)
      in if instanceHeight < cv_UpgradeHeight v then haltHeight
         else haltHeight_loop vs instanceHeight (if vs = [] then 0 else haltHeight))"

definition instanceAppConfig :: "CosmosFullNode \<Rightarrow> string \<Rightarrow> SDKAppConfig" where
  "instanceAppConfig crd inst =
     (let appCfg = ch_App (fn_Chain crd)
      in if length (ch_Versions (fn_Chain crd)) > 0
         then
           let instanceHeight = (case map_of (st_Height (fn_Status crd)) inst of None \<Rightarrow> 0 | Some h \<Rightarrow> h)
           in appCfg\<lparr>app_HaltHeight := Some (haltHeight_loop (ch_Versions (fn_Chain crd)) instanceHeight 0)\<rparr>
         else appCfg)"

definition configMapOf ::
  "toml_lib \<Rightarrow> ConfigMapBody marshaler \<Rightarrow> CosmosFullNode \<Rightarrow> Peers \<Rightarrow> int \<Rightarrow> (goerror + ConfigMapBody Resource) exec" where
  "configMapOf lib marshal crd peers i =
     (let inst = instanceName crd i
      in exec_bind (addConfigToml lib crd inst peers []) (\<lambda>res.
         case res of
           Inl err \<Rightarrow> Ok (Inl err)
         | Inr data \<Rightarrow>
             exec_bind (addAppToml lib (instanceAppConfig crd inst) data) (\<lambda>res.
             case res of
               Inl err \<Rightarrow> Ok (Inl err)
             | Inr data \<Rightarrow>
                 exec_bind (defaultLabels crd [InstanceLabel, inst]) (\<lambda>lbls.
                 exec_bind (Adapt marshal \<lparr>ob_Kind = ''ConfigMap'', ob_APIVersion = ''v1'',
                     ob_Meta = NormalizeMetadata (emptyMeta\<lparr>om_Name := inst, om_Namespace := fn_Namespace crd, om_Labels := lbls\<rparr>),
                     ob_Body = \<lparr>cm_Data = data\<rparr>\<rparr> i) (\<lambda>r. Ok (Inr r))))))"

fun configMaps ::
  "toml_lib \<Rightarrow> ConfigMapBody marshaler \<Rightarrow> CosmosFullNode \<Rightarrow> Peers \<Rightarrow> int list \<Rightarrow> (goerror + ConfigMapBody Resource list) exec" where
  "configMaps lib marshal crd peers [] = Ok (Inr [])"
| "configMaps lib marshal crd peers (i # is) =
     exec_bind (configMapOf lib marshal crd peers i) (\<lambda>res.
       case res of
         Inl err \<Rightarrow> Ok (Inl err)
       | Inr r \<Rightarrow> exec_bind (configMaps lib marshal crd peers is) (\<lambda>rest.
           case rest of Inl err \<Rightarrow> Ok (Inl err) | Inr rs \<Rightarrow> Ok (Inr (r # rs))))"

definition BuildConfigMaps ::
  "toml_lib \<Rightarrow> ConfigMapBody marshaler \<Rightarrow> CosmosFullNode \<Rightarrow> Peers \<Rightarrow> (goerror + ConfigMapBody Resource list) exec" where
  "BuildConfigMaps lib marshal crd peers =
     (if sp_Replicas (fn_Spec crd) < 0 then Panic ''makeslice: len out of range''
      else configMaps lib marshal crd peers (ordinals (sp_Replicas (fn_Spec crd))))"

subsection \<open>Lemmas\<close>

text \<open>The loop finds the first version ahead of the instance.\<close>

lemma haltHeight_loop_find:
  "vs \<noteq> [] \<Longrightarrow> haltHeight_loop vs h x =
     (case find (\<lambda>v. h < cv_UpgradeHeight v) vs of
        None \<Rightarrow> 0 | Some v \<Rightarrow> if cv_SetHaltHeight v then cv_UpgradeHeight v else 0)"
proof (induction vs arbitrary: x)
  case Nil
  then show ?case by simp
next
  case (Cons v vs)
  then show ?case by (cases vs) (auto simp: Let_def)
qed

lemma sorted_find_least:
  assumes "sorted (map cv_UpgradeHeight vs)" and "find (\<lambda>v. h < cv_UpgradeHeight v) vs = Some v"
    and "w \<in> set vs" and "h < cv_UpgradeHeight w"
  shows "cv_UpgradeHeight v \<le> cv_UpgradeHeight w"
  using assms
proof (induction vs)
  case Nil
  then show ?case by simp
next
  case (Cons a vs)
  then show ?case by (auto split: if_splits)
qed

lemma put_other:
  "x \<noteq> k \<Longrightarrow> x \<noteq> k' \<Longrightarrow> map_of (put_nonempty k k' v m) x = map_of m x"
  "x \<noteq> k \<Longrightarrow> x \<noteq> k' \<Longrightarrow> map_of (put_option k k' n m) x = map_of m x"
  "x \<noteq> ''external_address'' \<Longrightarrow> x \<noteq> ''external-address'' \<Longrightarrow> map_of (put_external crd inst peers m) x = map_of m x"
  by (auto simp: put_nonempty_def put_option_def put_external_def put2_def update_conv' split: option.splits)

lemma configMapOf_key:
  assumes "configMapOf lib marshal crd peers i = Ok (Inr r)"
  shows "rs_key r = ObjectKey (fn_Namespace crd) (instanceName crd i) \<and> rs_Ordinal r = i"
  using assms
  by (auto simp: configMapOf_def rs_key_def object_defs NormalizeMetadata_def Let_def dest!: Adapt_Ok)

lemma configMaps_keys:
  "configMaps lib marshal crd peers xs = Ok (Inr rs) \<Longrightarrow>
   map rs_key rs = map (\<lambda>i. ObjectKey (fn_Namespace crd) (instanceName crd i)) xs \<and> map rs_Ordinal rs = xs"
proof (induction xs arbitrary: rs)
  case Nil
  then show ?case by simp
next
  case (Cons i xs)
  then show ?case by (auto dest!: configMapOf_key)
qed

lemma BuildConfigMaps_distinct:
  assumes "int32_replicas crd" and "BuildConfigMaps lib marshal crd peers = Ok (Inr rs)"
  shows "distinct (map rs_key rs)"
proof -
  have "map rs_key rs = map (\<lambda>i. ObjectKey (fn_Namespace crd) (instanceName crd i)) (ordinals (sp_Replicas (fn_Spec crd)))"
    using assms(2) configMaps_keys by (auto simp: BuildConfigMaps_def split: if_splits)
  moreover have "distinct (map (instanceName crd) (ordinals (sp_Replicas (fn_Spec crd))))"
    using ordinals_is_ordinal [OF assms(1)] by (intro instance_names.distinct_nm) simp_all
  ultimately show ?thesis by (simp add: distinct_map inj_on_def)
qed

subsection \<open>Properties\<close>

text \<open>The halt height of an instance is the upgrade height of the first version ahead of its
  height when that version asks for a halt, and zero (never halt) otherwise; with the versions in
  ascending order it is the nearest upgrade ahead, so a node never runs past the height at which
  the next version must take over.\<close>

theorem haltHeight_next_upgrade:
  assumes "ch_Versions (fn_Chain crd) \<noteq> []" and "sorted (map cv_UpgradeHeight (ch_Versions (fn_Chain crd)))"
    and "map_of (st_Height (fn_Status crd)) inst = Some h"
  shows "app_HaltHeight (instanceAppConfig crd inst) =
      Some (case find (\<lambda>v. h < cv_UpgradeHeight v) (ch_Versions (fn_Chain crd)) of
              None \<Rightarrow> 0 | Some v \<Rightarrow> if cv_SetHaltHeight v then cv_UpgradeHeight v else 0) \<and>
    (\<forall>halt. app_HaltHeight (instanceAppConfig crd inst) = Some halt \<longrightarrow> halt \<noteq> 0 \<longrightarrow>
       h < halt \<and> (\<forall>v \<in> set (ch_Versions (fn_Chain crd)). h < cv_UpgradeHeight v \<longrightarrow> halt \<le> cv_UpgradeHeight v))"
proof -
  let ?vs = "ch_Versions (fn_Chain crd)"
  let ?f = "find (\<lambda>v. h < cv_UpgradeHeight v) ?vs"
  have eq: "app_HaltHeight (instanceAppConfig crd inst) =
      Some (case ?f of None \<Rightarrow> 0 | Some v \<Rightarrow> if cv_SetHaltHeight v then cv_UpgradeHeight v else 0)"
    using assms(1,3) by (simp add: instanceAppConfig_def Let_def haltHeight_loop_find)
  moreover have "h < cv_UpgradeHeight v" if "?f = Some v" for v
    using that by (auto simp: find_Some_iff)
  ultimately show ?thesis
    using sorted_find_least [OF assms(2), of h] by (auto split: option.splits if_splits)
qed

theorem haltHeight_next_upgrade_witness:
  "app_HaltHeight (instanceAppConfig sample_crd ''osmo-2'') = Some 100 \<and> (7 :: uint64) < 100"
proof -
  have "ch_Versions (fn_Chain sample_crd) \<noteq> []"
      "sorted (map cv_UpgradeHeight (ch_Versions (fn_Chain sample_crd)))"
      "map_of (st_Height (fn_Status sample_crd)) ''osmo-2'' = Some 7"
    by (simp_all add: sample_crd_defs)
  from haltHeight_next_upgrade [OF this] show ?thesis
    by (simp add: sample_crd_defs)
qed

text \<open>A node is told about all other instances and not about itself: the private peers it gets are,
  as a multiset and in sorted order, those of every collected peer but its own.\<close>

theorem config_peers_others:
  assumes "distinct (map fst peers)" and "map_of peers (ObjectKey (fn_Namespace crd) inst) = Some self"
  shows "mset (AllPrivate (Peers_Except peers inst (fn_Namespace crd))) =
      image_mset (\<lambda>kp. PrivatePeer (snd kp)) (mset peers) - {#PrivatePeer self#} \<and>
    sorted (AllPrivate (Peers_Except peers inst (fn_Namespace crd))) \<and>
    map_of (p2pTable crd inst peers) ''persistent_peers'' =
      Some (TStr (commaDelimited [commaDelimited (AllPrivate (Peers_Except peers inst (fn_Namespace crd))),
        cc_PersistentPeers (ch_Comet (fn_Chain crd))]))"
proof (intro conjI)
  let ?k = "ObjectKey (fn_Namespace crd) inst"
  have "(?k, self) \<in># mset peers" using assms by auto
  moreover have "mset (Peers_Except peers inst (fn_Namespace crd)) = mset peers - {#(?k, self)#}"
    using Peers_Except_collected [OF assms(1)] assms(2) by simp
  ultimately show "mset (AllPrivate (Peers_Except peers inst (fn_Namespace crd))) =
      image_mset (\<lambda>kp. PrivatePeer (snd kp)) (mset peers) - {#PrivatePeer self#}"
    by (simp add: AllPrivate_def image_mset_Diff)
  show "sorted (AllPrivate (Peers_Except peers inst (fn_Namespace crd)))" by (simp add: AllPrivate_def)
  show "map_of (p2pTable crd inst peers) ''persistent_peers'' =
      Some (TStr (commaDelimited [commaDelimited (AllPrivate (Peers_Except peers inst (fn_Namespace crd))),
        cc_PersistentPeers (ch_Comet (fn_Chain crd))]))"
    by (simp add: p2pTable_def Let_def put_other)
qed

definition sample_peers :: Peers where
  "sample_peers = [(ObjectKey ''chains'' ''osmo-0'', emptyPeer\<lparr>pe_NodeID := ''a'', pe_PrivateAddress := ''x:1''\<rparr>),
     (ObjectKey ''chains'' ''osmo-1'', emptyPeer\<lparr>pe_NodeID := ''b'', pe_PrivateAddress := ''y:1''\<rparr>)]"

theorem config_peers_others_witness:
  "mset (AllPrivate (Peers_Except sample_peers ''osmo-0'' ''chains'')) = {#''b@y:1''#}"
proof -
  have "distinct (map fst sample_peers)"
      "map_of sample_peers (ObjectKey (fn_Namespace sample_crd) ''osmo-0'') =
        Some (emptyPeer\<lparr>pe_NodeID := ''a'', pe_PrivateAddress := ''x:1''\<rparr>)"
    by (simp_all add: sample_peers_def sample_crd_defs)
  from config_peers_others [OF this] show ?thesis
    by (simp add: sample_peers_def PrivatePeer_def sample_crd_defs)
qed

end
