(* ===== verification/Rbac_Builder.thy ===== *)
theory Rbac_Builder
  imports Fullnode_Names Control_Loops
begin

text \<open>
  \<^verbatim>\<open>internal/fullnode/rbac_builder.go\<close>: the service account, role and role binding under which
  the version check of a full node runs. The lemma shows that the three refer to each other.
\<close>

record PolicyRule =
  rule_APIGroups :: "string list"
  rule_Resources :: "string list"
  rule_Verbs :: "string list"

record RoleBody =
  role_Rules :: "PolicyRule list"

record RoleBindingBody =
  rb_Subjects :: "(string \<times> string \<times> string) list"
  rb_RoleRef :: "string \<times> string \<times> string"

definition rbacObject :: "CosmosFullNode \<Rightarrow> string \<Rightarrow> string \<Rightarrow> string \<Rightarrow> labels \<Rightarrow> 'b \<Rightarrow> 'b kobject" where
  "rbacObject crd kind version name lbls body = \<lparr>ob_Kind = kind, ob_APIVersion = version,
     ob_Meta = emptyMeta\<lparr>om_Name := name, om_Namespace := fn_Namespace crd, om_Labels := lbls\<rparr>,
     ob_Body = body\<rparr>"

definition BuildServiceAccounts :: "unit marshaler \<Rightarrow> CosmosFullNode \<Rightarrow> unit Resource list exec" where
  "BuildServiceAccounts marshal crd =
     exec_bind (defaultLabels crd [ComponentLabel, ''vc'']) (\<lambda>lbls.
     exec_bind (Adapt marshal (rbacObject crd ''ServiceAccount'' ''v1'' (serviceAccountName crd) lbls ()) 0) (\<lambda>r.
       Ok [r]))"

definition BuildRoles :: "RoleBody marshaler \<Rightarrow> CosmosFullNode \<Rightarrow> RoleBody Resource list exec" where
  "BuildRoles marshal crd =
     exec_bind (defaultLabels crd [ComponentLabel, ''vc'']) (\<lambda>lbls.
     exec_bind (Adapt marshal (rbacObject crd ''Role'' ''rbac.authorization.k8s.io/v1'' (roleName crd) lbls
       \<lparr>role_Rules =
          [\<lparr>rule_APIGroups = [[]], rule_Resources = [''namespaces'', ''pods''], rule_Verbs = [''get'', ''list'']\<rparr>,
           \<lparr>rule_APIGroups = [''cosmos.bharvest.io''], rule_Resources = [''cosmosfullnodes''], rule_Verbs = [''get'']\<rparr>,
           \<lparr>rule_APIGroups = [''cosmos.bharvest.io''], rule_Resources = [''cosmosfullnodes/status''],
             rule_Verbs = [''patch'']\<rparr>]\<rparr>) 0) (\<lambda>r. Ok [r]))"

definition BuildRoleBindings :: "RoleBindingBody marshaler \<Rightarrow> CosmosFullNode \<Rightarrow> RoleBindingBody Resource list exec" where
  "BuildRoleBindings marshal crd =
     exec_bind (defaultLabels crd [ComponentLabel, ''vc'']) (\<lambda>lbls.
     exec_bind (Adapt marshal (rbacObject crd ''RoleBinding'' ''rbac.authorization.k8s.io/v1'' (roleBindingName crd) lbls
       \<lparr>rb_Subjects = [(''ServiceAccount'', serviceAccountName crd, fn_Namespace crd)],
        rb_RoleRef = (''Role'', roleName crd, ''rbac.authorization.k8s.io'')\<rparr>) 0) (\<lambda>r. Ok [r]))"

lemma single_total:
  assumes "encodes marshal"
  shows "\<exists>r. exec_bind (defaultLabels crd [ComponentLabel, ''vc'']) (\<lambda>lbls.
      exec_bind (Adapt marshal (rbacObject crd kind version name lbls body) 0) (\<lambda>r. Ok [r])) = Ok [r] \<and>
    rs_key r = ObjectKey (fn_Namespace crd) name \<and> ob_Body (rs_Object r) = body"
proof -
  obtain lbls where l: "defaultLabels crd [ComponentLabel, ''vc''] = Ok lbls"
    using defaultLabels_total [of "[ComponentLabel, ''vc'']" crd] by auto
  obtain r where "Adapt marshal (rbacObject crd kind version name lbls body) 0 = Ok r"
      "rs_Object r = rbacObject crd kind version name lbls body"
    using Adapt_total [OF assms] by blast
  with l show ?thesis by (auto simp: rs_key_def object_defs rbacObject_def)
qed

text \<open>The binding grants the role that is built to the account that is built.\<close>

lemma rbac_consistent:
  assumes "encodes ma" "encodes mr" "encodes mb"
  shows "\<exists>sa r rb. BuildServiceAccounts ma crd = Ok [sa] \<and> BuildRoles mr crd = Ok [r] \<and>
    BuildRoleBindings mb crd = Ok [rb] \<and>
    rb_Subjects (ob_Body (rs_Object rb)) = [(''ServiceAccount'', key_Name (rs_key sa), key_Namespace (rs_key sa))] \<and>
    rb_RoleRef (ob_Body (rs_Object rb)) = (''Role'', key_Name (rs_key r), ''rbac.authorization.k8s.io'') \<and>
    key_Namespace (rs_key r) = key_Namespace (rs_key rb)"
proof -
  obtain sa where "BuildServiceAccounts ma crd = Ok [sa]" "rs_key sa = ObjectKey (fn_Namespace crd) (serviceAccountName crd)"
    using single_total [OF assms(1), of crd] unfolding BuildServiceAccounts_def by metis
  moreover obtain r where "BuildRoles mr crd = Ok [r]" "rs_key r = ObjectKey (fn_Namespace crd) (roleName crd)"
    using single_total [OF assms(2), of crd] unfolding BuildRoles_def by metis
  moreover obtain rb where "BuildRoleBindings mb crd = Ok [rb]" "rs_key rb = ObjectKey (fn_Namespace crd) (roleBindingName crd)"
      "ob_Body (rs_Object rb) = \<lparr>rb_Subjects = [(''ServiceAccount'', serviceAccountName crd, fn_Namespace crd)],
        rb_RoleRef = (''Role'', roleName crd, ''rbac.authorization.k8s.io'')\<rparr>"
    using single_total [OF assms(3), of crd] unfolding BuildRoleBindings_def by metis
  ultimately show ?thesis by auto
qed

end
