(* ===== verification/Resource_Controls.thy ===== *)
theory Resource_Controls
  imports Configmap_Builder Rbac_Builder
begin

text \<open>
  The controls of \<^verbatim>\<open>internal/fullnode\<close> that reconcile one kind of resource by a diff:
  \<^verbatim>\<open>configmap_control.go\<close>, \<^verbatim>\<open>service_control.go\<close>, \<^verbatim>\<open>node_key_control.go\<close>,
  \<^verbatim>\<open>role_control.go\<close>, \<^verbatim>\<open>role_binding_control.go\<close>, \<^verbatim>\<open>service_account_control.go\<close>. Each lists
  the existing objects (the answer is an argument), builds the wanted ones and sends the calls of
  the diff. The lemmas: against a server that accepts, the cluster reaches the wanted revisions;
  against any server, services, node keys and RBAC objects are never deleted.
\<close>

type_synonym 'b sorter = "'b Resource list \<Rightarrow> 'b Resource list"
type_synonym 'b control = "(ReconcileError option \<times> 'b history) exec"

text \<open>Listing, diffing, then creating or updating: the body of the four controls without deletes.\<close>

definition upsert_control ::
  "string \<Rightarrow> string \<Rightarrow> 'b server \<Rightarrow> 'b setref \<Rightarrow> 'b sorter \<Rightarrow> goerror + 'b kobject list \<Rightarrow>
   'b Resource list exec \<Rightarrow> 'b history \<Rightarrow> 'b control" where
  "upsert_control plural what srv setRef srt listed built h =
     (case listed of
        Inl err \<Rightarrow> Ok (Some (TransientError (wrap (''list existing '' @ plural @ '': '') err)), h)
      | Inr current \<Rightarrow>
          exec_bind built (\<lambda>want.
          exec_bind (Diff_New srt current want) (\<lambda>diffed.
            Ok (create_then_update srv (createOrUpdate_step srv setRef (named what) (\<lambda>n. ''create '' @ named what n))
                  (\<lambda>n. ''update '' @ named what n) diffed h))))"

definition ServiceControl_Reconcile ::
  "ServiceBody server \<Rightarrow> ServiceBody setref \<Rightarrow> ServiceBody sorter \<Rightarrow> ServiceBody marshaler \<Rightarrow>
   goerror + Service list \<Rightarrow> CosmosFullNode \<Rightarrow> ServiceBody history \<Rightarrow> ServiceBody control" where
  "ServiceControl_Reconcile srv setRef srt marshal listed crd h =
     upsert_control ''services'' ''service'' srv setRef srt listed (BuildServices marshal crd) h"

definition RoleControl_Reconcile ::
  "RoleBody server \<Rightarrow> RoleBody setref \<Rightarrow> RoleBody sorter \<Rightarrow> RoleBody marshaler \<Rightarrow>
   goerror + RoleBody kobject list \<Rightarrow> CosmosFullNode \<Rightarrow> RoleBody history \<Rightarrow> RoleBody control" where
  "RoleControl_Reconcile srv setRef srt marshal listed crd h =
     upsert_control ''roles'' ''role'' srv setRef srt listed (BuildRoles marshal crd) h"

definition RoleBindingControl_Reconcile ::
  "RoleBindingBody server \<Rightarrow> RoleBindingBody setref \<Rightarrow> RoleBindingBody sorter \<Rightarrow> RoleBindingBody marshaler \<Rightarrow>
   goerror + RoleBindingBody kobject list \<Rightarrow> CosmosFullNode \<Rightarrow> RoleBindingBody history \<Rightarrow> RoleBindingBody control" where
  "RoleBindingControl_Reconcile srv setRef srt marshal listed crd h =
     upsert_control ''role bindings'' ''role binding'' srv setRef srt listed (BuildRoleBindings marshal crd) h"

definition ServiceAccountControl_Reconcile ::
  "unit server \<Rightarrow> unit setref \<Rightarrow> unit sorter \<Rightarrow> unit marshaler \<Rightarrow>
   goerror + unit kobject list \<Rightarrow> CosmosFullNode \<Rightarrow> unit history \<Rightarrow> unit control" where
  "ServiceAccountControl_Reconcile srv setRef srt marshal listed crd h =
     upsert_control ''service accounts'' ''service account'' srv setRef srt listed (BuildServiceAccounts marshal crd) h"

definition NodeKeyControl_Reconcile ::
  "SecretBody server \<Rightarrow> SecretBody setref \<Rightarrow> SecretBody sorter \<Rightarrow> key_lib \<Rightarrow> SecretBody marshaler \<Rightarrow>
   goerror + Secret list \<Rightarrow> CosmosFullNode \<Rightarrow> SecretBody history \<Rightarrow> SecretBody control" where
  "NodeKeyControl_Reconcile srv setRef srt lib marshal listed crd h =
     (case listed of
        Inl err \<Rightarrow> Ok (Some (TransientError (wrap ''list existing node key secrets: '' err)), h)
      | Inr existing \<Rightarrow>
          exec_bind (BuildNodeKeySecrets lib marshal existing crd) (\<lambda>built.
          case built of
            Inl err \<Rightarrow> Ok (Some (UnrecoverableError (wrap ''build node key secrets: '' err)), h)
          | Inr want \<Rightarrow>
              exec_bind (Diff_New srt existing want) (\<lambda>diffed.
                Ok (create_then_update srv
                      (create_step srv setRef (named ''node key secret'') (\<lambda>n. ''create '' @ named ''node key secret'' n))
                      (\<lambda>n. ''update '' @ named ''node key secret'' n) diffed h))))"

definition checksums_of :: "ConfigMapBody Resource list \<Rightarrow> (ObjectKey \<times> string) list" where
  "checksums_of want = foldl (\<lambda>m cm. AList.update (rs_key cm) (rs_Revision cm) m) [] want"

definition ConfigMapControl_Reconcile ::
  "ConfigMapBody server \<Rightarrow> ConfigMapBody setref \<Rightarrow> ConfigMapBody sorter \<Rightarrow> toml_lib \<Rightarrow> ConfigMapBody marshaler \<Rightarrow>
   goerror + ConfigMapBody kobject list \<Rightarrow> CosmosFullNode \<Rightarrow> Peers \<Rightarrow> ConfigMapBody history \<Rightarrow>
   ((ReconcileError + (ObjectKey \<times> string) list) \<times> ConfigMapBody history) exec" where
  "ConfigMapControl_Reconcile srv setRef srt lib marshal listed crd peers h =
     (case listed of
        Inl err \<Rightarrow> Ok (Inl (TransientError (wrap ''list existing configmaps: '' err)), h)
      | Inr current \<Rightarrow>
          exec_bind (BuildConfigMaps lib marshal crd peers) (\<lambda>built.
          case built of
            Inl err \<Rightarrow> Ok (Inl (UnrecoverableError err), h)
          | Inr want \<Rightarrow>
              exec_bind (Diff_New srt current want) (\<lambda>diffed.
                Ok (case each (createOrUpdate_step srv setRef (\<lambda>n. ''configmap '' @ n)
                                (\<lambda>n. ''create configmap configmap '' @ n)) (df_creates diffed) h of
                      (Some e, h1) \<Rightarrow> (Inl e, h1)
                    | (None, h1) \<Rightarrow>
                        (case each (delete_step srv (\<lambda>n. ''delete configmap '' @ n)) (df_deletes diffed) h1 of
                           (Some e, h2) \<Rightarrow> (Inl e, h2)
                         | (None, h2) \<Rightarrow>
                             (case each (update_step srv (\<lambda>n. ''update configmap '' @ n)) (df_updates diffed) h2 of
                                (Some e, h3) \<Rightarrow> (Inl e, h3)
                              | (None, h3) \<Rightarrow> (Inr (checksums_of want), h3)))))))"

subsection \<open>Lemmas\<close>

lemma upsert_control_converges:
  assumes srt: "ordering_of srt rs_Ordinal" and acc: "accepts srv" and ref: "setref_ok setRef"
    and cur: "distinct (map ObjectKeyFromObject current)" and built: "built = Ok want" "distinct (map rs_key want)"
  shows "\<exists>cs. upsert_control plural what srv setRef srt (Inr current) built h = Ok (None, h @ cs) \<and>
    run_calls cs (cluster_revs current) = cluster_revs current ++ wanted_revs want"
proof -
  obtain d where d: "Diff_New srt current want = Ok d" using Diff_New_lists [OF cur built(2)] by blast
  show ?thesis
    using create_then_update_accepted [OF call_step_createOrUpdate [OF ref] acc]
      diff_order.run_create_update [OF diff_order.intro [OF srt] d ref] d built(1)
    by (simp add: upsert_control_def)
qed

lemma upsert_control_calls:
  assumes ref: "setref_ok setRef" and run: "upsert_control plural what srv setRef srt listed built h = Ok (e, h')"
  shows "\<exists>cs. h' = h @ cs \<and> (\<forall>c \<in> set cs. \<exists>ob. c = Create ob \<or> c = Update ob)"
proof (cases listed)
  case (Inl err)
  with run show ?thesis by (simp add: upsert_control_def)
next
  case (Inr current)
  with run obtain d where "h' = snd (create_then_update srv
      (createOrUpdate_step srv setRef (named what) (\<lambda>n. ''create '' @ named what n))
      (\<lambda>n. ''update '' @ named what n) d h)"
    by (auto simp: upsert_control_def) (metis snd_conv)
  then show ?thesis
    using create_then_update_appends [OF call_step_createOrUpdate [OF ref]] by metis
qed

lemma NodeKeyControl_calls:
  assumes ref: "setref_ok setRef" and run: "NodeKeyControl_Reconcile srv setRef srt lib marshal listed crd h = Ok (e, h')"
  shows "\<exists>cs. h' = h @ cs \<and> (\<forall>c \<in> set cs. \<exists>ob. c = Create ob \<or> c = Update ob)"
proof (cases listed)
  case (Inl err)
  with run show ?thesis by (simp add: NodeKeyControl_Reconcile_def)
next
  case (Inr existing)
  from run Inr obtain built where b: "BuildNodeKeySecrets lib marshal existing crd = Ok built"
    by (auto simp: NodeKeyControl_Reconcile_def)
  show ?thesis
  proof (cases built)
    case (Inl err)
    with run Inr b show ?thesis by (simp add: NodeKeyControl_Reconcile_def)
  next
    case (Inr want)
    with run \<open>listed = Inr existing\<close> b obtain d where h': "h' = snd (create_then_update srv
        (create_step srv setRef (named ''node key secret'') (\<lambda>n. ''create '' @ named ''node key secret'' n))
        (\<lambda>n. ''update '' @ named ''node key secret'' n) d h)"
      by (auto simp: NodeKeyControl_Reconcile_def) (metis snd_conv)
    have "call_step srv (create_step srv setRef what msg) (\<lambda>ob. Create (owned setRef ob))
        (\<lambda>ob c. c = Create (owned setRef ob) \<or> c = Update (owned setRef ob))" for what msg
      by (rule call_step_weaken [OF call_step_create [OF ref]]) simp
    from create_then_update_appends [OF this] show ?thesis unfolding h' .
  qed
qed

lemma NodeKeyControl_converges:
  assumes srt: "ordering_of srt rs_Ordinal" and acc: "accepts srv" and ref: "setref_ok setRef"
    and cur: "distinct (map ObjectKeyFromObject existing)"
    and built: "BuildNodeKeySecrets lib marshal existing crd = Ok (Inr want)" "distinct (map rs_key want)"
  shows "\<exists>cs. NodeKeyControl_Reconcile srv setRef srt lib marshal (Inr existing) crd h = Ok (None, h @ cs) \<and>
    run_calls cs (cluster_revs existing) = cluster_revs existing ++ wanted_revs want"
proof -
  obtain d where d: "Diff_New srt existing want = Ok d" using Diff_New_lists [OF cur built(2)] by blast
  show ?thesis
    using create_then_update_accepted [OF call_step_create [OF ref] acc]
      diff_order.run_create_update [OF diff_order.intro [OF srt] d ref] d built(1)
    by (simp add: NodeKeyControl_Reconcile_def)
qed

lemma map_of_checksums:
  assumes "distinct (map rs_key want)"
  shows "map_of (checksums_of want) = wanted_revs want"
proof -
  have "checksums_of want = map (\<lambda>r. (rs_key r, rs_Revision r)) want"
    using assms
  proof (induction want rule: rev_induct)
    case Nil
    then show ?case by (simp add: checksums_of_def)
  next
    case (snoc r want)
    then have "checksums_of want = map (\<lambda>r. (rs_key r, rs_Revision r)) want" by simp
    moreover from snoc.prems have "rs_key r \<notin> rs_key ` set want" by auto
    ultimately show ?case by (simp add: checksums_of_def update_fresh image_image)
  qed
  then show ?thesis by (simp add: wanted_revs_def)
qed

subsection \<open>Properties\<close>

text \<open>The service control converges and never deletes. For every full node with fewer than
  \<open>2^30\<close> replicas and distinct existing services, against a server that accepts every call one
  reconcile succeeds and leaves every wanted service at its wanted revision and all other services
  as they were.\<close>

theorem ServiceControl_converges:
  assumes "ordering_of srt rs_Ordinal" and "accepts srv" and "setref_ok setRef" and "encodes marshal"
    and "0 \<le> sp_Replicas (fn_Spec crd)" and "sp_Replicas (fn_Spec crd) < 2 ^ 30"
    and "distinct (map ObjectKeyFromObject current)"
  shows "\<exists>want cs. BuildServices marshal crd = Ok want \<and>
    ServiceControl_Reconcile srv setRef srt marshal (Inr current) crd h = Ok (None, h @ cs) \<and>
    run_calls cs (cluster_revs current) = cluster_revs current ++ wanted_revs want"
proof -
  obtain want where w: "BuildServices marshal crd = Ok want" "distinct (map rs_key want)"
    using BuildServices_distinct [OF assms(5,6,4)] by blast
  show ?thesis
    using upsert_control_converges [OF assms(1,2,3,7) w] w(1) unfolding ServiceControl_Reconcile_def by blast
qed

text \<open>Public addresses and identities survive: whatever the API server answers, and wherever a
  reconcile stops, the calls of the service, node key, role, role binding and service account
  controls are creates and updates only; none of these resources is ever deleted.\<close>

theorem controls_never_delete:
  assumes "setref_ok r1" "setref_ok r2" "setref_ok r3" "setref_ok r4" "setref_ok r5"
    and "ServiceControl_Reconcile s1 r1 t1 m1 l1 crd [] = Ok (e1, h1)"
    and "NodeKeyControl_Reconcile s2 r2 t2 lib m2 l2 crd [] = Ok (e2, h2)"
    and "RoleControl_Reconcile s3 r3 t3 m3 l3 crd [] = Ok (e3, h3)"
    and "RoleBindingControl_Reconcile s4 r4 t4 m4 l4 crd [] = Ok (e4, h4)"
    and "ServiceAccountControl_Reconcile s5 r5 t5 m5 l5 crd [] = Ok (e5, h5)"
  shows "Delete svc \<notin> set h1 \<and> Delete sec \<notin> set h2 \<and> Delete role \<notin> set h3 \<and> Delete rb \<notin> set h4 \<and> Delete sa \<notin> set h5"
  using upsert_control_calls [OF assms(1) assms(6) [unfolded ServiceControl_Reconcile_def]]
    NodeKeyControl_calls [OF assms(2,7)]
    upsert_control_calls [OF assms(3) assms(8) [unfolded RoleControl_Reconcile_def]]
    upsert_control_calls [OF assms(4) assms(9) [unfolded RoleBindingControl_Reconcile_def]]
    upsert_control_calls [OF assms(5) assms(10) [unfolded ServiceAccountControl_Reconcile_def]]
  by auto

text \<open>C12: The config map control converges and reports what the pods must restart on: against a
  server that accepts every call it leaves exactly the wanted config maps, deleting the others, and
  the checksums it returns are their revisions, keyed by instance.\<close>

theorem ConfigMapControl_converges:
  assumes srt: "ordering_of srt rs_Ordinal" and acc: "accepts srv" and ref: "setref_ok setRef"
    and r32: "int32_replicas crd" and cur: "distinct (map ObjectKeyFromObject current)"
    and built: "BuildConfigMaps lib marshal crd peers = Ok (Inr want)"
  shows "\<exists>cksums cs. ConfigMapControl_Reconcile srv setRef srt lib marshal (Inr current) crd peers h = Ok (Inr cksums, h @ cs) \<and>
    run_calls cs (cluster_revs current) = wanted_revs want \<and> map_of cksums = wanted_revs want"
proof -
  have dw: "distinct (map rs_key want)" using BuildConfigMaps_distinct [OF r32 built] .
  obtain d where d: "Diff_New srt current want = Ok d" using Diff_New_lists [OF cur dw] by blast
  show ?thesis
    using call_step.each_accepted [OF call_step_createOrUpdate [OF ref] acc]
      deletes.each_accepted [OF acc] updates.each_accepted [OF acc] built d
      diff_order.run_create_delete_update [OF diff_order.intro [OF srt] d ref] map_of_checksums [OF dw]
    by (simp add: ConfigMapControl_Reconcile_def)
qed


subsection \<open>Witnesses\<close>

definition accept_all :: "'b server" where "accept_all h c = None"

lemma accept_all_accepts: "accepts accept_all"
  by (simp add: accepts_def accept_all_def)

definition sample_owner :: OwnerReference where
  "sample_owner = \<lparr>or_APIVersion = ''cosmos.bharvest.io/v1'', or_Kind = ''CosmosFullNode'', or_Name = ''osmo'',
     or_Controller = Some True\<rparr>"

definition name_marshal :: "'b marshaler" where
  "name_marshal ob = Inr (GetName ob)"

lemma name_marshal_encodes: "encodes name_marshal"
  by (simp add: encodes_def name_marshal_def)

lemmas accepted = by_ordinal.ordering_of_axioms accept_all_accepts ref_setref_ok [of sample_owner]

theorem ServiceControl_converges_witness:
  "\<exists>want cs. BuildServices name_marshal sample_crd = Ok want \<and>
     ServiceControl_Reconcile accept_all (ref_setref sample_owner) (sort_key rs_Ordinal) name_marshal (Inr []) sample_crd [] =
       Ok (None, cs) \<and> run_calls cs Map.empty = wanted_revs want"
  using ServiceControl_converges [OF accepted name_marshal_encodes, of sample_crd "[]" "[]"]
  by (simp add: sample_crd_defs cluster_revs_def)

lemma sample_upsert:
  assumes "built = Ok want" and "distinct (map rs_key want)"
  shows "\<exists>cs. upsert_control plural what accept_all (ref_setref sample_owner) (sort_key rs_Ordinal) (Inr []) built [] = Ok (None, cs)"
  using upsert_control_converges [OF accepted, of "[]" built want plural what "[]"] assms by auto

theorem controls_never_delete_witness:
  "\<exists>h1 h2 h3 h4 h5.
     ServiceControl_Reconcile accept_all (ref_setref sample_owner) (sort_key rs_Ordinal) name_marshal (Inr []) sample_crd [] = Ok (None, h1) \<and>
     NodeKeyControl_Reconcile accept_all (ref_setref sample_owner) (sort_key rs_Ordinal) sample_keys name_marshal (Inr []) sample_crd [] = Ok (None, h2) \<and>
     RoleControl_Reconcile accept_all (ref_setref sample_owner) (sort_key rs_Ordinal) name_marshal (Inr []) sample_crd [] = Ok (None, h3) \<and>
     RoleBindingControl_Reconcile accept_all (ref_setref sample_owner) (sort_key rs_Ordinal) name_marshal (Inr []) sample_crd [] = Ok (None, h4) \<and>
     ServiceAccountControl_Reconcile accept_all (ref_setref sample_owner) (sort_key rs_Ordinal) name_marshal (Inr []) sample_crd [] = Ok (None, h5) \<and>
     (\<forall>svc sec role rb sa. Delete svc \<notin> set h1 \<and> Delete sec \<notin> set h2 \<and> Delete role \<notin> set h3 \<and> Delete rb \<notin> set h4 \<and> Delete sa \<notin> set h5)"
proof -
  have r: "0 \<le> sp_Replicas (fn_Spec sample_crd)" "sp_Replicas (fn_Spec sample_crd) < 2 ^ 30" "int32_replicas sample_crd"
    by (simp_all add: sample_crd_defs int32_replicas_def)
  obtain want where "BuildServices name_marshal sample_crd = Ok want" "distinct (map rs_key want)"
    using BuildServices_distinct [OF r(1,2) name_marshal_encodes] by blast
  then obtain h1 where h1: "ServiceControl_Reconcile accept_all (ref_setref sample_owner) (sort_key rs_Ordinal) name_marshal (Inr []) sample_crd [] = Ok (None, h1)"
    unfolding ServiceControl_Reconcile_def by (metis sample_upsert)
  obtain keys where "BuildNodeKeySecrets sample_keys name_marshal [] sample_crd = Ok (Inr keys)" "distinct (map rs_key keys)"
    using BuildNodeKeySecrets_distinct [OF r(1,3) name_marshal_encodes sample_keys_total] by blast
  then obtain h2 where h2: "NodeKeyControl_Reconcile accept_all (ref_setref sample_owner) (sort_key rs_Ordinal) sample_keys name_marshal (Inr []) sample_crd [] = Ok (None, h2)"
    using NodeKeyControl_converges [OF accepted, of "[]" sample_keys name_marshal sample_crd keys "[]"] by auto
  obtain sa r rb where b: "BuildServiceAccounts name_marshal sample_crd = Ok [sa]" "BuildRoles name_marshal sample_crd = Ok [r]"
      "BuildRoleBindings name_marshal sample_crd = Ok [rb]"
    using rbac_consistent [OF name_marshal_encodes name_marshal_encodes name_marshal_encodes] by blast
  obtain h3 where h3: "RoleControl_Reconcile accept_all (ref_setref sample_owner) (sort_key rs_Ordinal) name_marshal (Inr []) sample_crd [] = Ok (None, h3)"
    using sample_upsert [OF b(2)] by (auto simp: RoleControl_Reconcile_def)
  obtain h4 where h4: "RoleBindingControl_Reconcile accept_all (ref_setref sample_owner) (sort_key rs_Ordinal) name_marshal (Inr []) sample_crd [] = Ok (None, h4)"
    using sample_upsert [OF b(3)] by (auto simp: RoleBindingControl_Reconcile_def)
  obtain h5 where h5: "ServiceAccountControl_Reconcile accept_all (ref_setref sample_owner) (sort_key rs_Ordinal) name_marshal (Inr []) sample_crd [] = Ok (None, h5)"
    using sample_upsert [OF b(1)] by (auto simp: ServiceAccountControl_Reconcile_def)
  show ?thesis
    using h1 h2 h3 h4 h5
      controls_never_delete [OF ref_setref_ok ref_setref_ok ref_setref_ok ref_setref_ok ref_setref_ok h1 h2 h3 h4 h5]
    by blast
qed

definition sample_toml :: toml_lib where
  "sample_toml = \<lparr>tl_Decode = (\<lambda>s. Inr []), tl_Encode = (\<lambda>d. Inr ''toml''), tl_Merge = (@),
     tl_defaultCometToml = [], tl_defaultAppToml = []\<rparr>"

lemma sample_configMap: "\<exists>r. configMapOf sample_toml name_marshal sample_crd [] i = Ok (Inr r)"
proof -
  have l: "\<exists>lbls. defaultLabels sample_crd [InstanceLabel, instanceName sample_crd i] = Ok lbls"
    by (rule defaultLabels_total) simp
  have a: "\<exists>d. addConfigToml sample_toml sample_crd (instanceName sample_crd i) [] [] = Ok (Inr d)"
    by (simp add: addConfigToml_def defaultComet_def sample_toml_def Let_def sample_crd_defs)
  have b: "\<exists>d'. addAppToml sample_toml (instanceAppConfig sample_crd n) d = Ok (Inr d')" for n d
    by (simp add: addAppToml_def defaultApp_def sample_toml_def Let_def instanceAppConfig_def sample_crd_defs)
  have c: "\<exists>r. Adapt name_marshal ob i = Ok r" for ob :: "ConfigMapBody kobject"
    using Adapt_total [OF name_marshal_encodes] by blast
  show ?thesis
    using l a b c by (auto simp: configMapOf_def Let_def) metis
qed

lemma sample_BuildConfigMaps: "\<exists>want. BuildConfigMaps sample_toml name_marshal sample_crd [] = Ok (Inr want)"
proof -
  have "\<exists>rs. configMaps sample_toml name_marshal sample_crd [] xs = Ok (Inr rs)" for xs
  proof (induction xs)
    case Nil
    then show ?case by simp
  next
    case (Cons i xs)
    obtain r where "configMapOf sample_toml name_marshal sample_crd [] i = Ok (Inr r)" using sample_configMap by blast
    with Cons show ?case by auto
  qed
  then show ?thesis by (simp add: BuildConfigMaps_def sample_crd_defs)
qed

theorem ConfigMapControl_converges_witness:
  "\<exists>want cksums cs. BuildConfigMaps sample_toml name_marshal sample_crd [] = Ok (Inr want) \<and>
     ConfigMapControl_Reconcile accept_all (ref_setref sample_owner) (sort_key rs_Ordinal) sample_toml name_marshal (Inr []) sample_crd [] [] =
       Ok (Inr cksums, cs) \<and> run_calls cs Map.empty = wanted_revs want \<and> map_of cksums = wanted_revs want"
proof -
  obtain want where w: "BuildConfigMaps sample_toml name_marshal sample_crd [] = Ok (Inr want)"
    using sample_BuildConfigMaps by blast
  have "int32_replicas sample_crd" by (simp add: sample_crd_defs int32_replicas_def)
  from ConfigMapControl_converges [OF accepted this _ w, of "[]" "[]"] w show ?thesis
    by (auto simp: cluster_revs_def)
qed

end
