(* ===== verification/Build_Pods.thy ===== *)
theory Build_Pods
  imports Pod_Builder
begin

text \<open>
  \<^verbatim>\<open>internal/fullnode/build_pods.go\<close>: the wanted pods of a full node, one per ordinal that is
  neither disabled nor the candidate of a volume snapshot, and the facts about the pod builder that
  the pod control relies on. The contract of the strategic merge patch is the locale \<open>pod_patch\<close>:
  the patch carries no metadata, so it leaves the metadata alone, and volumes merge by name.
\<close>

type_synonym ConfigChecksums = "(ObjectKey \<times> string) list"
type_synonym patcher = "Pod \<Rightarrow> Pod \<Rightarrow> goerror + Pod"

definition configChecksumAnnotation :: string where
  "configChecksumAnnotation = ''cosmos.bharvest.io/config-checksum''"

definition podCandidates :: "CosmosFullNode \<Rightarrow> string list" where
  "podCandidates crd = map (\<lambda>kv. fs_PodCandidate (snd kv)) (st_ScheduledSnapshotStatus (fn_Status crd))"

definition checksum_get :: "ConfigChecksums \<Rightarrow> ObjectKey \<Rightarrow> string" where
  "checksum_get m k = (case map_of m k of None \<Rightarrow> [] | Some v \<Rightarrow> v)"

definition annotateChecksum :: "ConfigChecksums \<Rightarrow> Pod \<Rightarrow> Pod" where
  "annotateChecksum cksums pod = upd_meta (\<lambda>m. m\<lparr>om_Annotations :=
     AList.update configChecksumAnnotation (checksum_get cksums (ObjectKeyFromObject pod)) (om_Annotations m)\<rparr>) pod"

fun BuildPods_loop ::
  "build_env \<Rightarrow> PodBody marshaler \<Rightarrow> patcher \<Rightarrow> PodBuilder \<Rightarrow> string list \<Rightarrow> ConfigChecksums \<Rightarrow>
   int list \<Rightarrow> PodBody Resource list \<Rightarrow> (goerror + PodBody Resource list) exec" where
  "BuildPods_loop env marshal patch builder candidates cksums [] pods = Ok (Inr pods)"
| "BuildPods_loop env marshal patch builder candidates cksums (i # is) pods =
     exec_bind (WithOrdinal env builder i) (\<lambda>b.
       case Build patch b of
         Inl err \<Rightarrow> Ok (Inl err)
       | Inr None \<Rightarrow> BuildPods_loop env marshal patch builder candidates cksums is pods
       | Inr (Some pod) \<Rightarrow>
           if GetName pod \<in> set candidates
           then BuildPods_loop env marshal patch builder candidates cksums is pods
           else exec_bind (Adapt marshal (annotateChecksum cksums pod) i) (\<lambda>r.
             BuildPods_loop env marshal patch builder candidates cksums is (pods @ [r])))"

definition BuildPods ::
  "build_env \<Rightarrow> PodBody marshaler \<Rightarrow> patcher \<Rightarrow> CosmosFullNode \<Rightarrow> ConfigChecksums \<Rightarrow>
   (goerror + PodBody Resource list) exec" where
  "BuildPods env marshal patch crd cksums =
     exec_bind (NewPodBuilder env (Some crd)) (\<lambda>builder.
       BuildPods_loop env marshal patch builder (podCandidates crd) cksums
         (ordinals (sp_Replicas (fn_Spec crd))) [])"

subsection \<open>The version for a height\<close>

lemma findVersion_loop_spec:
  "case findVersion_loop sel vs h of
     None \<Rightarrow> sel = None \<and> (\<forall>v \<in> set vs. h < cv_UpgradeHeight v)
   | Some s \<Rightarrow> (sel = Some s \<or> s \<in> set vs \<and> cv_UpgradeHeight s \<le> h) \<and>
       (\<forall>v \<in> set vs. cv_UpgradeHeight v \<le> h \<longrightarrow> cv_UpgradeHeight v \<le> cv_UpgradeHeight s) \<and>
       (\<forall>s0. sel = Some s0 \<longrightarrow> cv_UpgradeHeight s0 \<le> cv_UpgradeHeight s)"
proof (induction vs arbitrary: sel)
  case Nil
  then show ?case by (cases sel) auto
next
  case (Cons v vs)
  let ?sel = "if cv_UpgradeHeight v \<le> h
      then (case sel of None \<Rightarrow> Some v
            | Some s \<Rightarrow> if cv_UpgradeHeight v > cv_UpgradeHeight s then Some v else sel)
      else sel"
  from Cons [of ?sel] show ?case
    by (cases sel) (auto split: option.splits if_splits)
qed

lemma findVersion_spec:
  "case findVersion vs h of
     None \<Rightarrow> \<forall>v \<in> set vs. h < cv_UpgradeHeight v
   | Some s \<Rightarrow> s \<in> set vs \<and> cv_UpgradeHeight s \<le> h \<and>
       (\<forall>v \<in> set vs. cv_UpgradeHeight v \<le> h \<longrightarrow> cv_UpgradeHeight v \<le> cv_UpgradeHeight s)"
  using findVersion_loop_spec [of None vs h] by (auto simp: findVersion_def split: option.splits)

subsection \<open>The builder never panics\<close>

text \<open>What \<open>NewPodBuilder\<close> establishes and \<open>WithOrdinal\<close> keeps.\<close>

definition builder_ok :: "CosmosFullNode \<Rightarrow> PodBuilder \<Rightarrow> bool" where
  "builder_ok crd b \<longleftrightarrow> bld_crd b = crd \<and> 2 \<le> length (ps_Containers (pod_Spec (bld_pod b))) \<and>
     length (ps_Containers (pod_Spec (bld_pod b))) \<le> 3 \<and>
     GetNamespace (bld_pod b) = fn_Namespace crd"

lemma NewPodBuilder_ok: "\<exists>b. NewPodBuilder env (Some crd) = Ok b \<and> builder_ok crd b"
  using defaultLabels_total [of "[]" crd]
  by (auto simp: NewPodBuilder_def builder_ok_def Let_def GetNamespace_def)

lemma initContainers_total: "\<exists>cs. initContainers env crd m = Ok cs"
  by (auto simp: initContainers_def DownloadSnapshotCommand_def willRestoreFromSnapshot_def Let_def
      split: prod.splits option.splits)

lemma mountContainers_total:
  "2 \<le> length cs \<Longrightarrow> \<exists>cs'. mountContainers crd cs = Ok cs' \<and> length cs' = length cs"
  by (auto simp: mountContainers_def Let_def)

lemma WithOrdinal_total:
  assumes "builder_ok crd b"
  shows "\<exists>b'. WithOrdinal env b i = Ok b' \<and> builder_ok crd b' \<and>
     GetName (bld_pod b') = instanceName crd i \<and>
     ps_Volumes (pod_Spec (bld_pod b')) = podVolumes crd i"
proof -
  from assms have crd: "bld_crd b = crd" and n: "2 \<le> length (ps_Containers (pod_Spec (bld_pod b)))"
    by (auto simp: builder_ok_def)
  obtain inits where "initContainers env crd (instanceName crd i) = Ok inits"
    using initContainers_total by blast
  moreover obtain cs where "mountContainers crd (ps_Containers (pod_Spec (bld_pod b))) = Ok cs"
      "length cs = length (ps_Containers (pod_Spec (bld_pod b)))"
    using mountContainers_total [OF n] by blast
  ultimately show ?thesis
    using assms crd by (auto simp: WithOrdinal_def builder_ok_def Let_def object_defs upd_spec_def)
qed

lemma mountContainers_mounts:
  assumes "mountContainers crd cs = Ok cs'" and "length cs \<le> 3" and "c \<in> set cs'" and "m \<in> set (ct_VolumeMounts c)"
  shows "vm_Name m \<in> {volChainHome, volSystemTmp, volNodeKey}"
proof -
  from assms(1,2) obtain a b rest where cs: "cs = a # b # rest" "length rest \<le> 1"
    by (cases cs; cases "tl cs") (auto simp: mountContainers_def split: if_splits)
  then obtain rest' where "rest = [] \<or> rest = [rest']" by (cases rest) auto
  with assms cs show ?thesis by (auto simp: mountContainers_def Let_def mount_def)
qed

subsection \<open>Building one pod\<close>

definition disabled :: "CosmosFullNode \<Rightarrow> string \<Rightarrow> bool" where
  "disabled crd name \<longleftrightarrow>
     (case map_of (sp_InstanceOverrides (fn_Spec crd)) name of None \<Rightarrow> False
      | Some v \<Rightarrow> io_DisableStrategy v = Some DisablePod \<or> io_DisableStrategy v = Some DisableAll)"

lemma instanceName_nonempty: "is_ordinal i \<Longrightarrow> instanceName crd i \<noteq> []"
  using instance_names.nm_suffix [of i crd] FormatInt_ordinal [of i] by auto

lemma setImage_find:
  "find (\<lambda>c. ct_Name c = n) (setImage m img cs) =
     map_option (\<lambda>c. if n = m then c\<lparr>ct_Image := img\<rparr> else c) (find (\<lambda>c. ct_Name c = n) cs)"
  by (induction cs) (auto simp: option.map_ident)

lemma meta_setChainContainerImages [simp]: "ob_Meta (setChainContainerImages pod v) = ob_Meta pod"
  by (simp add: setChainContainerImages_def setChainContainerImage_def)

lemma volumes_setChainContainerImages [simp]:
  "ps_Volumes (pod_Spec (setChainContainerImages pod v)) = ps_Volumes (pod_Spec pod)"
  by (simp add: setChainContainerImages_def setChainContainerImage_def)

text \<open>The image of the main container.\<close>

definition main_image :: "Pod \<Rightarrow> string option" where
  "main_image pod = map_option ct_Image (find (\<lambda>c. ct_Name c = mainContainer) (ps_Containers (pod_Spec pod)))"

lemma find_foldl_setImage:
  "n \<notin> fst ` set nis \<Longrightarrow>
   find (\<lambda>c. ct_Name c = n) (foldl (\<lambda>cs ni. setImage (fst ni) (snd ni) cs) cs nis) = find (\<lambda>c. ct_Name c = n) cs"
proof (induction nis arbitrary: cs)
  case Nil
  then show ?case by simp
next
  case (Cons ni nis)
  then show ?case
    by (auto simp: setImage_find intro: option.map_ident_strong)
qed

lemma main_image_setChainContainerImages:
  "mainContainer \<notin> fst ` set (cv_Containers v) \<Longrightarrow>
   main_image (setChainContainerImages pod v) = map_option (\<lambda>_. cv_Image v) (main_image pod)"
  by (simp add: main_image_def setChainContainerImages_def setChainContainerImage_def
      find_foldl_setImage setImage_find option.map_comp comp_def)

lemma main_image_override:
  "main_image (upd_spec (\<lambda>s. s\<lparr>ps_Containers := setImage mainContainer img (ps_Containers s)\<rparr>) pod) =
     map_option (\<lambda>_. img) (main_image pod)"
  by (simp add: main_image_def setImage_find option.map_comp comp_def)

lemma main_image_kobject [simp]: "main_image (pod\<lparr>ob_Meta := m\<rparr>) = main_image pod"
  by (simp add: main_image_def)

lemma GetName_upd_spec [simp]: "GetName (upd_spec f pod) = GetName pod"
  by (simp add: GetName_def)

text \<open>The image the rules of the resource ask for: the override, else the version of the height.\<close>

definition wanted_image :: "CosmosFullNode \<Rightarrow> string \<Rightarrow> string \<Rightarrow> string" where
  "wanted_image crd name img =
     (case map_of (sp_InstanceOverrides (fn_Spec crd)) name of
        Some v \<Rightarrow> if io_Image v \<noteq> [] then io_Image v else (case map_of (st_Height (fn_Status crd)) name of
            None \<Rightarrow> img | Some h \<Rightarrow> (case findVersion (ch_Versions (fn_Chain crd)) h of None \<Rightarrow> img | Some v \<Rightarrow> cv_Image v))
      | None \<Rightarrow> (case map_of (st_Height (fn_Status crd)) name of
            None \<Rightarrow> img | Some h \<Rightarrow> (case findVersion (ch_Versions (fn_Chain crd)) h of None \<Rightarrow> img | Some v \<Rightarrow> cv_Image v)))"

locale pod_patch =
  fixes patch :: patcher
  assumes patch_meta: "patch pod (podPatch crd) = Inr pod' \<Longrightarrow> ob_Meta pod' = ob_Meta pod"
    and patch_volume: "patch pod (podPatch crd) = Inr pod' \<Longrightarrow>
      n \<notin> vol_Name ` set (tpl_Volumes (fn_Tpl crd)) \<Longrightarrow>
      find (\<lambda>v. vol_Name v = n) (ps_Volumes (pod_Spec pod')) = find (\<lambda>v. vol_Name v = n) (ps_Volumes (pod_Spec pod))"
begin

lemma Build_cases:
  assumes ok: "builder_ok crd b" and nm: "GetName (bld_pod b) = instanceName crd i" "is_ordinal i"
  shows "(disabled crd (instanceName crd i) \<longrightarrow> Build patch b = Inr None) \<and>
    (\<not> disabled crd (instanceName crd i) \<longrightarrow>
       (case patch (bld_pod b) (podPatch crd) of
          Inl err \<Rightarrow> Build patch b = Inl err
        | Inr pod \<Rightarrow> \<exists>pod'. Build patch b = Inr (Some pod') \<and> ob_Meta pod' = NormalizeMetadata (ob_Meta (bld_pod b)) \<and>
            ps_Volumes (pod_Spec pod') = ps_Volumes (pod_Spec pod) \<and>
            ((\<forall>v \<in> set (ch_Versions (fn_Chain crd)). mainContainer \<notin> fst ` set (cv_Containers v)) \<longrightarrow>
               main_image pod' = map_option (wanted_image crd (instanceName crd i)) (main_image pod))))"
proof -
  have ne: "instanceName crd i \<noteq> []" using nm(2) by (rule instanceName_nonempty)
  have crd: "bld_crd b = crd" using ok by (simp add: builder_ok_def)
  show ?thesis
  proof (cases "patch (bld_pod b) (podPatch crd)")
    case (Inl err)
    then show ?thesis using ne nm crd by (auto simp: Build_def disabled_def Let_def split: option.splits)
  next
    case (Inr pod)
    then have meta: "ob_Meta pod = ob_Meta (bld_pod b)" by (rule patch_meta)
    with nm have gn: "GetName pod = instanceName crd i" by (simp add: GetName_def)
    have fv: "v \<in> set (ch_Versions (fn_Chain crd))" if "findVersion (ch_Versions (fn_Chain crd)) h = Some v" for h v
      using findVersion_spec [of "ch_Versions (fn_Chain crd)" h] that by simp
    have nv: "findVersion [] h = None" for h by (simp add: findVersion_def)
    show ?thesis using Inr ne nm crd meta gn
      by (auto simp: Build_def disabled_def Let_def wanted_image_def [abs_def] GetName_def upd_meta_def [of NormalizeMetadata]
          main_image_setChainContainerImages main_image_override main_image_kobject fv nv option.map_comp comp_def
          option.map_ident split: option.splits)
  qed
qed

text \<open>The pod of an ordinal that runs, and nothing for one that does not.\<close>

lemma BuildPods_step:
  assumes ok: "builder_ok crd builder" and i: "is_ordinal i"
    and tot: "\<And>pod. \<exists>pod'. patch pod (podPatch crd) = Inr pod'"
  shows "\<exists>b. WithOrdinal env builder i = Ok b \<and>
    (if disabled crd (instanceName crd i) then Build patch b = Inr None
     else \<exists>pod. Build patch b = Inr (Some pod) \<and> GetName pod = instanceName crd i \<and>
       GetNamespace pod = fn_Namespace crd \<and>
       (volChainHome \<notin> vol_Name ` set (tpl_Volumes (fn_Tpl crd)) \<longrightarrow> PVCName pod = pvcName crd i))"
proof -
  obtain b where b: "WithOrdinal env builder i = Ok b" "builder_ok crd b"
      "GetName (bld_pod b) = instanceName crd i" "ps_Volumes (pod_Spec (bld_pod b)) = podVolumes crd i"
    using WithOrdinal_total [OF ok] by blast
  obtain pod where pod: "patch (bld_pod b) (podPatch crd) = Inr pod" using tot by blast
  show ?thesis
  proof (cases "disabled crd (instanceName crd i)")
    case True
    with Build_cases [OF b(2,3) i] b(1) show ?thesis by auto
  next
    case False
    with Build_cases [OF b(2,3) i] pod obtain pod' where pod':
        "Build patch b = Inr (Some pod')" "ob_Meta pod' = NormalizeMetadata (ob_Meta (bld_pod b))"
        "ps_Volumes (pod_Spec pod') = ps_Volumes (pod_Spec pod)" by auto
    have "GetName pod' = instanceName crd i" "GetNamespace pod' = fn_Namespace crd"
      using b(2,3) pod'(2) by (simp_all add: object_defs NormalizeMetadata_def builder_ok_def)
    moreover have "PVCName pod' = pvcName crd i" if "volChainHome \<notin> vol_Name ` set (tpl_Volumes (fn_Tpl crd))"
      using patch_volume [OF pod that] b(4) pod'(3) by (simp add: PVCName_def podVolumes_def)
    ultimately show ?thesis using False b(1) pod'(1) by auto
  qed
qed

end

text \<open>The ordinals whose pod is wanted.\<close>

definition runs :: "CosmosFullNode \<Rightarrow> int \<Rightarrow> bool" where
  "runs crd i \<longleftrightarrow> \<not> disabled crd (instanceName crd i) \<and> instanceName crd i \<notin> set (podCandidates crd)"

definition pod_of :: "CosmosFullNode \<Rightarrow> PodBody Resource \<Rightarrow> bool" where
  "pod_of crd r \<longleftrightarrow> GetName (rs_Object r) = instanceName crd (rs_Ordinal r) \<and>
     GetNamespace (rs_Object r) = fn_Namespace crd \<and>
     (volChainHome \<notin> vol_Name ` set (tpl_Volumes (fn_Tpl crd)) \<longrightarrow> PVCName (rs_Object r) = pvcName crd (rs_Ordinal r))"

lemma annotateChecksum_simps [simp]:
  "GetName (annotateChecksum c pod) = GetName pod" "GetNamespace (annotateChecksum c pod) = GetNamespace pod"
  "ob_Body (annotateChecksum c pod) = ob_Body pod"
  by (simp_all add: annotateChecksum_def object_defs)

lemma PVCName_annotateChecksum [simp]: "PVCName (annotateChecksum c pod) = PVCName pod"
  by (simp add: PVCName_def)

context pod_patch
begin

lemma BuildPods_loop_spec:
  assumes ok: "builder_ok crd builder" and ords: "\<forall>i \<in> set is. is_ordinal i"
    and tot: "\<And>pod. \<exists>pod'. patch pod (podPatch crd) = Inr pod'"
    and enc: "\<And>ob. \<exists>b. marshal ob = Inr b"
  shows "\<exists>rs. BuildPods_loop env marshal patch builder (podCandidates crd) cksums is acc = Ok (Inr (acc @ rs)) \<and>
    map rs_Ordinal rs = filter (runs crd) is \<and> (\<forall>r \<in> set rs. pod_of crd r)"
  using ords
proof (induction "is" arbitrary: acc)
  case Nil
  then show ?case by simp
next
  case (Cons i "is")
  from Cons.prems have i: "is_ordinal i" by simp
  from BuildPods_step [OF ok i tot] obtain b where b: "WithOrdinal env builder i = Ok b"
      "if disabled crd (instanceName crd i) then Build patch b = Inr None
       else \<exists>pod. Build patch b = Inr (Some pod) \<and> GetName pod = instanceName crd i \<and>
         GetNamespace pod = fn_Namespace crd \<and>
         (volChainHome \<notin> vol_Name ` set (tpl_Volumes (fn_Tpl crd)) \<longrightarrow> PVCName pod = pvcName crd i)"
    by blast
  show ?case
  proof (cases "runs crd i")
    case False
    with b have "BuildPods_loop env marshal patch builder (podCandidates crd) cksums (i # is) acc =
        BuildPods_loop env marshal patch builder (podCandidates crd) cksums is acc"
      by (auto simp: runs_def split: if_splits)
    with False Cons show ?thesis by simp
  next
    case True
    with b obtain pod where pod: "Build patch b = Inr (Some pod)" "GetName pod = instanceName crd i"
        "GetNamespace pod = fn_Namespace crd"
        "volChainHome \<notin> vol_Name ` set (tpl_Volumes (fn_Tpl crd)) \<longrightarrow> PVCName pod = pvcName crd i"
      by (auto simp: runs_def)
    obtain js where js: "marshal (annotateChecksum cksums pod) = Inr js" using enc by blast
    let ?r = "\<lparr>rs_Object = annotateChecksum cksums pod, rs_Revision = hex32 (fnv32 js), rs_Ordinal = i\<rparr>"
    have "BuildPods_loop env marshal patch builder (podCandidates crd) cksums (i # is) acc =
        BuildPods_loop env marshal patch builder (podCandidates crd) cksums is (acc @ [?r])"
      using b(1) pod True js by (auto simp: runs_def Adapt_def)
    moreover have "pod_of crd ?r" using pod by (simp add: pod_of_def)
    moreover from Cons obtain rs where
        "BuildPods_loop env marshal patch builder (podCandidates crd) cksums is (acc @ [?r]) = Ok (Inr ((acc @ [?r]) @ rs))"
        "map rs_Ordinal rs = filter (runs crd) is" "\<forall>r \<in> set rs. pod_of crd r"
      by (metis list.set_intros(2))
    ultimately show ?thesis using True by (intro exI [of _ "?r # rs"]) simp
  qed
qed

lemma BuildPods_spec:
  assumes "int32_replicas crd"
    and "\<And>pod. \<exists>pod'. patch pod (podPatch crd) = Inr pod'" and "\<And>ob. \<exists>b. marshal ob = Inr b"
  shows "\<exists>rs. BuildPods env marshal patch crd cksums = Ok (Inr rs) \<and>
    map rs_Ordinal rs = filter (runs crd) (ordinals (sp_Replicas (fn_Spec crd))) \<and> (\<forall>r \<in> set rs. pod_of crd r)"
proof -
  obtain b where "NewPodBuilder env (Some crd) = Ok b" "builder_ok crd b" using NewPodBuilder_ok by blast
  moreover have "\<forall>i \<in> set (ordinals (sp_Replicas (fn_Spec crd))). is_ordinal i"
    using ordinals_is_ordinal [OF assms(1)] by blast
  ultimately show ?thesis
    using BuildPods_loop_spec [of crd b _ marshal env cksums "[]"] assms(2,3) by (auto simp: BuildPods_def)
qed

end

text \<open>A family of resources named by their ordinals has distinct keys.\<close>

lemma named_by_ordinal_distinct:
  assumes "\<forall>r \<in> set rs. pod_of crd r \<and> is_ordinal (rs_Ordinal r)" and "distinct (map rs_Ordinal rs)"
  shows "distinct (map rs_key rs)"
proof -
  have "map (key_Name \<circ> rs_key) rs = map (instanceName crd) (map rs_Ordinal rs)"
    using assms(1) by (auto simp: pod_of_def rs_key_def ObjectKeyFromObject_def)
  moreover have "distinct (map (instanceName crd) (map rs_Ordinal rs))"
    using assms by (intro instance_names.distinct_nm) auto
  ultimately have "distinct (map key_Name (map rs_key rs))" by (simp only: map_map)
  then show ?thesis by (simp only: distinct_map)
qed


subsection \<open>The contract of the patch, from the library's\<close>

text \<open>
  What is documented of a strategic merge: fields the patch does not set are kept, so are list
  elements whose merge key (the name, for volumes) the patch does not have; conversions between
  a pod and its unstructured form lose nothing.
\<close>

locale strategic_lib =
  fixes lib :: "(Pod, 'u, 's) patch_lib"
    and meta_of :: "'u \<Rightarrow> ObjectMeta"
    and volumes_of :: "'u \<Rightarrow> Volume list"
  assumes to_meta: "pl_ToUnstructured lib pod = Inr u \<Longrightarrow> meta_of u = ob_Meta pod"
    and to_volumes: "pl_ToUnstructured lib pod = Inr u \<Longrightarrow> volumes_of u = ps_Volumes (pod_Spec pod)"
    and from_meta: "pl_FromUnstructured lib u = Inr pod \<Longrightarrow> ob_Meta pod = meta_of u"
    and from_volumes: "pl_FromUnstructured lib u = Inr pod \<Longrightarrow> ps_Volumes (pod_Spec pod) = volumes_of u"
    and merge_meta: "pl_StrategicMerge lib t p sch = Inr r \<Longrightarrow> meta_of p = emptyMeta \<Longrightarrow> meta_of r = meta_of t"
    and merge_volumes: "pl_StrategicMerge lib t p sch = Inr r \<Longrightarrow> n \<notin> vol_Name ` set (volumes_of p) \<Longrightarrow>
      find (\<lambda>v. vol_Name v = n) (volumes_of r) = find (\<lambda>v. vol_Name v = n) (volumes_of t)"

lemma podPatch_meta [simp]: "ob_Meta (podPatch crd) = emptyMeta"
  by (simp add: podPatch_def Let_def)

lemma podPatch_volumes [simp]: "ps_Volumes (pod_Spec (podPatch crd)) = tpl_Volumes (fn_Tpl crd)"
  by (simp add: podPatch_def Let_def sliceOrDefault_def)

lemma ApplyStrategicMergePatch_Inr:
  "ApplyStrategicMergePatch lib target patch = Inr res \<longleftrightarrow>
     (\<exists>tm pm sch r. pl_ToUnstructured lib target = Inr tm \<and> pl_ToUnstructured lib patch = Inr pm \<and>
        pl_NewPatchMetaFromStruct lib target = Inr sch \<and> pl_StrategicMerge lib tm pm sch = Inr r \<and>
        pl_FromUnstructured lib r = Inr res)"
  by (auto simp: ApplyStrategicMergePatch_def split: sum.splits)

sublocale strategic_lib \<subseteq> applied: pod_patch "ApplyStrategicMergePatch lib"
proof unfold_locales
  fix pod crd pod'
  assume "ApplyStrategicMergePatch lib pod (podPatch crd) = Inr pod'"
  then show "ob_Meta pod' = ob_Meta pod"
    using to_meta from_meta merge_meta unfolding ApplyStrategicMergePatch_Inr by (metis podPatch_meta)
next
  fix pod crd pod' n
  assume "ApplyStrategicMergePatch lib pod (podPatch crd) = Inr pod'"
    and "n \<notin> vol_Name ` set (tpl_Volumes (fn_Tpl crd))"
  then show "find (\<lambda>v. vol_Name v = n) (ps_Volumes (pod_Spec pod')) = find (\<lambda>v. vol_Name v = n) (ps_Volumes (pod_Spec pod))"
    using to_volumes from_volumes merge_volumes unfolding ApplyStrategicMergePatch_Inr
    by (metis podPatch_volumes)
qed

text \<open>A library with that behaviour: pods stand for themselves, lists merge by name.\<close>

definition merge_named :: "('a \<Rightarrow> string) \<Rightarrow> 'a list \<Rightarrow> 'a list \<Rightarrow> 'a list" where
  "merge_named nm xs ys = filter (\<lambda>x. nm x \<notin> nm ` set ys) xs @ ys"

lemma find_merge_named:
  "n \<notin> nm ` set ys \<Longrightarrow> find (\<lambda>x. nm x = n) (merge_named nm xs ys) = find (\<lambda>x. nm x = n) xs"
  unfolding merge_named_def
proof (induction xs)
  case Nil
  then show ?case by (auto simp: find_None_iff)
next
  case (Cons x xs)
  then show ?case by auto
qed

definition ref_lib :: "(Pod, Pod, unit) patch_lib" where
  "ref_lib = \<lparr>pl_ToUnstructured = Inr, pl_NewPatchMetaFromStruct = (\<lambda>_. Inr ()),
     pl_StrategicMerge = (\<lambda>t p _. Inr (upd_spec (\<lambda>s. s\<lparr>
        ps_Volumes := merge_named vol_Name (ps_Volumes s) (ps_Volumes (pod_Spec p)),
        ps_Containers := merge_named ct_Name (ps_Containers s) (ps_Containers (pod_Spec p)),
        ps_InitContainers := merge_named ct_Name (ps_InitContainers s) (ps_InitContainers (pod_Spec p)),
        ps_TerminationGracePeriodSeconds := ps_TerminationGracePeriodSeconds (pod_Spec p)\<rparr>) t)),
     pl_FromUnstructured = Inr\<rparr>"

interpretation ref_strategic: strategic_lib ref_lib ob_Meta "\<lambda>pod. ps_Volumes (pod_Spec pod)"
  by unfold_locales (auto simp: ref_lib_def find_merge_named)

abbreviation ref_patch :: patcher where "ref_patch \<equiv> ApplyStrategicMergePatch ref_lib"

lemma ref_patch_total: "\<exists>pod'. ref_patch pod p = Inr pod'"
  by (simp add: ApplyStrategicMergePatch_def ref_lib_def)

definition ref_marshal :: "'b marshaler" where
  "ref_marshal ob = Inr (GetName ob)"

lemma ref_marshal_encodes: "encodes ref_marshal"
  by (simp add: ref_marshal_def encodes_def)

definition sample_env :: build_env where
  "sample_env = \<lparr>be_version = [], be_scriptDownloadGenesis = [], be_scriptUseInitGenesis = [],
     be_scriptDownloadAddrbook = [], be_scriptDownloadSnapshot = []\<rparr>"

subsection \<open>Properties\<close>

text \<open>C6: \<open>BuildPods\<close> wants exactly the pods it should. For every full node with an \<open>int32\<close> replica
  count, when the encoder and the merge patch succeed, there is no panic and no error; the result
  has one pod per ordinal that is neither disabled by an override nor the candidate of a scheduled
  snapshot, in ascending order, named after its ordinal, in the namespace of the full node and
  mounting the claim of its ordinal; no two have the same key.\<close>

theorem BuildPods_exact:
  assumes "pod_patch patch" and "int32_replicas crd"
    and "\<And>pod. \<exists>pod'. patch pod (podPatch crd) = Inr pod'" and "encodes marshal"
    and "volChainHome \<notin> vol_Name ` set (tpl_Volumes (fn_Tpl crd))"
  shows "\<exists>rs. BuildPods env marshal patch crd cksums = Ok (Inr rs) \<and>
    map rs_Ordinal rs = filter (\<lambda>i. \<not> disabled crd (instanceName crd i) \<and>
        instanceName crd i \<notin> set (podCandidates crd)) (ordinals (sp_Replicas (fn_Spec crd))) \<and>
    (\<forall>r \<in> set rs. GetName (rs_Object r) = instanceName crd (rs_Ordinal r) \<and>
       GetNamespace (rs_Object r) = fn_Namespace crd \<and> PVCName (rs_Object r) = pvcName crd (rs_Ordinal r)) \<and>
    distinct (map rs_key rs)"
proof -
  obtain rs where rs: "BuildPods env marshal patch crd cksums = Ok (Inr rs)"
      "map rs_Ordinal rs = filter (runs crd) (ordinals (sp_Replicas (fn_Spec crd)))" "\<forall>r \<in> set rs. pod_of crd r"
    using pod_patch.BuildPods_spec [where marshal = marshal, OF assms(1,2,3)] assms(4)
    unfolding encodes_def by blast
  have "rs_Ordinal r \<in> set (ordinals (sp_Replicas (fn_Spec crd)))" if "r \<in> set rs" for r
  proof -
    from that have "rs_Ordinal r \<in> set (map rs_Ordinal rs)" by simp
    then show ?thesis unfolding rs(2) by simp
  qed
  with rs(3) ordinals_is_ordinal [OF assms(2)] have "\<forall>r \<in> set rs. pod_of crd r \<and> is_ordinal (rs_Ordinal r)"
    by blast
  then have "distinct (map rs_key rs)"
    by (rule named_by_ordinal_distinct) (simp add: rs(2))
  with rs assms(5) show ?thesis by (auto simp: pod_of_def runs_def [abs_def])
qed

theorem BuildPods_exact_witness:
  "\<exists>rs. BuildPods sample_env ref_marshal ref_patch sample_crd [] = Ok (Inr rs) \<and>
     map rs_Ordinal rs = filter (\<lambda>i. \<not> disabled sample_crd (instanceName sample_crd i) \<and>
        instanceName sample_crd i \<notin> set (podCandidates sample_crd)) [0, 1, 2] \<and> distinct (map rs_key rs)"
proof -
  have "int32_replicas sample_crd" "volChainHome \<notin> vol_Name ` set (tpl_Volumes (fn_Tpl sample_crd))"
    by (simp_all add: int32_replicas_def sample_crd_defs)
  moreover have "ordinals (sp_Replicas (fn_Spec sample_crd)) = [0, 1, 2]"
    by code_simp
  ultimately show ?thesis
    using BuildPods_exact [where marshal = ref_marshal and env = sample_env and cksums = "[]",
        OF ref_strategic.applied.pod_patch_axioms _ ref_patch_total ref_marshal_encodes, of sample_crd]
    by auto
qed

text \<open>Of the chain versions, \<open>findVersion\<close> picks the one with the highest upgrade height that
  is not above the pod's height, and none exactly when all are above it.\<close>

theorem findVersion_highest:
  "case findVersion versions h of
     None \<Rightarrow> \<forall>v \<in> set versions. h < cv_UpgradeHeight v
   | Some s \<Rightarrow> s \<in> set versions \<and> cv_UpgradeHeight s \<le> h \<and>
       (\<forall>v \<in> set versions. cv_UpgradeHeight v \<le> h \<longrightarrow> cv_UpgradeHeight v \<le> cv_UpgradeHeight s)"
  using findVersion_spec [of versions h] .

theorem findVersion_highest_witness:
  "\<exists>s. findVersion [sample_version 200 ''c'', sample_version 0 ''a'', sample_version 100 ''b''] 150 = Some s \<and>
     cv_Image s = ''b'' \<and> cv_UpgradeHeight s \<le> 150"
proof -
  let ?vs = "[sample_version 200 ''c'', sample_version 0 ''a'', sample_version 100 ''b'']"
  have "findVersion ?vs 150 = Some (sample_version 100 ''b'')"
    by (simp add: findVersion_def sample_version_def)
  with findVersion_highest [of ?vs 150] show ?thesis by (simp add: sample_version_def)
qed

text \<open>C11: The image of the main container follows the rules of the resource: a built pod of an
  instance that is not disabled runs the image of its override, else of the chain version for its
  reported height, else of the patched template (where no version redefines the main container by
  name).\<close>

theorem Build_image:
  assumes "pod_patch patch" and "is_ordinal i"
    and "NewPodBuilder env (Some crd) = Ok b0" and "WithOrdinal env b0 i = Ok b"
    and "\<not> disabled crd (instanceName crd i)" and "patch (bld_pod b) (podPatch crd) = Inr p"
    and "\<forall>v \<in> set (ch_Versions (fn_Chain crd)). mainContainer \<notin> fst ` set (cv_Containers v)"
  shows "\<exists>pod. Build patch b = Inr (Some pod) \<and> GetName pod = instanceName crd i \<and>
    main_image pod = map_option (\<lambda>img.
      let name = instanceName crd i;
          byHeight = (case map_of (st_Height (fn_Status crd)) name of None \<Rightarrow> img
             | Some h \<Rightarrow> (case findVersion (ch_Versions (fn_Chain crd)) h of None \<Rightarrow> img | Some v \<Rightarrow> cv_Image v))
      in case map_of (sp_InstanceOverrides (fn_Spec crd)) name of
           None \<Rightarrow> byHeight
         | Some v \<Rightarrow> if io_Image v \<noteq> [] then io_Image v else byHeight) (main_image p)"
proof -
  have ok: "builder_ok crd b" "GetName (bld_pod b) = instanceName crd i"
    using NewPodBuilder_ok [of env crd] WithOrdinal_total [of crd b0 env i] assms(3,4) by auto
  then obtain pod where "Build patch b = Inr (Some pod)" "ob_Meta pod = NormalizeMetadata (ob_Meta (bld_pod b))"
      "main_image pod = map_option (wanted_image crd (instanceName crd i)) (main_image p)"
    using pod_patch.Build_cases [OF assms(1) ok assms(2)] assms(5,6,7) by auto
  then show ?thesis
    using ok(2) by (auto simp: wanted_image_def [abs_def] Let_def GetName_def NormalizeMetadata_def)
qed

text \<open>Instance 0 of the sample is at height 150, past the second version's upgrade height.\<close>

definition sample_built :: "int \<Rightarrow> PodBuilder exec" where
  "sample_built i = exec_bind (NewPodBuilder sample_env (Some sample_crd)) (\<lambda>b. WithOrdinal sample_env b i)"

lemma sample_facts:
  "instanceName sample_crd 0 = ''osmo-0''" "\<not> disabled sample_crd (instanceName sample_crd 0)"
  "main_image (bld_pod (case sample_built 0 of Ok b \<Rightarrow> b)) = Some ''osmosis:v24''"
  "map_of (st_Height (fn_Status sample_crd)) ''osmo-0'' = Some 150"
  "map_of (sp_InstanceOverrides (fn_Spec sample_crd)) ''osmo-0'' = None"
  "map_option cv_Image (findVersion (ch_Versions (fn_Chain sample_crd)) 150) = Some ''osmosis:v25''"
  "\<forall>v \<in> set (ch_Versions (fn_Chain sample_crd)). mainContainer \<notin> fst ` set (cv_Containers v)"
  by code_simp+

theorem Build_image_witness:
  "\<exists>b pod. sample_built 0 = Ok b \<and> Build ref_patch b = Inr (Some pod) \<and> main_image pod = Some ''osmosis:v25''"
proof -
  obtain b0 where b0: "NewPodBuilder sample_env (Some sample_crd) = Ok b0" "builder_ok sample_crd b0"
    using NewPodBuilder_ok by blast
  then obtain b where b: "WithOrdinal sample_env b0 0 = Ok b" using WithOrdinal_total by blast
  obtain p where p: "ref_patch (bld_pod b) (podPatch sample_crd) = Inr p" using ref_patch_total by blast
  have sb: "sample_built 0 = Ok b" using b0 b by (simp add: sample_built_def)
  have "main_image p = main_image (bld_pod b)"
    using p by (auto simp: ApplyStrategicMergePatch_def ref_lib_def main_image_def podPatch_def sample_crd_defs
        sliceOrDefault_def merge_named_def)
  then have "main_image p = Some ''osmosis:v24''" using sample_facts(3) sb by simp
  with Build_image [OF ref_strategic.applied.pod_patch_axioms _ b0(1) b sample_facts(2) p sample_facts(7)]
  show ?thesis using sb sample_facts by (auto simp: is_ordinal_def Let_def split: option.splits)
qed

end
