(* ===== verification/Pod_Control.thy ===== *)
theory Pod_Control
  imports Build_Pods Control_Loops Kube_Rollout
begin

text \<open>
  \<^verbatim>\<open>internal/fullnode/pod_control.go\<close>: the control loop for pods. Missing pods are created and
  unwanted ones deleted; only when neither happened are outdated pods deleted, so that the next
  round recreates them: first those that wait for a version upgrade and cannot be reached, then as
  many others as \<open>ComputeRollout\<close> allows.

  The state of the loop is the history of write calls, the map \<open>syncInfo\<close> that the code mutates,
  and the names it hands to the cache invalidator when it returns. An entry of \<open>syncInfo\<close> is a
  pointer that is never nil (\<open>SyncInfoStatus\<close> stores addresses); a missing entry is the nil
  pointer, and writing through it panics. A panic keeps the state, since the calls were sent.
\<close>

record pod_state =
  pcs_calls :: "PodBody history"
  pcs_syncInfo :: "(string \<times> SyncInfoPodStatus) list"
  pcs_invalidate :: "string list"

datatype pod_outcome =
    Returned bool "ReconcileError option"
  | Panicked string

definition create_pod_step ::
  "PodBody server \<Rightarrow> PodBody setref \<Rightarrow> Pod \<Rightarrow> pod_state \<Rightarrow> pod_outcome option \<times> pod_state" where
  "create_pod_step srv setRef pod st =
     (case create_step srv setRef (named ''pod'') (\<lambda>n. ''create '' @ named ''pod'' n) pod (pcs_calls st) of
        (err, h) \<Rightarrow> (map_option (\<lambda>e. Returned True (Some e)) err, st\<lparr>pcs_calls := h\<rparr>))"

definition delete_pod_step :: "PodBody server \<Rightarrow> Pod \<Rightarrow> pod_state \<Rightarrow> pod_outcome option \<times> pod_state" where
  "delete_pod_step srv pod st =
     (case send srv (Delete pod) (pcs_calls st) of
        (err, h) \<Rightarrow>
          (case IgnoreNotFound err of
             Some e \<Rightarrow> (Some (Returned True (Some (TransientError (wrap (''delete '' @ named ''pod'' (GetName pod) @ '': '') e)))),
                        st\<lparr>pcs_calls := h\<rparr>)
           | None \<Rightarrow> (None, st\<lparr>pcs_calls := h,
                       pcs_syncInfo := AList.delete (GetName pod) (pcs_syncInfo st),
                       pcs_invalidate := pcs_invalidate st @ [GetName pod]\<rparr>)))"

text \<open>Deleting an outdated pod, with the reason that is recorded in \<open>syncInfo\<close>.\<close>

definition restart_step ::
  "PodBody server \<Rightarrow> string \<Rightarrow> string \<Rightarrow> Pod \<Rightarrow> pod_state \<Rightarrow> pod_outcome option \<times> pod_state" where
  "restart_step srv what reason update st =
     (case send srv (Delete update) (pcs_calls st) of
        (err, h) \<Rightarrow>
          (case IgnoreNotFound err of
             Some e \<Rightarrow> (Some (Returned True (Some (TransientError (wrap (what @ '' '' @ quoted (GetName update) @ '': '') e)))),
                        st\<lparr>pcs_calls := h\<rparr>)
           | None \<Rightarrow>
               (case map_of (pcs_syncInfo st) (GetName update) of
                  None \<Rightarrow> (Some (Panicked ''invalid memory address or nil pointer dereference''), st\<lparr>pcs_calls := h\<rparr>)
                | Some ps \<Rightarrow> (None, st\<lparr>pcs_calls := h,
                    pcs_syncInfo := AList.update (GetName update) (ps\<lparr>si_InSync := None, si_Error := Some reason\<rparr>) (pcs_syncInfo st),
                    pcs_invalidate := pcs_invalidate st @ [GetName update]\<rparr>))))"

record rollout_state =
  ro_state :: pod_state
  ro_updatedPods :: int
  ro_rpcReachablePods :: int
  ro_inSyncPods :: int
  ro_otherUpdates :: "Pod list"

text \<open>
  One existing pod: it is counted, and deleted when it awaits an upgrade and is not reachable.
  \<open>Containers[0]\<close> panics on a pod without containers.
\<close>

definition observe_step ::
  "PodBody server \<Rightarrow> Pod list \<Rightarrow> Pod \<Rightarrow> rollout_state \<Rightarrow> pod_outcome option \<times> rollout_state" where
  "observe_step srv diffedUpdates existing ro =
     (if om_DeletionTimestamp (ob_Meta existing) \<noteq> None then (None, ro)
      else
        let podName = GetName existing;
            entry = map_of (pcs_syncInfo (ro_state ro)) podName;
            inSync = (case entry of None \<Rightarrow> False | Some ps \<Rightarrow> si_InSync ps = Some True);
            rpcReachable = (case entry of None \<Rightarrow> False | Some ps \<Rightarrow> si_Error ps = None);
            ro1 = ro\<lparr>ro_inSyncPods := ro_inSyncPods ro + (if inSync then 1 else 0),
                     ro_rpcReachablePods := ro_rpcReachablePods ro + (if rpcReachable then 1 else 0)\<rparr>
        in case List.find (\<lambda>update. podName = GetName update) diffedUpdates of
             None \<Rightarrow> (None, ro1)
           | Some update \<Rightarrow>
               (case (ps_Containers (pod_Spec existing), ps_Containers (pod_Spec update)) of
                  (c # _, c' # _) \<Rightarrow>
                    if ct_Image c \<noteq> ct_Image c' \<and> \<not> rpcReachable
                    then (case restart_step srv ''upgrade pod version'' ''version upgrade in progress'' update (ro_state ro1) of
                            (r, st) \<Rightarrow> (r, ro1\<lparr>ro_state := st, ro_updatedPods := ro_updatedPods ro1 + 1\<rparr>))
                    else (None, ro1\<lparr>ro_otherUpdates := ro_otherUpdates ro1 @ [update]\<rparr>)
                | _ \<Rightarrow> (Some (Panicked ''index out of range''), ro1)))"

text \<open>The other outdated pods, until the round has its number of updates.\<close>

fun update_loop ::
  "PodBody server \<Rightarrow> int \<Rightarrow> Pod list \<Rightarrow> int \<Rightarrow> pod_state \<Rightarrow> pod_outcome option \<times> int \<times> pod_state" where
  "update_loop srv numUpdates [] updatedPods st = (None, updatedPods, st)"
| "update_loop srv numUpdates (pod # pods) updatedPods st =
     (case restart_step srv ''update pod'' ''update in progress'' pod st of
        (Some r, st') \<Rightarrow> (Some r, updatedPods, st')
      | (None, st') \<Rightarrow>
          if updatedPods + 1 \<ge> numUpdates then (None, updatedPods + 1, st')
          else update_loop srv numUpdates pods (updatedPods + 1) st')"

definition rollout ::
  "PodBody server \<Rightarrow> scaler \<Rightarrow> CosmosFullNode \<Rightarrow> Pod list \<Rightarrow> Pod list \<Rightarrow> pod_state \<Rightarrow> pod_outcome \<times> pod_state" where
  "rollout srv scaled crd pods diffedUpdates st =
     (case each (observe_step srv diffedUpdates) pods
             \<lparr>ro_state = st, ro_updatedPods = 0, ro_rpcReachablePods = 0, ro_inSyncPods = 0, ro_otherUpdates = []\<rparr> of
        (Some r, ro) \<Rightarrow> (r, ro_state ro)
      | (None, ro) \<Rightarrow>
          let ready = (if ro_inSyncPods ro = 0 then ro_rpcReachablePods ro else ro_inSyncPods ro)
          in case ComputeRollout scaled (ro_MaxUnavailable (sp_RolloutStrategy (fn_Spec crd))) (sp_Replicas (fn_Spec crd)) ready of
               Panic m \<Rightarrow> (Panicked m, ro_state ro)
             | Ok numUpdates \<Rightarrow>
                 if ro_updatedPods ro = int (length diffedUpdates) then (Returned False None, ro_state ro)
                 else if ro_updatedPods ro \<ge> numUpdates then (Returned True None, ro_state ro)
                 else (case update_loop srv numUpdates (ro_otherUpdates ro) (ro_updatedPods ro) (ro_state ro) of
                         (Some r, _, st') \<Rightarrow> (r, st')
                       | (None, updatedPods, st') \<Rightarrow>
                           (Returned (int (length diffedUpdates) \<noteq> updatedPods) None, st')))"

definition reconcilePods ::
  "PodBody server \<Rightarrow> PodBody setref \<Rightarrow> scaler \<Rightarrow> CosmosFullNode \<Rightarrow> Pod list \<Rightarrow> PodBody Diff \<Rightarrow> pod_state \<Rightarrow> pod_outcome \<times> pod_state" where
  "reconcilePods srv setRef scaled crd pods diffed st =
     (case each (create_pod_step srv setRef) (df_creates diffed) st of
        (Some r, st1) \<Rightarrow> (r, st1)
      | (None, st1) \<Rightarrow>
          (case each (delete_pod_step srv) (df_deletes diffed) st1 of
             (Some r, st2) \<Rightarrow> (r, st2)
           | (None, st2) \<Rightarrow>
               if length (df_creates diffed) + length (df_deletes diffed) > 0 then (Returned True None, st2)
               else if length (df_updates diffed) > 0 then rollout srv scaled crd pods (df_updates diffed) st2
               else (Returned False None, st2)))"

definition PodControl_Reconcile ::
  "build_env \<Rightarrow> PodBody marshaler \<Rightarrow> patcher \<Rightarrow> (PodBody Resource list \<Rightarrow> PodBody Resource list) \<Rightarrow> PodBody server \<Rightarrow>
   PodBody setref \<Rightarrow> scaler \<Rightarrow> goerror + Pod list \<Rightarrow> CosmosFullNode \<Rightarrow> ConfigChecksums \<Rightarrow> pod_state \<Rightarrow> pod_outcome \<times> pod_state" where
  "PodControl_Reconcile env marshal patch srt srv setRef scaled listPods crd cksums st =
     (case listPods of
        Inl err \<Rightarrow> (Returned False (Some (TransientError (wrap ''list existing pods: '' err))), st)
      | Inr pods \<Rightarrow>
          (case BuildPods env marshal patch crd cksums of
             Panic m \<Rightarrow> (Panicked m, st)
           | Ok (Inl err) \<Rightarrow> (Returned False (Some (UnrecoverableError (wrap ''build pods: '' err))), st)
           | Ok (Inr wantPods) \<Rightarrow>
               (case Diff_New srt pods wantPods of
                  Panic m \<Rightarrow> (Panicked m, st)
                | Ok diffed \<Rightarrow> reconcilePods srv setRef scaled crd pods diffed st)))"

subsection \<open>What the loops do\<close>

lemma each_prefix:
  assumes "\<And>xs x st r st'. I xs st \<Longrightarrow> step x st = (r, st') \<Longrightarrow> J (xs @ [x]) st' \<and> (r = None \<longrightarrow> I (xs @ [x]) st')"
    and "\<And>xs st. I xs st \<Longrightarrow> J xs st"
    and "I xs st" and "each step ys st = (r, st')"
  shows "\<exists>zs. prefix zs ys \<and> J (xs @ zs) st' \<and> (r = None \<longrightarrow> I (xs @ ys) st')"
  using assms(3,4)
proof (induction ys arbitrary: xs st)
  case Nil
  then show ?case using assms(2) by auto
next
  case (Cons y ys)
  obtain q st1 where q: "step y st = (q, st1)" by (cases "step y st")
  note J = assms(1) [OF Cons.prems(1) q]
  show ?case
  proof (cases q)
    case None
    with Cons.prems q have "each step ys st1 = (r, st')" by simp
    then obtain zs where "prefix zs ys" "J ((xs @ [y]) @ zs) st'" "r = None \<longrightarrow> I ((xs @ [y]) @ ys) st'"
      using Cons.IH [of "xs @ [y]" st1] J None by auto
    then show ?thesis by (intro exI [of _ "y # zs"]) simp
  next
    case (Some e)
    with Cons.prems(2) q J show ?thesis by (intro exI [of _ "[y]"]) auto
  qed
qed

definition live :: "Pod \<Rightarrow> bool" where
  "live pod \<longleftrightarrow> om_DeletionTimestamp (ob_Meta pod) = None"

definition in_sync :: "(string \<times> SyncInfoPodStatus) list \<Rightarrow> string \<Rightarrow> bool" where
  "in_sync s n = (case map_of s n of None \<Rightarrow> False | Some ps \<Rightarrow> si_InSync ps = Some True)"

definition reachable :: "(string \<times> SyncInfoPodStatus) list \<Rightarrow> string \<Rightarrow> bool" where
  "reachable s n = (case map_of s n of None \<Rightarrow> False | Some ps \<Rightarrow> si_Error ps = None)"

text \<open>What \<open>SyncInfoStatus\<close> establishes: a pod is only in sync when its status could be read.\<close>

definition sync_ok :: "(string \<times> SyncInfoPodStatus) list \<Rightarrow> bool" where
  "sync_ok s \<longleftrightarrow> (\<forall>n. in_sync s n \<longrightarrow> reachable s n)"

definition update_of :: "Pod list \<Rightarrow> Pod \<Rightarrow> Pod option" where
  "update_of updates pod = List.find (\<lambda>update. GetName pod = GetName update) updates"

definition main_changed :: "Pod \<Rightarrow> Pod \<Rightarrow> bool" where
  "main_changed existing update =
     (case (ps_Containers (pod_Spec existing), ps_Containers (pod_Spec update)) of
        (c # _, c' # _) \<Rightarrow> ct_Image c \<noteq> ct_Image c' | _ \<Rightarrow> False)"

text \<open>The live pods that wait for an upgrade and cannot be reached, and the other outdated ones.\<close>

definition upgrade_of :: "(string \<times> SyncInfoPodStatus) list \<Rightarrow> Pod list \<Rightarrow> Pod \<Rightarrow> Pod option" where
  "upgrade_of s updates pod =
     (case update_of updates pod of
        Some u \<Rightarrow> if live pod \<and> main_changed pod u \<and> \<not> reachable s (GetName pod) then Some u else None
      | None \<Rightarrow> None)"

definition other_of :: "(string \<times> SyncInfoPodStatus) list \<Rightarrow> Pod list \<Rightarrow> Pod \<Rightarrow> Pod option" where
  "other_of s updates pod =
     (case update_of updates pod of
        Some u \<Rightarrow> if live pod \<and> \<not> (main_changed pod u \<and> \<not> reachable s (GetName pod)) then Some u else None
      | None \<Rightarrow> None)"

definition serving :: "(string \<times> SyncInfoPodStatus) list \<Rightarrow> Pod list \<Rightarrow> Pod list" where
  "serving s pods = filter (\<lambda>p. live p \<and> in_sync s (GetName p)) pods"

lemma map_filter_snoc [simp]:
  "List.map_filter f (xs @ [x]) = List.map_filter f xs @ (case f x of None \<Rightarrow> [] | Some y \<Rightarrow> [y])"
  by (auto simp: List.map_filter_def split: option.splits)

text \<open>A restart sends one delete; it leaves the reachable pods as they were when its pod is not one of them.\<close>

lemma restart_step_calls:
  "pcs_calls (snd (restart_step srv what reason u st)) = pcs_calls st @ [Delete u]"
  by (simp add: restart_step_def send_def split: option.splits)

lemma restart_step_sync:
  assumes "\<not> reachable (pcs_syncInfo st) (GetName u)"
  shows "reachable (pcs_syncInfo (snd (restart_step srv what reason u st))) n = reachable (pcs_syncInfo st) n"
    and "sync_ok (pcs_syncInfo st) \<Longrightarrow>
      in_sync (pcs_syncInfo (snd (restart_step srv what reason u st))) n = in_sync (pcs_syncInfo st) n"
  using assms
  by (auto simp: restart_step_def send_def reachable_def in_sync_def sync_ok_def update_conv' split: option.splits)

definition observed ::
  "pod_state \<Rightarrow> Pod list \<Rightarrow> Pod list \<Rightarrow> rollout_state \<Rightarrow> bool" where
  "observed st updates pods ro \<longleftrightarrow>
     (let s = pcs_syncInfo st in
      pcs_calls (ro_state ro) = pcs_calls st @ map Delete (List.map_filter (upgrade_of s updates) pods) \<and>
      ro_updatedPods ro = int (length (List.map_filter (upgrade_of s updates) pods)) \<and>
      ro_otherUpdates ro = List.map_filter (other_of s updates) pods \<and>
      (\<forall>n. reachable (pcs_syncInfo (ro_state ro)) n = reachable s n) \<and>
      ro_rpcReachablePods ro = int (length (filter (\<lambda>p. live p \<and> reachable s (GetName p)) pods)) \<and>
      (sync_ok s \<longrightarrow> (\<forall>n. in_sync (pcs_syncInfo (ro_state ro)) n = in_sync s n) \<and>
         ro_inSyncPods ro = int (length (serving s pods))))"

lemma observe_step_eq:
  "observe_step srv updates x ro =
    (if \<not> live x then (None, ro)
     else let t = pcs_syncInfo (ro_state ro);
              ro1 = ro\<lparr>ro_inSyncPods := ro_inSyncPods ro + (if in_sync t (GetName x) then 1 else 0),
                       ro_rpcReachablePods := ro_rpcReachablePods ro + (if reachable t (GetName x) then 1 else 0)\<rparr>
       in case update_of updates x of None \<Rightarrow> (None, ro1)
          | Some u \<Rightarrow>
              if main_changed x u \<and> \<not> reachable t (GetName x)
              then (case restart_step srv ''upgrade pod version'' ''version upgrade in progress'' u (ro_state ro) of
                      (r, st) \<Rightarrow> (r, ro1\<lparr>ro_state := st, ro_updatedPods := ro_updatedPods ro + 1\<rparr>))
              else if ps_Containers (pod_Spec x) = [] \<or> ps_Containers (pod_Spec u) = []
              then (Some (Panicked ''index out of range''), ro1)
              else (None, ro1\<lparr>ro_otherUpdates := ro_otherUpdates ro @ [u]\<rparr>))"
  unfolding observe_step_def live_def in_sync_def reachable_def update_of_def main_changed_def Let_def
  by (simp split: option.splits list.splits)

lemma serving_snoc:
  "serving s (xs @ [x]) = serving s xs @ (if live x \<and> in_sync s (GetName x) then [x] else [])"
  by (simp add: serving_def)

lemma observe_step_observed:
  assumes "observed st updates xs ro" and "observe_step srv updates x ro = (r, ro')"
  shows "pcs_calls (ro_state ro') = pcs_calls st @ map Delete (List.map_filter (upgrade_of (pcs_syncInfo st) updates) (xs @ [x])) \<and>
    (r = None \<longrightarrow> observed st updates (xs @ [x]) ro')"
proof -
  let ?s = "pcs_syncInfo st" and ?t = "pcs_syncInfo (ro_state ro)"
  note O = assms(1) [unfolded observed_def Let_def]
  have R: "reachable ?t n = reachable ?s n" for n using O by blast
  have S: "sync_ok ?s \<Longrightarrow> in_sync ?t n = in_sync ?s n" for n using O by blast
  have T: "sync_ok ?t" if "sync_ok ?s" using that R S by (simp add: sync_ok_def)
  show ?thesis
  proof (cases "live x \<and> update_of updates x \<noteq> None")
    case False
    have "r = None \<and> ro' = (if live x then ro\<lparr>ro_inSyncPods := ro_inSyncPods ro + (if in_sync ?t (GetName x) then 1 else 0),
        ro_rpcReachablePods := ro_rpcReachablePods ro + (if reachable ?t (GetName x) then 1 else 0)\<rparr> else ro)"
      using assms(2) False by (cases "live x") (auto simp: observe_step_eq Let_def)
    moreover have "upgrade_of ?s updates x = None" "other_of ?s updates x = None"
      using False by (auto simp: upgrade_of_def other_of_def split: option.splits)
    ultimately show ?thesis using O by (auto simp: observed_def Let_def serving_snoc R S)
  next
    case True
    then obtain u where u: "live x" "update_of updates x = Some u" by auto
    then have n: "GetName u = GetName x" by (auto simp: update_of_def find_Some_iff)
    show ?thesis
    proof (cases "main_changed x u \<and> \<not> reachable ?t (GetName x)")
      case False
      with u assms(2) have r: "if r = None then ro' = ro\<lparr>ro_inSyncPods := ro_inSyncPods ro + (if in_sync ?t (GetName x) then 1 else 0),
          ro_rpcReachablePods := ro_rpcReachablePods ro + (if reachable ?t (GetName x) then 1 else 0),
          ro_otherUpdates := ro_otherUpdates ro @ [u]\<rparr> else ro_state ro' = ro_state ro"
        by (auto simp: observe_step_eq Let_def split: if_splits)
      have f: "upgrade_of ?s updates x = None" "other_of ?s updates x = Some u"
        using u False R by (auto simp: upgrade_of_def other_of_def)
      have "pcs_calls (ro_state ro') = pcs_calls (ro_state ro)" using r by (auto split: if_splits)
      moreover have "observed st updates (xs @ [x]) ro'" if "r = None"
        using r that O u f by (auto simp: observed_def Let_def serving_snoc R S)
      ultimately show ?thesis using O f by auto
    next
      case True
      let ?w = "''upgrade pod version''" and ?m = "''version upgrade in progress''"
      obtain q st1 where q: "restart_step srv ?w ?m u (ro_state ro) = (q, st1)"
        by (cases "restart_step srv ?w ?m u (ro_state ro)")
      with u True assms(2) have r: "r = q" "ro' = ro\<lparr>ro_state := st1, ro_updatedPods := ro_updatedPods ro + 1,
          ro_inSyncPods := ro_inSyncPods ro + (if in_sync ?t (GetName x) then 1 else 0)\<rparr>"
        by (auto simp: observe_step_eq Let_def)
      have f: "upgrade_of ?s updates x = Some u" "other_of ?s updates x = None"
        using u True R by (auto simp: upgrade_of_def other_of_def)
      have c: "pcs_calls st1 = pcs_calls (ro_state ro) @ [Delete u]"
        using restart_step_calls [of srv ?w ?m u "ro_state ro"] q by simp
      have rr: "reachable (pcs_syncInfo st1) m = reachable ?t m" for m
        using restart_step_sync(1) [of "ro_state ro" u srv ?w ?m m] True n q by simp
      have i: "in_sync (pcs_syncInfo st1) m = in_sync ?t m" "\<not> in_sync ?s (GetName x)" if "sync_ok ?s" for m
        using restart_step_sync(2) [of "ro_state ro" u srv ?w ?m m] True n q T that S R
        by (auto simp: sync_ok_def)
      have "observed st updates (xs @ [x]) ro'"
        using r O u f c True by (auto simp: observed_def Let_def serving_snoc R S rr i)
      then show ?thesis unfolding observed_def Let_def by blast
    qed
  qed
qed

lemma observe_calls:
  assumes "each (observe_step srv updates) pods
     \<lparr>ro_state = st, ro_updatedPods = 0, ro_rpcReachablePods = 0, ro_inSyncPods = 0, ro_otherUpdates = []\<rparr> = (r, ro)"
  shows "\<exists>zs. prefix zs pods \<and>
    pcs_calls (ro_state ro) = pcs_calls st @ map Delete (List.map_filter (upgrade_of (pcs_syncInfo st) updates) zs) \<and>
    (r = None \<longrightarrow> observed st updates pods ro)"
proof -
  let ?J = "\<lambda>zs ro. pcs_calls (ro_state ro) = pcs_calls st @ map Delete (List.map_filter (upgrade_of (pcs_syncInfo st) updates) zs)"
  have 0: "observed st updates [] \<lparr>ro_state = st, ro_updatedPods = 0, ro_rpcReachablePods = 0, ro_inSyncPods = 0, ro_otherUpdates = []\<rparr>"
    by (simp add: observed_def serving_def List.map_filter_def)
  have 1: "?J zs ro" if "observed st updates zs ro" for zs ro
    using that unfolding observed_def Let_def by blast
  have 2: "?J (xs @ [x]) ro' \<and> (r = None \<longrightarrow> observed st updates (xs @ [x]) ro')"
    if "observed st updates xs ro" "observe_step srv updates x ro = (r, ro')" for xs x ro r ro'
    using observe_step_observed [OF that] .
  have "\<exists>zs. prefix zs pods \<and> ?J ([] @ zs) ro \<and> (r = None \<longrightarrow> observed st updates ([] @ pods) ro)"
    by (rule each_prefix [where I = "observed st updates" and J = ?J, OF 2 1 0 assms])
  then show ?thesis by simp
qed

lemma update_loop_calls:
  assumes "update_loop srv N os up st = (r, up', st')" and "up < N"
  shows "\<exists>k \<le> length os. pcs_calls st' = pcs_calls st @ map Delete (take k os) \<and> up + int k \<le> N \<and>
    (r = None \<longrightarrow> up' = up + int k \<and> (k = length os \<or> N \<le> up'))"
  using assms
proof (induction os arbitrary: up st)
  case Nil
  then show ?case by auto
next
  case (Cons u os)
  obtain q st1 where q: "restart_step srv ''update pod'' ''update in progress'' u st = (q, st1)"
    by (cases "restart_step srv ''update pod'' ''update in progress'' u st")
  have c: "pcs_calls st1 = pcs_calls st @ [Delete u]" using restart_step_calls [of srv _ _ u] q by (metis snd_conv)
  show ?case
  proof (cases "q = None \<and> up + 1 < N")
    case True
    with Cons.prems(1) q have "update_loop srv N os (up + 1) st1 = (r, up', st')" by simp
    then obtain k where "k \<le> length os" "pcs_calls st' = pcs_calls st1 @ map Delete (take k os)" "up + 1 + int k \<le> N"
        "r = None \<longrightarrow> up' = up + 1 + int k \<and> (k = length os \<or> N \<le> up')"
      using Cons.IH [of "up + 1" st1] True by auto
    with c show ?thesis by (intro exI [of _ "Suc k"]) auto
  next
    case False
    with Cons.prems q c show ?thesis by (intro exI [of _ 1]) (auto split: option.splits if_splits)
  qed
qed

definition ready_pods :: "(string \<times> SyncInfoPodStatus) list \<Rightarrow> Pod list \<Rightarrow> int" where
  "ready_pods s pods =
     (if serving s pods = [] then int (length (filter (\<lambda>p. live p \<and> reachable s (GetName p)) pods))
      else int (length (serving s pods)))"

lemma ready_pods_nonneg: "0 \<le> ready_pods s pods"
  by (simp add: ready_pods_def)

lemma restart_requeues: "restart_step srv what reason u st = (Some r, st') \<Longrightarrow> r \<noteq> Returned False None"
  by (auto simp: restart_step_def send_def split: option.splits)

lemma observe_requeues:
  "each (observe_step srv updates) pods ro = (Some r, ro') \<Longrightarrow> r \<noteq> Returned False None"
proof (induction pods arbitrary: ro)
  case (Cons x pods)
  have "q \<noteq> Returned False None" if "observe_step srv updates x ro = (Some q, ro')" for q ro'
    using that by (auto simp: observe_step_eq Let_def dest: restart_requeues split: if_splits option.splits prod.splits)
  with Cons show ?case by (auto split: prod.splits option.splits)
qed simp

lemma update_loop_requeues:
  "update_loop srv N os up st = (Some r, up', st') \<Longrightarrow> r \<noteq> Returned False None"
  by (induction os arbitrary: up st) (auto dest: restart_requeues split: prod.splits option.splits if_splits)

lemma rollout_calls:
  assumes "rollout srv scaled crd pods updates st = (res, st')" and "sync_ok (pcs_syncInfo st)"
  shows "\<exists>zs k. prefix zs pods \<and> k \<le> length (List.map_filter (other_of (pcs_syncInfo st) updates) pods) \<and>
    pcs_calls st' = pcs_calls st @ map Delete (List.map_filter (upgrade_of (pcs_syncInfo st) updates) zs @
      take k (List.map_filter (other_of (pcs_syncInfo st) updates) pods)) \<and>
    (k = 0 \<or> zs = pods \<and> (\<exists>N. ComputeRollout scaled (ro_MaxUnavailable (sp_RolloutStrategy (fn_Spec crd)))
        (sp_Replicas (fn_Spec crd)) (ready_pods (pcs_syncInfo st) pods) = Ok N \<and>
        int (length (List.map_filter (upgrade_of (pcs_syncInfo st) updates) pods)) + int k \<le> N)) \<and>
    (res = Returned False None \<longrightarrow> zs = pods \<and>
       length (List.map_filter (upgrade_of (pcs_syncInfo st) updates) pods) + k = length updates)"
proof -
  let ?s = "pcs_syncInfo st"
  let ?us = "List.map_filter (upgrade_of ?s updates)" and ?os = "List.map_filter (other_of ?s updates) pods"
  obtain q ro where each: "each (observe_step srv updates) pods
     \<lparr>ro_state = st, ro_updatedPods = 0, ro_rpcReachablePods = 0, ro_inSyncPods = 0, ro_otherUpdates = []\<rparr> = (q, ro)"
    (is "?e = _") by (cases ?e)
  then obtain zs where zs: "prefix zs pods" "pcs_calls (ro_state ro) = pcs_calls st @ map Delete (?us zs)"
      "q = None \<longrightarrow> observed st updates pods ro"
    using observe_calls by blast
  show ?thesis
  proof (cases q)
    case (Some r)
    with assms(1) each have "res = r" "st' = ro_state ro" by (simp_all add: rollout_def)
    with zs observe_requeues [of srv updates pods _ r ro] each Some show ?thesis
      by (intro exI [of _ zs] exI [of _ 0]) auto
  next
    case None
    then have ob: "observed st updates pods ro" using zs by simp
    then have c: "pcs_calls (ro_state ro) = pcs_calls st @ map Delete (?us pods)"
      and u: "ro_updatedPods ro = int (length (?us pods))" and os: "ro_otherUpdates ro = ?os"
      and rdy: "(if ro_inSyncPods ro = 0 then ro_rpcReachablePods ro else ro_inSyncPods ro) = ready_pods ?s pods"
      using assms(2) by (auto simp: observed_def Let_def ready_pods_def)
    let ?C = "ComputeRollout scaled (ro_MaxUnavailable (sp_RolloutStrategy (fn_Spec crd))) (sp_Replicas (fn_Spec crd)) (ready_pods ?s pods)"
    have roll: "(res, st') = (case ?C of
           Panic m \<Rightarrow> (Panicked m, ro_state ro)
         | Ok N \<Rightarrow> if ro_updatedPods ro = int (length updates) then (Returned False None, ro_state ro)
             else if ro_updatedPods ro \<ge> N then (Returned True None, ro_state ro)
             else (case update_loop srv N (ro_otherUpdates ro) (ro_updatedPods ro) (ro_state ro) of
                     (Some r, _, st') \<Rightarrow> (r, st')
                   | (None, up, st') \<Rightarrow> (Returned (int (length updates) \<noteq> up) None, st')))"
      using assms(1) each None by (simp add: rollout_def Let_def rdy)
    show ?thesis
    proof (cases "\<exists>N. ?C = Ok N \<and> ro_updatedPods ro \<noteq> int (length updates) \<and> ro_updatedPods ro < N")
      case False
      then have "st' = ro_state ro" "res = Returned False None \<longrightarrow> ro_updatedPods ro = int (length updates)"
        using roll by (auto split: exec.splits if_splits)
      then show ?thesis using c u by (intro exI [of _ pods] exI [of _ 0]) auto
    next
      case True
      then obtain N where N: "?C = Ok N" "ro_updatedPods ro \<noteq> int (length updates)" "ro_updatedPods ro < N" by blast
      obtain r up st1 where l: "update_loop srv N ?os (ro_updatedPods ro) (ro_state ro) = (r, up, st1)"
        by (metis prod_cases3)
      then obtain k where k: "k \<le> length ?os" "pcs_calls st1 = pcs_calls (ro_state ro) @ map Delete (take k ?os)"
          "ro_updatedPods ro + int k \<le> N" "r = None \<longrightarrow> up = ro_updatedPods ro + int k"
        using update_loop_calls [OF l N(3)] by blast
      have "st' = st1" "res = Returned False None \<longrightarrow> r = None \<and> int (length updates) = up"
        using roll N l os update_loop_requeues [of srv N ?os "ro_updatedPods ro" "ro_state ro" _ up st1]
        by (auto split: option.splits)
      then show ?thesis using c u k N by (intro exI [of _ pods] exI [of _ k]) auto
    qed
  qed
qed

text \<open>The serving pods that a list of deleted pods leaves.\<close>

definition left_serving :: "PodBody call list \<Rightarrow> (string \<times> SyncInfoPodStatus) list \<Rightarrow> Pod list \<Rightarrow> Pod list" where
  "left_serving cs s pods = filter (\<lambda>p. GetName p \<notin> {GetName ob | ob. Delete ob \<in> set cs}) (serving s pods)"

lemma update_of_Some: "update_of updates p = Some u \<Longrightarrow> u \<in> set updates \<and> GetName u = GetName p"
  by (auto simp: update_of_def find_Some_iff)

lemma upgrade_of_Some: "upgrade_of s updates p = Some u \<longleftrightarrow>
    update_of updates p = Some u \<and> live p \<and> main_changed p u \<and> \<not> reachable s (GetName p)"
  by (auto simp: upgrade_of_def split: option.splits)

lemma other_of_Some: "other_of s updates p = Some u \<longleftrightarrow>
    update_of updates p = Some u \<and> live p \<and> \<not> (main_changed p u \<and> \<not> reachable s (GetName p))"
  by (auto simp: other_of_def split: option.splits)

lemma upgrade_unreachable:
  "u \<in> set (List.map_filter (upgrade_of s updates) pods) \<Longrightarrow> u \<in> set updates \<and> \<not> reachable s (GetName u)"
  by (auto simp: set_map_filter upgrade_of_Some dest: update_of_Some)

lemma other_updates:
  "u \<in> set (List.map_filter (other_of s updates) pods) \<Longrightarrow> u \<in> set updates"
  by (auto simp: set_map_filter other_of_Some dest: update_of_Some)

lemma left_serving_bound:
  assumes "sync_ok s" and "distinct (map GetName pods)"
  shows "length (serving s pods) \<le>
    length (left_serving (map Delete (List.map_filter (upgrade_of s updates) zs @ vs)) s pods) + length vs"
proof -
  let ?us = "List.map_filter (upgrade_of s updates) zs"
  let ?g = "\<lambda>p. GetName p \<in> {GetName ob | ob. Delete ob \<in> set (map Delete (?us @ vs))}"
  have "GetName ` set (filter ?g (serving s pods)) \<subseteq> GetName ` set vs"
  proof
    fix n assume "n \<in> GetName ` set (filter ?g (serving s pods))"
    then obtain u where "in_sync s n" "GetName u = n" "u \<in> set ?us \<union> set vs"
      by (auto simp: serving_def)
    then show "n \<in> GetName ` set vs" using upgrade_unreachable [of u s updates zs] assms(1) by (auto simp: sync_ok_def)
  qed
  moreover have "distinct (map GetName (filter ?g (serving s pods)))"
    using assms(2) by (simp add: serving_def distinct_map_filter)
  ultimately have "length (filter ?g (serving s pods)) \<le> card (GetName ` set vs)"
    by (metis (no_types, lifting) card_mono distinct_card finite_imageI finite_set length_map list.set_map)
  also have "\<dots> \<le> length vs" by (meson card_image_le card_length finite_set le_trans)
  finally show ?thesis using sum_length_filter_compl [of ?g "serving s pods"] by (simp add: left_serving_def)
qed

lemma ComputeRollout_left:
  assumes "ComputeRollout scaled mu desired ready = Ok n"
    and "scaled (case mu of None \<Rightarrow> defaultMaxUnavail | Some m \<Rightarrow> m) desired = Inr u" and "0 < n"
  shows "n \<le> ready - (desired - max 1 u)"
  using assms by (auto simp: ComputeRollout_def Let_def max_def split: option.splits if_splits)

lemma ComputeRollout_positive:
  assumes "scaled (case mu of None \<Rightarrow> defaultMaxUnavail | Some m \<Rightarrow> m) desired = Inr u"
    and "0 < desired" and "desired - max 1 u < ready" and "0 \<le> ready"
  shows "\<exists>n. ComputeRollout scaled mu desired ready = Ok n \<and> 0 < n"
  using assms by (simp add: ComputeRollout_def Let_def max_def split: if_splits)

lemma rollout_serving:
  assumes "rollout srv scaled crd pods updates st = (res, st')" and "sync_ok (pcs_syncInfo st)"
    and "distinct (map GetName pods)"
    and "scaled (case ro_MaxUnavailable (sp_RolloutStrategy (fn_Spec crd)) of None \<Rightarrow> defaultMaxUnavail | Some m \<Rightarrow> m)
      (sp_Replicas (fn_Spec crd)) = Inr u"
  shows "\<exists>obs. pcs_calls st' = pcs_calls st @ map Delete obs \<and> set obs \<subseteq> set updates \<and>
    min (int (length (serving (pcs_syncInfo st) pods))) (sp_Replicas (fn_Spec crd) - max 1 u)
      \<le> int (length (left_serving (map Delete obs) (pcs_syncInfo st) pods))"
proof -
  let ?s = "pcs_syncInfo st"
  let ?us = "List.map_filter (upgrade_of ?s updates)" and ?os = "List.map_filter (other_of ?s updates) pods"
  obtain zs k where zk: "k \<le> length ?os" "pcs_calls st' = pcs_calls st @ map Delete (?us zs @ take k ?os)"
    "k = 0 \<or> (\<exists>N. ComputeRollout scaled (ro_MaxUnavailable (sp_RolloutStrategy (fn_Spec crd)))
        (sp_Replicas (fn_Spec crd)) (ready_pods ?s pods) = Ok N \<and> int k \<le> N)"
    using rollout_calls [OF assms(1,2)] by fastforce
  have "set (?us zs @ take k ?os) \<subseteq> set updates"
    using upgrade_unreachable [of _ ?s updates zs] other_updates [of _ ?s updates pods] by (auto dest: in_set_takeD)
  moreover have "length (serving ?s pods) \<le> length (left_serving (map Delete (?us zs @ take k ?os)) ?s pods) + k"
    using left_serving_bound [OF assms(2,3), of updates zs "take k ?os"] zk(1) by simp
  moreover have "int k \<le> int (length (serving ?s pods)) - (sp_Replicas (fn_Spec crd) - max 1 u)"
    if "0 < k" "serving ?s pods \<noteq> []"
    using zk(3) that ComputeRollout_left [where scaled = scaled and ready = "ready_pods ?s pods", OF _ assms(4)]
    by (fastforce simp: ready_pods_def)
  ultimately show ?thesis using zk(2)
    by (intro exI [of _ "?us zs @ take k ?os"]) (cases "k = 0"; cases "serving ?s pods = []"; auto simp: min_def)
qed

subsection \<open>Scaling\<close>

text \<open>A loop of steps that each append calls of their object, and stop only to requeue.\<close>

lemma each_pods:
  assumes "\<And>ob st r st'. step ob st = (r, st') \<Longrightarrow>
      (\<exists>cs. pcs_calls st' = pcs_calls st @ cs \<and> (\<forall>c \<in> set cs. c = call_of ob)) \<and> r \<noteq> Some (Returned False None)"
    and "each step obs st = (r, st')"
  shows "(\<exists>cs. pcs_calls st' = pcs_calls st @ cs \<and> set cs \<subseteq> call_of ` set obs) \<and> r \<noteq> Some (Returned False None)"
  using assms(2)
proof (induction obs arbitrary: st)
  case Nil
  then show ?case by simp
next
  case (Cons ob obs)
  obtain q st1 where q: "step ob st = (q, st1)" by (cases "step ob st")
  obtain cs where cs: "pcs_calls st1 = pcs_calls st @ cs" "\<forall>c \<in> set cs. c = call_of ob" "q \<noteq> Some (Returned False None)"
    using assms(1) [OF q] by blast
  show ?case
  proof (cases q)
    case None
    with Cons.prems q obtain cs' where "pcs_calls st' = pcs_calls st1 @ cs'" "set cs' \<subseteq> call_of ` set obs"
        "r \<noteq> Some (Returned False None)"
      using Cons.IH [of st1] by auto
    with cs show ?thesis by (intro conjI exI [of _ "cs @ cs'"]) auto
  next
    case (Some e)
    with Cons.prems q cs show ?thesis by (intro conjI exI [of _ cs]) auto
  qed
qed

lemma create_pods_calls:
  assumes "each (create_pod_step srv setRef) obs st = (r, st')"
  shows "(\<exists>cs. pcs_calls st' = pcs_calls st @ cs \<and> set cs \<subseteq> (\<lambda>ob. Create (owned setRef ob)) ` set obs) \<and>
    r \<noteq> Some (Returned False None)"
  by (rule each_pods [OF _ assms])
    (auto simp: create_pod_step_def create_step_def owned_def send_def
      split: sum.splits option.splits if_splits prod.splits)

lemma delete_pods_calls:
  assumes "each (delete_pod_step srv) obs st = (r, st')"
  shows "(\<exists>cs. pcs_calls st' = pcs_calls st @ cs \<and> set cs \<subseteq> Delete ` set obs) \<and> r \<noteq> Some (Returned False None)"
  by (rule each_pods [OF _ assms])
    (auto simp: delete_pod_step_def send_def split: option.splits prod.splits)

text \<open>A round that scales touches no pod that is wanted; a round that does not is the rollout.\<close>

lemma reconcile_scaling:
  assumes "reconcilePods srv setRef scaled crd pods d st = (res, st')" and "df_creates d \<noteq> [] \<or> df_deletes d \<noteq> []"
  shows "(\<exists>cs. pcs_calls st' = pcs_calls st @ cs \<and>
      set cs \<subseteq> (\<lambda>ob. Create (owned setRef ob)) ` set (df_creates d) \<union> Delete ` set (df_deletes d)) \<and>
    res \<noteq> Returned False None"
proof -
  obtain q st1 where q: "each (create_pod_step srv setRef) (df_creates d) st = (q, st1)" (is "?e = _") by (cases ?e)
  obtain cs where cs: "pcs_calls st1 = pcs_calls st @ cs" "set cs \<subseteq> (\<lambda>ob. Create (owned setRef ob)) ` set (df_creates d)"
      "q \<noteq> Some (Returned False None)" using create_pods_calls [OF q] by blast
  obtain q' st2 where q': "each (delete_pod_step srv) (df_deletes d) st1 = (q', st2)" (is "?e = _") by (cases ?e)
  obtain cs' where cs': "pcs_calls st2 = pcs_calls st1 @ cs'" "set cs' \<subseteq> Delete ` set (df_deletes d)"
      "q' \<noteq> Some (Returned False None)" using delete_pods_calls [OF q'] by blast
  show ?thesis
  proof (cases q)
    case (Some e)
    with assms(1) q cs show ?thesis by (auto simp: reconcilePods_def)
  next
    case None
    have "st' = st2" "res \<noteq> Returned False None"
      using assms None q q' cs'(3) by (auto simp: reconcilePods_def split: option.splits)
    with cs cs' show ?thesis by (intro conjI exI [of _ "cs @ cs'"]) auto
  qed
qed

lemma reconcile_steady:
  assumes "df_creates d = []" and "df_deletes d = []"
  shows "reconcilePods srv setRef scaled crd pods d st =
    (if df_updates d = [] then (Returned False None, st) else rollout srv scaled crd pods (df_updates d) st)"
  using assms by (simp add: reconcilePods_def)

lemma distinct_names:
  assumes "Diff_New srt pods want = Ok d" and "\<forall>p \<in> set pods. GetNamespace p = ns"
  shows "distinct (map GetName pods)"
proof -
  have "distinct (cur_keys pods)" using Diff_New_Ok_distinct [OF assms(1)] by auto
  then show ?thesis using assms(2) by (auto simp: distinct_map inj_on_def object_defs)
qed

subsection \<open>The control\<close>

text \<open>C1: A rollout keeps the full node available. Whatever the API server answers and wherever the loop
  stops, even by a panic, the control only creates wanted pods and deletes unwanted or outdated
  ones; a round that has pods to create or delete touches no other pod; a round that replaces
  outdated pods leaves, of the pods in sync at its start, at least as many as were in sync or
  \<open>Replicas\<close> less the maximum unavailable, whichever is lower. The listed pods are in the
  resource's namespace and a pod in sync is one whose status was read.\<close>

theorem PodControl_available:
  assumes "BuildPods env marshal patch crd cksums = Ok (Inr want)" and "Diff_New srt pods want = Ok d"
    and "\<forall>p \<in> set pods. GetNamespace p = fn_Namespace crd" and "sync_ok (pcs_syncInfo st)"
    and "scaled (case ro_MaxUnavailable (sp_RolloutStrategy (fn_Spec crd)) of None \<Rightarrow> defaultMaxUnavail | Some m \<Rightarrow> m)
      (sp_Replicas (fn_Spec crd)) = Inr u"
    and "PodControl_Reconcile env marshal patch srt srv setRef scaled (Inr pods) crd cksums st = (res, st')"
  shows "\<exists>cs. pcs_calls st' = pcs_calls st @ cs \<and>
    (if df_creates d \<noteq> [] \<or> df_deletes d \<noteq> []
     then set cs \<subseteq> (\<lambda>ob. Create (owned setRef ob)) ` set (df_creates d) \<union> Delete ` set (df_deletes d)
     else set cs \<subseteq> Delete ` set (df_updates d) \<and>
       min (int (length (serving (pcs_syncInfo st) pods))) (sp_Replicas (fn_Spec crd) - max 1 u)
         \<le> int (length (left_serving cs (pcs_syncInfo st) pods)))"
proof -
  have r: "reconcilePods srv setRef scaled crd pods d st = (res, st')"
    using assms(1,2,6) by (simp add: PodControl_Reconcile_def)
  show ?thesis
  proof (cases "df_creates d \<noteq> [] \<or> df_deletes d \<noteq> []")
    case True
    with reconcile_scaling [OF r] show ?thesis by auto
  next
    case False
    show ?thesis
    proof (cases "df_updates d = []")
      case True
      with False r show ?thesis by (auto simp: reconcile_steady left_serving_def)
    next
      case upd: False
      with False r have "rollout srv scaled crd pods (df_updates d) st = (res, st')" by (simp add: reconcile_steady)
      from rollout_serving [OF this assms(4) distinct_names [OF assms(2,3)] assms(5)] False show ?thesis
        by (metis (no_types, lifting) image_mono list.set_map)
    qed
  qed
qed

subsection \<open>Settling\<close>

context diff_order
begin

lemma updates_outdated:
  assumes D: "Diff_New srt current want = Ok d" and k: "k \<in> ObjectKeyFromObject ` set (df_updates d)"
  shows "cluster_revs current k \<noteq> wanted_revs want k"
proof -
  obtain u where "u \<in> set (df_updates d)" "ObjectKeyFromObject u = k" using k by blast
  then obtain c r where cr: "c \<in> set current" "r \<in> set want" "ObjectKeyFromObject c = k" "rs_key r = k" "rs_Revision r \<noteq> obj_rev c"
    by (auto simp: updates_iff [OF D])
  then have "cluster_revs current k = Some (obj_rev c)" "wanted_revs want k = Some (rs_Revision r)"
    using Diff_New_Ok_distinct [OF D] by (auto simp: cluster_revs_Some wanted_revs_Some)
  with cr(5) show ?thesis by simp
qed

lemma outdated_deleted:
  assumes D: "Diff_New srt current want = Ok d" and "df_creates d = []" and "df_deletes d = []"
    and obs: "set obs = set (df_updates d)"
  shows "dom (cluster_revs current) = dom (wanted_revs want)"
    and "run_calls (map Delete obs) (cluster_revs current) =
      (\<lambda>k. if cluster_revs current k = wanted_revs want k then wanted_revs want k else None)"
proof -
  let ?c = "cluster_revs current" and ?w = "wanted_revs want" and ?u = "cluster_revs (df_updates d)"
  have e: "(?c ++ ?u) k = (?c ++ ?w) k" for k
    using create_update_sum [OF D] assms(2) by (simp add: cluster_revs_def)
  have "\<forall>c \<in> set current. ObjectKeyFromObject c \<in> rs_key ` set want"
    using deletes_iff [OF D] assms(3) by fastforce
  then have c: "?w k \<noteq> None" if "?c k \<noteq> None" for k
    using that by (auto simp: cluster_revs_def wanted_revs_def map_of_eq_None_iff image_image)
  have "?c k \<noteq> None" if "?w k \<noteq> None" for k
  proof
    assume "?c k = None"
    with e [of k] that have "?u k \<noteq> None" by (auto simp: map_add_def split: option.splits)
    then obtain u where u: "u \<in> set (df_updates d)" "ObjectKeyFromObject u = k"
      by (auto simp: cluster_revs_def map_of_eq_None_iff)
    then obtain x where "x \<in> set current" "ObjectKeyFromObject x = k" by (auto simp: updates_iff [OF D])
    with \<open>?c k = None\<close> show False by (auto simp: cluster_revs_def map_of_eq_None_iff image_image)
  qed
  with c show "dom ?c = dom ?w" by auto
  show "run_calls (map Delete obs) ?c = (\<lambda>k. if ?c k = ?w k then ?w k else None)"
  proof
    fix k
    show "run_calls (map Delete obs) ?c k = (if ?c k = ?w k then ?w k else None)"
    proof (cases "k \<in> ObjectKeyFromObject ` set (df_updates d)")
      case True
      then show ?thesis using updates_outdated [OF D True] by (simp add: run_deletes obs)
    next
      case False
      then have "?u k = None" by (auto simp: cluster_revs_def map_of_eq_None_iff)
      then have "?c k = (?c ++ ?w) k" using e [of k] by (simp add: map_add_def)
      moreover have "?w k = None \<longrightarrow> ?c k = None" using c [of k] by blast
      ultimately have "?c k = ?w k" by (cases "?w k") simp_all
      then show ?thesis using False by (simp add: run_deletes obs)
    qed
  qed
qed

lemma nothing_to_do:
  assumes "Diff_New srt current want = Ok d" and "df_creates d = []" and "df_deletes d = []" and "df_updates d = []"
  shows "cluster_revs current = wanted_revs want"
  using run_create_delete_update [OF assms(1), of Inr] assms(2-4) by (simp add: setref_ok_def run_calls_def)

end

text \<open>The restarted pods are all different.\<close>

lemma distinct_updates_of:
  assumes "distinct (map GetName pods)"
  shows "distinct (List.map_filter (upgrade_of s updates) pods @ List.map_filter (other_of s updates) pods)"
proof -
  have src: "GetName u \<in> GetName ` set xs" if "u \<in> set (List.map_filter f xs)" "f = upgrade_of s updates \<or> f = other_of s updates" for u f xs
    using that by (auto simp: set_map_filter upgrade_of_Some other_of_Some) (metis image_eqI update_of_Some)+
  have "distinct (List.map_filter f pods)" if "f = upgrade_of s updates \<or> f = other_of s updates" for f
    using assms
  proof (induction pods)
    case Nil
    then show ?case by (simp add: List.map_filter_def)
  next
    case (Cons p pods)
    have "u \<notin> set (List.map_filter f pods)" if "f p = Some u" for u
    proof
      assume "u \<in> set (List.map_filter f pods)"
      then have "GetName u \<in> GetName ` set pods" using src that \<open>f = _ \<or> _\<close> by blast
      moreover have "GetName u = GetName p"
        using that \<open>f = _ \<or> _\<close> by (auto simp: upgrade_of_Some other_of_Some dest: update_of_Some)
      ultimately show False using Cons.prems by simp
    qed
    with Cons show ?case by (simp add: map_filter_simps split: option.split)
  qed
  moreover have "False" if u: "u \<in> set (List.map_filter (upgrade_of s updates) pods)" "u \<in> set (List.map_filter (other_of s updates) pods)" for u
  proof -
    obtain p q where pq: "p \<in> set pods" "q \<in> set pods" "upgrade_of s updates p = Some u" "other_of s updates q = Some u"
      using u by (auto simp: set_map_filter)
    then have "GetName p = GetName q" using update_of_Some by (metis other_of_Some upgrade_of_Some)
    with pq assms have "p = q" by (auto simp: distinct_map inj_on_def)
    with pq show False by (auto simp: upgrade_of_Some other_of_Some)
  qed
  ultimately show ?thesis by auto
qed

lemma rollout_done:
  assumes "rollout srv scaled crd pods updates st = (Returned False None, st')" and "sync_ok (pcs_syncInfo st)"
    and "distinct (map GetName pods)"
  shows "\<exists>obs. pcs_calls st' = pcs_calls st @ map Delete obs \<and> set obs = set updates"
proof -
  let ?s = "pcs_syncInfo st"
  let ?us = "List.map_filter (upgrade_of ?s updates) pods" and ?os = "List.map_filter (other_of ?s updates) pods"
  obtain k where k: "k \<le> length ?os" "pcs_calls st' = pcs_calls st @ map Delete (?us @ take k ?os)"
      "length ?us + k = length updates"
    using rollout_calls [OF assms(1,2)] by auto
  let ?obs = "?us @ take k ?os"
  have "set ?obs \<subseteq> set updates"
    using upgrade_unreachable [of _ ?s updates pods] other_updates [of _ ?s updates pods] by (auto dest: in_set_takeD)
  moreover have "distinct ?obs" using distinct_updates_of [OF assms(3), of ?s updates] by (auto dest: in_set_takeD)
  then have "card (set ?obs) = length updates" using k by (simp only: distinct_card) simp
  ultimately have "set ?obs = set updates"
    by (metis List.finite_set card_length card_seteq)
  with k show ?thesis by blast
qed

text \<open>C3: The control reports that it is done only when it is. If it returns without a requeue and
  without an error, then it found no wanted pod missing and no unwanted pod there, and its calls are deletes of exactly
  the pods that were outdated: what they leave are the wanted pods that were already at their wanted revisions. When it
  sent no call, the cluster holds exactly the wanted pods at their wanted revisions.\<close>

theorem PodControl_settled:
  assumes "ordering_of srt rs_Ordinal"
    and "BuildPods env marshal patch crd cksums = Ok (Inr want)" and "Diff_New srt pods want = Ok d"
    and "\<forall>p \<in> set pods. GetNamespace p = fn_Namespace crd" and "sync_ok (pcs_syncInfo st)"
    and "PodControl_Reconcile env marshal patch srt srv setRef scaled (Inr pods) crd cksums st = (Returned False None, st')"
  shows "\<exists>obs. pcs_calls st' = pcs_calls st @ map Delete obs \<and> set obs = set (df_updates d) \<and>
    dom (cluster_revs pods) = dom (wanted_revs want) \<and>
    run_calls (map Delete obs) (cluster_revs pods) =
      (\<lambda>k. if cluster_revs pods k = wanted_revs want k then wanted_revs want k else None) \<and>
    (obs = [] \<longrightarrow> cluster_revs pods = wanted_revs want)"
proof -
  note order = diff_order.intro [OF assms(1)]
  have r: "reconcilePods srv setRef scaled crd pods d st = (Returned False None, st')"
    using assms(2,3,6) by (simp add: PodControl_Reconcile_def)
  then have steady: "df_creates d = []" "df_deletes d = []"
    using reconcile_scaling [OF r] by blast+
  obtain obs where obs: "pcs_calls st' = pcs_calls st @ map Delete obs" "set obs = set (df_updates d)"
  proof (cases "df_updates d = []")
    case True
    with r steady that [of "[]"] show thesis by (simp add: reconcile_steady)
  next
    case False
    with r steady have "rollout srv scaled crd pods (df_updates d) st = (Returned False None, st')"
      by (simp add: reconcile_steady)
    from rollout_done [OF this assms(5) distinct_names [OF assms(3,4)]] that show thesis by blast
  qed
  moreover have "cluster_revs pods = wanted_revs want" if "obs = []"
    using that obs(2) diff_order.nothing_to_do [OF order assms(3) steady] by simp
  ultimately show ?thesis using diff_order.outdated_deleted [OF order assms(3) steady obs(2)]
    by (intro exI [of _ obs]) simp
qed

subsection \<open>Progress\<close>

lemma restart_accepted:
  assumes "accepts srv" and "GetName u \<in> fst ` set (pcs_syncInfo st)"
  shows "\<exists>st'. restart_step srv what reason u st = (None, st') \<and>
    fst ` set (pcs_syncInfo st') = fst ` set (pcs_syncInfo st)"
proof -
  obtain ps where ps: "map_of (pcs_syncInfo st) (GetName u) = Some ps"
    using assms(2) by (metis map_of_eq_None_iff not_Some_eq)
  have "fst ` set (AList.update (GetName u) v (pcs_syncInfo st)) = fst ` set (pcs_syncInfo st)" for v
    using dom_update [of "GetName u" v "pcs_syncInfo st"] assms(2) by auto
  with ps assms(1) show ?thesis
    by (simp add: restart_step_def send_def accepts_def IgnoreNotFound_def)
qed

text \<open>What the loops need not to panic: every live pod has its entry, and outdated pods have containers.\<close>

definition no_nil :: "(string \<times> SyncInfoPodStatus) list \<Rightarrow> Pod list \<Rightarrow> Pod list \<Rightarrow> bool" where
  "no_nil s updates pods \<longleftrightarrow> (\<forall>p \<in> set pods. live p \<longrightarrow> GetName p \<in> fst ` set s \<and> ps_Containers (pod_Spec p) \<noteq> []) \<and>
     (\<forall>u \<in> set updates. ps_Containers (pod_Spec u) \<noteq> [])"

lemma observe_accepted:
  assumes "accepts srv" and "no_nil (pcs_syncInfo (ro_state ro)) updates pods"
  shows "\<exists>ro'. each (observe_step srv updates) pods ro = (None, ro') \<and>
    fst ` set (pcs_syncInfo (ro_state ro')) = fst ` set (pcs_syncInfo (ro_state ro))"
  using assms(2)
proof (induction pods arbitrary: ro)
  case Nil
  then show ?case by simp
next
  case (Cons p pods)
  have "\<exists>ro1. observe_step srv updates p ro = (None, ro1) \<and>
      fst ` set (pcs_syncInfo (ro_state ro1)) = fst ` set (pcs_syncInfo (ro_state ro))"
  proof (cases "update_of updates p")
    case None
    then show ?thesis by (simp add: observe_step_eq Let_def)
  next
    case (Some u)
    note u = update_of_Some [OF Some]
    show ?thesis
    proof (cases "live p")
      case True
      then have "GetName u \<in> fst ` set (pcs_syncInfo (ro_state ro))" using u Cons.prems by (simp add: no_nil_def)
      from restart_accepted [OF assms(1) this, of "''upgrade pod version''" "''version upgrade in progress''"]
      show ?thesis using Some u True Cons.prems by (auto simp: observe_step_eq Let_def no_nil_def)
    qed (simp add: observe_step_eq)
  qed
  then obtain ro1 where ro1: "observe_step srv updates p ro = (None, ro1)"
      "fst ` set (pcs_syncInfo (ro_state ro1)) = fst ` set (pcs_syncInfo (ro_state ro))" by blast
  with Cons.prems have "no_nil (pcs_syncInfo (ro_state ro1)) updates pods" by (simp add: no_nil_def)
  from Cons.IH [OF this] ro1 show ?case by auto
qed

lemma update_loop_accepted:
  assumes "accepts srv" and "\<forall>u \<in> set os. GetName u \<in> fst ` set (pcs_syncInfo st)"
  shows "fst (update_loop srv N os up st) = None"
  using assms(2)
proof (induction os arbitrary: up st)
  case (Cons u os)
  then obtain st1 where "restart_step srv ''update pod'' ''update in progress'' u st = (None, st1)"
      "fst ` set (pcs_syncInfo st1) = fst ` set (pcs_syncInfo st)"
    using restart_accepted [OF assms(1), of u st "''update pod''" "''update in progress''"] by auto
  with Cons show ?case by auto
qed simp

lemma rollout_progress:
  assumes "accepts srv" and "no_nil (pcs_syncInfo st) updates pods" and "sync_ok (pcs_syncInfo st)"
    and "ComputeRollout scaled (ro_MaxUnavailable (sp_RolloutStrategy (fn_Spec crd))) (sp_Replicas (fn_Spec crd))
      (ready_pods (pcs_syncInfo st) pods) = Ok N"
    and "p \<in> set pods" and "live p" and "update_of updates p = Some u"
  shows "\<exists>rq st' obs. rollout srv scaled crd pods updates st = (Returned rq None, st') \<and>
    pcs_calls st' = pcs_calls st @ map Delete obs \<and> (0 < N \<longrightarrow> obs \<noteq> [])"
proof -
  let ?s = "pcs_syncInfo st"
  let ?us = "List.map_filter (upgrade_of ?s updates) pods" and ?os = "List.map_filter (other_of ?s updates) pods"
  let ?ro0 = "\<lparr>ro_state = st, ro_updatedPods = 0, ro_rpcReachablePods = 0, ro_inSyncPods = 0, ro_otherUpdates = []\<rparr>"
  have "no_nil (pcs_syncInfo (ro_state ?ro0)) updates pods" using assms(2) by simp
  from observe_accepted [OF assms(1) this] obtain ro where ro: "each (observe_step srv updates) pods ?ro0 = (None, ro)"
    and dm: "fst ` set (pcs_syncInfo (ro_state ro)) = fst ` set (pcs_syncInfo (ro_state ?ro0))" by blast
  have "observed st updates pods ro" using observe_calls [OF ro] by auto
  then have c: "pcs_calls (ro_state ro) = pcs_calls st @ map Delete ?us"
    and up: "ro_updatedPods ro = int (length ?us)" and os: "ro_otherUpdates ro = ?os"
    and rdy: "(if ro_inSyncPods ro = 0 then ro_rpcReachablePods ro else ro_inSyncPods ro) = ready_pods ?s pods"
    using assms(3) by (auto simp: observed_def Let_def ready_pods_def)
  have some: "?us \<noteq> [] \<or> ?os \<noteq> []"
  proof -
    have "upgrade_of ?s updates p = Some u \<or> other_of ?s updates p = Some u"
      using assms(6,7) by (auto simp: upgrade_of_Some other_of_Some)
    then have "u \<in> set ?us \<union> set ?os" using assms(5) by (auto simp: set_map_filter)
    then show ?thesis by auto
  qed
  have ne: "updates \<noteq> []" using update_of_Some [OF assms(7)] by auto
  have "GetName v \<in> fst ` set (pcs_syncInfo (ro_state ro))" if "v \<in> set ?os" for v
  proof -
    obtain q where "q \<in> set pods" "live q" "update_of updates q = Some v"
      using \<open>v \<in> set ?os\<close> by (auto simp: set_map_filter other_of_Some)
    then show ?thesis using assms(2) update_of_Some [of updates q v] unfolding dm no_nil_def by simp
  qed
  then have la: "fst (update_loop srv N ?os (int (length ?us)) (ro_state ro)) = None"
    using update_loop_accepted [OF assms(1)] by blast
  obtain k' st1 where l: "update_loop srv N ?os (int (length ?us)) (ro_state ro) = (None, k', st1)"
    using la by (metis fst_conv prod_cases3)
  have roll: "rollout srv scaled crd pods updates st =
      (if length ?us = length updates then (Returned False None, ro_state ro)
       else if int (length ?us) \<ge> N then (Returned True None, ro_state ro)
       else (Returned (int (length updates) \<noteq> k') None, st1))"
    using ro assms(4) up os rdy l by (simp add: rollout_def)
  show ?thesis
  proof (cases "length ?us \<noteq> length updates \<and> int (length ?us) < N")
    case False
    then have "?us \<noteq> []" if "0 < N" using that ne by auto
    with False roll c show ?thesis
      by (intro exI [of _ "length ?us \<noteq> length updates"] exI [of _ "ro_state ro"] exI [of _ ?us]) auto
  next
    case True
    then obtain k where k: "pcs_calls st1 = pcs_calls (ro_state ro) @ map Delete (take k ?os)"
        "k = length ?os \<or> N \<le> int (length ?us) + int k"
      using update_loop_calls [OF l] by auto
    with True some have "?us @ take k ?os \<noteq> []" by auto
    then show ?thesis using roll True c k(1) by (intro exI [of _ "?us @ take k ?os"] exI conjI) auto
  qed
qed

text \<open>A rollout makes progress and does not crash. Against a server that accepts the calls, when
  every live pod has an entry in \<open>syncInfo\<close> and every pod a container, a round without scaling
  returns without an error; it deletes at least one outdated pod whenever an outdated pod is live
  and more pods than \<open>Replicas\<close> less the maximum unavailable are ready (in sync, or reachable when
  none is in sync).\<close>

theorem PodControl_progress:
  assumes "BuildPods env marshal patch crd cksums = Ok (Inr want)" and "Diff_New srt pods want = Ok d"
    and "df_creates d = []" and "df_deletes d = []"
    and "accepts srv" and "no_nil (pcs_syncInfo st) (df_updates d) pods" and "sync_ok (pcs_syncInfo st)"
    and "scaled (case ro_MaxUnavailable (sp_RolloutStrategy (fn_Spec crd)) of None \<Rightarrow> defaultMaxUnavail | Some m \<Rightarrow> m)
      (sp_Replicas (fn_Spec crd)) = Inr unavail"
    and "p \<in> set pods" and "live p" and "u \<in> set (df_updates d)" and "GetName u = GetName p"
    and "0 < sp_Replicas (fn_Spec crd)"
    and "sp_Replicas (fn_Spec crd) - max 1 unavail < ready_pods (pcs_syncInfo st) pods"
  shows "\<exists>rq st' obs. PodControl_Reconcile env marshal patch srt srv setRef scaled (Inr pods) crd cksums st =
      (Returned rq None, st') \<and> pcs_calls st' = pcs_calls st @ map Delete obs \<and> obs \<noteq> []"
proof -
  obtain N where N: "ComputeRollout scaled (ro_MaxUnavailable (sp_RolloutStrategy (fn_Spec crd))) (sp_Replicas (fn_Spec crd))
      (ready_pods (pcs_syncInfo st) pods) = Ok N" "0 < N"
    using ComputeRollout_positive [where scaled = scaled, OF assms(8,13,14)] ready_pods_nonneg by blast
  obtain v where "update_of (df_updates d) p = Some v"
    using assms(11,12) by (cases "update_of (df_updates d) p") (auto simp: update_of_def find_None_iff)
  from rollout_progress [OF assms(5,6,7) N(1) assms(9,10) this] N(2) assms(1-4,11) show ?thesis
    by (auto simp: PodControl_Reconcile_def reconcile_steady)
qed

subsection \<open>Witnesses\<close>

text \<open>The sample resource, with two pods allowed to be unavailable.\<close>

definition rolling_crd :: CosmosFullNode where
  "rolling_crd = sample_crd\<lparr>fn_Spec := sample_spec\<lparr>sp_RolloutStrategy := \<lparr>ro_MaxUnavailable = Some (IntVal 2)\<rparr>\<rparr>\<rparr>"

text \<open>Both pods of the sample run with an outdated revision, both in sync.\<close>

definition old_pod :: "string \<Rightarrow> Pod" where
  "old_pod n = \<lparr>ob_Kind = ''Pod'', ob_APIVersion = ''v1'', ob_Meta = emptyMeta\<lparr>om_Name := n, om_Namespace := ''chains''\<rparr>,
     ob_Body = \<lparr>pb_Spec = emptyPodSpec\<lparr>ps_Containers := [emptyContainer]\<rparr>, pb_Status = emptyPodStatus\<rparr>\<rparr>"

definition old_pods :: "Pod list" where "old_pods = [old_pod ''osmo-0'', old_pod ''osmo-2'']"

definition sample_info :: "bool \<Rightarrow> SyncInfoPodStatus" where
  "sample_info b = \<lparr>si_Timestamp = 0, si_Height = Some 150, si_InSync = Some b, si_Error = None\<rparr>"

definition sample_pod_state :: pod_state where
  "sample_pod_state = \<lparr>pcs_calls = [], pcs_syncInfo = [(''osmo-0'', sample_info True), (''osmo-2'', sample_info True)],
     pcs_invalidate = []\<rparr>"

lemma sample_want:
  "\<exists>want. BuildPods sample_env ref_marshal ref_patch rolling_crd [] = Ok (Inr want) \<and>
     map rs_key want = [ObjectKey ''chains'' ''osmo-0'', ObjectKey ''chains'' ''osmo-2''] \<and>
     (\<forall>r \<in> set want. rs_Revision r \<noteq> [] \<and> ps_Containers (pod_Spec (rs_Object r)) \<noteq> [])"
proof -
  have "(case BuildPods sample_env ref_marshal ref_patch rolling_crd [] of
      Ok (Inr rs) \<Rightarrow> map rs_key rs = [ObjectKey ''chains'' ''osmo-0'', ObjectKey ''chains'' ''osmo-2''] \<and>
        list_all (\<lambda>r. rs_Revision r \<noteq> [] \<and> ps_Containers (pod_Spec (rs_Object r)) \<noteq> []) rs
    | _ \<Rightarrow> False)"
    by code_simp
  then show ?thesis by (auto simp: list_all_iff split: exec.splits sum.splits)
qed

lemma old_pod_simps [simp]:
  "GetName (old_pod n) = n" "GetNamespace (old_pod n) = ''chains''" "obj_rev (old_pod n) = []" "live (old_pod n)"
  "ps_Containers (pod_Spec (old_pod n)) = [emptyContainer]" "ObjectKeyFromObject (old_pod n) = ObjectKey ''chains'' n"
  by (simp_all add: old_pod_def object_defs live_def obj_rev_def emptyMeta_def label_get_def)

lemma sample_diff_pods:
  "\<exists>want d. BuildPods sample_env ref_marshal ref_patch rolling_crd [] = Ok (Inr want) \<and>
     Diff_New (sort_key rs_Ordinal) old_pods want = Ok d \<and> df_creates d = [] \<and> df_deletes d = [] \<and>
     (\<forall>u \<in> set (df_updates d). ps_Containers (pod_Spec u) \<noteq> []) \<and>
     (\<exists>u \<in> set (df_updates d). GetName u = ''osmo-0'')"
proof -
  obtain want where w: "BuildPods sample_env ref_marshal ref_patch rolling_crd [] = Ok (Inr want)"
      "map rs_key want = [ObjectKey ''chains'' ''osmo-0'', ObjectKey ''chains'' ''osmo-2'']"
      "\<forall>r \<in> set want. rs_Revision r \<noteq> [] \<and> ps_Containers (pod_Spec (rs_Object r)) \<noteq> []"
    using sample_want by metis
  have "\<not> is_panic (Diff_New (sort_key rs_Ordinal) old_pods want)"
    unfolding Diff_New_panics_iff w(2) by (simp add: old_pods_def)
  then obtain d where d: "Diff_New (sort_key rs_Ordinal) old_pods want = Ok d" by (auto elim: is_panic.elims)
  have k: "rs_key ` set want = {ObjectKey ''chains'' ''osmo-0'', ObjectKey ''chains'' ''osmo-2''}"
    using arg_cong [OF w(2), of set] by simp
  have "ob \<notin> set (df_creates d)" "ob \<notin> set (df_deletes d)" for ob
    unfolding by_ordinal_diff.creates_iff [OF d] by_ordinal_diff.deletes_iff [OF d] k
    using k by (auto simp: old_pods_def)
  then have "df_creates d = []" "df_deletes d = []" by (metis list.set_sel(1))+
  moreover have "\<forall>u \<in> set (df_updates d). ps_Containers (pod_Spec u) \<noteq> []"
    using w(3) by (auto simp: by_ordinal_diff.updates_iff [OF d])
  moreover have "ObjectKey ''chains'' ''osmo-0'' \<in> rs_key ` set want" unfolding k by simp
  then obtain r where r: "r \<in> set want" "rs_key r = ObjectKey ''chains'' ''osmo-0''" by (elim imageE) simp
  then have "stamp (carryOver (currentAdapter (old_pod ''osmo-0'')) r) \<in> set (df_updates d)"
    using w(3) unfolding by_ordinal_diff.updates_iff [OF d]
    by (intro bexI [of _ "old_pod ''osmo-0''"] bexI [of _ r]) (auto simp: old_pods_def)
  moreover have "GetName (stamp (carryOver (currentAdapter (old_pod ''osmo-0'')) r)) = ''osmo-0''"
    using r key_stamp [of "carryOver (currentAdapter (old_pod ''osmo-0'')) r"] by (simp add: ObjectKeyFromObject_def)
  ultimately show ?thesis using w(1) d by (intro exI [of _ want] exI [of _ d]) auto
qed

lemma sample_rollout_facts:
  "\<forall>p \<in> set old_pods. GetNamespace p = fn_Namespace rolling_crd" "sync_ok (pcs_syncInfo sample_pod_state)"
  "scaled_ref (case ro_MaxUnavailable (sp_RolloutStrategy (fn_Spec rolling_crd)) of None \<Rightarrow> defaultMaxUnavail | Some m \<Rightarrow> m)
      (sp_Replicas (fn_Spec rolling_crd)) = Inr 2"
  "sp_Replicas (fn_Spec rolling_crd) = 3" "length (serving (pcs_syncInfo sample_pod_state) old_pods) = 2"
  by (simp_all add: old_pods_def rolling_crd_def sample_crd_defs sync_ok_def in_sync_def reachable_def sample_pod_state_def sample_info_def
      serving_def) code_simp

theorem PodControl_available_witness:
  "\<exists>want d res st' cs. BuildPods sample_env ref_marshal ref_patch rolling_crd [] = Ok (Inr want) \<and>
     Diff_New (sort_key rs_Ordinal) old_pods want = Ok d \<and> df_creates d = [] \<and> df_deletes d = [] \<and>
     PodControl_Reconcile sample_env ref_marshal ref_patch (sort_key rs_Ordinal) (\<lambda>h c. None) Inr scaled_ref (Inr old_pods)
       rolling_crd [] sample_pod_state = (res, st') \<and>
     pcs_calls st' = cs \<and> set cs \<subseteq> Delete ` set (df_updates d) \<and>
     1 \<le> length (left_serving cs (pcs_syncInfo sample_pod_state) old_pods)"
proof -
  obtain want d where w: "BuildPods sample_env ref_marshal ref_patch rolling_crd [] = Ok (Inr want)"
     "Diff_New (sort_key rs_Ordinal) old_pods want = Ok d" and e: "df_creates d = []" "df_deletes d = []"
    using sample_diff_pods by blast
  obtain res st' where r: "PodControl_Reconcile sample_env ref_marshal ref_patch (sort_key rs_Ordinal) (\<lambda>h c. None) Inr scaled_ref (Inr old_pods)
       rolling_crd [] sample_pod_state = (res, st')" by (metis surj_pair)
  obtain cs where "pcs_calls st' = pcs_calls sample_pod_state @ cs" "set cs \<subseteq> Delete ` set (df_updates d)"
      "min (int (length (serving (pcs_syncInfo sample_pod_state) old_pods))) (sp_Replicas (fn_Spec rolling_crd) - max 1 2)
         \<le> int (length (left_serving cs (pcs_syncInfo sample_pod_state) old_pods))"
    using PodControl_available [where scaled = scaled_ref, OF w sample_rollout_facts(1-3) r] e by auto
  then show ?thesis using w e r sample_rollout_facts(4,5)
    by (intro exI [of _ want] exI [of _ d] exI [of _ res] exI [of _ st'] exI [of _ cs]) (simp add: sample_pod_state_def)
qed

text \<open>Both pods wait for an upgrade and cannot be reached; the round deletes both and is done.\<close>

definition halted_state :: pod_state where
  "halted_state = sample_pod_state\<lparr>pcs_syncInfo := map (\<lambda>n. (n, \<lparr>si_Timestamp = 0, si_Height = None, si_InSync = None,
     si_Error = Some ''connection refused''\<rparr>)) [''osmo-0'', ''osmo-2'']\<rparr>"

lemma sample_done:
  "(case PodControl_Reconcile sample_env ref_marshal ref_patch (sort_key rs_Ordinal) (\<lambda>h c. None) Inr scaled_ref (Inr old_pods)
      rolling_crd [] halted_state of (res, st') \<Rightarrow> res = Returned False None \<and> length (pcs_calls st') = 2)"
  by code_simp

theorem PodControl_settled_witness:
  "\<exists>want st' cs. BuildPods sample_env ref_marshal ref_patch rolling_crd [] = Ok (Inr want) \<and>
     PodControl_Reconcile sample_env ref_marshal ref_patch (sort_key rs_Ordinal) (\<lambda>h c. None) Inr scaled_ref (Inr old_pods)
       rolling_crd [] halted_state = (Returned False None, st') \<and> pcs_calls st' = cs \<and> length cs = 2 \<and>
     run_calls cs (cluster_revs old_pods) =
       (\<lambda>k. if cluster_revs old_pods k = wanted_revs want k then wanted_revs want k else None)"
proof -
  obtain want d where w: "BuildPods sample_env ref_marshal ref_patch rolling_crd [] = Ok (Inr want)"
     "Diff_New (sort_key rs_Ordinal) old_pods want = Ok d"
    using sample_diff_pods by blast
  obtain st' where r: "PodControl_Reconcile sample_env ref_marshal ref_patch (sort_key rs_Ordinal) (\<lambda>h c. None) Inr scaled_ref (Inr old_pods)
       rolling_crd [] halted_state = (Returned False None, st')" "length (pcs_calls st') = 2"
    using sample_done by (auto split: prod.splits)
  have s: "sync_ok (pcs_syncInfo halted_state)" "pcs_calls halted_state = []"
    by (simp_all add: sync_ok_def in_sync_def halted_state_def sample_pod_state_def)
  obtain cs where "pcs_calls st' = cs" "run_calls cs (cluster_revs old_pods) =
      (\<lambda>k. if cluster_revs old_pods k = wanted_revs want k then wanted_revs want k else None)"
    using PodControl_settled [where scaled = scaled_ref, OF by_ordinal.ordering_of_axioms w sample_rollout_facts(1) s(1) r(1)] s(2) by auto
  with w r show ?thesis by blast
qed

theorem PodControl_progress_witness:
  "\<exists>rq st' obs. PodControl_Reconcile sample_env ref_marshal ref_patch (sort_key rs_Ordinal) (\<lambda>h c. None) Inr scaled_ref (Inr old_pods)
      rolling_crd [] sample_pod_state = (Returned rq None, st') \<and> pcs_calls st' = map Delete obs \<and> obs \<noteq> []"
proof -
  obtain want d u where w: "BuildPods sample_env ref_marshal ref_patch rolling_crd [] = Ok (Inr want)"
     "Diff_New (sort_key rs_Ordinal) old_pods want = Ok d" "df_creates d = []" "df_deletes d = []"
    and c: "\<forall>u \<in> set (df_updates d). ps_Containers (pod_Spec u) \<noteq> []" and u: "u \<in> set (df_updates d)" "GetName u = ''osmo-0''"
    using sample_diff_pods by blast
  have n: "no_nil (pcs_syncInfo sample_pod_state) (df_updates d) old_pods"
    using c by (simp add: no_nil_def old_pods_def sample_pod_state_def)
  have p: "old_pod ''osmo-0'' \<in> set old_pods" "live (old_pod ''osmo-0'')" by (simp_all add: old_pods_def)
  have a: "accepts (\<lambda>h c. None :: goerror option)" by (simp add: accepts_def)
  have "0 < sp_Replicas (fn_Spec rolling_crd)"
    "sp_Replicas (fn_Spec rolling_crd) - max 1 2 < ready_pods (pcs_syncInfo sample_pod_state) old_pods"
    using sample_rollout_facts(4,5) by (auto simp: ready_pods_def)
  then show ?thesis
    using PodControl_progress [where scaled = scaled_ref and u = u, OF w a n sample_rollout_facts(2,3) p u(1)] u(2)
    by (simp add: sample_pod_state_def)
qed

end
