(* ===== verification/Pvc_Builder.thy ===== *)
theory Pvc_Builder
  imports Fullnode_Names Control_Loops
begin

text \<open>
  \<^verbatim>\<open>internal/fullnode/pvc_builder.go\<close>: the wanted volume claims and the storage each asks for.
  Writing to a nil map of requests panics. The data source is set on the claim after its revision
  was computed, so it is no part of the revision.
\<close>

record dataSource =
  ds_ref :: "TypedLocalObjectReference option"
  ds_size :: Quantity

definition snapshotGrowthFactor :: int where "snapshotGrowthFactor = 102"

definition defaultAccessModes :: "string list" where "defaultAccessModes = [''ReadWriteOnce'']"

definition pvcDisabled :: "CosmosFullNode \<Rightarrow> int \<Rightarrow> bool" where
  "pvcDisabled crd ordinal =
     (case map_of (sp_InstanceOverrides (fn_Spec crd)) (instanceName crd ordinal) of
        None \<Rightarrow> False | Some v \<Rightarrow> io_DisableStrategy v = Some DisableAll)"

definition put_request :: "string \<Rightarrow> Quantity \<Rightarrow> ResourceRequirements \<Rightarrow> ResourceRequirements exec" where
  "put_request k q r =
     (case rr_Requests r of
        None \<Rightarrow> Panic ''assignment to entry in nil map''
      | Some m \<Rightarrow> Ok (r\<lparr>rr_Requests := Some (AList.update k q m)\<rparr>))"

text \<open>A requested size with the growth factor, computed exactly.\<close>

definition padded :: "Quantity \<Rightarrow> Quantity" where
  "padded q = \<lparr>q_Amount = q_Amount q * (of_int snapshotGrowthFactor / 100), q_Format = ''DecimalSI''\<rparr>"

definition pvcResources ::
  "CosmosFullNode \<Rightarrow> string \<Rightarrow> dataSource option \<Rightarrow> Quantity \<Rightarrow> ResourceRequirements exec" where
  "pvcResources crd name ds existingSize =
     (let reqs = vct_Resources (sp_VolumeClaimTemplate (fn_Spec crd))
      in case ds of
           Some d \<Rightarrow> put_request ResourceStorage (ds_size d) reqs
         | None \<Rightarrow>
             exec_bind
               (case shs_PVCAutoScale (st_SelfHealing (fn_Status crd)) of
                  None \<Rightarrow> Ok reqs
                | Some autoScale \<Rightarrow>
                    (case map_of autoScale name of
                       None \<Rightarrow> Ok reqs
                     | Some status \<Rightarrow>
                         (let sizeWithPadding = padded (as_RequestedSize status)
                          in if q_Cmp sizeWithPadding (requests_get reqs ResourceStorage) > 0
                             then put_request ResourceStorage sizeWithPadding reqs else Ok reqs)))
               (\<lambda>reqs. if q_Cmp existingSize (requests_get reqs ResourceStorage) > 0
                        then put_request ResourceStorage existingSize reqs else Ok reqs))"

text \<open>The size and data source to keep, from the bound claim of that name that is not being deleted.\<close>

definition existingClaim :: "PVC list \<Rightarrow> string \<Rightarrow> Quantity \<times> TypedLocalObjectReference option" where
  "existingClaim currentPVCs name =
     (case find (\<lambda>pvc. GetName pvc = name) currentPVCs of
        None \<Rightarrow> (zeroQuantity, None)
      | Some pvc \<Rightarrow>
          if om_DeletionTimestamp (ob_Meta pvc) = None \<and> pvc_Phase (ob_Body pvc) = ClaimBound
          then (quantity_get (pvc_Capacity (ob_Body pvc)) ResourceStorage, pvc_DataSource (ob_Body pvc))
          else (zeroQuantity, None))"

definition pvcTemplate :: "CosmosFullNode \<Rightarrow> int \<Rightarrow> PersistentVolumeClaimSpec" where
  "pvcTemplate crd i =
     (case map_of (sp_InstanceOverrides (fn_Spec crd)) (instanceName crd i) of
        None \<Rightarrow> sp_VolumeClaimTemplate (fn_Spec crd)
      | Some override \<Rightarrow> valOrDefault (io_VolumeClaimTemplate override) (sp_VolumeClaimTemplate (fn_Spec crd)))"

definition buildPVC ::
  "PVCBody marshaler \<Rightarrow> CosmosFullNode \<Rightarrow> (int \<times> dataSource) list \<Rightarrow> PVC list \<Rightarrow> int \<Rightarrow> PVCBody Resource option exec" where
  "buildPVC marshal crd dataSources currentPVCs i =
     (if pvcDisabled crd i then Ok None
      else
        let name = pvcName crd i;
            tpl = pvcTemplate crd i;
            ds = map_of dataSources i;
            (existingSize, ref) = (case ds of Some d \<Rightarrow> (zeroQuantity, ds_ref d) | None \<Rightarrow> existingClaim currentPVCs name)
        in exec_bind (defaultLabels crd []) (\<lambda>lbls.
           exec_bind (pvcResources crd name ds existingSize) (\<lambda>reqs.
             let meta = emptyMeta\<lparr>om_Name := name, om_Namespace := fn_Namespace crd,
                   om_Labels := preserveMergeInto (AList.update InstanceLabel (instanceName crd i) lbls) (md_Labels (vct_Metadata tpl)),
                   om_Annotations := preserveMergeInto [] (md_Annotations (vct_Metadata tpl))\<rparr>;
                 pvc = \<lparr>ob_Kind = ''PersistentVolumeClaim'', ob_APIVersion = ''v1'', ob_Meta = NormalizeMetadata meta,
                   ob_Body = emptyPVCBody\<lparr>
                     pvc_AccessModes := sliceOrDefault (vct_AccessModes tpl) defaultAccessModes,
                     pvc_Resources := reqs,
                     pvc_StorageClassName := Some (vct_StorageClassName tpl),
                     pvc_VolumeMode := Some (valOrDefault (vct_VolumeMode tpl) ''Filesystem'')\<rparr>\<rparr>
             in exec_bind (Adapt marshal pvc i) (\<lambda>r.
                  Ok (Some (r\<lparr>rs_Object := pvc\<lparr>ob_Body := (ob_Body pvc)\<lparr>pvc_DataSource := ref\<rparr>\<rparr>\<rparr>))))))"

definition BuildPVCs ::
  "PVCBody marshaler \<Rightarrow> CosmosFullNode \<Rightarrow> (int \<times> dataSource) list \<Rightarrow> PVC list \<Rightarrow> PVCBody Resource list exec" where
  "BuildPVCs marshal crd dataSources currentPVCs =
     exec_collect (buildPVC marshal crd dataSources currentPVCs) (ordinals (sp_Replicas (fn_Spec crd)))"

subsection \<open>Storage requests\<close>

definition storage :: "ResourceRequirements \<Rightarrow> rat" where
  "storage r = q_Amount (requests_get r ResourceStorage)"

lemma put_request_Ok:
  "put_request k q r = Ok r' \<longleftrightarrow> (\<exists>m. rr_Requests r = Some m \<and> r' = r\<lparr>rr_Requests := Some (AList.update k q m)\<rparr>)"
  by (auto simp: put_request_def split: option.splits)

lemma storage_put: "put_request ResourceStorage q r = Ok r' \<Longrightarrow> storage r' = q_Amount q"
  by (auto simp: put_request_Ok storage_def requests_get_def)

lemma put_request_total: "rr_Requests r \<noteq> None \<Longrightarrow> \<exists>r'. put_request k q r = Ok r' \<and> rr_Requests r' \<noteq> None"
  by (auto simp: put_request_def)

lemma pvcResources_source:
  "pvcResources crd name (Some d) ex = Ok r \<Longrightarrow> storage r = q_Amount (ds_size d)"
  by (auto simp: pvcResources_def Let_def dest: storage_put)

text \<open>Without a data source the request is the largest of template, padded request and existing size.\<close>

lemma pvcResources_max:
  assumes "rr_Requests (vct_Resources (sp_VolumeClaimTemplate (fn_Spec crd))) \<noteq> None"
  shows "\<exists>r. pvcResources crd name None existingSize = Ok r \<and>
    storage r = max (q_Amount existingSize)
      (case Option.bind (shs_PVCAutoScale (st_SelfHealing (fn_Status crd))) (\<lambda>m. map_of m name) of
         None \<Rightarrow> storage (vct_Resources (sp_VolumeClaimTemplate (fn_Spec crd)))
       | Some status \<Rightarrow> max (q_Amount (padded (as_RequestedSize status)))
           (storage (vct_Resources (sp_VolumeClaimTemplate (fn_Spec crd)))))"
proof -
  let ?reqs = "vct_Resources (sp_VolumeClaimTemplate (fn_Spec crd))"
  let ?auto = "case shs_PVCAutoScale (st_SelfHealing (fn_Status crd)) of
      None \<Rightarrow> Ok ?reqs
    | Some autoScale \<Rightarrow>
        (case map_of autoScale name of
           None \<Rightarrow> Ok ?reqs
         | Some status \<Rightarrow>
             (let sizeWithPadding = padded (as_RequestedSize status)
              in if q_Cmp sizeWithPadding (requests_get ?reqs ResourceStorage) > 0
                 then put_request ResourceStorage sizeWithPadding ?reqs else Ok ?reqs))"
  have put: "\<exists>r'. (if q_Cmp q (requests_get r ResourceStorage) > 0 then put_request ResourceStorage q r else Ok r) = Ok r' \<and>
      rr_Requests r' \<noteq> None \<and> storage r' = max (q_Amount q) (storage r)" if "rr_Requests r \<noteq> None" for q r
    using that put_request_total [OF that, of ResourceStorage q] storage_put [of q r]
    by (auto simp: storage_def max_def)
  have "\<exists>r'. ?auto = Ok r' \<and> rr_Requests r' \<noteq> None \<and> storage r' =
      (case Option.bind (shs_PVCAutoScale (st_SelfHealing (fn_Status crd))) (\<lambda>m. map_of m name) of
         None \<Rightarrow> storage ?reqs
       | Some status \<Rightarrow> max (q_Amount (padded (as_RequestedSize status))) (storage ?reqs))"
  proof (cases "Option.bind (shs_PVCAutoScale (st_SelfHealing (fn_Status crd))) (\<lambda>m. map_of m name)")
    case None
    with assms show ?thesis by (auto split: option.splits)
  next
    case (Some status)
    with put [OF assms, of "padded (as_RequestedSize status)"] show ?thesis
      by (auto simp: Let_def Option.bind_eq_Some_conv)
  qed
  then obtain r' where r': "?auto = Ok r'" "rr_Requests r' \<noteq> None" "storage r' =
      (case Option.bind (shs_PVCAutoScale (st_SelfHealing (fn_Status crd))) (\<lambda>m. map_of m name) of
         None \<Rightarrow> storage ?reqs
       | Some status \<Rightarrow> max (q_Amount (padded (as_RequestedSize status))) (storage ?reqs))" by blast
  from put [OF r'(2), of existingSize] r'(1,3) show ?thesis
    by (auto simp: pvcResources_def Let_def)
qed

subsection \<open>The wanted claims\<close>

lemma buildPVC_Some:
  assumes "buildPVC marshal crd ds cur i = Ok (Some r)"
  shows "\<not> pvcDisabled crd i \<and> rs_key r = ObjectKey (fn_Namespace crd) (pvcName crd i) \<and> rs_Ordinal r = i"
  using assms
  by (auto simp: buildPVC_def Let_def rs_key_def object_defs NormalizeMetadata_def split: if_splits prod.splits
      dest!: Adapt_Ok)

lemma buildPVC_None: "buildPVC marshal crd ds cur i = Ok None \<longleftrightarrow> pvcDisabled crd i"
  by (auto simp: buildPVC_def Let_def split: prod.splits)

lemma BuildPVCs_keys:
  assumes "BuildPVCs marshal crd ds cur = Ok rs"
  shows "map rs_key rs = map (\<lambda>i. ObjectKey (fn_Namespace crd) (pvcName crd i))
      (filter (\<lambda>i. \<not> pvcDisabled crd i) (ordinals (sp_Replicas (fn_Spec crd)))) \<and>
    map rs_Ordinal rs = filter (\<lambda>i. \<not> pvcDisabled crd i) (ordinals (sp_Replicas (fn_Spec crd)))"
proof -
  obtain g where g: "\<forall>i \<in> set (ordinals (sp_Replicas (fn_Spec crd))). buildPVC marshal crd ds cur i = Ok (g i)"
      "rs = List.map_filter g (ordinals (sp_Replicas (fn_Spec crd)))"
    using assms unfolding BuildPVCs_def exec_collect_Ok_iff by blast
  have "map rs_key (List.map_filter g xs) = map (\<lambda>i. ObjectKey (fn_Namespace crd) (pvcName crd i)) (filter (\<lambda>i. \<not> pvcDisabled crd i) xs) \<and>
      map rs_Ordinal (List.map_filter g xs) = filter (\<lambda>i. \<not> pvcDisabled crd i) xs"
    if "\<forall>i \<in> set xs. buildPVC marshal crd ds cur i = Ok (g i)" for xs
    using that
  proof (induction xs)
    case Nil
    then show ?case by (simp add: map_filter_simps)
  next
    case (Cons i xs)
    then show ?case
      using buildPVC_None [of marshal crd ds cur i] buildPVC_Some [of marshal crd ds cur i]
      by (cases "g i") (auto simp: map_filter_simps)
  qed
  from this [OF g(1)] g(2) show ?thesis by simp
qed

lemma BuildPVCs_distinct:
  assumes "int32_replicas crd" and "BuildPVCs marshal crd ds cur = Ok rs"
  shows "distinct (map rs_key rs)"
proof -
  have "distinct (map (pvcName crd) (filter (\<lambda>i. \<not> pvcDisabled crd i) (ordinals (sp_Replicas (fn_Spec crd)))))"
    using ordinals_is_ordinal [OF assms(1)] by (intro pvc_names.distinct_nm) simp_all
  then show ?thesis using BuildPVCs_keys [OF assms(2)] by (simp add: distinct_map inj_on_def)
qed

text \<open>The revision of a claim does not see the reference of its data source.\<close>

lemma buildPVC_revision:
  assumes "map_option ds_size (map_of ds i) = map_option ds_size (map_of ds' i)"
    and "buildPVC marshal crd ds cur i = Ok (Some r)" and "buildPVC marshal crd ds' cur i = Ok (Some r')"
  shows "rs_Revision r = rs_Revision r'"
proof -
  have "pvcResources crd n (map_of ds i) q = pvcResources crd n (map_of ds' i) q" for n q
    using assms(1) by (cases "map_of ds i"; cases "map_of ds' i") (auto simp: pvcResources_def)
  moreover have "map_of ds i = None \<longleftrightarrow> map_of ds' i = None" using assms(1) by (metis option.map_disc_iff)
  ultimately show ?thesis
    using assms(2,3)
    by (auto simp: buildPVC_def Let_def split: if_splits prod.splits option.splits)
qed

lemma buildPVC_resources:
  assumes "buildPVC marshal crd ds cur i = Ok (Some r)"
  shows "\<exists>size. pvcResources crd (pvcName crd i) (map_of ds i) size = Ok (pvc_Resources (ob_Body (rs_Object r)))"
  using assms by (auto simp: buildPVC_def Let_def split: if_splits prod.splits option.splits)

lemma BuildPVCs_member:
  assumes "BuildPVCs marshal crd ds cur = Ok claims" and "i \<in> set (ordinals (sp_Replicas (fn_Spec crd)))" and "\<not> pvcDisabled crd i"
  shows "\<exists>r \<in> set claims. buildPVC marshal crd ds cur i = Ok (Some r)"
proof -
  obtain g where g: "\<forall>i \<in> set (ordinals (sp_Replicas (fn_Spec crd))). buildPVC marshal crd ds cur i = Ok (g i)"
      "claims = List.map_filter g (ordinals (sp_Replicas (fn_Spec crd)))"
    using assms(1) unfolding BuildPVCs_def exec_collect_Ok_iff by blast
  obtain r where "g i = Some r" using g(1) assms(2,3) buildPVC_None [of marshal crd ds cur i] by (cases "g i") auto
  with g assms(2) show ?thesis by (intro bexI [of _ r]) (auto simp: set_map_filter)
qed

text \<open>With a request map in the template and an encoder that succeeds, the claims can be built.\<close>

lemma pvcResources_total:
  assumes "rr_Requests (vct_Resources (sp_VolumeClaimTemplate (fn_Spec crd))) \<noteq> None"
  shows "\<exists>r. pvcResources crd name d ex = Ok r"
proof (cases d)
  case None
  then show ?thesis using pvcResources_max [OF assms, of name ex] by blast
next
  case (Some x)
  then show ?thesis using put_request_total [OF assms, of ResourceStorage "ds_size x"] by (auto simp: pvcResources_def Let_def)
qed

lemma BuildPVCs_total:
  assumes "rr_Requests (vct_Resources (sp_VolumeClaimTemplate (fn_Spec crd))) \<noteq> None" and "encodes marshal"
  shows "\<exists>claims. BuildPVCs marshal crd ds cur = Ok claims"
proof -
  have "\<exists>r. buildPVC marshal crd ds cur i = Ok r" for i
  proof -
    obtain ex ref where sr: "(case map_of ds i of Some d \<Rightarrow> (zeroQuantity, ds_ref d) | None \<Rightarrow> existingClaim cur (pvcName crd i)) = (ex, ref)"
      by (metis surj_pair)
    obtain lbls where l: "defaultLabels crd [] = Ok lbls" using defaultLabels_total [of "[]" crd] by auto
    obtain reqs where q: "pvcResources crd (pvcName crd i) (map_of ds i) ex = Ok reqs" using pvcResources_total [OF assms(1)] by blast
    have A: "\<exists>r. Adapt marshal ob i = Ok r" for ob using Adapt_total [OF assms(2)] by blast
    show ?thesis by (cases "pvcDisabled crd i") (simp_all add: buildPVC_def Let_def sr l q A)
  qed
  then obtain g where "\<forall>i. buildPVC marshal crd ds cur i = Ok (g i)" by metis
  then show ?thesis unfolding BuildPVCs_def exec_collect_Ok_iff by blast
qed

subsection \<open>Properties\<close>

text \<open>A claim never asks for less storage than it has. For a template with a request map,
  \<open>pvcResources\<close> does not panic and, without a data source, asks for exactly the largest of the
  template's size, 102 percent of a size requested by the auto scaler, and the bound capacity.\<close>

theorem pvcResources_never_shrinks:
  assumes "rr_Requests (vct_Resources (sp_VolumeClaimTemplate (fn_Spec crd))) \<noteq> None"
  shows "\<exists>r. pvcResources crd name None existingSize = Ok r \<and>
    q_Amount existingSize \<le> q_Amount (requests_get r ResourceStorage) \<and>
    q_Amount (requests_get (vct_Resources (sp_VolumeClaimTemplate (fn_Spec crd))) ResourceStorage)
      \<le> q_Amount (requests_get r ResourceStorage) \<and>
    q_Amount (requests_get r ResourceStorage) =
      max (q_Amount existingSize)
        (case Option.bind (shs_PVCAutoScale (st_SelfHealing (fn_Status crd))) (\<lambda>m. map_of m name) of
           None \<Rightarrow> q_Amount (requests_get (vct_Resources (sp_VolumeClaimTemplate (fn_Spec crd))) ResourceStorage)
         | Some status \<Rightarrow> max (q_Amount (as_RequestedSize status) * (102 / 100))
             (q_Amount (requests_get (vct_Resources (sp_VolumeClaimTemplate (fn_Spec crd))) ResourceStorage)))"
  using pvcResources_max [OF assms, of name existingSize]
  by (auto simp: storage_def padded_def snapshotGrowthFactor_def split: option.splits)

theorem pvcResources_never_shrinks_witness:
  "\<exists>r. pvcResources sample_crd ''pvc-osmo-0'' None \<lparr>q_Amount = 150, q_Format = []\<rparr> = Ok r \<and>
     150 \<le> q_Amount (requests_get r ResourceStorage)"
  using pvcResources_never_shrinks [of sample_crd "''pvc-osmo-0''" "\<lparr>q_Amount = 150, q_Format = []\<rparr>"]
  by (auto simp: sample_crd_defs)

end
