(* ===== verification/Pvc_Control.thy ===== *)
theory Pvc_Control
  imports Pvc_Builder
begin

text \<open>
  \<^verbatim>\<open>internal/fullnode/pvc_control.go\<close>: the control of volume claims. The reads of one reconcile
  are the record \<open>pvc_reads\<close>; nil pointers that the code dereferences panic. Claims are created,
  deleted (unless retained, or a pod still uses one) and, when nothing else is to do and all are
  bound, patched in size.
\<close>

record pvc_reads =
  pr_listPVCs :: "goerror + PVC list"
  pr_listPods :: "goerror + Pod list"
  pr_getSnapshot :: "int \<Rightarrow> string \<Rightarrow> goerror + VolumeSnapshot"
  pr_getPVC :: "int \<Rightarrow> string \<Rightarrow> goerror + PVC"
  pr_listSnapshots :: "int \<Rightarrow> labels \<Rightarrow> goerror + VolumeSnapshot list"

definition shouldRetain :: "CosmosFullNode \<Rightarrow> bool" where
  "shouldRetain crd =
     (case sp_RetentionPolicy (fn_Spec crd) of None \<Rightarrow> False | Some policy \<Rightarrow> policy = RetentionPolicyRetain)"

definition dataSourceEqual ::
  "TypedLocalObjectReference option \<Rightarrow> TypedLocalObjectReference option \<Rightarrow> bool" where
  "dataSourceEqual a b =
     (case (a, b) of
        (None, None) \<Rightarrow> True
      | (Some x, Some y) \<Rightarrow>
          if tr_Kind x \<noteq> tr_Kind y \<or> tr_Name x \<noteq> tr_Name y then False
          else if (tr_APIGroup x = None) \<noteq> (tr_APIGroup y = None) then False
          else (case (tr_APIGroup x, tr_APIGroup y) of (Some g, Some g') \<Rightarrow> g = g' | _ \<Rightarrow> True)
      | _ \<Rightarrow> False)"

text \<open>\<open>*vs.Status.RestoreSize\<close>.\<close>

definition restoreSize :: "VolumeSnapshot \<Rightarrow> Quantity exec" where
  "restoreSize vs =
     (case vs_Status (ob_Body vs) of
        None \<Rightarrow> Panic ''nil pointer dereference''
      | Some st \<Rightarrow> (case vss_RestoreSize st of None \<Rightarrow> Panic ''nil pointer dereference'' | Some q \<Rightarrow> Ok q))"

definition findDataSourceWithPvcSpec ::
  "(VolumeSnapshot list \<Rightarrow> VolumeSnapshot list) \<Rightarrow> pvc_reads \<Rightarrow> CosmosFullNode \<Rightarrow>
   PersistentVolumeClaimSpec \<Rightarrow> int \<Rightarrow> dataSource option exec" where
  "findDataSourceWithPvcSpec vsrt rd crd pvcSpec ordinal =
     (case vct_DataSource pvcSpec of
        Some ds \<Rightarrow>
          if tr_Kind ds = ''VolumeSnapshot'' \<and> tr_APIGroup ds = Some ''snapshot.storage.k8s.io''
          then (case pr_getSnapshot rd ordinal (tr_Name ds) of
                  Inl err \<Rightarrow> Ok None
                | Inr vs \<Rightarrow> exec_bind (restoreSize vs) (\<lambda>q. Ok (Some \<lparr>ds_ref = Some ds, ds_size = q\<rparr>)))
          else if tr_Kind ds = ''PersistentVolumeClaim'' \<and> (tr_APIGroup ds = None \<or> tr_APIGroup ds = Some [])
          then (case pr_getPVC rd ordinal (tr_Name ds) of
                  Inl err \<Rightarrow> Ok None
                | Inr pvc \<Rightarrow> Ok (Some \<lparr>ds_ref = Some ds, ds_size = quantity_get (pvc_Capacity (ob_Body pvc)) ''storage''\<rparr>))
          else Ok None
      | None \<Rightarrow>
          (case vct_AutoDataSource pvcSpec of
             None \<Rightarrow> Ok None
           | Some spec \<Rightarrow>
               (let selector = ads_VolumeSnapshotSelector spec
                in if length selector = 0 then Ok None
                   else
                     let selector = (if ads_MatchInstance spec
                           then AList.update InstanceLabel (instanceName crd ordinal) selector else selector)
                     in case RecentVolumeSnapshot vsrt (pr_listSnapshots rd ordinal selector) of
                          Inl err \<Rightarrow> Ok None
                        | Inr found \<Rightarrow>
                            exec_bind (restoreSize found) (\<lambda>q. Ok (Some
                              \<lparr>ds_ref = Some \<lparr>tr_APIGroup = Some ''snapshot.storage.k8s.io'', tr_Kind = ''VolumeSnapshot'',
                                 tr_Name = GetName found\<rparr>, ds_size = q\<rparr>)))))"

definition findDataSource ::
  "(VolumeSnapshot list \<Rightarrow> VolumeSnapshot list) \<Rightarrow> pvc_reads \<Rightarrow> CosmosFullNode \<Rightarrow> int \<Rightarrow> dataSource option exec" where
  "findDataSource vsrt rd crd ordinal = findDataSourceWithPvcSpec vsrt rd crd (pvcTemplate crd ordinal) ordinal"

text \<open>The entry of one ordinal in the map of data sources, if any.\<close>

definition dataSourceFor ::
  "(VolumeSnapshot list \<Rightarrow> VolumeSnapshot list) \<Rightarrow> pvc_reads \<Rightarrow> CosmosFullNode \<Rightarrow> PVC list \<Rightarrow> int \<Rightarrow>
   (int \<times> dataSource) option exec" where
  "dataSourceFor vsrt rd crd currentPVCs i =
     exec_bind (findDataSource vsrt rd crd i) (\<lambda>desired.
       case find (\<lambda>pvc. GetName pvc = pvcName crd i) currentPVCs of
         Some existing \<Rightarrow>
           (case desired of
              None \<Rightarrow> Ok None
            | Some d \<Rightarrow> if \<not> dataSourceEqual (pvc_DataSource (ob_Body existing)) (ds_ref d) then Ok (Some (i, d)) else Ok None)
       | None \<Rightarrow>
           Ok (Some (i, case desired of Some d \<Rightarrow> d
              | None \<Rightarrow> \<lparr>ds_ref = None, ds_size = requests_get (vct_Resources (sp_VolumeClaimTemplate (fn_Spec crd))) ResourceStorage\<rparr>)))"

definition findDataSources ::
  "(VolumeSnapshot list \<Rightarrow> VolumeSnapshot list) \<Rightarrow> pvc_reads \<Rightarrow> CosmosFullNode \<Rightarrow> PVC list \<Rightarrow> (int \<times> dataSource) list exec" where
  "findDataSources vsrt rd crd currentPVCs =
     exec_collect (dataSourceFor vsrt rd crd currentPVCs) (ordinals (sp_Replicas (fn_Spec crd)))"

subsection \<open>The loops\<close>

type_synonym pvc_state = "PVCBody history \<times> string list"

definition create_pvc_step ::
  "PVCBody server \<Rightarrow> PVCBody setref \<Rightarrow> PVC \<Rightarrow> pvc_state \<Rightarrow> ReconcileError option \<times> pvc_state" where
  "create_pvc_step srv setRef pvc st =
     (case create_step srv setRef (named ''pvc'') (\<lambda>n. ''create '' @ named ''pvc'' n) pvc (fst st) of
        (Some e, h) \<Rightarrow> (Some e, (h, snd st))
      | (None, h) \<Rightarrow> (None, (h, snd st @ [GetName pvc])))"

text \<open>Whether a claim has to wait: a pod of the full node is terminating, or mounts it.\<close>

fun pvcInUse :: "Pod list \<Rightarrow> PVC \<Rightarrow> bool" where
  "pvcInUse [] pvc = False"
| "pvcInUse (pod # pods) pvc =
     (if om_DeletionTimestamp (ob_Meta pod) \<noteq> None then True
      else if list_ex (\<lambda>vol. claimName (vol_Source vol) = Some (GetName pvc)) (ps_Volumes (pod_Spec pod)) then True
      else pvcInUse pods pvc)"

text \<open>The error of a delete step is \<open>None\<close> where the loop returns to requeue without an error.\<close>

definition delete_pvc_step ::
  "PVCBody server \<Rightarrow> Pod list \<Rightarrow> PVC \<Rightarrow> pvc_state \<Rightarrow> ReconcileError option option \<times> pvc_state" where
  "delete_pvc_step srv pods pvc st =
     (if pvcInUse pods pvc then (Some None, st)
      else case send srv (Delete pvc) (fst st) of
             (err, h) \<Rightarrow>
               (case IgnoreNotFound err of
                  Some e \<Rightarrow> (Some (Some (TransientError (wrap (''delete '' @ named ''pvc'' (GetName pvc) @ '': '') e))), (h, snd st))
                | None \<Rightarrow> (None, (h, snd st @ [GetName pvc]))))"

definition sizePatch :: "PVC \<Rightarrow> PVC" where
  "sizePatch pvc = pvc\<lparr>ob_Body := emptyPVCBody\<lparr>pvc_Resources := pvc_Resources (ob_Body pvc)\<rparr>\<rparr>"

text \<open>A failing patch is reported and skipped.\<close>

definition patch_all :: "PVCBody server \<Rightarrow> PVC list \<Rightarrow> PVCBody history \<Rightarrow> PVCBody history" where
  "patch_all srv pvcs h = foldl (\<lambda>h pvc. snd (send srv (Patch (sizePatch pvc)) h)) h pvcs"

definition reconcileDiffed ::
  "PVCBody server \<Rightarrow> PVCBody setref \<Rightarrow> pvc_reads \<Rightarrow> CosmosFullNode \<Rightarrow> PVC list \<Rightarrow> PVCBody Diff \<Rightarrow> pvc_state \<Rightarrow>
   (bool \<times> ReconcileError option) \<times> pvc_state" where
  "reconcileDiffed srv setRef rd crd currentPVCs diffed st =
     (case each (create_pvc_step srv setRef) (df_creates diffed) st of
        (Some e, st1) \<Rightarrow> ((True, Some e), st1)
      | (None, st1) \<Rightarrow>
          (case (if shouldRetain crd then Inr (0, st1)
                 else case pr_listPods rd of
                        Inl err \<Rightarrow> Inl ((False, Some (TransientError (wrap ''list existing pods: '' err))), st1)
                      | Inr pods \<Rightarrow>
                          (case each (delete_pvc_step srv pods) (df_deletes diffed) st1 of
                             (Some e, st2) \<Rightarrow> Inl ((True, e), st2)
                           | (None, st2) \<Rightarrow> Inr (length (df_deletes diffed), st2))) of
             Inl res \<Rightarrow> res
           | Inr (deletes, st2) \<Rightarrow>
               if deletes + length (df_creates diffed) > 0 then ((True, None), st2)
               else if length (df_updates diffed) = 0 then ((False, None), st2)
               else if list_ex (\<lambda>pvc. pvc_Phase (ob_Body pvc) \<noteq> ClaimBound) currentPVCs then ((True, None), st2)
               else ((False, None), (patch_all srv (df_updates diffed) (fst st2), snd st2))))"

definition PVCControl_Reconcile ::
  "PVCBody server \<Rightarrow> PVCBody setref \<Rightarrow> (PVCBody Resource list \<Rightarrow> PVCBody Resource list) \<Rightarrow>
   (VolumeSnapshot list \<Rightarrow> VolumeSnapshot list) \<Rightarrow> PVCBody marshaler \<Rightarrow> pvc_reads \<Rightarrow> CosmosFullNode \<Rightarrow> pvc_state \<Rightarrow>
   ((bool \<times> ReconcileError option) \<times> pvc_state) exec" where
  "PVCControl_Reconcile srv setRef srt vsrt marshal rd crd st =
     (case pr_listPVCs rd of
        Inl err \<Rightarrow> Ok ((False, Some (TransientError (wrap ''list existing pvcs: '' err))), st)
      | Inr currentPVCs \<Rightarrow>
          exec_bind (findDataSources vsrt rd crd currentPVCs) (\<lambda>dataSources.
          exec_bind (BuildPVCs marshal crd dataSources currentPVCs) (\<lambda>wantPVCs.
          exec_bind (Diff_New srt currentPVCs wantPVCs) (\<lambda>diffed.
            Ok (reconcileDiffed srv setRef rd crd currentPVCs diffed st)))))"

subsection \<open>Lemmas\<close>

lemma dataSourceEqual_iff: "dataSourceEqual a b \<longleftrightarrow> a = b"
  by (cases a; cases b) (auto simp: dataSourceEqual_def split: option.splits)

lemma pvcInUse_iff:
  "pvcInUse pods pvc \<longleftrightarrow> (\<exists>pod \<in> set pods. om_DeletionTimestamp (ob_Meta pod) \<noteq> None \<or>
     (\<exists>vol \<in> set (ps_Volumes (pod_Spec pod)). claimName (vol_Source vol) = Some (GetName pvc)))"
  by (induction pods) (auto simp: list_ex_iff)

text \<open>A loop whose steps only append calls with a property only appends such calls.\<close>

lemma each_appends_state:
  assumes "\<And>x st. x \<in> set xs \<Longrightarrow> \<exists>cs. fst (snd (step x st)) = fst st @ cs \<and> list_all P cs"
  shows "\<exists>cs. fst (snd (each step xs st)) = fst st @ cs \<and> list_all P cs"
  using assms
proof (induction xs arbitrary: st)
  case Nil
  then show ?case by simp
next
  case (Cons x xs)
  obtain cs where cs: "fst (snd (step x st)) = fst st @ cs" "list_all P cs" using Cons.prems [of x st] by auto
  obtain r st' where r: "step x st = (r, st')" by (cases "step x st")
  show ?case
  proof (cases r)
    case None
    obtain cs' where "fst (snd (each step xs st')) = fst st' @ cs'" "list_all P cs'"
      using Cons.IH [of st'] Cons.prems by auto
    with None r cs show ?thesis by (intro exI [of _ "cs @ cs'"]) simp
  next
    case (Some e)
    with r cs show ?thesis by auto
  qed
qed

lemma create_pvc_appends:
  "\<exists>cs. fst (snd (create_pvc_step srv setRef pvc st)) = fst st @ cs \<and> list_all (\<lambda>c. \<exists>ob. c = Create ob) cs"
  by (auto simp: create_pvc_step_def create_step_def send_def split: sum.splits option.splits if_splits prod.splits)

lemma delete_pvc_appends:
  "\<exists>cs. fst (snd (delete_pvc_step srv pods pvc st)) = fst st @ cs \<and>
     list_all (\<lambda>c. c = Delete pvc \<and> \<not> pvcInUse pods pvc) cs"
  by (auto simp: delete_pvc_step_def send_def split: option.splits prod.splits)

lemma patch_all_appends: "patch_all srv pvcs h = h @ map (\<lambda>p. Patch (sizePatch p)) pvcs"
  unfolding patch_all_def by (induction pvcs arbitrary: h) (simp_all add: send_def)

text \<open>Every call of the control, and when it may be sent.\<close>

definition pvc_call_ok :: "pvc_reads \<Rightarrow> CosmosFullNode \<Rightarrow> PVC list \<Rightarrow> PVCBody Diff \<Rightarrow> PVCBody call \<Rightarrow> bool" where
  "pvc_call_ok rd crd current d c \<longleftrightarrow>
     (\<exists>ob. c = Create ob) \<and> df_creates d \<noteq> [] \<or>
     (\<exists>pvc pods. c = Delete pvc \<and> pvc \<in> set (df_deletes d) \<and> \<not> shouldRetain crd \<and>
        pr_listPods rd = Inr pods \<and> \<not> pvcInUse pods pvc) \<or>
     (\<exists>pvc \<in> set (df_updates d). c = Patch (sizePatch pvc) \<and> df_creates d = [] \<and>
        (shouldRetain crd \<or> df_deletes d = []) \<and> list_all (\<lambda>p. pvc_Phase (ob_Body p) = ClaimBound) current)"

lemma reconcileDiffed_calls:
  "\<exists>cs. fst (snd (reconcileDiffed srv setRef rd crd current d st)) = fst st @ cs \<and>
     list_all (pvc_call_ok rd crd current d) cs"
proof -
  obtain r1 st1 where c1: "each (create_pvc_step srv setRef) (df_creates d) st = (r1, st1)"
    by (cases "each (create_pvc_step srv setRef) (df_creates d) st")
  obtain cs1 where cs1: "fst st1 = fst st @ cs1" "list_all (pvc_call_ok rd crd current d) cs1"
  proof -
    have "\<exists>cs. fst (snd (each (create_pvc_step srv setRef) (df_creates d) st)) = fst st @ cs \<and> list_all (pvc_call_ok rd crd current d) cs"
    proof (rule each_appends_state)
      fix x and s :: pvc_state assume x: "x \<in> set (df_creates d)"
      then have "df_creates d \<noteq> []" by auto
      with create_pvc_appends [of srv setRef x s]
      show "\<exists>cs. fst (snd (create_pvc_step srv setRef x s)) = fst s @ cs \<and> list_all (pvc_call_ok rd crd current d) cs"
        by (auto simp: list_all_iff pvc_call_ok_def)
    qed
    with c1 that show thesis by auto
  qed
  have del: "\<exists>cs. fst (snd (each (delete_pvc_step srv pods) (df_deletes d) st1)) = fst st1 @ cs \<and>
      list_all (pvc_call_ok rd crd current d) cs" if "pr_listPods rd = Inr pods" "\<not> shouldRetain crd" for pods
  proof (rule each_appends_state)
    fix x and s :: pvc_state assume x: "x \<in> set (df_deletes d)"
    obtain cs where "fst (snd (delete_pvc_step srv pods x s)) = fst s @ cs"
        "list_all (\<lambda>c. c = Delete x \<and> \<not> pvcInUse pods x) cs" using delete_pvc_appends by blast
    with x that show "\<exists>cs. fst (snd (delete_pvc_step srv pods x s)) = fst s @ cs \<and> list_all (pvc_call_ok rd crd current d) cs"
      by (intro exI [of _ cs]) (auto simp: list_all_iff pvc_call_ok_def)
  qed
  have pat: "list_all (pvc_call_ok rd crd current d) (map (\<lambda>p. Patch (sizePatch p)) (df_updates d))"
    if "df_creates d = []" "shouldRetain crd \<or> df_deletes d = []" "\<not> list_ex (\<lambda>p. pvc_Phase (ob_Body p) \<noteq> ClaimBound) current"
    using that by (auto simp: list_all_iff list_ex_iff pvc_call_ok_def)
  show ?thesis
  proof (cases "r1 = None \<and> \<not> shouldRetain crd \<and> (\<exists>pods. pr_listPods rd = Inr pods)")
    case True
    then obtain pods where p: "pr_listPods rd = Inr pods" by blast
    obtain r2 st2 where c2: "each (delete_pvc_step srv pods) (df_deletes d) st1 = (r2, st2)"
      by (cases "each (delete_pvc_step srv pods) (df_deletes d) st1")
    with del [OF p] True obtain cs2 where cs2: "fst st2 = fst st1 @ cs2" "list_all (pvc_call_ok rd crd current d) cs2" by auto
    show ?thesis using True p c1 c2 cs1 cs2 pat
      by (cases r2) (auto simp: reconcileDiffed_def patch_all_appends)
  next
    case False
    with c1 cs1 pat show ?thesis
      by (cases r1; cases "pr_listPods rd") (auto simp: reconcileDiffed_def patch_all_appends)
  qed
qed


lemma PVCControl_calls:
  assumes "PVCControl_Reconcile srv setRef srt vsrt marshal rd crd st = Ok (res, st')"
    and "pr_listPVCs rd = Inr current"
  shows "\<exists>ds want d cs. findDataSources vsrt rd crd current = Ok ds \<and> BuildPVCs marshal crd ds current = Ok want \<and> Diff_New srt current want = Ok d \<and>
    fst st' = fst st @ cs \<and> list_all (pvc_call_ok rd crd current d) cs"
proof -
  obtain ds want d where "findDataSources vsrt rd crd current = Ok ds" "BuildPVCs marshal crd ds current = Ok want" "Diff_New srt current want = Ok d"
      "reconcileDiffed srv setRef rd crd current d st = (res, st')"
    using assms by (auto simp: PVCControl_Reconcile_def)
  with reconcileDiffed_calls [of srv setRef rd crd current d st] show ?thesis by auto
qed

text \<open>Without deletes of wanted claims: a claim in the list of deletes is an existing one nobody wants.\<close>

lemma deleted_unwanted:
  assumes srt: "ordering_of srt rs_Ordinal" and D: "Diff_New srt current want = Ok d" and B: "BuildPVCs marshal crd ds current = Ok want"
    and p: "pvc \<in> set (df_deletes d)"
  shows "ObjectKeyFromObject pvc \<in> ObjectKeyFromObject ` set current \<and>
    (\<forall>i. 0 \<le> i \<longrightarrow> i < sp_Replicas (fn_Spec crd) \<longrightarrow> \<not> pvcDisabled crd i \<longrightarrow>
       ObjectKeyFromObject pvc \<noteq> ObjectKey (fn_Namespace crd) (pvcName crd i))"
proof -
  obtain c where c: "c \<in> set current" "pvc = stamp (currentAdapter c)" "ObjectKeyFromObject c \<notin> rs_key ` set want"
    using p diff_order.deletes_iff [OF diff_order.intro [OF srt] D] by blast
  have "rs_key ` set want = (\<lambda>i. ObjectKey (fn_Namespace crd) (pvcName crd i)) `
      set (filter (\<lambda>i. \<not> pvcDisabled crd i) (ordinals (sp_Replicas (fn_Spec crd))))"
    using BuildPVCs_keys [OF B] by (metis list.set_map)
  with c show ?thesis by auto
qed

text \<open>A size patch names an existing claim, and carries the resources that are wanted for it and nothing else.\<close>

lemma sizePatch_wanted:
  assumes srt: "ordering_of srt rs_Ordinal" and D: "Diff_New srt current want = Ok d" and p: "pvc \<in> set (df_updates d)"
  shows "ObjectKeyFromObject (sizePatch pvc) \<in> ObjectKeyFromObject ` set current \<and>
    (\<exists>r \<in> set want. rs_key r = ObjectKeyFromObject (sizePatch pvc) \<and>
       ob_Body (sizePatch pvc) = emptyPVCBody\<lparr>pvc_Resources := pvc_Resources (ob_Body (rs_Object r))\<rparr>)"
proof -
  obtain c r where cr: "c \<in> set current" "r \<in> set want" "rs_key r = ObjectKeyFromObject c"
      "pvc = stamp (carryOver (currentAdapter c) r)"
    using p diff_order.updates_iff [OF diff_order.intro [OF srt] D] by blast
  have "ObjectKeyFromObject (sizePatch pvc) = ObjectKeyFromObject pvc" by (simp add: sizePatch_def object_defs)
  moreover have "ObjectKeyFromObject pvc = rs_key r" "ob_Body pvc = ob_Body (rs_Object r)"
    using cr(4) by simp_all
  ultimately show ?thesis using cr(1-3) by (intro conjI bexI [of _ r]) (auto simp: sizePatch_def)
qed

subsection \<open>Properties\<close>

text \<open>C13: The volume control never destroys a volume that is wanted, retained or in use, whatever the
  API server answers. Every delete it sends is of an existing claim that belongs to no enabled
  ordinal, under a policy other than \<open>Retain\<close>, at a moment when no listed pod of the full node is
  terminating or mounts the claim. A patch is only sent when every claim is bound and the
  reconcile created and deleted nothing; it names an existing claim, and of the claim that the builder wants under
  that name it carries the resources and nothing else. No claim is updated in another way.\<close>

theorem PVCControl_safe:
  assumes "ordering_of srt rs_Ordinal" and "pr_listPVCs rd = Inr current"
    and "PVCControl_Reconcile srv setRef srt vsrt marshal rd crd st = Ok (res, st')"
  shows "\<exists>cs. fst st' = fst st @ cs \<and>
    (\<forall>pvc. Delete pvc \<in> set cs \<longrightarrow> sp_RetentionPolicy (fn_Spec crd) \<noteq> Some RetentionPolicyRetain \<and>
       (\<exists>pods. pr_listPods rd = Inr pods \<and> (\<forall>pod \<in> set pods. om_DeletionTimestamp (ob_Meta pod) = None \<and>
          (\<forall>vol \<in> set (ps_Volumes (pod_Spec pod)). claimName (vol_Source vol) \<noteq> Some (GetName pvc)))) \<and>
       ObjectKeyFromObject pvc \<in> ObjectKeyFromObject ` set current \<and>
       (\<forall>i. 0 \<le> i \<longrightarrow> i < sp_Replicas (fn_Spec crd) \<longrightarrow> \<not> pvcDisabled crd i \<longrightarrow>
          ObjectKeyFromObject pvc \<noteq> ObjectKey (fn_Namespace crd) (pvcName crd i))) \<and>
    (\<forall>p. Patch p \<in> set cs \<longrightarrow> (\<forall>c \<in> set current. pvc_Phase (ob_Body c) = ClaimBound) \<and>
       (\<forall>ob. Create ob \<notin> set cs \<and> Delete ob \<notin> set cs) \<and> ObjectKeyFromObject p \<in> ObjectKeyFromObject ` set current \<and>
       (\<exists>ds want r. findDataSources vsrt rd crd current = Ok ds \<and> BuildPVCs marshal crd ds current = Ok want \<and>
          r \<in> set want \<and> rs_key r = ObjectKeyFromObject p \<and>
          ob_Body p = emptyPVCBody\<lparr>pvc_Resources := pvc_Resources (ob_Body (rs_Object r))\<rparr>)) \<and>
    (\<forall>ob. Update ob \<notin> set cs)"
proof -
  obtain ds want d cs where S: "findDataSources vsrt rd crd current = Ok ds" and B: "BuildPVCs marshal crd ds current = Ok want" and D: "Diff_New srt current want = Ok d"
    and cs: "fst st' = fst st @ cs" "\<forall>c \<in> set cs. pvc_call_ok rd crd current d c"
    using PVCControl_calls [OF assms(3,2)] unfolding list_all_iff by blast
  have retain: "shouldRetain crd \<longleftrightarrow> sp_RetentionPolicy (fn_Spec crd) = Some RetentionPolicyRetain"
    by (auto simp: shouldRetain_def split: option.splits)
  have del: "pvc \<in> set (df_deletes d) \<and> \<not> shouldRetain crd \<and> (\<exists>pods. pr_listPods rd = Inr pods \<and> \<not> pvcInUse pods pvc)"
    if "Delete pvc \<in> set cs" for pvc
    using cs(2) that by (fastforce simp: pvc_call_ok_def)
  have pat: "df_creates d = [] \<and> (shouldRetain crd \<or> df_deletes d = []) \<and> list_all (\<lambda>p. pvc_Phase (ob_Body p) = ClaimBound) current"
    if "Patch p \<in> set cs" for p
    using cs(2) that by (fastforce simp: pvc_call_ok_def)
  have con: "ObjectKeyFromObject p \<in> ObjectKeyFromObject ` set current \<and>
      (\<exists>r \<in> set want. rs_key r = ObjectKeyFromObject p \<and> ob_Body p = emptyPVCBody\<lparr>pvc_Resources := pvc_Resources (ob_Body (rs_Object r))\<rparr>)"
    if "Patch p \<in> set cs" for p
    using cs(2) that sizePatch_wanted [OF assms(1) D] by (fastforce simp: pvc_call_ok_def)
  have cre: "df_creates d \<noteq> []" if "Create ob \<in> set cs" for ob
    using cs(2) that by (fastforce simp: pvc_call_ok_def)
  have upd: "Update ob \<notin> set cs" for ob using cs(2) by (fastforce simp: pvc_call_ok_def)
  have "\<forall>pvc. Delete pvc \<in> set cs \<longrightarrow> sp_RetentionPolicy (fn_Spec crd) \<noteq> Some RetentionPolicyRetain \<and>
       (\<exists>pods. pr_listPods rd = Inr pods \<and> (\<forall>pod \<in> set pods. om_DeletionTimestamp (ob_Meta pod) = None \<and>
          (\<forall>vol \<in> set (ps_Volumes (pod_Spec pod)). claimName (vol_Source vol) \<noteq> Some (GetName pvc)))) \<and>
       ObjectKeyFromObject pvc \<in> ObjectKeyFromObject ` set current \<and>
       (\<forall>i. 0 \<le> i \<longrightarrow> i < sp_Replicas (fn_Spec crd) \<longrightarrow> \<not> pvcDisabled crd i \<longrightarrow>
          ObjectKeyFromObject pvc \<noteq> ObjectKey (fn_Namespace crd) (pvcName crd i))"
    using del deleted_unwanted [OF assms(1) D B] unfolding retain pvcInUse_iff by blast
  moreover have "\<forall>p. Patch p \<in> set cs \<longrightarrow> (\<forall>c \<in> set current. pvc_Phase (ob_Body c) = ClaimBound) \<and>
       (\<forall>ob. Create ob \<notin> set cs \<and> Delete ob \<notin> set cs)"
    using pat cre del unfolding list_all_iff by fastforce
  ultimately show ?thesis using cs(1) upd con S B by (intro exI [of _ cs]) blast
qed

definition idle_crd :: CosmosFullNode where
  "idle_crd = sample_crd\<lparr>fn_Spec := sample_spec\<lparr>sp_Replicas := 0\<rparr>\<rparr>"

definition orphan_claim :: PVC where
  "orphan_claim = \<lparr>ob_Kind = ''PersistentVolumeClaim'', ob_APIVersion = ''v1'', ob_Meta = emptyMeta\<lparr>om_Name := ''old''\<rparr>,
     ob_Body = emptyPVCBody\<rparr>"

definition orphan_reads :: pvc_reads where
  "orphan_reads = \<lparr>pr_listPVCs = Inr [orphan_claim], pr_listPods = Inr [], pr_getSnapshot = (\<lambda>_ _. Inl (errorNew [])),
     pr_getPVC = (\<lambda>_ _. Inl (errorNew [])), pr_listSnapshots = (\<lambda>_ _. Inl (errorNew []))\<rparr>"

lemma orphan_run:
  "\<exists>res st' pvc. PVCControl_Reconcile (\<lambda>h c. None) Inr (sort_key rs_Ordinal) id (\<lambda>ob. Inr []) orphan_reads idle_crd ([], []) =
     Ok (res, st') \<and> fst st' = [Delete pvc]"
  by (simp add: PVCControl_Reconcile_def orphan_reads_def findDataSources_def BuildPVCs_def idle_crd_def ordinals_def
      Diff_New_def currentToSet_def toSet_def insert_all_def computeDeletes_def computeCreates_def computeUpdates_def
      toObjects_def map_filter_simps changed_def reconcileDiffed_def shouldRetain_def sample_spec_def
      delete_pvc_step_def send_def IgnoreNotFound_def IsNotFound_def) blast

theorem PVCControl_safe_witness:
  "\<exists>res st' pvc. PVCControl_Reconcile (\<lambda>h c. None) Inr (sort_key rs_Ordinal) id (\<lambda>ob. Inr []) orphan_reads idle_crd ([], []) =
     Ok (res, st') \<and> fst st' = [Delete pvc] \<and> ObjectKeyFromObject pvc \<in> ObjectKeyFromObject ` {orphan_claim}"
proof -
  obtain res st' pvc where r: "PVCControl_Reconcile (\<lambda>h c. None) Inr (sort_key rs_Ordinal) id (\<lambda>ob. Inr []) orphan_reads idle_crd ([], []) =
      Ok (res, st')" "fst st' = [Delete pvc]" using orphan_run by blast
  have "pr_listPVCs orphan_reads = Inr [orphan_claim]" by (simp add: orphan_reads_def)
  from PVCControl_safe [OF by_ordinal.ordering_of_axioms this r(1)] r show ?thesis by auto
qed

text \<open>A change of the data source alone never recreates a claim, contrary to the comment that a
  changed data source needs the claim to be recreated: for the same sizes the wanted claims have
  the same keys and revisions whatever references they are to be restored from.\<close>

theorem dataSource_not_in_revision:
  assumes "\<forall>i. map_option ds_size (map_of ds i) = map_option ds_size (map_of ds' i)"
    and "BuildPVCs marshal crd ds current = Ok want" and "BuildPVCs marshal crd ds' current = Ok want'"
  shows "map (\<lambda>r. (rs_key r, rs_Revision r)) want = map (\<lambda>r. (rs_key r, rs_Revision r)) want'"
proof -
  let ?os = "ordinals (sp_Replicas (fn_Spec crd))"
  obtain g where g: "\<forall>i \<in> set ?os. buildPVC marshal crd ds current i = Ok (g i)" "want = List.map_filter g ?os"
    using assms(2) unfolding BuildPVCs_def exec_collect_Ok_iff by blast
  obtain g' where g': "\<forall>i \<in> set ?os. buildPVC marshal crd ds' current i = Ok (g' i)" "want' = List.map_filter g' ?os"
    using assms(3) unfolding BuildPVCs_def exec_collect_Ok_iff by blast
  have one: "map_option (\<lambda>r. (rs_key r, rs_Revision r)) (g i) = map_option (\<lambda>r. (rs_key r, rs_Revision r)) (g' i)"
    if "i \<in> set ?os" for i
  proof -
    have e: "buildPVC marshal crd ds current i = Ok (g i)" "buildPVC marshal crd ds' current i = Ok (g' i)"
      using g(1) g'(1) that by auto
    then have none: "g i = None \<longleftrightarrow> g' i = None" using buildPVC_None by (metis exec.inject(2))
    show ?thesis
    proof (cases "g i")
      case None
      with none show ?thesis by simp
    next
      case (Some r)
      with none obtain r' where r': "g' i = Some r'" by auto
      have "rs_key r = rs_key r'" using buildPVC_Some e Some r' by metis
      moreover have "rs_Revision r = rs_Revision r'"
        using buildPVC_revision [OF assms(1) [rule_format]] e Some r' by metis
      ultimately show ?thesis using Some r' by simp
    qed
  qed
  have "map f (List.map_filter g xs) = map f (List.map_filter g' xs)"
    if "\<forall>i \<in> set xs. map_option f (g i) = map_option f (g' i)" for f :: "PVCBody Resource \<Rightarrow> ObjectKey \<times> string" and xs
    using that
  proof (induction xs)
    case Nil
    then show ?case by (simp add: map_filter_simps)
  next
    case (Cons i xs)
    then show ?case by (cases "g i"; cases "g' i") (auto simp: map_filter_simps)
  qed
  then show ?thesis using one g(2) g'(2) by blast
qed


text \<open>The sample with a template snapshot, before and after the reference changes.\<close>

definition sample_source :: "string \<Rightarrow> (int \<times> dataSource) list" where
  "sample_source n = [(0, \<lparr>ds_ref = Some \<lparr>tr_APIGroup = None, tr_Kind = ''PersistentVolumeClaim'', tr_Name = n\<rparr>,
     ds_size = \<lparr>q_Amount = 5, q_Format = []\<rparr>\<rparr>)]"

lemma buildPVC_sample: "\<exists>r. buildPVC (\<lambda>ob. Inr []) sample_crd (sample_source n) [] i = Ok r"
proof -
  obtain lbls where "defaultLabels sample_crd [] = Ok lbls" using defaultLabels_total [of "[]" sample_crd] by auto
  moreover have "\<exists>r. pvcResources sample_crd m ds q = Ok r" for m ds q
    using pvcResources_max [of sample_crd m q]
    by (cases ds) (auto simp: sample_crd_defs pvcResources_def put_request_def)
  ultimately show ?thesis
    by (auto simp: buildPVC_def Let_def Adapt_def split: prod.splits)
qed

lemma BuildPVCs_sample: "\<exists>want. BuildPVCs (\<lambda>ob. Inr []) sample_crd (sample_source n) [] = Ok want"
proof -
  obtain g where g: "buildPVC (\<lambda>ob. Inr []) sample_crd (sample_source n) [] i = Ok (g i)" for i
    using buildPVC_sample [of n] by metis
  show ?thesis unfolding BuildPVCs_def
    by (rule exI) (rule exec_collect_Ok [where g = g], simp add: g)
qed

theorem dataSource_not_in_revision_witness:
  "\<exists>want want'. BuildPVCs (\<lambda>ob. Inr []) sample_crd (sample_source ''a'') [] = Ok want \<and>
     BuildPVCs (\<lambda>ob. Inr []) sample_crd (sample_source ''b'') [] = Ok want' \<and>
     map (\<lambda>r. (rs_key r, rs_Revision r)) want = map (\<lambda>r. (rs_key r, rs_Revision r)) want'"
proof -
  obtain want want' where "BuildPVCs (\<lambda>ob. Inr []) sample_crd (sample_source ''a'') [] = Ok want"
      "BuildPVCs (\<lambda>ob. Inr []) sample_crd (sample_source ''b'') [] = Ok want'"
    using BuildPVCs_sample by metis
  moreover have "\<forall>i. map_option ds_size (map_of (sample_source ''a'') i) = map_option ds_size (map_of (sample_source ''b'') i)"
    by (simp add: sample_source_def)
  ultimately show ?thesis using dataSource_not_in_revision by blast
qed

end
