(* ===== verification/Comet_Status.thy ===== *)
theory Comet_Status
  imports Kube_Objects
begin

text \<open>
  \<^verbatim>\<open>internal/cosmos\<close>, the sequential part: the status endpoint of a node
  (\<^verbatim>\<open>comet_client.go\<close>), the collection of the statuses of all pods (\<^verbatim>\<open>status_collection.go\<close>) and
  the collector that asks every pod (\<^verbatim>\<open>status_collector.go\<close>). HTTP, URLs and JSON decoding are
  parameters. The goroutines of the collector write each to an element of its own, so that the
  result does not depend on how they interleave.

  A collection is a Go slice. \<open>IntersectPods\<close> and \<open>UpsertPod\<close> work in place on the array behind it,
  which the cache shares; a \<open>slice\<close> is therefore the shared array, the items the caller sees, and
  whether the two still share memory.
\<close>

subsection \<open>The status endpoint\<close>

record ValidatorInfo =
  vi_Address :: string
  vi_PubKeyType :: string
  vi_PubKeyValue :: string
  vi_VotingPower :: string

record NodeInfo =
  ni_ProtocolP2P :: string
  ni_ProtocolBlock :: string
  ni_ProtocolApp :: string
  ni_ID :: string
  ni_ListenAddr :: string
  ni_Network :: string
  ni_Version :: string
  ni_Channels :: string
  ni_Moniker :: string
  ni_TxIndex :: string
  ni_RPCAddress :: string

record SyncInfo =
  sy_LatestBlockHash :: string
  sy_LatestAppHash :: string
  sy_LatestBlockHeight :: string
  sy_LatestBlockTime :: time
  sy_EarliestBlockHash :: string
  sy_EarliestAppHash :: string
  sy_EarliestBlockHeight :: string
  sy_EarliestBlockTime :: time
  sy_CatchingUp :: bool

record rpcCometStatusResponse =
  rr_JSONRPC :: string
  rr_ID :: int
  rr_Result_NodeInfo :: "NodeInfo option"
  rr_Result_SyncInfo :: "SyncInfo option"
  rr_Result_ValidatorInfo :: "ValidatorInfo option"
  rr_NodeInfo :: "NodeInfo option"
  rr_SyncInfo :: "SyncInfo option"
  rr_ValidatorInfo :: "ValidatorInfo option"

record CometStatus =
  cs_JSONRPC :: string
  cs_ID :: int
  cs_NodeInfo :: NodeInfo
  cs_SyncInfo :: SyncInfo
  cs_ValidatorInfo :: ValidatorInfo

definition emptyValidatorInfo :: ValidatorInfo where
  "emptyValidatorInfo = \<lparr>vi_Address = [], vi_PubKeyType = [], vi_PubKeyValue = [], vi_VotingPower = []\<rparr>"

definition emptyNodeInfo :: NodeInfo where
  "emptyNodeInfo = \<lparr>ni_ProtocolP2P = [], ni_ProtocolBlock = [], ni_ProtocolApp = [], ni_ID = [], ni_ListenAddr = [],
     ni_Network = [], ni_Version = [], ni_Channels = [], ni_Moniker = [], ni_TxIndex = [], ni_RPCAddress = []\<rparr>"

definition emptySyncInfo :: SyncInfo where
  "emptySyncInfo = \<lparr>sy_LatestBlockHash = [], sy_LatestAppHash = [], sy_LatestBlockHeight = [], sy_LatestBlockTime = zeroTime,
     sy_EarliestBlockHash = [], sy_EarliestAppHash = [], sy_EarliestBlockHeight = [], sy_EarliestBlockTime = zeroTime,
     sy_CatchingUp = False\<rparr>"

definition emptyStatus :: CometStatus where
  "emptyStatus = \<lparr>cs_JSONRPC = [], cs_ID = 0, cs_NodeInfo = emptyNodeInfo, cs_SyncInfo = emptySyncInfo,
     cs_ValidatorInfo = emptyValidatorInfo\<rparr>"

definition LatestBlockHeight :: "CometStatus \<Rightarrow> 64 word" where
  "LatestBlockHeight status = fst (ParseUint (sy_LatestBlockHeight (cs_SyncInfo status)))"

record http_response =
  hr_StatusCode :: int
  hr_Status :: string
  hr_Body :: string

record 'u http_lib =
  hl_ParseRequestURI :: "string \<Rightarrow> goerror + 'u"
  hl_setPath :: "'u \<Rightarrow> string \<Rightarrow> 'u"
  hl_String :: "'u \<Rightarrow> string"
  hl_NewRequest :: "string \<Rightarrow> string \<Rightarrow> goerror + string"
  hl_Do :: "string \<Rightarrow> goerror + http_response"
  hl_Decode :: "string \<Rightarrow> goerror + rpcCometStatusResponse"

text \<open>Dereferencing the pointers of a response panics where one is nil.\<close>

definition status_of ::
  "ValidatorInfo option \<Rightarrow> SyncInfo option \<Rightarrow> NodeInfo option \<Rightarrow> CometStatus exec" where
  "status_of v s n =
     (case (v, s, n) of
        (Some v, Some s, Some n) \<Rightarrow> Ok (emptyStatus\<lparr>cs_ValidatorInfo := v, cs_SyncInfo := s, cs_NodeInfo := n\<rparr>)
      | _ \<Rightarrow> Panic ''invalid memory address or nil pointer dereference'')"

definition CometClient_Status :: "'u http_lib \<Rightarrow> string \<Rightarrow> (goerror + CometStatus) exec" where
  "CometClient_Status lib rpcHost =
     (case hl_ParseRequestURI lib rpcHost of
        Inl err \<Rightarrow> Ok (Inl (wrap ''malformed host: '' err))
      | Inr u \<Rightarrow>
          (case hl_NewRequest lib ''GET'' (hl_String lib (hl_setPath lib u ''status'')) of
             Inl err \<Rightarrow> Ok (Inl (wrap ''malformed request: '' err))
           | Inr req \<Rightarrow>
               (case hl_Do lib req of
                  Inl err \<Rightarrow> Ok (Inl err)
                | Inr resp \<Rightarrow>
                    if hr_StatusCode resp \<noteq> 200 then Ok (Inl (errorNew (hr_Status resp)))
                    else (case hl_Decode lib (hr_Body resp) of
                            Inl err \<Rightarrow> Ok (Inl (wrap ''malformed json: '' err))
                          | Inr r \<Rightarrow>
                              exec_bind (if rr_ValidatorInfo r \<noteq> None
                                         then status_of (rr_ValidatorInfo r) (rr_SyncInfo r) (rr_NodeInfo r)
                                         else status_of (rr_Result_ValidatorInfo r) (rr_Result_SyncInfo r) (rr_Result_NodeInfo r))
                                (\<lambda>st. Ok (Inr st))))))"

subsection \<open>Collections\<close>

record StatusItem =
  it_Pod :: Pod
  it_Status :: CometStatus
  it_TS :: time
  it_Err :: "goerror option"

type_synonym StatusCollection = "StatusItem list"

abbreviation pod_UID :: "Pod \<Rightarrow> string" where "pod_UID pod \<equiv> om_UID (ob_Meta pod)"
abbreviation item_UID :: "StatusItem \<Rightarrow> string" where "item_UID it \<equiv> pod_UID (it_Pod it)"

text \<open>The key of \<open>Less\<close>: the ordinal annotation, 0 where it is no number.\<close>

definition item_ordinal :: "StatusItem \<Rightarrow> int" where
  "item_ordinal it = fst (ParseInt (label_get (om_Annotations (ob_Meta (it_Pod it))) OrdinalAnnotation))"

definition Less :: "StatusItem \<Rightarrow> StatusItem \<Rightarrow> bool" where
  "Less lhs rhs \<longleftrightarrow> item_ordinal lhs < item_ordinal rhs"

record slice =
  sl_array :: StatusCollection
  sl_items :: StatusCollection
  sl_shared :: bool

text \<open>A nil collection becomes a new, empty one. The kept items move to the front of the array.\<close>

definition IntersectPods :: "StatusCollection option \<Rightarrow> Pod list \<Rightarrow> slice" where
  "IntersectPods coll pods =
     (case coll of
        None \<Rightarrow> \<lparr>sl_array = [], sl_items = [], sl_shared = False\<rparr>
      | Some items \<Rightarrow>
          let kept = filter (\<lambda>it. item_UID it \<in> set (map pod_UID pods)) items
          in \<lparr>sl_array = kept @ drop (length kept) items, sl_items = kept, sl_shared = True\<rparr>)"

fun index_of :: "('a \<Rightarrow> bool) \<Rightarrow> 'a list \<Rightarrow> nat option" where
  "index_of p [] = None"
| "index_of p (x # xs) = (if p x then Some 0 else map_option Suc (index_of p xs))"

text \<open>
  \<open>append\<close> writes into the array behind the slice while there is room; the arrays of the cache
  have no room beyond their length, so that an append past it moves the items to a new array.
\<close>

definition UpsertPod :: "time \<Rightarrow> Pod \<Rightarrow> slice \<Rightarrow> slice" where
  "UpsertPod now pod sl =
     (case index_of (\<lambda>p. item_UID p = pod_UID pod) (sl_items sl) of
        Some i \<Rightarrow>
          let item = (sl_items sl ! i)\<lparr>it_Pod := pod\<rparr>
          in sl\<lparr>sl_items := (sl_items sl)[i := item],
                sl_array := (if sl_shared sl then (sl_array sl)[i := item] else sl_array sl)\<rparr>
      | None \<Rightarrow>
          let item = \<lparr>it_Pod = pod, it_Status = emptyStatus, it_TS = now, it_Err = Some (errorNew ''missing status'')\<rparr>;
              room = (sl_shared sl \<and> length (sl_items sl) < length (sl_array sl))
          in sl\<lparr>sl_items := sl_items sl @ [item],
                sl_array := (if room then (sl_array sl)[length (sl_items sl) := item] else sl_array sl),
                sl_shared := room\<rparr>)"

definition Pods :: "StatusCollection \<Rightarrow> Pod list" where "Pods coll = map it_Pod coll"

definition Synced :: "StatusCollection \<Rightarrow> StatusCollection" where
  "Synced coll = filter (\<lambda>it. it_Err it = None \<and> \<not> sy_CatchingUp (cs_SyncInfo (it_Status it))) coll"

definition SyncedPods :: "StatusCollection \<Rightarrow> Pod list" where "SyncedPods coll = map it_Pod (Synced coll)"

subsection \<open>The collector\<close>

text \<open>The interface \<open>Statuser\<close>, for a host; its implementation is \<open>CometClient_Status\<close>, which can panic. A panic of one
  goroutine ends the process, so that the collection panics.\<close>

type_synonym statuser = "string \<Rightarrow> (goerror + CometStatus) exec"

definition collect_item :: "statuser \<Rightarrow> time \<Rightarrow> Pod \<Rightarrow> StatusItem exec" where
  "collect_item comet now pod =
     (let it = \<lparr>it_Pod = pod, it_Status = emptyStatus, it_TS = now, it_Err = None\<rparr>;
          ip = pst_PodIP (pod_Status pod)
      in if ip = [] then Ok (it\<lparr>it_Err := Some (errorNew ''pod has no IP'')\<rparr>)
         else exec_bind (comet (''http://'' @ ip @ '':26657'')) (\<lambda>r.
                Ok (case r of
                      Inl err \<Rightarrow> it\<lparr>it_Err := Some err\<rparr>
                    | Inr resp \<Rightarrow> it\<lparr>it_Status := resp\<rparr>)))"

definition StatusCollector_Collect ::
  "(StatusCollection \<Rightarrow> StatusCollection) \<Rightarrow> statuser \<Rightarrow> time \<Rightarrow> Pod list \<Rightarrow> StatusCollection exec" where
  "StatusCollector_Collect srt comet now pods =
     exec_bind (exec_collect (\<lambda>pod. exec_bind (collect_item comet now pod) (\<lambda>it. Ok (Some it))) pods) (\<lambda>statuses. Ok (srt statuses))"

subsection \<open>Lemmas\<close>

lemma index_of_Some: "index_of p xs = Some i \<Longrightarrow> i < length xs \<and> p (xs ! i)"
  by (induction xs arbitrary: i) (auto split: if_splits)

lemma index_of_None: "index_of p xs = None \<longleftrightarrow> (\<forall>x \<in> set xs. \<not> p x)"
  by (induction xs) (auto split: if_splits)

text \<open>What a collection says of an item: the status it had, or that its status is missing.\<close>

definition status_kept :: "StatusCollection \<Rightarrow> time \<Rightarrow> StatusItem \<Rightarrow> bool" where
  "status_kept kept now it \<longleftrightarrow>
     (\<exists>c \<in> set kept. item_UID c = item_UID it \<and> it = c\<lparr>it_Pod := it_Pod it\<rparr>) \<or>
     (item_UID it \<notin> item_UID ` set kept \<and>
        it = \<lparr>it_Pod = it_Pod it, it_Status = emptyStatus, it_TS = now, it_Err = Some (errorNew ''missing status'')\<rparr>)"

definition upserted :: "StatusCollection \<Rightarrow> time \<Rightarrow> Pod list \<Rightarrow> StatusCollection \<Rightarrow> bool" where
  "upserted kept now ps items \<longleftrightarrow> distinct (map item_UID items) \<and>
     item_UID ` set items = item_UID ` set kept \<union> pod_UID ` set ps \<and>
     (\<forall>it \<in> set items. item_UID it \<in> pod_UID ` set ps \<longrightarrow> it_Pod it \<in> set ps) \<and>
     (\<forall>it \<in> set items. status_kept kept now it)"

lemma UpsertPod_upserted:
  assumes u: "upserted kept now ps (sl_items sl)" and new: "pod_UID pod \<notin> pod_UID ` set ps"
  shows "upserted kept now (ps @ [pod]) (sl_items (UpsertPod now pod sl))"
proof (cases "index_of (\<lambda>p. item_UID p = pod_UID pod) (sl_items sl)")
  case None
  let ?it = "\<lparr>it_Pod = pod, it_Status = emptyStatus, it_TS = now, it_Err = Some (errorNew ''missing status'')\<rparr>"
  have items: "sl_items (UpsertPod now pod sl) = sl_items sl @ [?it]" using None by (simp add: UpsertPod_def Let_def)
  have n: "\<forall>it \<in> set (sl_items sl). item_UID it \<noteq> pod_UID pod" using None by (simp add: index_of_None)
  then have "pod_UID pod \<notin> item_UID ` set (sl_items sl)" by auto
  then have k: "pod_UID pod \<notin> item_UID ` set kept" using u unfolding upserted_def by blast
  then have "status_kept kept now ?it" by (simp add: status_kept_def)
  with u n k new show ?thesis unfolding items upserted_def by auto
next
  case (Some i)
  let ?it = "(sl_items sl ! i)\<lparr>it_Pod := pod\<rparr>"
  have i: "i < length (sl_items sl)" "item_UID (sl_items sl ! i) = pod_UID pod" using index_of_Some [OF Some] by auto
  have items: "sl_items (UpsertPod now pod sl) = (sl_items sl)[i := ?it]" using Some by (simp add: UpsertPod_def Let_def)
  have ids: "map item_UID ((sl_items sl)[i := ?it]) = map item_UID (sl_items sl)"
    using i by (metis (no_types, lifting) StatusItem.select_convs(1) StatusItem.surjective StatusItem.update_convs(1)
        list_update_id map_update nth_map)
  have d: "distinct (map item_UID ((sl_items sl)[i := ?it]))" unfolding ids using u by (simp add: upserted_def)
  have s: "item_UID ` set ((sl_items sl)[i := ?it]) = item_UID ` set (sl_items sl)" using ids by (metis list.set_map)
  have p: "pod_UID pod \<in> item_UID ` set (sl_items sl)" using i by (metis imageI nth_mem)
  have old: "it = ?it \<or> it \<in> set (sl_items sl) \<and> item_UID it \<noteq> pod_UID pod" if "it \<in> set ((sl_items sl)[i := ?it])" for it
  proof (cases "item_UID it = pod_UID pod")
    case True
    have "?it \<in> set ((sl_items sl)[i := ?it])" using i by (simp add: set_update_memI)
    with that True d show ?thesis by (auto simp: distinct_map inj_on_def)
  next
    case False
    with that show ?thesis using set_update_subset_insert [of "sl_items sl" i ?it] by auto
  qed
  have k: "status_kept kept now ?it"
  proof -
    have "status_kept kept now (sl_items sl ! i)" using u i by (auto simp: upserted_def)
    then consider c where "c \<in> set kept" "item_UID c = pod_UID pod" "sl_items sl ! i = c\<lparr>it_Pod := it_Pod (sl_items sl ! i)\<rparr>"
      | "pod_UID pod \<notin> item_UID ` set kept" "sl_items sl ! i = \<lparr>it_Pod = it_Pod (sl_items sl ! i), it_Status = emptyStatus,
          it_TS = now, it_Err = Some (errorNew ''missing status'')\<rparr>"
      using i unfolding status_kept_def by auto
    then show ?thesis
    proof cases
      case (1 c)
      have "?it = c\<lparr>it_Pod := pod\<rparr>" by (subst 1(3)) simp
      with 1(1,2) show ?thesis unfolding status_kept_def by auto
    next
      case 2
      have "?it = \<lparr>it_Pod = pod, it_Status = emptyStatus, it_TS = now, it_Err = Some (errorNew ''missing status'')\<rparr>"
        by (subst 2(2)) simp
      with 2(1) show ?thesis unfolding status_kept_def by simp
    qed
  qed
  show ?thesis unfolding items upserted_def s
  proof (intro conjI ballI impI)
    fix it assume it: "it \<in> set ((sl_items sl)[i := ?it])"
    show "it_Pod it \<in> set (ps @ [pod])" if "item_UID it \<in> pod_UID ` set (ps @ [pod])"
      using old [OF it] that u by (auto simp: upserted_def)
    show "status_kept kept now it" using old [OF it] k u by (auto simp: upserted_def)
  qed (use d u p in \<open>auto simp: upserted_def\<close>)
qed

lemma UpsertPods_upserted:
  assumes "upserted kept now ps (sl_items sl)" and "distinct (map pod_UID (ps @ pods))"
  shows "upserted kept now (ps @ pods) (sl_items (foldl (\<lambda>sl pod. UpsertPod now pod sl) sl pods))"
  using assms
proof (induction pods arbitrary: ps sl)
  case (Cons pod pods)
  then have "upserted kept now (ps @ [pod]) (sl_items (UpsertPod now pod sl))"
    by (intro UpsertPod_upserted) auto
  from Cons.IH [OF this] Cons.prems(2) show ?case by simp
qed simp

text \<open>The array of the cache never changes its length.\<close>

lemma UpsertPods_array: "length (sl_array (foldl (\<lambda>sl pod. UpsertPod now pod sl) sl pods)) = length (sl_array sl)"
  by (induction pods arbitrary: sl) (simp_all add: UpsertPod_def Let_def split: option.split)

lemma Synced_iff:
  "it \<in> set (Synced coll) \<longleftrightarrow> it \<in> set coll \<and> it_Err it = None \<and> \<not> sy_CatchingUp (cs_SyncInfo (it_Status it))"
  by (auto simp: Synced_def)

text \<open>A collection has one item for each pod, in the order of the sorting function, unless the status of a node
  panics; a failing status is in its item.\<close>

lemma collect_item_Ok:
  "collect_item comet now pod = Ok it \<Longrightarrow> it_Pod it = pod \<and> it_TS it = now \<and>
     (it_Err it = None \<longrightarrow> comet (''http://'' @ pst_PodIP (pod_Status pod) @ '':26657'') = Ok (Inr (it_Status it)))"
  by (cases "comet (''http://'' @ pst_PodIP (pod_Status pod) @ '':26657'')"; rename_tac r; case_tac r)
    (auto simp: collect_item_def Let_def split: if_splits)

lemma Collect_items:
  assumes "\<And>xs. mset (srt xs) = mset xs" and "StatusCollector_Collect srt comet now pods = Ok coll"
  shows "mset (map it_Pod coll) = mset pods \<and>
    (\<forall>it \<in> set coll. it_TS it = now \<and> (it_Err it = None \<longrightarrow>
       comet (''http://'' @ pst_PodIP (pod_Status (it_Pod it)) @ '':26657'') = Ok (Inr (it_Status it))))"
proof -
  obtain g where g: "\<forall>pod \<in> set pods. exec_bind (collect_item comet now pod) (\<lambda>it. Ok (Some it)) = Ok (g pod)"
      "coll = srt (List.map_filter g pods)"
    using assms(2) unfolding StatusCollector_Collect_def exec_bind_Ok_iff exec_collect_Ok_iff by blast
  have item: "\<exists>it. g pod = Some it \<and> collect_item comet now pod = Ok it" if "pod \<in> set pods" for pod
    using bspec [OF g(1) that] by (cases "collect_item comet now pod") auto
  have "map it_Pod (List.map_filter g ps) = ps" if "set ps \<subseteq> set pods" for ps
    using that
  proof (induction ps)
    case (Cons pod ps)
    then obtain it where "g pod = Some it" "collect_item comet now pod = Ok it" using item by auto
    then show ?case using Cons by (simp add: map_filter_simps collect_item_Ok)
  qed (simp add: map_filter_simps)
  then have "image_mset it_Pod (mset coll) = mset pods" using g(2) assms(1) by (metis mset_map subset_refl)
  moreover have "\<exists>pod. collect_item comet now pod = Ok it" if "it \<in> set coll" for it
  proof -
    have "it \<in> set (List.map_filter g pods)" using that g(2) assms(1) by (metis set_mset_mset)
    then show ?thesis using item by (force simp: List.map_filter_def)
  qed
  ultimately show ?thesis using collect_item_Ok by fastforce
qed

text \<open>The status client understands both shapes of the status response alike: with the fields
  at the top level or within a result, a complete response yields the same status and no panic,
  and every failure on the way yields an error.\<close>

lemma Status_both_shapes:
  assumes "hl_ParseRequestURI lib host = Inr u"
    and "hl_NewRequest lib ''GET'' (hl_String lib (hl_setPath lib u ''status'')) = Inr req"
    and "hl_Do lib req = Inr resp" and "hr_StatusCode resp = 200"
    and "hl_Decode lib (hr_Body resp) = Inr r"
    and "r = r0\<lparr>rr_ValidatorInfo := Some v, rr_SyncInfo := Some s, rr_NodeInfo := Some n\<rparr> \<or>
      r = r0\<lparr>rr_ValidatorInfo := None, rr_Result_ValidatorInfo := Some v, rr_Result_SyncInfo := Some s, rr_Result_NodeInfo := Some n\<rparr>"
  shows "CometClient_Status lib host =
    Ok (Inr (emptyStatus\<lparr>cs_ValidatorInfo := v, cs_SyncInfo := s, cs_NodeInfo := n\<rparr>))"
  using assms by (auto simp: CometClient_Status_def status_of_def)

end
