(* ===== verification/Status_Cache.thy ===== *)
theory Status_Cache
  imports Comet_Status Machines Api_V1
begin

text \<open>
  \<^verbatim>\<open>internal/cosmos/cache_controller.go\<close>: the cache of pod statuses. A reconcile starts one
  collecting goroutine per full node, which refreshes the entry of its full node until its context
  is cancelled and then deletes the entry. The state holds the map of the cache, the goroutines
  that run (each with the number of its context and its key) and the contexts that were cancelled.
  The mutex makes each operation of the map atomic; the operations interleave in any order, the
  relation \<open>cache_step\<close>.
\<close>

record cacheItem =
  ci_coll :: StatusCollection
  ci_cancel :: nat

record cache_state =
  cc_m :: "(ObjectKey \<times> cacheItem) list"
  cc_threads :: "(nat \<times> ObjectKey) list"
  cc_cancelled :: "nat list"
  cc_next :: nat

definition newCache :: cache_state where
  "newCache = \<lparr>cc_m = [], cc_threads = [], cc_cancelled = [], cc_next = 0\<rparr>"

definition cache_Get :: "ObjectKey \<Rightarrow> cache_state \<Rightarrow> StatusCollection option" where
  "cache_Get key st = map_option ci_coll (map_of (cc_m st) key)"

definition cache_Init :: "ObjectKey \<Rightarrow> nat \<Rightarrow> cache_state \<Rightarrow> cache_state" where
  "cache_Init key cancel st = st\<lparr>cc_m := AList.update key \<lparr>ci_coll = [], ci_cancel = cancel\<rparr> (cc_m st)\<rparr>"

definition cache_Update :: "ObjectKey \<Rightarrow> StatusCollection \<Rightarrow> cache_state \<Rightarrow> cache_state" where
  "cache_Update key value st =
     (case map_of (cc_m st) key of
        None \<Rightarrow> st
      | Some v \<Rightarrow> st\<lparr>cc_m := AList.update key (v\<lparr>ci_coll := value\<rparr>) (cc_m st)\<rparr>)"

definition cache_Del :: "ObjectKey \<Rightarrow> cache_state \<Rightarrow> cache_state" where
  "cache_Del key st =
     (case map_of (cc_m st) key of
        None \<Rightarrow> st\<lparr>cc_m := AList.delete key (cc_m st)\<rparr>
      | Some v \<Rightarrow> st\<lparr>cc_m := AList.delete key (cc_m st), cc_cancelled := ci_cancel v # cc_cancelled st\<rparr>)"

definition cache_DelAll :: "cache_state \<Rightarrow> cache_state" where
  "cache_DelAll st = st\<lparr>cc_m := [], cc_cancelled := map (\<lambda>e. ci_cancel (snd e)) (cc_m st) @ cc_cancelled st\<rparr>"

text \<open>
  \<open>Reconcile\<close>, with the answer of the API server for the resource. \<open>context.WithCancel\<close> makes a new
  context, whose number is the goroutine's.
\<close>

definition CacheController_Reconcile ::
  "ObjectKey \<Rightarrow> goerror + CosmosFullNode \<Rightarrow> cache_state \<Rightarrow> goerror option \<times> cache_state" where
  "CacheController_Reconcile key got st =
     (case got of
        Inl err \<Rightarrow> (IgnoreNotFound (Some err), if IsNotFound (Some err) then cache_Del key st else st)
      | Inr crd \<Rightarrow>
          if cache_Get key st = None
          then let cctx = cc_next st
               in (None, (cache_Init key cctx st)\<lparr>cc_threads := (cctx, key) # cc_threads st, cc_next := Suc cctx\<rparr>)
          else (None, st))"

text \<open>
  \<open>Invalidate\<close> ranges over the items by value: the loop changes its copies, and the slice that was
  read is stored again as it is.
\<close>

definition invalidated :: "time \<Rightarrow> string list \<Rightarrow> StatusItem \<Rightarrow> StatusItem" where
  "invalidated now pods s =
     (if om_Name (ob_Meta (it_Pod s)) \<in> set pods
      then s\<lparr>it_Status := emptyStatus, it_Err := Some (errorNew ''invalidated''), it_TS := now\<rparr> else s)"

definition Invalidate :: "time \<Rightarrow> ObjectKey \<Rightarrow> string list \<Rightarrow> cache_state \<Rightarrow> cache_state" where
  "Invalidate now controller pods st =
     (let v = (case cache_Get controller st of None \<Rightarrow> [] | Some v \<Rightarrow> v);
          copies = map (invalidated now pods) v
      in cache_Update controller v st)"

text \<open>\<open>Collect\<close>: the collection it returns, and the array of the entry that it changed in place.\<close>

definition CacheController_Collect ::
  "time \<Rightarrow> ObjectKey \<Rightarrow> goerror + Pod list \<Rightarrow> cache_state \<Rightarrow> StatusCollection \<times> cache_state" where
  "CacheController_Collect now controller listPods st =
     (case listPods of
        Inl err \<Rightarrow> ([], st)
      | Inr pods \<Rightarrow>
          let sl = foldl (\<lambda>sl pod. UpsertPod now pod sl) (IntersectPods (cache_Get controller st) pods) pods
          in (sl_items sl, cache_Update controller (sl_array sl) st))"

definition CacheController_SyncedPods ::
  "time \<Rightarrow> ObjectKey \<Rightarrow> goerror + Pod list \<Rightarrow> cache_state \<Rightarrow> Pod list" where
  "CacheController_SyncedPods now controller listPods st =
     AvailablePods (SyncedPods (fst (CacheController_Collect now controller listPods st))) (5 * time_Second) now"

text \<open>One round of a collecting goroutine, and its end.\<close>

definition collect_tick ::
  "(Pod list \<Rightarrow> StatusCollection) \<Rightarrow> ObjectKey \<Rightarrow> goerror + Pod list \<Rightarrow> cache_state \<Rightarrow> cache_state" where
  "collect_tick collect controller listPods st =
     (case listPods of Inl err \<Rightarrow> st | Inr pods \<Rightarrow> cache_Update controller (collect pods) st)"

definition collect_exit :: "nat \<Rightarrow> ObjectKey \<Rightarrow> cache_state \<Rightarrow> cache_state" where
  "collect_exit g controller st =
     (cache_Del controller st)\<lparr>cc_threads := filter (\<lambda>t. fst t \<noteq> g) (cc_threads st)\<rparr>"

inductive cache_step :: "cache_state \<Rightarrow> cache_state \<Rightarrow> bool" where
  step_reconcile: "cache_step st (snd (CacheController_Reconcile key got st))"
| step_tick: "(g, key) \<in> set (cc_threads st) \<Longrightarrow> cache_step st (collect_tick collect key listPods st)"
| step_exit: "(g, key) \<in> set (cc_threads st) \<Longrightarrow> g \<in> set (cc_cancelled st) \<Longrightarrow> cache_step st (collect_exit g key st)"
| step_parent: "(g, key) \<in> set (cc_threads st) \<Longrightarrow> cache_step st (st\<lparr>cc_cancelled := g # cc_cancelled st\<rparr>)"
| step_collect: "cache_step st (snd (CacheController_Collect now key listPods st))"
| step_invalidate: "cache_step st (Invalidate now key pods st)"
| step_close: "cache_step st (cache_DelAll st)"

inductive_cases cache_stepE [elim]: "cache_step st st'"

subsection \<open>Entries and goroutines agree\<close>

text \<open>
  An entry belongs to a goroutine that runs; a goroutine that is not cancelled owns the entry of
  its key. Contexts are never used twice.
\<close>

definition owner :: "cache_state \<Rightarrow> ObjectKey \<rightharpoonup> nat" where
  "owner st key = map_option ci_cancel (map_of (cc_m st) key)"

definition cache_inv :: "cache_state \<Rightarrow> bool" where
  "cache_inv st \<longleftrightarrow>
     (\<forall>key g. owner st key = Some g \<longrightarrow> (g, key) \<in> set (cc_threads st)) \<and>
     (\<forall>(g, key) \<in> set (cc_threads st). g < cc_next st \<and> (g \<notin> set (cc_cancelled st) \<longrightarrow> owner st key = Some g)) \<and>
     (\<forall>g \<in> set (cc_cancelled st). g < cc_next st) \<and> distinct (map fst (cc_threads st)) \<and>
     (\<forall>e \<in> set (cc_m st). ci_cancel (snd e) < cc_next st)"

lemma in_set_update: "e \<in> set (AList.update k v m) \<Longrightarrow> e = (k, v) \<or> e \<in> set m"
  by (induction m) (auto split: if_splits)

lemma in_set_delete: "e \<in> set (AList.delete k m) \<Longrightarrow> e \<in> set m"
  by (auto simp: AList.delete_eq)

lemma owner_Update [simp]: "owner (cache_Update key value st) = owner st"
  by (auto simp: owner_def cache_Update_def update_conv' fun_eq_iff split: option.split)

lemma threads_Update [simp]:
  "cc_threads (cache_Update key value st) = cc_threads st" "cc_cancelled (cache_Update key value st) = cc_cancelled st"
  "cc_next (cache_Update key value st) = cc_next st"
  by (simp_all add: cache_Update_def split: option.split)

lemma owner_Del [simp]: "owner (cache_Del key st) = (owner st)(key := None)"
  by (auto simp: owner_def cache_Del_def delete_conv' fun_eq_iff split: option.split)

lemma threads_Del [simp]:
  "cc_threads (cache_Del key st) = cc_threads st" "cc_next (cache_Del key st) = cc_next st"
  "set (cc_cancelled (cache_Del key st)) = set (cc_cancelled st) \<union> set_option (owner st key)"
  by (auto simp: cache_Del_def owner_def split: option.split)

lemma cache_invI:
  assumes "\<And>key g. owner st key = Some g \<Longrightarrow> (g, key) \<in> set (cc_threads st)"
    and "\<And>g key. (g, key) \<in> set (cc_threads st) \<Longrightarrow> g < cc_next st"
    and "\<And>g key. (g, key) \<in> set (cc_threads st) \<Longrightarrow> g \<notin> set (cc_cancelled st) \<Longrightarrow> owner st key = Some g"
    and "\<And>g. g \<in> set (cc_cancelled st) \<Longrightarrow> g < cc_next st" and "distinct (map fst (cc_threads st))"
    and "\<And>e. e \<in> set (cc_m st) \<Longrightarrow> ci_cancel (snd e) < cc_next st"
  shows "cache_inv st"
  using assms unfolding cache_inv_def by blast

lemma cache_invD:
  assumes "cache_inv st"
  shows "owner st key = Some g \<Longrightarrow> (g, key) \<in> set (cc_threads st)"
    and "(g, key) \<in> set (cc_threads st) \<Longrightarrow> g < cc_next st"
    and "(g, key) \<in> set (cc_threads st) \<Longrightarrow> g \<notin> set (cc_cancelled st) \<Longrightarrow> owner st key = Some g"
    and "g \<in> set (cc_cancelled st) \<Longrightarrow> g < cc_next st" and "distinct (map fst (cc_threads st))"
    and "e \<in> set (cc_m st) \<Longrightarrow> ci_cancel (snd e) < cc_next st"
  using assms unfolding cache_inv_def by auto

lemma entries_Update:
  "e \<in> set (cc_m (cache_Update key value st)) \<Longrightarrow> \<exists>e' \<in> set (cc_m st). ci_cancel (snd e') = ci_cancel (snd e)"
  by (auto simp: cache_Update_def dest!: in_set_update map_of_SomeD split: option.splits) force

lemma entries_Del: "set (cc_m (cache_Del key st)) \<subseteq> set (cc_m st)"
  by (auto simp: cache_Del_def dest: in_set_delete split: option.splits)

lemma cache_inv_update: "cache_inv st \<Longrightarrow> cache_inv (cache_Update key value st)"
proof (rule cache_invI)
  fix e assume inv: "cache_inv st" and "e \<in> set (cc_m (cache_Update key value st))"
  then obtain e' where "e' \<in> set (cc_m st)" "ci_cancel (snd e') = ci_cancel (snd e)" using entries_Update by blast
  then show "ci_cancel (snd e) < cc_next (cache_Update key value st)" using cache_invD(6) [OF inv, of e'] by simp
qed (auto dest: cache_invD)

lemma cache_inv_del:
  assumes "cache_inv st"
  shows "cache_inv (cache_Del key st)"
proof (rule cache_invI)
  fix g k assume g: "(g, k) \<in> set (cc_threads (cache_Del key st))" "g \<notin> set (cc_cancelled (cache_Del key st))"
  then show "owner (cache_Del key st) k = Some g" using cache_invD(3) [OF assms, of g k] by (auto split: if_splits)
next
  fix e assume "e \<in> set (cc_m (cache_Del key st))"
  then show "ci_cancel (snd e) < cc_next (cache_Del key st)"
    using entries_Del [of key st] cache_invD(6) [OF assms, of e] by auto
next
  fix g assume "g \<in> set (cc_cancelled (cache_Del key st))"
  then show "g < cc_next (cache_Del key st)" using cache_invD(1,2,4) [OF assms] by auto
next
  fix k g assume "owner (cache_Del key st) k = Some g"
  then show "(g, k) \<in> set (cc_threads (cache_Del key st))"
    using cache_invD(1) [OF assms, of k g] by (simp split: if_splits)
next
  fix g k assume "(g, k) \<in> set (cc_threads (cache_Del key st))"
  then show "g < cc_next (cache_Del key st)" using cache_invD(2) [OF assms, of g k] by simp
next
  show "distinct (map fst (cc_threads (cache_Del key st)))" using cache_invD(5) [OF assms] by simp
qed

lemma cache_inv_exit:
  assumes "cache_inv st" and "(g, key) \<in> set (cc_threads st)"
  shows "cache_inv (collect_exit g key st)"
proof -
  let ?t = "cache_Del key st" and ?u = "collect_exit g key st"
  have t: "cache_inv ?t" using assms(1) by (rule cache_inv_del)
  have u: "owner ?u = owner ?t" "cc_m ?u = cc_m ?t" "cc_threads ?u = filter (\<lambda>t. fst t \<noteq> g) (cc_threads ?t)"
      "cc_cancelled ?u = cc_cancelled ?t" "cc_next ?u = cc_next ?t"
    by (simp_all add: collect_exit_def owner_def fun_eq_iff del: owner_Del)
  have "owner ?t k \<noteq> Some g" for k
  proof
    assume o: "owner ?t k = Some g"
    then have "(g, k) \<in> set (cc_threads st)" using cache_invD(1) [OF t] by simp
    then have "k = key" using assms(2) eq_key_imp_eq_value [OF cache_invD(5) [OF assms(1)], of g k key] by simp
    with o show False by simp
  qed
  then have "(g', k) \<in> set (cc_threads ?u)" if "owner ?t k = Some g'" for k g'
    using that cache_invD(1) [OF t, of k g'] unfolding u by auto
  then show ?thesis
    using t unfolding cache_inv_def u(1,2,4,5) by (simp add: u(3) distinct_map_filter case_prod_beta' del: owner_Del threads_Del)
qed

lemma cache_inv_reconcile:
  assumes inv: "cache_inv st"
  shows "cache_inv (snd (CacheController_Reconcile key got st))"
proof (cases "\<exists>crd. got = Inr crd \<and> cache_Get key st = None")
  case True
  let ?t = "snd (CacheController_Reconcile key got st)"
  have t: "owner ?t = (owner st)(key \<mapsto> cc_next st)" "cc_threads ?t = (cc_next st, key) # cc_threads st"
      "cc_cancelled ?t = cc_cancelled st" "cc_next ?t = Suc (cc_next st)" "owner st key = None"
      "cc_m ?t = AList.update key \<lparr>ci_coll = [], ci_cancel = cc_next st\<rparr> (cc_m st)"
    using True by (auto simp: CacheController_Reconcile_def Let_def cache_Init_def owner_def update_conv' fun_eq_iff cache_Get_def)
  show ?thesis
  proof (rule cache_invI)
    fix g k assume "(g, k) \<in> set (cc_threads ?t)" "g \<notin> set (cc_cancelled ?t)"
    then show "owner ?t k = Some g" using cache_invD(3) [OF inv, of g k] t by (auto split: if_splits)
  next
    fix e assume "e \<in> set (cc_m ?t)"
    then show "ci_cancel (snd e) < cc_next ?t"
      using cache_invD(6) [OF inv, of e] unfolding t by (auto dest: in_set_update)
  next
    show "distinct (map fst (cc_threads ?t))"
      using cache_invD(2,5) [OF inv] unfolding t by fastforce
  next
    fix g k assume "(g, k) \<in> set (cc_threads ?t)"
    then show "g < cc_next ?t" using cache_invD(2) [OF inv, of g k] unfolding t by auto
  next
    fix g assume "g \<in> set (cc_cancelled ?t)"
    then show "g < cc_next ?t" using cache_invD(4) [OF inv, of g] unfolding t by auto
  next
    fix g k assume "owner ?t k = Some g"
    then show "(g, k) \<in> set (cc_threads ?t)" using cache_invD(1) [OF inv, of k g] unfolding t by (auto split: if_splits)
  qed
next
  case False
  with inv show ?thesis
    by (auto simp: CacheController_Reconcile_def Let_def cache_inv_del split: sum.splits)
qed

lemma owner_entry: "owner st key = Some g \<Longrightarrow> \<exists>e \<in> set (cc_m st). ci_cancel (snd e) = g"
  by (auto simp: owner_def dest!: map_of_SomeD) force

lemma cancelled_DelAll:
  assumes "cache_inv st" and "(g, key) \<in> set (cc_threads st)"
  shows "g \<in> set (cc_cancelled (cache_DelAll st))"
proof (cases "g \<in> set (cc_cancelled st)")
  case False
  then obtain e where "e \<in> set (cc_m st)" "ci_cancel (snd e) = g"
    using cache_invD(3) [OF assms] owner_entry by blast
  then show ?thesis by (auto simp: cache_DelAll_def)
qed (simp add: cache_DelAll_def)

lemma cache_inv_DelAll:
  assumes "cache_inv st"
  shows "cache_inv (cache_DelAll st)"
proof (rule cache_invI)
  fix g k assume "(g, k) \<in> set (cc_threads (cache_DelAll st))" "g \<notin> set (cc_cancelled (cache_DelAll st))"
  moreover from this(1) have "(g, k) \<in> set (cc_threads st)" by (simp add: cache_DelAll_def)
  ultimately show "owner (cache_DelAll st) k = Some g" using cancelled_DelAll [OF assms] by blast
qed (use cache_invD [OF assms] in \<open>auto simp: cache_DelAll_def owner_def\<close>)

lemma cache_inv_parent:
  assumes "cache_inv st" and "(g, key) \<in> set (cc_threads st)"
  shows "cache_inv (st\<lparr>cc_cancelled := g # cc_cancelled st\<rparr>)"
proof -
  have "owner (st\<lparr>cc_cancelled := g # cc_cancelled st\<rparr>) = owner st" by (simp add: owner_def fun_eq_iff)
  then show ?thesis using assms cache_invD(2) [OF assms] unfolding cache_inv_def by (simp add: case_prod_beta')
qed

interpretation cache: invariant_of "\<lambda>st. st = newCache" cache_step cache_inv
proof
  show "cache_inv s" if "s = newCache" for s
    using that by (simp add: cache_inv_def newCache_def owner_def)
next
  fix s t
  assume inv: "cache_inv s" and step: "cache_step s t"
  from step inv show "cache_inv t"
    by cases (auto simp: cache_inv_reconcile cache_inv_exit cache_inv_DelAll cache_inv_update cache_inv_parent
      collect_tick_def CacheController_Collect_def Invalidate_def Let_def split: sum.split)
qed

text \<open>C17: The cache and its goroutines agree, however reconciles, refreshes, reads, cancellations and
  exits interleave: a full node has at most one collecting goroutine that is not cancelled, that
  goroutine exists exactly when the full node has an entry in the cache whose context is not
  cancelled, every entry's goroutine still runs, and after \<open>Close\<close> every goroutine is cancelled,
  so that none is leaked.\<close>

theorem one_collector_per_node:
  assumes "reach (\<lambda>st. st = newCache) cache_step st"
  shows "(g \<notin> set (cc_cancelled st) \<longrightarrow> ((g, key) \<in> set (cc_threads st) \<longleftrightarrow> map_option ci_cancel (map_of (cc_m st) key) = Some g)) \<and>
    (map_option ci_cancel (map_of (cc_m st) key) = Some g \<longrightarrow> (g, key) \<in> set (cc_threads st)) \<and>
    ((g, key) \<in> set (cc_threads st) \<longrightarrow> g \<in> set (cc_cancelled (cache_DelAll st)))"
proof -
  have inv: "cache_inv st" using cache.reach_inv [OF assms] .
  then show ?thesis
    using cancelled_DelAll [OF inv, of g key] unfolding owner_def [symmetric] by (auto simp: cache_inv_def)
qed

text \<open>A run that starts a collector.\<close>

definition started :: cache_state where
  "started = snd (CacheController_Reconcile (ObjectKey ''chains'' ''osmo'') (Inr sample_crd) newCache)"

theorem one_collector_per_node_witness:
  "reach (\<lambda>st. st = newCache) cache_step started \<and> (0, ObjectKey ''chains'' ''osmo'') \<in> set (cc_threads started) \<and>
   0 \<notin> set (cc_cancelled started) \<and>
   map_option ci_cancel (map_of (cc_m started) (ObjectKey ''chains'' ''osmo'')) = Some 0 \<and>
   0 \<in> set (cc_cancelled (cache_DelAll started))"
proof -
  have r: "reach (\<lambda>st. st = newCache) cache_step started"
    unfolding started_def by (rule reach_step, rule reach_init, rule refl, rule step_reconcile)
  have "(0, ObjectKey ''chains'' ''osmo'') \<in> set (cc_threads started)" "0 \<notin> set (cc_cancelled started)"
    by (simp_all add: started_def newCache_def CacheController_Reconcile_def cache_Get_def cache_Init_def)
  with r one_collector_per_node [OF r, of 0 "ObjectKey ''chains'' ''osmo''"] show ?thesis by blast
qed

subsection \<open>What a read of the cache returns\<close>

lemma Intersect_upserted:
  assumes "\<And>c. coll = Some c \<Longrightarrow> distinct (map item_UID c)"
  shows "upserted (sl_items (IntersectPods coll pods)) now [] (sl_items (IntersectPods coll pods))"
proof -
  have "distinct (map item_UID (sl_items (IntersectPods coll pods)))"
    using assms by (auto simp: IntersectPods_def Let_def distinct_map_filter split: option.split)
  then show ?thesis by (auto simp: upserted_def status_kept_def)
qed

lemma Intersect_items:
  "set (sl_items (IntersectPods coll pods)) =
     {it. \<exists>c. coll = Some c \<and> it \<in> set c \<and> item_UID it \<in> pod_UID ` set pods}"
  by (auto simp: IntersectPods_def Let_def split: option.split)

text \<open>A read of the cache covers exactly the pods of the full node. For pods and cached items with
  distinct UIDs, \<open>Collect\<close> returns every listed pod once and no other; an item carries the current
  pod with the status, error and time that the cache holds for its UID, or the error that its status
  is missing.\<close>

theorem Collect_current:
  assumes "distinct (map pod_UID pods)"
    and "\<And>c. cache_Get key st = Some c \<Longrightarrow> distinct (map item_UID c)"
  shows "mset (map it_Pod (fst (CacheController_Collect now key (Inr pods) st))) = mset pods \<and>
    (\<forall>it \<in> set (fst (CacheController_Collect now key (Inr pods) st)).
       (\<exists>coll c. cache_Get key st = Some coll \<and> c \<in> set coll \<and> item_UID c = item_UID it \<and> it = c\<lparr>it_Pod := it_Pod it\<rparr>) \<or>
       (\<forall>coll. cache_Get key st = Some coll \<longrightarrow> item_UID it \<notin> item_UID ` set coll) \<and>
         it_Err it = Some (errorNew ''missing status''))"
proof -
  let ?kept = "sl_items (IntersectPods (cache_Get key st) pods)"
  let ?r = "fst (CacheController_Collect now key (Inr pods) st)"
  have "upserted ?kept now ([] @ pods)
      (sl_items (foldl (\<lambda>sl pod. UpsertPod now pod sl) (IntersectPods (cache_Get key st) pods) pods))"
    using assms by (intro UpsertPods_upserted Intersect_upserted) auto
  then have u: "upserted ?kept now pods ?r" by (simp add: CacheController_Collect_def Let_def)
  have ids: "item_UID ` set ?r = pod_UID ` set pods"
    using u Intersect_items [of "cache_Get key st" pods] by (auto simp: upserted_def)
  then have sub: "it_Pod it \<in> set pods" if "it \<in> set ?r" for it using that u by (auto simp: upserted_def)
  have "set (map it_Pod ?r) = set pods"
  proof
    show "set pods \<subseteq> set (map it_Pod ?r)"
    proof
      fix p assume p: "p \<in> set pods"
      then have "pod_UID p \<in> item_UID ` set ?r" unfolding ids by simp
      then obtain it where it: "it \<in> set ?r" "item_UID it = pod_UID p" by (elim imageE) simp
      then have "it_Pod it = p" using sub assms(1) p by (auto simp: distinct_map inj_on_def)
      with it show "p \<in> set (map it_Pod ?r)" by auto
    qed
  qed (use sub in auto)
  moreover have "distinct (map it_Pod ?r)"
    using u by (auto simp: upserted_def distinct_map inj_on_def)
  ultimately have "mset (map it_Pod ?r) = mset pods"
    using assms(1) by (metis distinct_map set_eq_iff_mset_eq_distinct)
  moreover have "(\<exists>coll c. cache_Get key st = Some coll \<and> c \<in> set coll \<and> item_UID c = item_UID it \<and> it = c\<lparr>it_Pod := it_Pod it\<rparr>) \<or>
       (\<forall>coll. cache_Get key st = Some coll \<longrightarrow> item_UID it \<notin> item_UID ` set coll) \<and>
         it_Err it = Some (errorNew ''missing status'')" if it: "it \<in> set ?r" for it
  proof -
    have "status_kept ?kept now it" using u it by (simp add: upserted_def)
    moreover have "item_UID it \<in> pod_UID ` set pods" using ids it by auto
    ultimately show ?thesis unfolding status_kept_def Intersect_items
    proof (elim disjE conjE)
      assume n: "item_UID it \<notin> item_UID ` {it. \<exists>c. cache_Get key st = Some c \<and> it \<in> set c \<and> item_UID it \<in> pod_UID ` set pods}"
        and m: "it = \<lparr>it_Pod = it_Pod it, it_Status = emptyStatus, it_TS = now, it_Err = Some (errorNew ''missing status'')\<rparr>"
        and p: "item_UID it \<in> pod_UID ` set pods"
      have "it_Err it = Some (errorNew ''missing status'')" by (subst m) simp
      moreover have "item_UID it \<notin> item_UID ` set coll" if "cache_Get key st = Some coll" for coll
        using n p that by auto
      ultimately show ?thesis by blast
    qed auto
  qed
  ultimately show ?thesis by blast
qed

text \<open>Two pods, of which one is cached together with a pod that is gone.\<close>

definition uid_pod :: "string \<Rightarrow> Pod" where
  "uid_pod u = \<lparr>ob_Kind = ''Pod'', ob_APIVersion = ''v1'', ob_Meta = emptyMeta\<lparr>om_Name := u, om_UID := u\<rparr>,
     ob_Body = \<lparr>pb_Spec = emptyPodSpec, pb_Status = emptyPodStatus\<rparr>\<rparr>"

definition uid_item :: "string \<Rightarrow> StatusItem" where
  "uid_item u = \<lparr>it_Pod = uid_pod u, it_Status = emptyStatus, it_TS = 0, it_Err = None\<rparr>"

definition cached :: "string list \<Rightarrow> cache_state" where
  "cached us = cache_Update (ObjectKey ''chains'' ''osmo'') (map uid_item us) started"

theorem Collect_current_witness:
  "mset (map it_Pod (fst (CacheController_Collect 7 (ObjectKey ''chains'' ''osmo'') (Inr (map uid_pod [''b'', ''c''])) (cached [''a'', ''b'']))))
     = mset (map uid_pod [''b'', ''c''])"
proof -
  have "cache_Get (ObjectKey ''chains'' ''osmo'') (cached [''a'', ''b'']) = Some (map uid_item [''a'', ''b''])"
    by (simp add: cached_def started_def newCache_def CacheController_Reconcile_def cache_Get_def cache_Init_def cache_Update_def)
  then show ?thesis
    by (intro Collect_current [THEN conjunct1]) (auto simp: uid_item_def uid_pod_def)
qed

text \<open>Reading the cache damages it: \<open>Collect\<close> compacts the cached slice in place but leaves its
  length, so that after a pod is gone the next read, before the collector refreshes the entry,
  returns a remaining pod twice.\<close>

theorem Collect_twice_duplicates:
  "\<exists>st key pods now. distinct (map pod_UID pods) \<and>
     (\<exists>c. cache_Get key st = Some c \<and> distinct (map item_UID c)) \<and>
     length pods = 2 \<and>
     length (fst (CacheController_Collect now key (Inr pods) st)) = 2 \<and>
     length (fst (CacheController_Collect now key (Inr pods) (snd (CacheController_Collect now key (Inr pods) st)))) = 3"
proof -
  let ?k = "ObjectKey ''chains'' ''osmo''" and ?st = "cached [''a'', ''b'', ''c'']" and ?p = "map uid_pod [''b'', ''c'']"
  have "cache_Get ?k ?st = Some (map uid_item [''a'', ''b'', ''c''])"
    by (simp add: cached_def started_def newCache_def CacheController_Reconcile_def cache_Get_def cache_Init_def cache_Update_def)
  moreover have "length (fst (CacheController_Collect 0 ?k (Inr ?p) ?st)) = 2"
      "length (fst (CacheController_Collect 0 ?k (Inr ?p) (snd (CacheController_Collect 0 ?k (Inr ?p) ?st)))) = 3"
    by code_simp+
  ultimately show ?thesis
    by (intro exI [of _ ?st] exI [of _ ?k] exI [of _ ?p] exI [of _ 0]) (simp add: uid_item_def uid_pod_def)
qed

text \<open>\<open>Invalidate\<close> has no effect on what later reads return.\<close>

lemma Invalidate_no_effect: "cache_Get key' (Invalidate now key pods st) = cache_Get key' st"
  by (auto simp: Invalidate_def cache_Get_def cache_Update_def update_conv' split: option.split)

end
