(* ===== verification/Status_Updates.thy ===== *)
theory Status_Updates
  imports Status_Cache
begin

text \<open>
  \<^verbatim>\<open>internal/fullnode/status.go\<close>, the status at the start of a reconcile and the sync info of the
  pods, and \<^verbatim>\<open>internal/fullnode/status_client.go\<close>, the synchronised update of a status.
  \<open>SyncUpdate\<close> is called by several controllers at once, so it is a transition system: a call takes
  the semaphore of its key, reads the resource, applies its function to the status and writes it
  back. The API server keeps a resource version with each status, which every write changes, and
  rejects a write that carries a stale one; other actors may write a status at any time. Reads are
  current in the model. The manager's client may read from a cache that lags behind; the write that follows is then refused
  as stale, which changes nothing, like the refused writes of the model.
\<close>

definition ResetStatus :: "CosmosFullNode \<Rightarrow> CosmosFullNode" where
  "ResetStatus crd = crd\<lparr>fn_Status := (fn_Status crd)\<lparr>st_ObservedGeneration := om_Generation (fn_Meta crd),
     st_Phase := FullNodePhaseProgressing, st_StatusMessage := None\<rparr>\<rparr>"

definition syncInfoItem :: "StatusItem \<Rightarrow> SyncInfoPodStatus" where
  "syncInfoItem item =
     (case it_Err item of
        Some err \<Rightarrow> \<lparr>si_Timestamp = it_TS item, si_Height = None, si_InSync = None, si_Error = Some (ge_msg err)\<rparr>
      | None \<Rightarrow> \<lparr>si_Timestamp = it_TS item, si_Height = Some (LatestBlockHeight (it_Status item)),
                 si_InSync = Some (\<not> sy_CatchingUp (cs_SyncInfo (it_Status item))), si_Error = None\<rparr>)"

definition SyncInfoStatus :: "StatusCollection \<Rightarrow> (string \<times> SyncInfoPodStatus) list" where
  "SyncInfoStatus coll =
     foldl (\<lambda>status item. AList.update (GetName (it_Pod item)) (syncInfoItem item) status) [] coll"

lemma SyncInfoStatus_snoc:
  "SyncInfoStatus (coll @ [item]) = AList.update (GetName (it_Pod item)) (syncInfoItem item) (SyncInfoStatus coll)"
  by (simp add: SyncInfoStatus_def)

lemma SyncInfoStatus_keys: "fst ` set (SyncInfoStatus coll) = (\<lambda>it. GetName (it_Pod it)) ` set coll"
  by (induction coll rule: rev_induct) (auto simp: SyncInfoStatus_snoc dom_update SyncInfoStatus_def)

lemma SyncInfoStatus_from:
  "map_of (SyncInfoStatus coll) n = Some si \<Longrightarrow> \<exists>it \<in> set coll. GetName (it_Pod it) = n \<and> si = syncInfoItem it"
  by (induction coll rule: rev_induct)
    (auto simp: SyncInfoStatus_snoc update_conv' SyncInfoStatus_def split: if_splits)

subsection \<open>Synchronised updates\<close>

type_synonym status_fun = "FullNodeStatus \<Rightarrow> FullNodeStatus"

datatype sync_pc =
    Idle
  | Waiting ObjectKey status_fun
  | Acquired ObjectKey status_fun
  | Updating ObjectKey status_fun nat FullNodeStatus
  | Releasing ObjectKey

datatype status_write = SyncWrite status_fun | OtherWrite status_fun

record sync_state =
  ss_store :: "ObjectKey \<Rightarrow> nat \<times> FullNodeStatus"
  ss_sem :: "ObjectKey \<Rightarrow> nat option"
  ss_pc :: "nat \<Rightarrow> sync_pc"
  ss_log :: "ObjectKey \<Rightarrow> status_write list"

definition sync_init :: "(ObjectKey \<Rightarrow> FullNodeStatus) \<Rightarrow> sync_state \<Rightarrow> bool" where
  "sync_init base st \<longleftrightarrow> ss_store st = (\<lambda>key. (0, base key)) \<and> ss_sem st = (\<lambda>_. None) \<and>
     ss_pc st = (\<lambda>_. Idle) \<and> ss_log st = (\<lambda>_. [])"

definition goto :: "nat \<Rightarrow> sync_pc \<Rightarrow> sync_state \<Rightarrow> sync_state" where
  "goto t pc st = st\<lparr>ss_pc := (ss_pc st)(t := pc)\<rparr>"

definition put :: "ObjectKey \<Rightarrow> status_write \<Rightarrow> status_fun \<Rightarrow> sync_state \<Rightarrow> sync_state" where
  "put key w f st = st\<lparr>ss_store := (ss_store st)(key := (Suc (fst (ss_store st key)), f (snd (ss_store st key)))),
     ss_log := (ss_log st)(key := ss_log st key @ [w])\<rparr>"

text \<open>
  The steps of \<open>SyncUpdate\<close>. A failing read or write leads to the release of the semaphore, which
  the code defers. The write stores the changed copy and succeeds only when its version is current.
\<close>

inductive sync_step :: "sync_state \<Rightarrow> sync_state \<Rightarrow> bool" where
  sync_call: "ss_pc st t = Idle \<Longrightarrow> sync_step st (goto t (Waiting key f) st)"
| sync_acquire: "ss_pc st t = Waiting key f \<Longrightarrow> ss_sem st key = None \<Longrightarrow>
     sync_step st (goto t (Acquired key f) (st\<lparr>ss_sem := (ss_sem st)(key := Some t)\<rparr>))"
| sync_get: "ss_pc st t = Acquired key f \<Longrightarrow> ss_store st key = (rv, s) \<Longrightarrow> sync_step st (goto t (Updating key f rv s) st)"
| sync_get_fails: "ss_pc st t = Acquired key f \<Longrightarrow> sync_step st (goto t (Releasing key) st)"
| sync_put: "ss_pc st t = Updating key f rv s \<Longrightarrow> fst (ss_store st key) = rv \<Longrightarrow>
     sync_step st (goto t (Releasing key) (put key (SyncWrite f) (\<lambda>_. f s) st))"
| sync_put_fails: "ss_pc st t = Updating key f rv s \<Longrightarrow> sync_step st (goto t (Releasing key) st)"
| sync_release: "ss_pc st t = Releasing key \<Longrightarrow>
     sync_step st (goto t Idle (st\<lparr>ss_sem := (ss_sem st)(key := None)\<rparr>))"
| other_put: "sync_step st (put key (OtherWrite f) f st)"

inductive_cases sync_stepE [elim]: "sync_step st st'"

fun holds :: "sync_pc \<Rightarrow> ObjectKey option" where
  "holds (Acquired key f) = Some key"
| "holds (Updating key f rv s) = Some key"
| "holds (Releasing key) = Some key"
| "holds _ = None"

fun write_fun :: "status_write \<Rightarrow> status_fun" where
  "write_fun (SyncWrite f) = f"
| "write_fun (OtherWrite f) = f"

fun is_sync :: "status_write \<Rightarrow> bool" where
  "is_sync (SyncWrite f) = True"
| "is_sync (OtherWrite f) = False"

definition sem_ok :: "sync_state \<Rightarrow> bool" where
  "sem_ok st \<longleftrightarrow> (\<forall>t key. holds (ss_pc st t) = Some key \<longleftrightarrow> ss_sem st key = Some t)"

definition log_ok :: "(ObjectKey \<Rightarrow> FullNodeStatus) \<Rightarrow> sync_state \<Rightarrow> bool" where
  "log_ok base st \<longleftrightarrow> (\<forall>key. snd (ss_store st key) = foldl (\<lambda>s w. write_fun w s) (base key) (ss_log st key))"

definition copy_ok :: "sync_state \<Rightarrow> ObjectKey \<Rightarrow> nat \<Rightarrow> FullNodeStatus \<Rightarrow> bool" where
  "copy_ok st key rv s \<longleftrightarrow> rv \<le> fst (ss_store st key) \<and> (rv = fst (ss_store st key) \<longrightarrow> s = snd (ss_store st key)) \<and>
     (list_all is_sync (ss_log st key) \<longrightarrow> rv = fst (ss_store st key))"

definition sync_inv :: "(ObjectKey \<Rightarrow> FullNodeStatus) \<Rightarrow> sync_state \<Rightarrow> bool" where
  "sync_inv base st \<longleftrightarrow> sem_ok st \<and> log_ok base st \<and>
     (\<forall>t key f rv s. ss_pc st t = Updating key f rv s \<longrightarrow> copy_ok st key rv s)"

lemma ss_pc_simps [simp]:
  "ss_pc (goto t pc st) = (ss_pc st)(t := pc)" "ss_pc (put key w f st) = ss_pc st"
  "ss_sem (goto t pc st) = ss_sem st" "ss_sem (put key w f st) = ss_sem st"
  by (simp_all add: goto_def put_def)

lemma sem_ok_goto: "sem_ok st \<Longrightarrow> holds pc = holds (ss_pc st t) \<Longrightarrow> sem_ok (goto t pc st)"
  by (simp add: sem_ok_def)

lemma sem_ok_put [simp]: "sem_ok (put key w f st) = sem_ok st"
  by (simp add: sem_ok_def)

lemma sem_ok_acquire:
  assumes "sem_ok st" and "holds (ss_pc st t) = None" and "ss_sem st key = None" and "holds pc = Some key"
  shows "sem_ok (goto t pc (st\<lparr>ss_sem := (ss_sem st)(key := Some t)\<rparr>))"
  using assms by (auto simp: sem_ok_def) (metis option.distinct(1))

lemma sem_ok_release:
  assumes "sem_ok st" and "holds (ss_pc st t) = Some key" and "holds pc = None"
  shows "sem_ok (goto t pc (st\<lparr>ss_sem := (ss_sem st)(key := None)\<rparr>))"
  using assms unfolding sem_ok_def by (simp add: goto_def) (metis option.inject)

lemma sem_ok_step: "sync_step st st' \<Longrightarrow> sem_ok st \<Longrightarrow> sem_ok st'"
  by (erule sync_stepE) (simp_all add: sem_ok_goto sem_ok_acquire sem_ok_release)

lemma holder_unique:
  assumes "sem_ok st" and "ss_pc st t = Updating key f rv s" and "ss_pc st t' = Updating key f' rv' s'"
  shows "t = t'"
proof -
  have "ss_sem st key = Some t" "ss_sem st key = Some t'"
    using assms [unfolded sem_ok_def] by (metis holds.simps(2))+
  then show ?thesis by simp
qed

lemma log_ok_put: "log_ok base st \<Longrightarrow> f (snd (ss_store st key)) = write_fun w (snd (ss_store st key)) \<Longrightarrow> log_ok base (put key w f st)"
  by (simp add: log_ok_def put_def)

lemma log_ok_goto [simp]: "log_ok base (goto t pc st) = log_ok base st" "log_ok base (st\<lparr>ss_sem := m\<rparr>) = log_ok base st"
  by (simp_all add: log_ok_def goto_def)

lemma copy_ok_goto [simp]: "copy_ok (goto t pc st) = copy_ok st" "copy_ok (st\<lparr>ss_sem := m\<rparr>) = copy_ok st"
  by (simp_all add: copy_ok_def goto_def fun_eq_iff)

text \<open>A write by another actor makes the copies of its key stale, never wrongly current.\<close>

lemma copy_ok_put:
  assumes "copy_ok st key' rv s" and "key' \<noteq> key \<or> \<not> is_sync w"
  shows "copy_ok (put key w f st) key' rv s"
  using assms by (auto simp: copy_ok_def put_def)

lemma sync_inv_step:
  assumes inv: "sync_inv base st" and step: "sync_step st st'"
  shows "sync_inv base st'"
proof -
  have sem: "sem_ok st" "sem_ok st'" and log: "log_ok base st"
    using inv sem_ok_step [OF step] by (auto simp: sync_inv_def)
  have copy: "copy_ok st key rv s" if "ss_pc st t = Updating key f rv s" for t key f rv s
    using inv that by (auto simp: sync_inv_def)
  have "log_ok base st' \<and> (\<forall>t key f rv s. ss_pc st' t = Updating key f rv s \<longrightarrow> copy_ok st' key rv s)"
    using step
  proof cases
    case (sync_put t key f rv s)
    have s: "s = snd (ss_store st key)" using copy [OF sync_put(2)] sync_put(3) by (simp add: copy_ok_def)
    have "key' \<noteq> key" if "ss_pc st t' = Updating key' f' rv' s'" "t' \<noteq> t" for t' key' f' rv' s'
      using that holder_unique [OF sem(1) sync_put(2)] by auto
    then have "copy_ok (put key (SyncWrite f) (\<lambda>_. f s) st) key' rv' s'"
      if "ss_pc st t' = Updating key' f' rv' s'" "t' \<noteq> t" for t' key' f' rv' s'
      using that copy copy_ok_put by blast
    with s log show ?thesis unfolding sync_put(1) by (simp add: log_ok_put)
  next
    case (sync_get t key f rv s)
    then show ?thesis using copy log by (auto simp: copy_ok_def)
  next
    case (other_put key f)
    then show ?thesis using copy log by (auto intro: log_ok_put copy_ok_put)
  qed (use copy log in auto)
  with sem show ?thesis by (simp add: sync_inv_def)
qed

interpretation sync: invariant_of "sync_init base" sync_step "sync_inv base" for base
proof
  show "sync_inv base s" if "sync_init base s" for s
    using that by (simp add: sync_init_def sync_inv_def sem_ok_def log_ok_def)
qed (rule sync_inv_step)

text \<open>C18: No status update is lost. However the calls of \<open>SyncUpdate\<close> and the writes of other actors
  interleave, the stored status of a full node is the initial one with every successful write
  applied, one after the other; two calls for one full node never work at the same time; and as
  long as no other actor has written, and reads are current, the copy a call works on is current, so that the
  server never rejects the call's write as stale.\<close>

theorem SyncUpdate_serialises:
  assumes "reach (sync_init base) sync_step st"
  shows "snd (ss_store st key) = foldl (\<lambda>s w. write_fun w s) (base key) (ss_log st key) \<and>
    (holds (ss_pc st t) = Some key \<longrightarrow> holds (ss_pc st t') = Some key \<longrightarrow> t = t') \<and>
    (ss_pc st t = Updating key f rv s \<longrightarrow> list_all is_sync (ss_log st key) \<longrightarrow> (rv, s) = ss_store st key)"
proof -
  have inv: "sync_inv base st" using sync.reach_inv [OF assms] .
  have "t = t'" if "holds (ss_pc st t) = Some key" "holds (ss_pc st t') = Some key"
    using inv that by (simp add: sync_inv_def sem_ok_def)
  moreover have "(rv, s) = ss_store st key" if "ss_pc st t = Updating key f rv s" "list_all is_sync (ss_log st key)"
    using inv that unfolding sync_inv_def copy_ok_def by (metis prod.collapse)
  ultimately show ?thesis using inv by (simp add: sync_inv_def log_ok_def)
qed

text \<open>One call that read the status, with another actor waiting.\<close>

definition sync_base :: "ObjectKey \<Rightarrow> FullNodeStatus" where "sync_base _ = fn_Status sample_crd"

definition sync0 :: sync_state where
  "sync0 = \<lparr>ss_store = (\<lambda>key. (0, sync_base key)), ss_sem = (\<lambda>_. None), ss_pc = (\<lambda>_. Idle), ss_log = (\<lambda>_. [])\<rparr>"

definition sync_run :: sync_state where
  "sync_run = goto 1 (Waiting (ObjectKey ''chains'' ''osmo'') id)
     (goto 0 (Updating (ObjectKey ''chains'' ''osmo'') id 0 (fn_Status sample_crd))
       (goto 0 (Acquired (ObjectKey ''chains'' ''osmo'') id) ((goto 0 (Waiting (ObjectKey ''chains'' ''osmo'') id) sync0)
          \<lparr>ss_sem := (ss_sem sync0)(ObjectKey ''chains'' ''osmo'' := Some 0)\<rparr>)))"

lemma sync_run_reach: "reach (sync_init sync_base) sync_step sync_run"
proof -
  let ?k = "ObjectKey ''chains'' ''osmo''"
  let ?s1 = "goto 0 (Waiting ?k id) sync0"
  let ?s2 = "goto 0 (Acquired ?k id) (?s1\<lparr>ss_sem := (ss_sem ?s1)(?k := Some 0)\<rparr>)"
  let ?s3 = "goto 0 (Updating ?k id 0 (fn_Status sample_crd)) ?s2"
  have "reach (sync_init sync_base) sync_step sync0"
    by (rule reach_init) (simp add: sync_init_def sync0_def)
  then have "reach (sync_init sync_base) sync_step ?s1"
    by (rule reach_step) (rule sync_call, simp add: sync0_def)
  then have "reach (sync_init sync_base) sync_step ?s2"
    by (rule reach_step) (rule sync_acquire, simp_all add: sync0_def)
  then have "reach (sync_init sync_base) sync_step ?s3"
    by (rule reach_step) (rule sync_get, simp_all add: sync0_def sync_base_def goto_def)
  then have "reach (sync_init sync_base) sync_step (goto 1 (Waiting ?k id) ?s3)"
    by (rule reach_step) (rule sync_call, simp add: sync0_def)
  then show ?thesis by (simp add: sync_run_def)
qed

theorem SyncUpdate_serialises_witness:
  "reach (sync_init sync_base) sync_step sync_run \<and> holds (ss_pc sync_run 0) = Some (ObjectKey ''chains'' ''osmo'') \<and>
   (0, fn_Status sample_crd) = ss_store sync_run (ObjectKey ''chains'' ''osmo'') \<and>
   snd (ss_store sync_run (ObjectKey ''chains'' ''osmo'')) = foldl (\<lambda>s w. write_fun w s) (fn_Status sample_crd) []"
proof -
  have p: "ss_pc sync_run 0 = Updating (ObjectKey ''chains'' ''osmo'') id 0 (fn_Status sample_crd)"
    "ss_log sync_run (ObjectKey ''chains'' ''osmo'') = []"
    by (simp_all add: sync_run_def goto_def sync0_def)
  show ?thesis
    using sync_run_reach p SyncUpdate_serialises [OF sync_run_reach, of "ObjectKey ''chains'' ''osmo''" 0 1 id 0 "fn_Status sample_crd"]
    by (simp add: sync_base_def)
qed

end
