(* ===== verification/Controller_Results.thy ===== *)
theory Controller_Results
  imports Prelude
begin

text \<open>\<open>ctrl.Result\<close>, what a reconcile loop asks of the controller manager, and the results the controllers share.\<close>

record Result =
  rq_Requeue :: bool
  rq_RequeueAfter :: duration

definition stopResult :: Result where "stopResult = \<lparr>rq_Requeue = False, rq_RequeueAfter = 0\<rparr>"
definition requeueAfter :: "duration \<Rightarrow> Result" where "requeueAfter d = stopResult\<lparr>rq_RequeueAfter := d\<rparr>"

definition requeueResult :: Result where "requeueResult = requeueAfter (3 * time_Second)"

end
