(* ===== verification/Fullnode_Controller.thy ===== *)
theory Fullnode_Controller
  imports Resource_Controls Pod_Control Pvc_Control Status_Updates Controller_Results
begin

text \<open>
  \<^verbatim>\<open>controllers/cosmosfullnode_controller.go\<close>: the reconcile loop of a full node. It runs the controls
  of all resources one after the other, whatever the others return, collects their errors and
  derives the phase of the status from them; a deferred call sends the new status to the
  synchronised status client, also when a control panics. The arguments of the controls (server,
  sorting, encoding, answers to reads) are the record \<open>fullnode_env\<close>; what the loop leaves behind is
  the record \<open>fullnode_world\<close>: the write calls of each kind of resource, the sync info that the pod
  control mutates, the claims that the claim control reports, and the status updates sent.
\<close>

record 'b kind_env =
  ke_srv :: "'b server"
  ke_setRef :: "'b setref"
  ke_sort :: "'b sorter"
  ke_marshal :: "'b marshaler"

record fullnode_env =
  fe_Service :: "ServiceBody kind_env"
  fe_Secret :: "SecretBody kind_env"
  fe_ConfigMap :: "ConfigMapBody kind_env"
  fe_Account :: "unit kind_env"
  fe_Role :: "RoleBody kind_env"
  fe_Binding :: "RoleBindingBody kind_env"
  fe_Pod :: "PodBody kind_env"
  fe_PVC :: "PVCBody kind_env"
  fe_listServices :: "goerror + Service list"
  fe_listSecrets :: "goerror + Secret list"
  fe_listConfigMaps :: "goerror + ConfigMapBody kobject list"
  fe_listAccounts :: "goerror + unit kobject list"
  fe_listRoles :: "goerror + RoleBody kobject list"
  fe_listBindings :: "goerror + RoleBindingBody kobject list"
  fe_listPods :: "goerror + Pod list"
  fe_claimReads :: pvc_reads
  fe_peerReads :: peer_reads
  fe_statuses :: StatusCollection
  fe_keys :: key_lib
  fe_toml :: toml_lib
  fe_build :: build_env
  fe_patch :: patcher
  fe_scaled :: scaler
  fe_snapshotSort :: "VolumeSnapshot list \<Rightarrow> VolumeSnapshot list"

record fullnode_world =
  fw_Services :: "ServiceBody history"
  fw_Secrets :: "SecretBody history"
  fw_ConfigMaps :: "ConfigMapBody history"
  fw_Accounts :: "unit history"
  fw_Roles :: "RoleBody history"
  fw_Bindings :: "RoleBindingBody history"
  fw_Pods :: "PodBody history"
  fw_PVCs :: "PVCBody history"
  fw_Invalidated :: "string list"
  fw_SyncInfo :: "(string \<times> SyncInfoPodStatus) list"
  fw_Deleted :: "string list"
  fw_Updates :: "(ObjectKey \<times> status_fun) list"

text \<open>A step of the loop may panic; the calls that the steps before it sent stay. The controls that \<open>run_control\<close> runs can panic
  only while they build and compare their objects, before they send a call of their own.\<close>

type_synonym 'a fn_action = "fullnode_world \<Rightarrow> 'a exec \<times> fullnode_world"

definition fn_bind :: "'a fn_action \<Rightarrow> ('a \<Rightarrow> 'b fn_action) \<Rightarrow> 'b fn_action" where
  "fn_bind act f w = (case act w of (Panic m, w1) \<Rightarrow> (Panic m, w1) | (Ok a, w1) \<Rightarrow> f a w1)"

definition run_control ::
  "(fullnode_world \<Rightarrow> 'b history) \<Rightarrow> ('b history \<Rightarrow> fullnode_world \<Rightarrow> fullnode_world) \<Rightarrow>
   ('b history \<Rightarrow> ('e \<times> 'b history) exec) \<Rightarrow> 'e fn_action" where
  "run_control sel put_back control w =
     (case control (sel w) of Panic m \<Rightarrow> (Panic m, w) | Ok (e, h) \<Rightarrow> (Ok e, put_back h w))"

subsection \<open>The controls in the loop\<close>

definition reconcileServices :: "fullnode_env \<Rightarrow> CosmosFullNode \<Rightarrow> ReconcileError option fn_action" where
  "reconcileServices env crd = run_control fw_Services (\<lambda>h w. w\<lparr>fw_Services := h\<rparr>)
     (let k = fe_Service env in ServiceControl_Reconcile (ke_srv k) (ke_setRef k) (ke_sort k) (ke_marshal k) (fe_listServices env) crd)"

definition reconcileNodeKeys :: "fullnode_env \<Rightarrow> CosmosFullNode \<Rightarrow> ReconcileError option fn_action" where
  "reconcileNodeKeys env crd = run_control fw_Secrets (\<lambda>h w. w\<lparr>fw_Secrets := h\<rparr>)
     (let k = fe_Secret env in NodeKeyControl_Reconcile (ke_srv k) (ke_setRef k) (ke_sort k) (fe_keys env) (ke_marshal k) (fe_listSecrets env) crd)"

definition reconcileConfigMaps ::
  "fullnode_env \<Rightarrow> CosmosFullNode \<Rightarrow> Peers \<Rightarrow> (ReconcileError + (ObjectKey \<times> string) list) fn_action" where
  "reconcileConfigMaps env crd peers = run_control fw_ConfigMaps (\<lambda>h w. w\<lparr>fw_ConfigMaps := h\<rparr>)
     (let k = fe_ConfigMap env in ConfigMapControl_Reconcile (ke_srv k) (ke_setRef k) (ke_sort k) (fe_toml env) (ke_marshal k) (fe_listConfigMaps env) crd peers)"

definition reconcileAccounts :: "fullnode_env \<Rightarrow> CosmosFullNode \<Rightarrow> ReconcileError option fn_action" where
  "reconcileAccounts env crd = run_control fw_Accounts (\<lambda>h w. w\<lparr>fw_Accounts := h\<rparr>)
     (let k = fe_Account env in ServiceAccountControl_Reconcile (ke_srv k) (ke_setRef k) (ke_sort k) (ke_marshal k) (fe_listAccounts env) crd)"

definition reconcileRoles :: "fullnode_env \<Rightarrow> CosmosFullNode \<Rightarrow> ReconcileError option fn_action" where
  "reconcileRoles env crd = run_control fw_Roles (\<lambda>h w. w\<lparr>fw_Roles := h\<rparr>)
     (let k = fe_Role env in RoleControl_Reconcile (ke_srv k) (ke_setRef k) (ke_sort k) (ke_marshal k) (fe_listRoles env) crd)"

definition reconcileBindings :: "fullnode_env \<Rightarrow> CosmosFullNode \<Rightarrow> ReconcileError option fn_action" where
  "reconcileBindings env crd = run_control fw_Bindings (\<lambda>h w. w\<lparr>fw_Bindings := h\<rparr>)
     (let k = fe_Binding env in RoleBindingControl_Reconcile (ke_srv k) (ke_setRef k) (ke_sort k) (ke_marshal k) (fe_listBindings env) crd)"

definition reconcilePodsOf :: "fullnode_env \<Rightarrow> CosmosFullNode \<Rightarrow> ConfigChecksums \<Rightarrow> (bool \<times> ReconcileError option) fn_action" where
  "reconcilePodsOf env crd cksums w =
     (let k = fe_Pod env
      in case PodControl_Reconcile (fe_build env) (ke_marshal k) (fe_patch env) (ke_sort k) (ke_srv k) (ke_setRef k) (fe_scaled env)
                (fe_listPods env) crd cksums
                \<lparr>pcs_calls = fw_Pods w, pcs_syncInfo = fw_SyncInfo w, pcs_invalidate = []\<rparr> of
           (out, st) \<Rightarrow>
             let w1 = w\<lparr>fw_Pods := pcs_calls st, fw_SyncInfo := pcs_syncInfo st, fw_Invalidated := fw_Invalidated w @ pcs_invalidate st\<rparr>
             in case out of Panicked m \<Rightarrow> (Panic m, w1) | Returned requeue e \<Rightarrow> (Ok (requeue, e), w1))"

definition reconcileClaims :: "fullnode_env \<Rightarrow> CosmosFullNode \<Rightarrow> (bool \<times> ReconcileError option) fn_action" where
  "reconcileClaims env crd w =
     (let k = fe_PVC env
      in case PVCControl_Reconcile (ke_srv k) (ke_setRef k) (ke_sort k) (fe_snapshotSort env) (ke_marshal k) (fe_claimReads env) crd
                (fw_PVCs w, fw_Deleted w) of
           Panic m \<Rightarrow> (Panic m, w)
         | Ok (res, h, deleted) \<Rightarrow> (Ok res, w\<lparr>fw_PVCs := h, fw_Deleted := deleted\<rparr>))"

subsection \<open>The loop\<close>

definition Peers_Default :: Peers where "Peers_Default = []"

definition appendErr :: "ReconcileErrors \<Rightarrow> ReconcileError option \<Rightarrow> ReconcileErrors" where
  "appendErr errs e = (case e of None \<Rightarrow> errs | Some err \<Rightarrow> ReconcileErrors_Append errs err)"

definition set_fn :: "(FullNodeStatus \<Rightarrow> FullNodeStatus) \<Rightarrow> CosmosFullNode \<Rightarrow> CosmosFullNode" where
  "set_fn f crd = crd\<lparr>fn_Status := f (fn_Status crd)\<rparr>"

definition resultWithErr :: "CosmosFullNode \<Rightarrow> ReconcileErrors \<Rightarrow> (Result \<times> goerror option) \<times> CosmosFullNode" where
  "resultWithErr crd errs =
     (let err = errorNew (ReconcileErrors_Error errs)
      in if ReconcileErrors_IsTransient errs
         then ((requeueResult, Some err), set_fn (\<lambda>st. st\<lparr>st_StatusMessage := Some (''Transient error: system is retrying: '' @ ge_msg err),
                 st_Phase := FullNodePhaseTransientError\<rparr>) crd)
         else ((stopResult, Some err), set_fn (\<lambda>st. st\<lparr>st_Phase := FullNodePhaseError,
                 st_StatusMessage := Some (''Unrecoverable error: human intervention required: '' @ ge_msg err)\<rparr>) crd))"

definition finish :: "CosmosFullNode \<Rightarrow> ReconcileErrors \<Rightarrow> bool \<Rightarrow> bool \<Rightarrow> Peers \<Rightarrow> (Result \<times> goerror option) \<times> CosmosFullNode" where
  "finish crd errs podRequeue pvcRequeue peers =
     (if ReconcileErrors_Any errs then resultWithErr crd errs
      else if podRequeue \<or> pvcRequeue then ((requeueResult, None), crd)
      else if HasIncompleteExternalAddress peers
      then ((requeueAfter (30 * time_Second), None), set_fn (\<lambda>st. st\<lparr>st_Phase := FullNodePhaseP2PServices\<rparr>) crd)
      else ((requeueAfter (30 * time_Second), None),
            set_fn (\<lambda>st. st\<lparr>st_Peers := AllExternal peers, st_Phase := FullNodePhaseCompete\<rparr>) crd))"

definition fullnode_body :: "fullnode_env \<Rightarrow> CosmosFullNode \<Rightarrow> ((Result \<times> goerror option) \<times> CosmosFullNode) fn_action" where
  "fullnode_body env crd =
     fn_bind (reconcileServices env crd) (\<lambda>e1. let errs1 = appendErr [] e1 in
     fn_bind (reconcileNodeKeys env crd) (\<lambda>e2. let errs2 = appendErr errs1 e2;
       (peers, errs3) = (case PeerCollector_Collect (fe_keys env) (fe_peerReads env) crd of
                           Inl perr \<Rightarrow> (Peers_Default, ReconcileErrors_Append errs2 perr)
                         | Inr peers \<Rightarrow> (peers, errs2)) in
     fn_bind (reconcileConfigMaps env crd peers) (\<lambda>r.
       let (configCksums, errs4) = (case r of Inl err \<Rightarrow> ([], ReconcileErrors_Append errs3 err) | Inr cksums \<Rightarrow> (cksums, errs3)) in
     fn_bind (reconcileAccounts env crd) (\<lambda>e5. let errs5 = appendErr errs4 e5 in
     fn_bind (reconcileRoles env crd) (\<lambda>e6. let errs6 = appendErr errs5 e6 in
     fn_bind (reconcileBindings env crd) (\<lambda>e7. let errs7 = appendErr errs6 e7 in
     fn_bind (reconcilePodsOf env crd configCksums) (\<lambda>(podRequeue, e8). let errs8 = appendErr errs7 e8 in
     fn_bind (reconcileClaims env crd) (\<lambda>(pvcRequeue, e9). let errs9 = appendErr errs8 e9 in
       (\<lambda>w. (Ok (finish crd errs9 podRequeue pvcRequeue peers), w))))))))))"

text \<open>The function that \<open>updateStatus\<close> hands to the status client. It reads the status of the resource
  in memory and the maps that the controls have changed.\<close>

definition record_height :: "(string \<times> uint64) list \<Rightarrow> string \<times> SyncInfoPodStatus \<Rightarrow> (string \<times> uint64) list" where
  "record_height heights kv =
     (case si_Height (snd kv) of
        None \<Rightarrow> heights
      | Some h \<Rightarrow> if h > 0 then AList.update (fst kv) (h + 1) heights else heights)"

definition updateStatus ::
  "CosmosFullNode \<Rightarrow> (string \<times> SyncInfoPodStatus) list \<Rightarrow> string list \<Rightarrow> FullNodeStatus \<Rightarrow> FullNodeStatus" where
  "updateStatus crd syncInfo deleted status =
     status\<lparr>st_ObservedGeneration := st_ObservedGeneration (fn_Status crd), st_Phase := st_Phase (fn_Status crd),
       st_StatusMessage := st_StatusMessage (fn_Status crd), st_Peers := st_Peers (fn_Status crd), st_SyncInfo := syncInfo,
       st_Height := foldl record_height (st_Height status) syncInfo,
       st_SelfHealing := (st_SelfHealing status)\<lparr>shs_PVCAutoScale :=
         map_option (\<lambda>m. foldl (\<lambda>m k. AList.delete k m) m deleted) (shs_PVCAutoScale (st_SelfHealing status))\<rparr>\<rparr>"

definition CosmosFullNode_Reconcile ::
  "fullnode_env \<Rightarrow> goerror + CosmosFullNode \<Rightarrow> fullnode_world \<Rightarrow> (Result \<times> goerror option) exec \<times> fullnode_world" where
  "CosmosFullNode_Reconcile env got w =
     (case got of
        Inl err \<Rightarrow> (Ok (stopResult, IgnoreNotFound (Some err)), w)
      | Inr crd0 \<Rightarrow>
          let crd = Status_Updates.ResetStatus crd0;
              (res, w1) = fullnode_body env crd (w\<lparr>fw_SyncInfo := SyncInfoStatus (fe_statuses env), fw_Deleted := []\<rparr>);
              crd1 = (case res of Panic _ \<Rightarrow> crd | Ok (_, crd1) \<Rightarrow> crd1);
              key = ObjectKey (fn_Namespace crd) (om_Name (fn_Meta crd))
          in (exec_bind res (\<lambda>(r, _). Ok r), w1\<lparr>fw_Updates := fw_Updates w1 @ [(key, updateStatus crd1 (fw_SyncInfo w1) (fw_Deleted w1))]\<rparr>))"

subsection \<open>What a step keeps\<close>

definition keeps :: "(fullnode_world \<Rightarrow> bool) \<Rightarrow> 'a fn_action \<Rightarrow> bool" where
  "keeps P act \<longleftrightarrow> (\<forall>w. P w \<longrightarrow> P (snd (act w)))"

lemma keeps_bind: "keeps P act \<Longrightarrow> (\<And>a. keeps P (f a)) \<Longrightarrow> keeps P (fn_bind act f)"
  unfolding keeps_def fn_bind_def by (auto split: prod.split exec.split)

lemma keeps_return [simp]: "keeps P (\<lambda>w. (x, w))"
  by (simp add: keeps_def)

lemma keeps_control: "(\<And>w h. P w \<Longrightarrow> P (put_back h w)) \<Longrightarrow> keeps P (run_control sel put_back ctl)"
  unfolding keeps_def run_control_def by (auto split: exec.split)

lemmas step_defs = reconcileServices_def reconcileNodeKeys_def reconcileConfigMaps_def reconcileAccounts_def
  reconcileRoles_def reconcileBindings_def

text \<open>Whatever holds of the part that the pod control works on is kept by the loop if the pod control keeps it.\<close>

lemma fullnode_body_keeps:
  assumes "\<And>w h. P w \<Longrightarrow> P (w\<lparr>fw_Services := h\<rparr>)" "\<And>w h. P w \<Longrightarrow> P (w\<lparr>fw_Secrets := h\<rparr>)" "\<And>w h. P w \<Longrightarrow> P (w\<lparr>fw_ConfigMaps := h\<rparr>)"
    "\<And>w h. P w \<Longrightarrow> P (w\<lparr>fw_Accounts := h\<rparr>)" "\<And>w h. P w \<Longrightarrow> P (w\<lparr>fw_Roles := h\<rparr>)" "\<And>w h. P w \<Longrightarrow> P (w\<lparr>fw_Bindings := h\<rparr>)"
    "\<And>w h ds. P w \<Longrightarrow> P (w\<lparr>fw_PVCs := h, fw_Deleted := ds\<rparr>)" and pods: "\<And>cksums. keeps P (reconcilePodsOf env crd cksums)"
  shows "keeps P (fullnode_body env crd)"
proof -
  have claims: "keeps P (reconcileClaims env crd)"
    using assms(7) by (auto simp: keeps_def reconcileClaims_def Let_def split: exec.split prod.split)
  have rest: "keeps P (fn_bind (reconcilePodsOf env crd cksums) (\<lambda>(podRequeue, e8). let errs8 = appendErr errs7 e8 in
     fn_bind (reconcileClaims env crd) (\<lambda>(pvcRequeue, e9). let errs9 = appendErr errs8 e9 in
       (\<lambda>w. (Ok (finish crd errs9 podRequeue pvcRequeue peers), w)))))" for cksums errs7 peers
    by (intro keeps_bind pods) (auto simp: Let_def intro!: keeps_bind claims)
  show ?thesis
    unfolding fullnode_body_def step_defs Let_def case_prod_unfold
    by (intro keeps_bind keeps_control assms(1-6) rest [unfolded Let_def case_prod_unfold]; assumption)
qed

text \<open>The pod control works on its state by three kinds of steps.\<close>

lemma each_keeps:
  assumes "\<And>ob st. ob \<in> set obs \<Longrightarrow> I st \<Longrightarrow> I (snd (step ob st))" and "I st"
  shows "I (snd (each step obs st))"
  using assms by (induction obs arbitrary: st) (auto split: prod.split option.split, (metis snd_conv)+)

lemma rollout_keeps:
  assumes res: "\<And>what reason ob st. I st \<Longrightarrow> I (snd (restart_step srv what reason ob st))" and "I st"
  shows "I (snd (rollout srv scaled crd pods updates st))"
proof -
  have "I (ro_state (snd (observe_step srv updates p ro)))" if "I (ro_state ro)" for p ro
    using that res by (auto simp: observe_step_def Let_def split: option.split list.split prod.split) (metis snd_conv)+
  then have obs: "I (ro_state (snd (each (observe_step srv updates) pods ro)))" if "I (ro_state ro)" for ro
    using that each_keeps [of pods "\<lambda>ro. I (ro_state ro)"] by blast
  have loop: "I (snd (snd (update_loop srv N ps up st)))" if "I st" for N ps up st
    using that
  proof (induction ps arbitrary: up st)
    case (Cons p ps)
    have "I (snd (restart_step srv ''update pod'' ''update in progress'' p st))" using res Cons.prems by blast
    then show ?case using Cons.IH by (auto split: prod.split option.split)
  qed simp
  obtain q ro where ro: "each (observe_step srv updates) pods
      \<lparr>ro_state = st, ro_updatedPods = 0, ro_rpcReachablePods = 0, ro_inSyncPods = 0, ro_otherUpdates = []\<rparr> = (q, ro)" (is "?e = _")
    by (cases ?e)
  then have "I (ro_state ro)"
    using obs [of "\<lparr>ro_state = st, ro_updatedPods = 0, ro_rpcReachablePods = 0, ro_inSyncPods = 0, ro_otherUpdates = []\<rparr>"] assms(2) by simp
  then have upd: "I st'" if "update_loop srv N ps up (ro_state ro) = (r, u, st')" for N ps up r u st'
    using loop [of "ro_state ro" N ps up] that by simp
  show ?thesis
  proof (cases q)
    case None
    let ?ready = "if ro_inSyncPods ro = 0 then ro_rpcReachablePods ro else ro_inSyncPods ro"
    show ?thesis
      using None ro \<open>I (ro_state ro)\<close>
      by (cases "ComputeRollout scaled (ro_MaxUnavailable (sp_RolloutStrategy (fn_Spec crd))) (sp_Replicas (fn_Spec crd)) ?ready")
        (auto simp: rollout_def Let_def split: prod.split option.split dest: upd)
  qed (use ro \<open>I (ro_state ro)\<close> in \<open>simp add: rollout_def\<close>)
qed

lemma PodControl_keeps:
  assumes cre: "\<And>want d ob st. BuildPods env marshal patch crd cksums = Ok (Inr want) \<Longrightarrow> listed = Inr pods \<Longrightarrow> Diff_New srt pods want = Ok d \<Longrightarrow>
      ob \<in> set (df_creates d) \<Longrightarrow> I st \<Longrightarrow> I (snd (create_pod_step srv setRef ob st))"
    and del: "\<And>ob st. I st \<Longrightarrow> I (snd (delete_pod_step srv ob st))"
    and res: "\<And>what reason ob st. I st \<Longrightarrow> I (snd (restart_step srv what reason ob st))" and "I st"
    and lst: "\<And>ps. listed = Inr ps \<Longrightarrow> ps = pods"
  shows "I (snd (PodControl_Reconcile env marshal patch srt srv setRef scaled listed crd cksums st))"
proof -
  have "I (snd (reconcilePods srv setRef scaled crd pods d st))"
    if w: "BuildPods env marshal patch crd cksums = Ok (Inr want)" "listed = Inr pods" "Diff_New srt pods want = Ok d" for want d
  proof -
    obtain q1 st1 where 1: "each (create_pod_step srv setRef) (df_creates d) st = (q1, st1)" (is "?e = _") by (cases ?e)
    obtain q2 st2 where 2: "each (delete_pod_step srv) (df_deletes d) st1 = (q2, st2)" (is "?e = _") by (cases ?e)
    have "I st1" using each_keeps [of "df_creates d" I] cre [OF w] assms(4) 1 by (metis snd_conv)
    moreover from this have "I st2" using each_keeps [of "df_deletes d" I] del 2 by (metis snd_conv)
    ultimately show ?thesis using rollout_keeps [of I, OF res] 1 2
      by (auto simp: reconcilePods_def split: option.split)
  qed
  note here = this
  show ?thesis
  proof (cases listed)
    case (Inr ps)
    show ?thesis
    proof (cases "BuildPods env marshal patch crd cksums")
      case built: (Ok r)
      show ?thesis
      proof (cases r)
        case want: (Inr want)
        show ?thesis using here [OF built [unfolded want]] Inr lst built want assms(4)
          by (cases "Diff_New srt pods want") (simp_all add: PodControl_Reconcile_def)
      qed (use Inr built assms(4) in \<open>simp add: PodControl_Reconcile_def\<close>)
    qed (use Inr assms(4) in \<open>simp add: PodControl_Reconcile_def\<close>)
  qed (use assms(4) in \<open>simp add: PodControl_Reconcile_def\<close>)
qed

lemma reconcilePodsOf_keeps:
  assumes "\<And>w. P w \<Longrightarrow> I \<lparr>pcs_calls = fw_Pods w, pcs_syncInfo = fw_SyncInfo w, pcs_invalidate = []\<rparr>"
    and "\<And>w st inv. P w \<Longrightarrow> I st \<Longrightarrow> P (w\<lparr>fw_Pods := pcs_calls st, fw_SyncInfo := pcs_syncInfo st, fw_Invalidated := inv\<rparr>)"
    and "\<And>st. I st \<Longrightarrow> I (snd (PodControl_Reconcile (fe_build env) (ke_marshal (fe_Pod env)) (fe_patch env) (ke_sort (fe_Pod env))
      (ke_srv (fe_Pod env)) (ke_setRef (fe_Pod env)) (fe_scaled env) (fe_listPods env) crd cksums st))"
  shows "keeps P (reconcilePodsOf env crd cksums)"
  unfolding keeps_def
proof (intro allI impI)
  fix w assume "P w"
  obtain out st where o: "PodControl_Reconcile (fe_build env) (ke_marshal (fe_Pod env)) (fe_patch env) (ke_sort (fe_Pod env))
      (ke_srv (fe_Pod env)) (ke_setRef (fe_Pod env)) (fe_scaled env) (fe_listPods env) crd cksums
      \<lparr>pcs_calls = fw_Pods w, pcs_syncInfo = fw_SyncInfo w, pcs_invalidate = []\<rparr> = (out, st)" (is "?e = _") by (cases ?e)
  then have "I st" using assms(3) [OF assms(1) [OF \<open>P w\<close>]] by simp
  with o assms(2) [OF \<open>P w\<close>] show "P (snd (reconcilePodsOf env crd cksums w))"
    by (simp add: reconcilePodsOf_def Let_def split: pod_outcome.split)
qed

lemma body_keeps_updates: "keeps (\<lambda>w. fw_Updates w = U) (fullnode_body env crd)"
  by (rule fullnode_body_keeps) (auto intro: reconcilePodsOf_keeps [where I = "\<lambda>_. True"])

lemma PodControl_distinct:
  assumes "distinct (map fst (pcs_syncInfo st))"
  shows "distinct (map fst (pcs_syncInfo (snd (PodControl_Reconcile env marshal patch srt srv setRef scaled listed crd cksums st))))"
proof (rule PodControl_keeps [where I = "\<lambda>st. distinct (map fst (pcs_syncInfo st))" and pods = "projr listed"])
  fix ob and st :: pod_state
  assume "distinct (map fst (pcs_syncInfo st))"
  then show "distinct (map fst (pcs_syncInfo (snd (create_pod_step srv setRef ob st))))"
      "distinct (map fst (pcs_syncInfo (snd (delete_pod_step srv ob st))))"
      "distinct (map fst (pcs_syncInfo (snd (restart_step srv what reason ob st))))" for what reason
    by (auto simp: create_pod_step_def delete_pod_step_def restart_step_def distinct_update distinct_delete split: prod.split option.split)
qed (use assms in auto)

lemma body_keeps_distinct: "keeps (\<lambda>w. distinct (map fst (fw_SyncInfo w))) (fullnode_body env crd)"
proof (rule fullnode_body_keeps)
  fix cksums
  show "keeps (\<lambda>w. distinct (map fst (fw_SyncInfo w))) (reconcilePodsOf env crd cksums)"
    by (rule reconcilePodsOf_keeps [where I = "\<lambda>st. distinct (map fst (pcs_syncInfo st))"])
      (simp_all add: PodControl_distinct)
qed auto

subsection \<open>Pods that are not to run\<close>

definition wanted_pod :: "string list \<Rightarrow> ConfigChecksums \<Rightarrow> PodBody Resource \<Rightarrow> bool" where
  "wanted_pod cands cksums r \<longleftrightarrow> (\<exists>pod. rs_Object r = annotateChecksum cksums pod \<and> GetName pod \<notin> set cands)"

lemma BuildPods_loop_wanted:
  assumes "BuildPods_loop env marshal patch b cands cksums is acc = Ok (Inr rs)" and "list_all (wanted_pod cands cksums) acc"
  shows "list_all (wanted_pod cands cksums) rs"
  using assms
proof (induction "is" arbitrary: acc)
  case (Cons i "is")
  then obtain c where c: "WithOrdinal env b i = Ok c" by auto
  with Cons.prems obtain p where p: "Build patch c = Inr p" by (cases "Build patch c") auto
  show ?case
  proof (cases p)
    case None
    with Cons c p show ?thesis by simp
  next
    case (Some pod)
    show ?thesis
    proof (cases "GetName pod \<in> set cands")
      case True
      with Cons Some c p show ?thesis by simp
    next
      case False
      with Cons.prems(1) Some c p obtain r where r: "Adapt marshal (annotateChecksum cksums pod) i = Ok r"
          "BuildPods_loop env marshal patch b cands cksums is (acc @ [r]) = Ok (Inr rs)" by auto
      from Adapt_Ok [OF r(1)] False have "wanted_pod cands cksums r" by (auto simp: wanted_pod_def)
      with Cons.prems(2) have "list_all (wanted_pod cands cksums) (acc @ [r])" by simp
      from Cons.IH [OF r(2) this] show ?thesis .
    qed
  qed
qed simp

lemma BuildPods_wanted:
  "BuildPods env marshal patch crd cksums = Ok (Inr rs) \<Longrightarrow> r \<in> set rs \<Longrightarrow> wanted_pod (podCandidates crd) cksums r"
  using BuildPods_loop_wanted [of env marshal patch _ "podCandidates crd" cksums _ "[]" rs] by (auto simp: BuildPods_def list_all_iff)

lemma BuildPods_candidates:
  "BuildPods env marshal patch crd cksums = Ok (Inr rs) \<Longrightarrow> r \<in> set rs \<Longrightarrow> GetName (rs_Object r) \<notin> set (podCandidates crd)"
  using BuildPods_wanted [of env marshal patch crd cksums rs r] by (auto simp: wanted_pod_def)

definition quiet_calls :: "string list \<Rightarrow> PodBody history \<Rightarrow> PodBody history \<Rightarrow> bool" where
  "quiet_calls names h h' \<longleftrightarrow> (\<exists>cs. h' = h @ cs \<and> (\<forall>ob. Create ob \<in> set cs \<longrightarrow> GetName ob \<notin> set names))"

lemma quiet_calls_refl [simp]: "quiet_calls names h h"
  by (simp add: quiet_calls_def)

lemma quiet_calls_snoc:
  "quiet_calls names h h' \<Longrightarrow> (\<And>ob. c = Create ob \<Longrightarrow> GetName ob \<notin> set names) \<Longrightarrow> quiet_calls names h (h' @ [c])"
  by (auto simp: quiet_calls_def)

lemma PodControl_quiet:
  assumes "setref_ok setRef" and "ordering_of srt rs_Ordinal" and "quiet_calls (podCandidates crd) h (pcs_calls st)"
  shows "quiet_calls (podCandidates crd) h
    (pcs_calls (snd (PodControl_Reconcile env marshal patch srt srv setRef scaled listed crd cksums st)))"
proof (rule PodControl_keeps [where I = "\<lambda>st. quiet_calls (podCandidates crd) h (pcs_calls st)" and pods = "projr listed"])
  fix want d ob and st :: pod_state
  assume b: "BuildPods env marshal patch crd cksums = Ok (Inr want)" "Diff_New srt (projr listed) want = Ok d" "ob \<in> set (df_creates d)"
    and q: "quiet_calls (podCandidates crd) h (pcs_calls st)"
  obtain r where r: "r \<in> set want" "ob = stamp r" using diff_order.creates_iff [OF diff_order.intro [OF assms(2)] b(2)] b(3) by blast
  have "GetName (owned setRef ob) = GetName (rs_Object r)"
    using owned_simps(1) [OF assms(1), of ob] r(2) key_stamp [of r] by (simp add: rs_key_def object_defs)
  with BuildPods_candidates [OF b(1) r(1)] have n: "GetName (owned setRef ob) \<notin> set (podCandidates crd)" by simp
  obtain q' h' where s: "create_step srv setRef (named ''pod'') (\<lambda>n. ''create '' @ named ''pod'' n) ob (pcs_calls st) = (q', h')" (is "?e = _") by (cases ?e)
  then have "h' = pcs_calls st \<or> h' = pcs_calls st @ [Create (owned setRef ob)]"
    by (auto simp: create_step_def owned_simps(3) [OF assms(1)] send_def split: option.splits if_splits)
  with n q have "quiet_calls (podCandidates crd) h h'" by (auto intro: quiet_calls_snoc)
  with s show "quiet_calls (podCandidates crd) h (pcs_calls (snd (create_pod_step srv setRef ob st)))" by (simp add: create_pod_step_def)
qed (use assms(3) in \<open>auto simp: delete_pod_step_def restart_step_def send_def split: option.split intro: quiet_calls_snoc\<close>)

lemma body_quiet:
  assumes "setref_ok (ke_setRef (fe_Pod env))" and "ordering_of (ke_sort (fe_Pod env)) rs_Ordinal"
  shows "keeps (\<lambda>w. quiet_calls (podCandidates crd) h (fw_Pods w)) (fullnode_body env crd)"
proof (rule fullnode_body_keeps)
  fix cksums
  show "keeps (\<lambda>w. quiet_calls (podCandidates crd) h (fw_Pods w)) (reconcilePodsOf env crd cksums)"
    by (rule reconcilePodsOf_keeps [where I = "\<lambda>st. quiet_calls (podCandidates crd) h (pcs_calls st)"])
      (auto intro: PodControl_quiet assms)
qed auto

subsection \<open>The outcome of a reconcile\<close>

lemma fn_bind_Ok: "fn_bind act f w = (Ok b, w2) \<longleftrightarrow> (\<exists>a w1. act w = (Ok a, w1) \<and> f a w1 = (Ok b, w2))"
  by (auto simp: fn_bind_def split: prod.split exec.split)

lemma run_control_Ok:
  "run_control sel put_back ctl w = (Ok e, w') \<longleftrightarrow> (\<exists>h. ctl (sel w) = Ok (e, h) \<and> w' = put_back h w)"
  by (auto simp: run_control_def split: exec.split)

text \<open>A loop that returns has run every control on its own history; errors of one are not seen by the others.\<close>

lemma fullnode_body_Ok:
  assumes "fullnode_body env crd w = (Ok out, w')"
  shows "\<exists>e1 e2 e5 e6 e7 errs pr vr peers.
    (let k = fe_Service env in ServiceControl_Reconcile (ke_srv k) (ke_setRef k) (ke_sort k) (ke_marshal k) (fe_listServices env) crd (fw_Services w)) = Ok (e1, fw_Services w') \<and>
    (let k = fe_Secret env in NodeKeyControl_Reconcile (ke_srv k) (ke_setRef k) (ke_sort k) (fe_keys env) (ke_marshal k) (fe_listSecrets env) crd (fw_Secrets w)) = Ok (e2, fw_Secrets w') \<and>
    (let k = fe_Account env in ServiceAccountControl_Reconcile (ke_srv k) (ke_setRef k) (ke_sort k) (ke_marshal k) (fe_listAccounts env) crd (fw_Accounts w)) = Ok (e5, fw_Accounts w') \<and>
    (let k = fe_Role env in RoleControl_Reconcile (ke_srv k) (ke_setRef k) (ke_sort k) (ke_marshal k) (fe_listRoles env) crd (fw_Roles w)) = Ok (e6, fw_Roles w') \<and>
    (let k = fe_Binding env in RoleBindingControl_Reconcile (ke_srv k) (ke_setRef k) (ke_sort k) (ke_marshal k) (fe_listBindings env) crd (fw_Bindings w)) = Ok (e7, fw_Bindings w') \<and>
    out = finish crd errs pr vr peers"
proof -
  have pods: "fw_Services w2 = fw_Services w1 \<and> fw_Secrets w2 = fw_Secrets w1 \<and> fw_Accounts w2 = fw_Accounts w1 \<and>
      fw_Roles w2 = fw_Roles w1 \<and> fw_Bindings w2 = fw_Bindings w1" if "reconcilePodsOf env crd cks w1 = (r, w2)" for cks w1 r w2
    using that by (auto simp: reconcilePodsOf_def Let_def split: prod.splits pod_outcome.splits)
  have claims: "fw_Services w2 = fw_Services w1 \<and> fw_Secrets w2 = fw_Secrets w1 \<and> fw_Accounts w2 = fw_Accounts w1 \<and>
      fw_Roles w2 = fw_Roles w1 \<and> fw_Bindings w2 = fw_Bindings w1" if "reconcileClaims env crd w1 = (r, w2)" for w1 r w2
    using that by (auto simp: reconcileClaims_def Let_def split: exec.splits)
  show ?thesis
    using assms unfolding fullnode_body_def step_defs fn_bind_Ok run_control_Ok Let_def case_prod_unfold
    by (auto dest!: pods claims)
qed

lemma finish_cases:
  "finish crd errs pr vr peers = ((r, e), crd1) \<Longrightarrow>
    (case e of
       Some err \<Rightarrow> errs \<noteq> [] \<and> ge_msg err = ReconcileErrors_Error errs \<and>
         (if \<forall>x \<in> set errs. re_isTransient x then r = requeueResult \<and> st_Phase (fn_Status crd1) = FullNodePhaseTransientError
          else r = stopResult \<and> st_Phase (fn_Status crd1) = FullNodePhaseError)
     | None \<Rightarrow> errs = [] \<and>
         (if pr \<or> vr then r = requeueResult \<and> st_Phase (fn_Status crd1) = st_Phase (fn_Status crd)
          else r = requeueAfter (30 * time_Second) \<and>
            st_Phase (fn_Status crd1) = (if HasIncompleteExternalAddress peers then FullNodePhaseP2PServices else FullNodePhaseCompete))) \<and>
    st_ObservedGeneration (fn_Status crd1) = st_ObservedGeneration (fn_Status crd)"
  by (auto simp: finish_def resultWithErr_def ReconcileErrors_Any_def ReconcileErrors_IsTransient_iff set_fn_def Let_def errorNew_def split: if_splits)

definition recorded :: "SyncInfoPodStatus option \<Rightarrow> uint64 option \<Rightarrow> uint64 option" where
  "recorded si old =
     (case si of
        Some s \<Rightarrow> (case si_Height s of Some h \<Rightarrow> if h > 0 then Some (h + 1) else old | None \<Rightarrow> old)
      | None \<Rightarrow> old)"

lemma record_heights:
  "distinct (map fst si) \<Longrightarrow> map_of (foldl record_height hs si) n = recorded (map_of si n) (map_of hs n)"
proof (induction si arbitrary: hs)
  case Nil
  then show ?case by (simp add: recorded_def)
next
  case (Cons kv si)
  then have "map_of si (fst kv) = None" by (simp add: map_of_eq_None_iff)
  with Cons show ?case
    by (cases kv) (auto simp: record_height_def recorded_def update_conv' split: option.split)
qed

lemma delete_all: "map_of (foldl (\<lambda>m k. AList.delete k m) m ks) n = (if n \<in> set ks then None else map_of m n)"
  by (induction ks arbitrary: m) (auto simp: delete_conv')

lemma SyncInfoStatus_distinct: "distinct (map fst (SyncInfoStatus coll))"
  by (induction coll rule: rev_induct) (simp_all add: SyncInfoStatus_snoc distinct_update, simp add: SyncInfoStatus_def)

lemma ResetStatus_simps [simp]:
  "fn_Meta (Status_Updates.ResetStatus crd) = fn_Meta crd" "fn_Spec (Status_Updates.ResetStatus crd) = fn_Spec crd"
  "st_Phase (fn_Status (Status_Updates.ResetStatus crd)) = FullNodePhaseProgressing"
  "st_ObservedGeneration (fn_Status (Status_Updates.ResetStatus crd)) = om_Generation (fn_Meta crd)"
  "podCandidates (Status_Updates.ResetStatus crd) = podCandidates crd"
  by (simp_all add: Status_Updates.ResetStatus_def podCandidates_def)

text \<open>The one status update of a reconcile, in terms of the loop.\<close>

lemma Reconcile_unfold:
  assumes "CosmosFullNode_Reconcile env (Inr crd) w = (res, w')"
  shows "\<exists>res1 w1 crd1. fullnode_body env (Status_Updates.ResetStatus crd) (w\<lparr>fw_SyncInfo := SyncInfoStatus (fe_statuses env), fw_Deleted := []\<rparr>) = (res1, w1) \<and>
    w' = w1\<lparr>fw_Updates := fw_Updates w @ [(ObjectKey (fn_Namespace crd) (om_Name (fn_Meta crd)), updateStatus crd1 (fw_SyncInfo w') (fw_Deleted w'))]\<rparr> \<and>
    distinct (map fst (fw_SyncInfo w')) \<and>
    (case res1 of Panic m \<Rightarrow> res = Panic m \<and> crd1 = Status_Updates.ResetStatus crd | Ok (r, c) \<Rightarrow> res = Ok r \<and> crd1 = c)"
proof -
  obtain res1 w1 where b: "fullnode_body env (Status_Updates.ResetStatus crd) (w\<lparr>fw_SyncInfo := SyncInfoStatus (fe_statuses env), fw_Deleted := []\<rparr>) = (res1, w1)" (is "?e = _")
    by (cases ?e)
  have "fw_Updates w1 = fw_Updates w"
    using body_keeps_updates [unfolded keeps_def, rule_format, where w = "w\<lparr>fw_SyncInfo := SyncInfoStatus (fe_statuses env), fw_Deleted := []\<rparr>"
        and U = "fw_Updates w" and env = env and crd = "Status_Updates.ResetStatus crd"] b by simp
  moreover have "distinct (map fst (fw_SyncInfo w1))"
    using body_keeps_distinct [unfolded keeps_def, rule_format, where w = "w\<lparr>fw_SyncInfo := SyncInfoStatus (fe_statuses env), fw_Deleted := []\<rparr>"
        and env = env and crd = "Status_Updates.ResetStatus crd"] b SyncInfoStatus_distinct by simp
  ultimately show ?thesis
    using assms b by (cases res1) (auto simp: CosmosFullNode_Reconcile_def Let_def)
qed

lemma Reconcile_returns:
  assumes "CosmosFullNode_Reconcile env (Inr crd) w = (Ok r, w')"
  shows "\<exists>out w1 us. fullnode_body env (Status_Updates.ResetStatus crd) (w\<lparr>fw_SyncInfo := SyncInfoStatus (fe_statuses env), fw_Deleted := []\<rparr>) =
    (Ok out, w1) \<and> w' = w1\<lparr>fw_Updates := us\<rparr>"
proof -
  obtain res1 w1 crd1 us where b: "fullnode_body env (Status_Updates.ResetStatus crd)
      (w\<lparr>fw_SyncInfo := SyncInfoStatus (fe_statuses env), fw_Deleted := []\<rparr>) = (res1, w1)" "w' = w1\<lparr>fw_Updates := us\<rparr>"
      "case res1 of Panic m \<Rightarrow> Ok r = Panic m \<and> crd1 = Status_Updates.ResetStatus crd | Ok (q, c) \<Rightarrow> Ok r = Ok q \<and> crd1 = c"
    using Reconcile_unfold [OF assms] by blast
  then show ?thesis by (cases res1) auto
qed

text \<open>The phase that goes with what a reconcile returns.\<close>

definition phase_fits :: "(Result \<times> goerror option) exec \<Rightarrow> FullNodePhase \<Rightarrow> bool" where
  "phase_fits res phase =
     (case res of
        Panic _ \<Rightarrow> phase = FullNodePhaseProgressing
      | Ok (r, Some _) \<Rightarrow> r = requeueResult \<and> phase = FullNodePhaseTransientError \<or> r = stopResult \<and> phase = FullNodePhaseError
      | Ok (r, None) \<Rightarrow> r = requeueResult \<and> phase = FullNodePhaseProgressing \<or>
          r = requeueAfter (30 * time_Second) \<and> phase \<in> {FullNodePhaseP2PServices, FullNodePhaseCompete})"

subsection \<open>Properties\<close>

text \<open>C24: What a reconcile reports. Every reconcile of an existing full node sends exactly one status update,
  for its key, also when a control panics. The update, applied to whatever status is stored by then,
  leaves the scheduled snapshots alone, records the observed generation, adds one to the reported
  heights and keeps the heights of all other pods, and forgets the requested sizes of exactly the
  claims that were reported. The phase tells the outcome: unrecoverable errors stop the loop, transient
  ones retry it with the error phase; without an error the loop is in progress, or polls every 30
  seconds.\<close>

theorem fullnode_status:
  assumes "CosmosFullNode_Reconcile env (Inr crd) w = (res, w')"
  shows "\<exists>f. fw_Updates w' = fw_Updates w @ [(ObjectKey (fn_Namespace crd) (om_Name (fn_Meta crd)), f)] \<and>
    (\<forall>st. st_ScheduledSnapshotStatus (f st) = st_ScheduledSnapshotStatus st \<and>
       st_ObservedGeneration (f st) = om_Generation (fn_Meta crd) \<and> st_SyncInfo (f st) = fw_SyncInfo w' \<and>
       (\<forall>n. map_of (st_Height (f st)) n = recorded (map_of (fw_SyncInfo w') n) (map_of (st_Height st) n)) \<and>
       (\<forall>m. shs_PVCAutoScale (st_SelfHealing st) = Some m \<longrightarrow> (\<exists>m'. shs_PVCAutoScale (st_SelfHealing (f st)) = Some m' \<and>
          (\<forall>n. map_of m' n = (if n \<in> set (fw_Deleted w') then None else map_of m n)))) \<and>
       phase_fits res (st_Phase (f st)))"
proof -
  obtain res1 w1 crd1 where b:
      "fullnode_body env (Status_Updates.ResetStatus crd) (w\<lparr>fw_SyncInfo := SyncInfoStatus (fe_statuses env), fw_Deleted := []\<rparr>) = (res1, w1)"
      "w' = w1\<lparr>fw_Updates := fw_Updates w @ [(ObjectKey (fn_Namespace crd) (om_Name (fn_Meta crd)), updateStatus crd1 (fw_SyncInfo w') (fw_Deleted w'))]\<rparr>"
      "distinct (map fst (fw_SyncInfo w'))"
      "case res1 of Panic m \<Rightarrow> res = Panic m \<and> crd1 = Status_Updates.ResetStatus crd | Ok (r, c) \<Rightarrow> res = Ok r \<and> crd1 = c"
    using Reconcile_unfold [OF assms] by blast
  have phase: "st_ObservedGeneration (fn_Status crd1) = om_Generation (fn_Meta crd) \<and> phase_fits res (st_Phase (fn_Status crd1))"
  proof (cases res1)
    case (Panic m)
    with b(4) show ?thesis by (simp add: phase_fits_def)
  next
    case (Ok out)
    obtain r e where out: "out = ((r, e), crd1)" "res = Ok (r, e)" using b(4) Ok by (cases out) auto
    from fullnode_body_Ok [OF b(1) [unfolded Ok]] obtain errs pr vr peers where
        "finish (Status_Updates.ResetStatus crd) errs pr vr peers = ((r, e), crd1)" using out by metis
    from finish_cases [OF this] out(2) show ?thesis by (auto simp: phase_fits_def split: option.splits if_splits)
  qed
  let ?f = "updateStatus crd1 (fw_SyncInfo w') (fw_Deleted w')"
  have "fw_Updates w' = fw_Updates w @ [(ObjectKey (fn_Namespace crd) (om_Name (fn_Meta crd)), ?f)]" using b(2) by (metis fullnode_world.select_convs(12) fullnode_world.update_convs(12) fullnode_world.surjective)
  moreover have "map_of (st_Height (?f st)) n = recorded (map_of (fw_SyncInfo w') n) (map_of (st_Height st) n)" for st n
    using record_heights [OF b(3)] by (simp add: updateStatus_def)
  moreover have "st_Phase (?f st) = st_Phase (fn_Status crd1)" for st by (simp add: updateStatus_def)
  ultimately show ?thesis using phase by (intro exI [of _ ?f] conjI allI) (simp_all add: updateStatus_def delete_all)
qed

text \<open>The environment in which a kind of resource can be repaired: the library's sorting and encoding work,
  and the server accepts the calls for that kind.\<close>

definition kind_ok :: "'b kind_env \<Rightarrow> bool" where
  "kind_ok k \<longleftrightarrow> ordering_of (ke_sort k) rs_Ordinal \<and> accepts (ke_srv k) \<and> setref_ok (ke_setRef k) \<and> encodes (ke_marshal k)"

definition converged :: "'b history \<Rightarrow> 'b history \<Rightarrow> 'b kobject list \<Rightarrow> 'b Resource list \<Rightarrow> bool" where
  "converged h h' current want \<longleftrightarrow> distinct (map rs_key want) \<and>
     (\<exists>cs. h' = h @ cs \<and> run_calls cs (cluster_revs current) = cluster_revs current ++ wanted_revs want)"

lemma upsert_converged:
  assumes "kind_ok k" and "distinct (map ObjectKeyFromObject current)" and "built = Ok want" and "distinct (map rs_key want)"
    and "upsert_control plural what (ke_srv k) (ke_setRef k) (ke_sort k) (Inr current) built h = Ok (e, h')"
  shows "converged h h' current want"
  using upsert_control_converges [of "ke_sort k" "ke_srv k" "ke_setRef k" current built want plural what h] assms
  by (auto simp: kind_ok_def converged_def)

text \<open>C23: One failing control does not keep the others from repairing the cluster. Whatever the controls of
  config maps, pods and volume claims and the peer collector meet, a reconcile that returns, with an
  error or not, has brought the services, node keys, service accounts, roles and role bindings of
  servers that accept calls to the revisions that the full node wants, and left all other such objects
  alone.\<close>

theorem fullnode_repairs:
  assumes "CosmosFullNode_Reconcile env (Inr crd) w = (Ok r, w')"
    and "kind_ok (fe_Service env)" "kind_ok (fe_Secret env)" "kind_ok (fe_Account env)" "kind_ok (fe_Role env)" "kind_ok (fe_Binding env)"
    and "fe_listServices env = Inr svcs" "distinct (map ObjectKeyFromObject svcs)"
    and "fe_listSecrets env = Inr secs" "distinct (map ObjectKeyFromObject secs)"
    and "fe_listAccounts env = Inr accs" "distinct (map ObjectKeyFromObject accs)"
    and "fe_listRoles env = Inr roles" "distinct (map ObjectKeyFromObject roles)"
    and "fe_listBindings env = Inr binds" "distinct (map ObjectKeyFromObject binds)"
    and "0 \<le> sp_Replicas (fn_Spec crd)" "sp_Replicas (fn_Spec crd) < 2 ^ 30" and "\<And>i. \<exists>k. randNodeKey (fe_keys env) i = Inr k"
  shows "\<exists>w1 w2 w3 w4 w5.
    BuildServices (ke_marshal (fe_Service env)) (Status_Updates.ResetStatus crd) = Ok w1 \<and> converged (fw_Services w) (fw_Services w') svcs w1 \<and>
    BuildNodeKeySecrets (fe_keys env) (ke_marshal (fe_Secret env)) secs (Status_Updates.ResetStatus crd) = Ok (Inr w2) \<and>
      converged (fw_Secrets w) (fw_Secrets w') secs w2 \<and>
    BuildServiceAccounts (ke_marshal (fe_Account env)) (Status_Updates.ResetStatus crd) = Ok w3 \<and> converged (fw_Accounts w) (fw_Accounts w') accs w3 \<and>
    BuildRoles (ke_marshal (fe_Role env)) (Status_Updates.ResetStatus crd) = Ok w4 \<and> converged (fw_Roles w) (fw_Roles w') roles w4 \<and>
    BuildRoleBindings (ke_marshal (fe_Binding env)) (Status_Updates.ResetStatus crd) = Ok w5 \<and> converged (fw_Bindings w) (fw_Bindings w') binds w5"
proof -
  let ?crd = "Status_Updates.ResetStatus crd" and ?w = "w\<lparr>fw_SyncInfo := SyncInfoStatus (fe_statuses env), fw_Deleted := []\<rparr>"
  obtain out w1 us where b: "fullnode_body env ?crd ?w = (Ok out, w1)" "w' = w1\<lparr>fw_Updates := us\<rparr>"
    using Reconcile_returns [OF assms(1)] by blast
  from fullnode_body_Ok [OF b(1)] b(2) obtain e1 e2 e5 e6 e7 where run:
      "(let k = fe_Service env in ServiceControl_Reconcile (ke_srv k) (ke_setRef k) (ke_sort k) (ke_marshal k) (fe_listServices env) ?crd (fw_Services w)) = Ok (e1, fw_Services w')"
      "(let k = fe_Secret env in NodeKeyControl_Reconcile (ke_srv k) (ke_setRef k) (ke_sort k) (fe_keys env) (ke_marshal k) (fe_listSecrets env) ?crd (fw_Secrets w)) = Ok (e2, fw_Secrets w')"
      "(let k = fe_Account env in ServiceAccountControl_Reconcile (ke_srv k) (ke_setRef k) (ke_sort k) (ke_marshal k) (fe_listAccounts env) ?crd (fw_Accounts w)) = Ok (e5, fw_Accounts w')"
      "(let k = fe_Role env in RoleControl_Reconcile (ke_srv k) (ke_setRef k) (ke_sort k) (ke_marshal k) (fe_listRoles env) ?crd (fw_Roles w)) = Ok (e6, fw_Roles w')"
      "(let k = fe_Binding env in RoleBindingControl_Reconcile (ke_srv k) (ke_setRef k) (ke_sort k) (ke_marshal k) (fe_listBindings env) ?crd (fw_Bindings w)) = Ok (e7, fw_Bindings w')" by auto
  have rep: "0 \<le> sp_Replicas (fn_Spec ?crd)" "sp_Replicas (fn_Spec ?crd) < 2 ^ 30" "int32_replicas ?crd"
    using assms(17,18) by (simp_all add: int32_replicas_def)
  obtain w1 where w1: "BuildServices (ke_marshal (fe_Service env)) ?crd = Ok w1" "distinct (map rs_key w1)"
    using BuildServices_distinct [OF rep(1,2)] assms(2) unfolding kind_ok_def by blast
  obtain w2 where w2: "BuildNodeKeySecrets (fe_keys env) (ke_marshal (fe_Secret env)) secs ?crd = Ok (Inr w2)" "distinct (map rs_key w2)"
    using BuildNodeKeySecrets_distinct [OF rep(1,3) _ assms(19)] assms(3) unfolding kind_ok_def by blast
  obtain sa ro rb where w3: "BuildServiceAccounts (ke_marshal (fe_Account env)) ?crd = Ok [sa]" "BuildRoles (ke_marshal (fe_Role env)) ?crd = Ok [ro]"
      "BuildRoleBindings (ke_marshal (fe_Binding env)) ?crd = Ok [rb]"
    using rbac_consistent assms(4-6) unfolding kind_ok_def by blast
  have "converged (fw_Services w) (fw_Services w') svcs w1"
    using upsert_converged [OF assms(2,8) w1] run(1) assms(7)
    by (auto simp: ServiceControl_Reconcile_def Let_def)
  moreover have "converged (fw_Secrets w) (fw_Secrets w') secs w2"
    using NodeKeyControl_converges [OF _ _ _ assms(10) w2, of "ke_sort (fe_Secret env)" "ke_srv (fe_Secret env)" "ke_setRef (fe_Secret env)" "fw_Secrets w"]
      assms(3) run(2) assms(9) w2(2)
    by (auto simp: Let_def kind_ok_def converged_def)
  moreover have "converged (fw_Accounts w) (fw_Accounts w') accs [sa]"
    using upsert_converged [OF assms(4,12) w3(1)] run(3) assms(11)
    by (auto simp: ServiceAccountControl_Reconcile_def Let_def)
  moreover have "converged (fw_Roles w) (fw_Roles w') roles [ro]"
    using upsert_converged [OF assms(5,14) w3(2)] run(4) assms(13)
    by (auto simp: RoleControl_Reconcile_def Let_def)
  moreover have "converged (fw_Bindings w) (fw_Bindings w') binds [rb]"
    using upsert_converged [OF assms(6,16) w3(3)] run(5) assms(15)
    by (auto simp: RoleBindingControl_Reconcile_def Let_def)
  ultimately show ?thesis using w1(1) w2(1) w3 by blast
qed

text \<open>
  The config map control returns no checksums along with an error, and the loop goes on with the pods:
  it builds every pod with an empty checksum, that is at another revision than before, so that a failing
  list or update of config maps restarts pods whose configuration has not changed.
\<close>

theorem checksums_lost:
  assumes "CosmosFullNode_Reconcile env (Inr crd) w = (Ok r, w')" and "fe_listConfigMaps env = Inl err"
  shows "\<exists>w1 w2 res. reconcilePodsOf env (Status_Updates.ResetStatus crd) [] w1 = (Ok res, w2) \<and>
    fw_Pods w1 = fw_Pods w \<and> fw_Pods w2 = fw_Pods w' \<and>
    (\<forall>marshal patch rs pod. BuildPods (fe_build env) marshal patch (Status_Updates.ResetStatus crd) [] = Ok (Inr rs) \<longrightarrow> pod \<in> set rs \<longrightarrow>
       map_of (om_Annotations (ob_Meta (rs_Object pod))) configChecksumAnnotation = Some [])"
proof -
  obtain out w3 us where b: "fullnode_body env (Status_Updates.ResetStatus crd)
      (w\<lparr>fw_SyncInfo := SyncInfoStatus (fe_statuses env), fw_Deleted := []\<rparr>) = (Ok out, w3)" "w' = w3\<lparr>fw_Updates := us\<rparr>"
    using Reconcile_returns [OF assms(1)] by blast
  have claims: "fw_Pods w2 = fw_Pods w1" if "reconcileClaims env (Status_Updates.ResetStatus crd) w1 = (r, w2)" for w1 r w2
    using that by (auto simp: reconcileClaims_def Let_def split: exec.splits)
  have cm: "reconcileConfigMaps env c ps w1 = (Ok (Inl (TransientError (wrap ''list existing configmaps: '' err))), w1)" for c ps w1
    using assms(2) by (simp add: reconcileConfigMaps_def run_control_def ConfigMapControl_Reconcile_def Let_def)
  have kept: "reconcileServices env c w1 = (r, w2) \<Longrightarrow> fw_Pods w2 = fw_Pods w1" "reconcileNodeKeys env c w1 = (r, w2) \<Longrightarrow> fw_Pods w2 = fw_Pods w1"
      "reconcileAccounts env c w1 = (r, w2) \<Longrightarrow> fw_Pods w2 = fw_Pods w1" "reconcileRoles env c w1 = (r, w2) \<Longrightarrow> fw_Pods w2 = fw_Pods w1"
      "reconcileBindings env c w1 = (r, w2) \<Longrightarrow> fw_Pods w2 = fw_Pods w1" for c r w1 w2
    by (auto simp: step_defs run_control_def split: exec.splits)
  obtain w1 w2 res where "reconcilePodsOf env (Status_Updates.ResetStatus crd) [] w1 = (Ok res, w2)" "fw_Pods w1 = fw_Pods w" "fw_Pods w2 = fw_Pods w3"
    using b(1) unfolding fullnode_body_def fn_bind_Ok cm Let_def case_prod_unfold
    by (auto dest!: claims kept)
  moreover have "map_of (om_Annotations (ob_Meta (rs_Object pod))) configChecksumAnnotation = Some []"
    if "BuildPods (fe_build env) marshal patch c [] = Ok (Inr rs)" "pod \<in> set rs" for marshal patch rs pod c
    using BuildPods_wanted [OF that] by (auto simp: wanted_pod_def annotateChecksum_def upd_meta_def checksum_get_def update_conv')
  ultimately show ?thesis using b(2) by (intro exI [of _ w1] exI [of _ w2] exI [of _ res]) simp
qed

subsection \<open>Witnesses\<close>

text \<open>A cluster that answers for services, keys and RBAC objects only, and one node that reports its height.\<close>

definition good_kind :: "'b kind_env" where
  "good_kind = \<lparr>ke_srv = accept_all, ke_setRef = ref_setref sample_owner, ke_sort = sort_key rs_Ordinal, ke_marshal = name_marshal\<rparr>"

lemma good_kind_ok: "kind_ok good_kind"
  using accepted name_marshal_encodes by (simp add: kind_ok_def good_kind_def)

definition down :: goerror where "down = errorNew ''down''"

definition down_env :: fullnode_env where
  "down_env = \<lparr>fe_Service = good_kind, fe_Secret = good_kind, fe_ConfigMap = good_kind, fe_Account = good_kind, fe_Role = good_kind,
     fe_Binding = good_kind, fe_Pod = good_kind, fe_PVC = good_kind, fe_listServices = Inr [], fe_listSecrets = Inr [],
     fe_listConfigMaps = Inl down, fe_listAccounts = Inr [], fe_listRoles = Inr [], fe_listBindings = Inr [], fe_listPods = Inl down,
     fe_claimReads = \<lparr>pr_listPVCs = Inl down, pr_listPods = Inl down, pr_getSnapshot = (\<lambda>_ _. Inl down), pr_getPVC = (\<lambda>_ _. Inl down),
       pr_listSnapshots = (\<lambda>_ _. Inl down)\<rparr>,
     fe_peerReads = \<lparr>rd_Secret = (\<lambda>_. Inl down), rd_Service = (\<lambda>_. Inl down)\<rparr>,
     fe_statuses = [], fe_keys = sample_keys, fe_toml = sample_toml, fe_build = sample_env, fe_patch = ref_patch, fe_scaled = scaled_ref,
     fe_snapshotSort = id\<rparr>"

definition fresh_world :: fullnode_world where
  "fresh_world = \<lparr>fw_Services = [], fw_Secrets = [], fw_ConfigMaps = [], fw_Accounts = [], fw_Roles = [], fw_Bindings = [], fw_Pods = [],
     fw_PVCs = [], fw_Invalidated = [], fw_SyncInfo = [], fw_Deleted = [], fw_Updates = []\<rparr>"

lemma down_returns: "\<exists>r w'. CosmosFullNode_Reconcile down_env (Inr sample_crd) fresh_world = (Ok r, w')"
proof -
  let ?crd = "Status_Updates.ResetStatus sample_crd"
  have r: "0 \<le> sp_Replicas (fn_Spec ?crd)" "sp_Replicas (fn_Spec ?crd) < 2 ^ 30" "int32_replicas ?crd"
    by (simp_all add: sample_crd_defs int32_replicas_def)
  have kind: "ke_srv good_kind = accept_all" "ke_setRef good_kind = ref_setref sample_owner" "ke_sort good_kind = sort_key rs_Ordinal"
      "ke_marshal good_kind = name_marshal" by (simp_all add: good_kind_def)
  obtain want where "BuildServices name_marshal ?crd = Ok want" "distinct (map rs_key want)"
    using BuildServices_distinct [OF r(1,2) name_marshal_encodes] by blast
  then obtain h1 where h1: "ServiceControl_Reconcile accept_all (ref_setref sample_owner) (sort_key rs_Ordinal) name_marshal (Inr []) ?crd [] = Ok (None, h1)"
    unfolding ServiceControl_Reconcile_def by (metis sample_upsert)
  obtain keys where "BuildNodeKeySecrets sample_keys name_marshal [] ?crd = Ok (Inr keys)" "distinct (map rs_key keys)"
    using BuildNodeKeySecrets_distinct [OF r(1,3) name_marshal_encodes sample_keys_total] by blast
  then obtain h2 where h2: "NodeKeyControl_Reconcile accept_all (ref_setref sample_owner) (sort_key rs_Ordinal) sample_keys name_marshal (Inr []) ?crd [] = Ok (None, h2)"
    using NodeKeyControl_converges [OF accepted, of "[]" sample_keys name_marshal ?crd keys "[]"] by auto
  obtain sa ro rb where b: "BuildServiceAccounts name_marshal ?crd = Ok [sa]" "BuildRoles name_marshal ?crd = Ok [ro]"
      "BuildRoleBindings name_marshal ?crd = Ok [rb]"
    using rbac_consistent [OF name_marshal_encodes name_marshal_encodes name_marshal_encodes] by blast
  obtain h3 where h3: "RoleControl_Reconcile accept_all (ref_setref sample_owner) (sort_key rs_Ordinal) name_marshal (Inr []) ?crd [] = Ok (None, h3)"
    using sample_upsert [OF b(2)] by (auto simp: RoleControl_Reconcile_def)
  obtain h4 where h4: "RoleBindingControl_Reconcile accept_all (ref_setref sample_owner) (sort_key rs_Ordinal) name_marshal (Inr []) ?crd [] = Ok (None, h4)"
    using sample_upsert [OF b(3)] by (auto simp: RoleBindingControl_Reconcile_def)
  obtain h5 where h5: "ServiceAccountControl_Reconcile accept_all (ref_setref sample_owner) (sort_key rs_Ordinal) name_marshal (Inr []) ?crd [] = Ok (None, h5)"
    using sample_upsert [OF b(1)] by (auto simp: ServiceAccountControl_Reconcile_def)
  have "\<exists>out w1. fullnode_body down_env ?crd (fresh_world\<lparr>fw_SyncInfo := SyncInfoStatus [], fw_Deleted := []\<rparr>) = (Ok out, w1)"
    unfolding fullnode_body_def step_defs
    by (simp add: fn_bind_def run_control_def reconcilePodsOf_def reconcileClaims_def down_env_def fresh_world_def Let_def kind h1 h2 h3 h4 h5
      ConfigMapControl_Reconcile_def PodControl_Reconcile_def PVCControl_Reconcile_def case_prod_unfold)
  then show ?thesis by (auto simp: CosmosFullNode_Reconcile_def Let_def down_env_def)
qed

theorem fullnode_status_witness:
  "\<exists>r w' f. CosmosFullNode_Reconcile down_env (Inr sample_crd) fresh_world = (Ok r, w') \<and>
     fw_Updates w' = [(ObjectKey (fn_Namespace sample_crd) ''osmo'', f)] \<and>
     st_ScheduledSnapshotStatus (f (fn_Status sample_crd)) = st_ScheduledSnapshotStatus (fn_Status sample_crd)"
proof -
  obtain r w' where r: "CosmosFullNode_Reconcile down_env (Inr sample_crd) fresh_world = (Ok r, w')" using down_returns by blast
  from fullnode_status [OF r] show ?thesis
    using r by (auto simp: fresh_world_def sample_crd_defs)
qed

theorem fullnode_repairs_witness:
  "\<exists>r w' want. CosmosFullNode_Reconcile down_env (Inr sample_crd) fresh_world = (Ok r, w') \<and>
     BuildServices name_marshal (Status_Updates.ResetStatus sample_crd) = Ok want \<and> converged [] (fw_Services w') [] want"
proof -
  obtain r w' where r: "CosmosFullNode_Reconcile down_env (Inr sample_crd) fresh_world = (Ok r, w')" using down_returns by blast
  have k: "kind_ok (fe_Service down_env)" "kind_ok (fe_Secret down_env)" "kind_ok (fe_Account down_env)" "kind_ok (fe_Role down_env)"
      "kind_ok (fe_Binding down_env)" by (simp_all add: down_env_def good_kind_ok)
  have "\<exists>k. randNodeKey (fe_keys down_env) i = Inr k" for i by (simp add: down_env_def sample_keys_total)
  from fullnode_repairs [OF r k, of "[]" "[]" "[]" "[]" "[]", OF _ _ _ _ _ _ _ _ _ _ _ _ this] r show ?thesis
    by (auto simp: down_env_def fresh_world_def good_kind_def sample_crd_defs)
qed

end
