(* ===== verification/Pod_Rollout.thy ===== *)
theory Pod_Rollout
  imports Pod_Control
begin

text \<open>
  The rollout of \<^verbatim>\<open>internal/fullnode/pod_control.go\<close> over many reconciles. A round lists the pods,
  reconciles them against a server that accepts the calls, and leaves the pods that the calls make of
  the listed ones; before each round all listed pods are in sync. A measure on the pods' revisions
  shows that the rounds reach the wanted pods, and how many they need; and that no round ever does
  anything when the full node wants too few pods for its own threshold.
\<close>

subsection \<open>Rounds\<close>

text \<open>The pods that a call leaves. The control sends no updates or patches of pods.\<close>

fun pods_after :: "PodBody call \<Rightarrow> Pod list \<Rightarrow> Pod list" where
  "pods_after (Create ob) pods = filter (\<lambda>p. ObjectKeyFromObject p \<noteq> ObjectKeyFromObject ob) pods @ [ob]"
| "pods_after (Delete ob) pods = filter (\<lambda>p. ObjectKeyFromObject p \<noteq> ObjectKeyFromObject ob) pods"
| "pods_after _ pods = pods"

definition pods_left :: "PodBody call list \<Rightarrow> Pod list \<Rightarrow> Pod list" where
  "pods_left cs pods = foldl (\<lambda>ps c. pods_after c ps) pods cs"

definition pods_ok :: "CosmosFullNode \<Rightarrow> Pod list \<Rightarrow> bool" where
  "pods_ok crd pods \<longleftrightarrow> distinct (map ObjectKeyFromObject pods) \<and>
     (\<forall>p \<in> set pods. live p \<and> GetNamespace p = fn_Namespace crd \<and> ps_Containers (pod_Spec p) \<noteq> [])"

definition all_in_sync :: "(string \<times> SyncInfoPodStatus) list \<Rightarrow> Pod list \<Rightarrow> bool" where
  "all_in_sync s pods \<longleftrightarrow> sync_ok s \<and> (\<forall>p \<in> set pods. in_sync s (GetName p))"

record rollout_env =
  re_build :: build_env
  re_marshal :: "PodBody marshaler"
  re_patch :: patcher
  re_sort :: "PodBody Resource list \<Rightarrow> PodBody Resource list"
  re_srv :: "PodBody server"
  re_setRef :: "PodBody setref"
  re_scaled :: scaler
  re_crd :: CosmosFullNode
  re_cksums :: ConfigChecksums

definition control_run :: "rollout_env \<Rightarrow> (string \<times> SyncInfoPodStatus) list \<Rightarrow> Pod list \<Rightarrow> pod_outcome \<times> pod_state" where
  "control_run e s pods = PodControl_Reconcile (re_build e) (re_marshal e) (re_patch e) (re_sort e) (re_srv e) (re_setRef e) (re_scaled e)
     (Inr pods) (re_crd e) (re_cksums e) \<lparr>pcs_calls = [], pcs_syncInfo = s, pcs_invalidate = []\<rparr>"

definition pod_round :: "rollout_env \<Rightarrow> Pod list \<Rightarrow> Pod list \<Rightarrow> bool" where
  "pod_round e pods pods' \<longleftrightarrow> (\<exists>s. all_in_sync s pods \<and> pods' = pods_left (pcs_calls (snd (control_run e s pods))) pods)"

text \<open>The setting: a server that accepts, a library that sorts and sets owners, and wanted pods that can run.\<close>

definition rollout_ok :: "rollout_env \<Rightarrow> PodBody Resource list \<Rightarrow> int \<Rightarrow> bool" where
  "rollout_ok e want u \<longleftrightarrow> ordering_of (re_sort e) rs_Ordinal \<and> accepts (re_srv e) \<and> setref_ok (re_setRef e) \<and>
     (\<forall>ob ob'. re_setRef e ob = Inr ob' \<longrightarrow> om_DeletionTimestamp (ob_Meta ob') = om_DeletionTimestamp (ob_Meta ob)) \<and>
     BuildPods (re_build e) (re_marshal e) (re_patch e) (re_crd e) (re_cksums e) = Ok (Inr want) \<and> distinct (map rs_key want) \<and>
     (\<forall>r \<in> set want. live (rs_Object r) \<and> GetNamespace (rs_Object r) = fn_Namespace (re_crd e) \<and>
        ps_Containers (pod_Spec (rs_Object r)) \<noteq> []) \<and>
     re_scaled e (case ro_MaxUnavailable (sp_RolloutStrategy (fn_Spec (re_crd e))) of None \<Rightarrow> defaultMaxUnavail | Some m \<Rightarrow> m)
       (sp_Replicas (fn_Spec (re_crd e))) = Inr u \<and> 0 < sp_Replicas (fn_Spec (re_crd e))"

subsection \<open>Pods and revisions\<close>

lemma cluster_revs_snoc:
  "ObjectKeyFromObject ob \<notin> set (map ObjectKeyFromObject pods) \<Longrightarrow>
    cluster_revs (pods @ [ob]) = (cluster_revs pods)(ObjectKeyFromObject ob \<mapsto> obj_rev ob)"
  by (induction pods) (auto simp: cluster_revs_def fun_upd_twist)

lemma cluster_revs_filter:
  "cluster_revs (filter (\<lambda>p. ObjectKeyFromObject p \<noteq> k) pods) = (cluster_revs pods)(k := None)"
  by (induction pods) (auto simp: cluster_revs_def)

lemma revs_after:
  assumes "\<exists>ob. c = Create ob \<or> c = Delete ob"
  shows "cluster_revs (pods_after c pods) = call_effect c (cluster_revs pods)"
proof -
  have "cluster_revs (pods_after (Create ob) pods) = (cluster_revs pods)(ObjectKeyFromObject ob \<mapsto> obj_rev ob)" for ob
    by (simp, subst cluster_revs_snoc) (auto simp: cluster_revs_filter)
  with assms show ?thesis by (auto simp: cluster_revs_filter)
qed

lemma revs_left:
  assumes "\<forall>c \<in> set cs. \<exists>ob. c = Create ob \<or> c = Delete ob"
  shows "cluster_revs (pods_left cs pods) = run_calls cs (cluster_revs pods)"
  using assms
proof (induction cs arbitrary: pods)
  case (Cons c cs)
  then show ?case using revs_after [of c pods] by (simp add: pods_left_def run_calls_def)
qed (simp add: pods_left_def run_calls_def)

lemma pods_ok_left:
  assumes "pods_ok crd pods"
    and "\<And>ob. Create ob \<in> set cs \<Longrightarrow> live ob \<and> GetNamespace ob = fn_Namespace crd \<and> ps_Containers (pod_Spec ob) \<noteq> []"
  shows "pods_ok crd (pods_left cs pods)"
  using assms
proof (induction cs arbitrary: pods)
  case (Cons c cs)
  have "pods_ok crd (pods_after c pods)"
    using Cons.prems by (cases c) (auto simp: pods_ok_def distinct_map_filter)
  then show ?case using Cons by (simp add: pods_left_def)
qed (simp add: pods_left_def)

subsection \<open>The measure\<close>

text \<open>The keys at another revision than wanted. Deleting one of them leaves a pod to create; creating
  pods and deleting unwanted ones takes one round.\<close>

definition outdated :: "revs \<Rightarrow> revs \<Rightarrow> ObjectKey set" where
  "outdated m w = {k. m k \<noteq> None \<and> w k \<noteq> None \<and> m k \<noteq> w k}"

definition rounds_left :: "revs \<Rightarrow> revs \<Rightarrow> nat" where
  "rounds_left m w = 2 * card (outdated m w) + (if dom m = dom w then 0 else 1)"

lemma outdated_dom: "outdated m w \<subseteq> dom m"
  by (auto simp: outdated_def)

lemma finite_outdated: "finite (dom m) \<Longrightarrow> finite (outdated m w)"
  using outdated_dom finite_subset by blast

lemma rounds_left_0:
  assumes "finite (dom m)"
  shows "rounds_left m w = 0 \<longleftrightarrow> m = w"
proof
  assume "rounds_left m w = 0"
  then have "outdated m w = {}" and "dom m = dom w"
    using finite_outdated [OF assms] by (auto simp: rounds_left_def split: if_splits)
  show "m = w"
  proof
    fix k
    have "m k = None \<or> w k = None \<or> m k = w k" using \<open>outdated m w = {}\<close> by (auto simp: outdated_def)
    moreover have "m k = None \<longleftrightarrow> w k = None" using \<open>dom m = dom w\<close> by (metis domIff)
    ultimately show "m k = w k" by auto
  qed
qed (simp add: rounds_left_def outdated_def)

lemma rounds_left_self [simp]: "rounds_left w w = 0"
  by (simp add: rounds_left_def outdated_def)

lemma finite_dom_cluster [simp]: "finite (dom (cluster_revs pods))"
  by (simp add: cluster_revs_def finite_dom_map_of)

lemma dom_cluster: "dom (cluster_revs pods) = ObjectKeyFromObject ` set pods"
  by (simp add: cluster_revs_def dom_map_of_conv_image_fst image_image)

lemma dom_wanted: "dom (wanted_revs want) = rs_key ` set want"
  by (simp add: wanted_revs_def dom_map_of_conv_image_fst image_image)

lemma rounds_left_bound: "rounds_left (cluster_revs pods) w \<le> 2 * length pods + 1"
proof -
  have "card (outdated (cluster_revs pods) w) \<le> card (ObjectKeyFromObject ` set pods)"
    using card_mono [OF finite_dom_cluster outdated_dom, of pods w] by (simp only: dom_cluster)
  also have "\<dots> \<le> length pods" by (meson card_image_le card_length finite_set le_trans)
  finally show ?thesis by (simp add: rounds_left_def)
qed

text \<open>The two kinds of rounds, on revisions.\<close>

definition scaled_revs :: "revs \<Rightarrow> revs \<Rightarrow> revs" where
  "scaled_revs m w k = (case w k of None \<Rightarrow> None | Some v \<Rightarrow> (case m k of None \<Rightarrow> Some v | Some v' \<Rightarrow> Some v'))"

lemma rounds_left_scaled:
  assumes "dom m \<noteq> dom w"
  shows "rounds_left (scaled_revs m w) w < rounds_left m w"
proof -
  have "outdated (scaled_revs m w) w = outdated m w" by (auto simp: outdated_def scaled_revs_def split: option.splits)
  moreover have "dom (scaled_revs m w) = dom w" by (auto simp: scaled_revs_def dom_def split: option.splits)
  ultimately show ?thesis using assms by (simp add: rounds_left_def)
qed

lemma rounds_left_deleted:
  assumes "K \<subseteq> outdated m w" and "K \<noteq> {}" and "finite (dom m)" and "dom m = dom w"
  shows "rounds_left (m |` (- K)) w < rounds_left m w"
proof -
  have "outdated (m |` (- K)) w = outdated m w - K" by (auto simp: outdated_def restrict_map_def)
  moreover have "outdated m w - K \<subset> outdated m w" using assms(1,2) by blast
  ultimately have "card (outdated (m |` (- K)) w) < card (outdated m w)"
    using psubset_card_mono [OF finite_outdated [OF assms(3)]] by metis
  then show ?thesis by (simp add: rounds_left_def assms(4))
qed

subsection \<open>What a round does\<close>

lemma creates_accepted:
  assumes "accepts srv" and "setref_ok setRef"
  shows "each (create_pod_step srv setRef) obs st = (None, st\<lparr>pcs_calls := pcs_calls st @ map (\<lambda>ob. Create (owned setRef ob)) obs\<rparr>)"
proof (induction obs arbitrary: st)
  case (Cons ob obs)
  have "create_pod_step srv setRef ob st = (None, st\<lparr>pcs_calls := pcs_calls st @ [Create (owned setRef ob)]\<rparr>)"
    using assms(1) by (simp add: create_pod_step_def create_step_def owned_simps(3) [OF assms(2)] send_def accepts_def IgnoreAlreadyExists_def)
  then show ?case using Cons by simp
qed simp

lemma deletes_accepted:
  assumes "accepts srv"
  shows "\<exists>st'. each (delete_pod_step srv) obs st = (None, st') \<and> pcs_calls st' = pcs_calls st @ map Delete obs"
proof (induction obs arbitrary: st)
  case (Cons ob obs)
  obtain st1 where "delete_pod_step srv ob st = (None, st1)" "pcs_calls st1 = pcs_calls st @ [Delete ob]"
    using assms by (simp add: delete_pod_step_def send_def accepts_def IgnoreNotFound_def)
  with Cons [of st1] show ?case by auto
qed simp

lemma scaling_calls:
  assumes ok: "rollout_ok e want u" and D: "Diff_New (re_sort e) pods want = Ok d" and "df_creates d \<noteq> [] \<or> df_deletes d \<noteq> []"
  shows "pcs_calls (snd (control_run e s pods)) = map (\<lambda>ob. Create (owned (re_setRef e) ob)) (df_creates d) @ map Delete (df_deletes d)"
proof -
  let ?st = "\<lparr>pcs_calls = [], pcs_syncInfo = s, pcs_invalidate = []\<rparr>"
  have a: "accepts (re_srv e)" "setref_ok (re_setRef e)" using ok by (simp_all add: rollout_ok_def)
  note cre = creates_accepted [OF a, of "df_creates d" ?st]
  obtain st2 where "each (delete_pod_step (re_srv e)) (df_deletes d) (snd (each (create_pod_step (re_srv e) (re_setRef e)) (df_creates d) ?st)) = (None, st2)"
      "pcs_calls st2 = map (\<lambda>ob. Create (owned (re_setRef e) ob)) (df_creates d) @ map Delete (df_deletes d)"
    using deletes_accepted [OF a(1), of "df_deletes d"] cre by fastforce
  moreover have "length (df_creates d) + length (df_deletes d) > 0" using assms(3) by auto
  ultimately show ?thesis
    using ok D cre by (simp add: control_run_def PodControl_Reconcile_def rollout_ok_def reconcilePods_def)
qed

context diff_order
begin

lemma scaling_revs:
  assumes D: "Diff_New srt current want = Ok d" and r: "setref_ok setRef"
  shows "run_calls (map (\<lambda>ob. Create (owned setRef ob)) (df_creates d) @ map Delete (df_deletes d)) (cluster_revs current) =
    scaled_revs (cluster_revs current) (wanted_revs want)"
proof
  fix k
  let ?c = "cluster_revs current" and ?w = "wanted_revs want"
  have del: "k \<in> ObjectKeyFromObject ` set (df_deletes d) \<longleftrightarrow> ?c k \<noteq> None \<and> ?w k = None" for k
  proof -
    have "k \<in> ObjectKeyFromObject ` set (df_deletes d) \<longleftrightarrow> (\<exists>c \<in> set current. ObjectKeyFromObject c = k) \<and> k \<notin> rs_key ` set want"
      unfolding image_iff Bex_def deletes_iff [OF D] by auto
    also have "\<dots> \<longleftrightarrow> k \<in> dom ?c \<and> k \<notin> dom ?w" by (auto simp: dom_cluster dom_wanted)
    finally show ?thesis by (auto simp: domIff)
  qed
  have "run_calls (map (\<lambda>ob. Create (owned setRef ob)) (df_creates d) @ map Delete (df_deletes d)) ?c =
      (?c ++ ?w |` (- dom ?c)) |` (- ObjectKeyFromObject ` set (df_deletes d))"
    using distinct_create_keys [OF D] revs_at_creates [OF D]
    by (simp add: run_calls_append cluster_revs_owned [OF r] run_puts run_deletes)
  then show "run_calls (map (\<lambda>ob. Create (owned setRef ob)) (df_creates d) @ map Delete (df_deletes d)) ?c k = scaled_revs ?c ?w k"
    using del [of k] by (auto simp: scaled_revs_def restrict_map_def map_add_def dom_def split: option.splits)
qed

lemma scaling_iff:
  assumes D: "Diff_New srt current want = Ok d"
  shows "df_creates d = [] \<and> df_deletes d = [] \<longleftrightarrow> dom (cluster_revs current) = dom (wanted_revs want)"
proof -
  have "df_creates d = [] \<longleftrightarrow> (\<forall>ob. ob \<notin> set (df_creates d))" by auto
  then have "df_creates d = [] \<longleftrightarrow> rs_key ` set want \<subseteq> ObjectKeyFromObject ` set current"
    unfolding creates_iff [OF D] by auto
  moreover have "df_deletes d = [] \<longleftrightarrow> (\<forall>ob. ob \<notin> set (df_deletes d))" by auto
  then have "df_deletes d = [] \<longleftrightarrow> ObjectKeyFromObject ` set current \<subseteq> rs_key ` set want"
    unfolding deletes_iff [OF D] by auto
  ultimately show ?thesis by (auto simp: dom_cluster dom_wanted)
qed

lemma update_keys:
  assumes D: "Diff_New srt current want = Ok d"
  shows "ObjectKeyFromObject ` set (df_updates d) = outdated (cluster_revs current) (wanted_revs want)"
proof -
  have dc: "distinct (cur_keys current)" and dw: "distinct (map rs_key want)" using Diff_New_Ok_distinct [OF D] by auto
  have "k \<in> ObjectKeyFromObject ` set (df_updates d) \<longleftrightarrow>
      (\<exists>c \<in> set current. \<exists>r \<in> set want. ObjectKeyFromObject c = k \<and> rs_key r = k \<and> rs_Revision r \<noteq> obj_rev c)" (is "?L \<longleftrightarrow> ?R") for k
  proof
    assume ?L
    then obtain u where "u \<in> set (df_updates d)" "k = ObjectKeyFromObject u" by blast
    then show ?R unfolding updates_iff [OF D] by fastforce
  next
    assume ?R
    then obtain c r where cr: "c \<in> set current" "r \<in> set want" "ObjectKeyFromObject c = k" "rs_key r = k" "rs_Revision r \<noteq> obj_rev c" by blast
    then have "stamp (carryOver (currentAdapter c) r) \<in> set (df_updates d)" unfolding updates_iff [OF D] by auto
    then have "ObjectKeyFromObject (stamp (carryOver (currentAdapter c) r)) \<in> ObjectKeyFromObject ` set (df_updates d)" by (rule imageI)
    then show ?L using cr(4) by simp
  qed
  moreover have "k \<in> outdated (cluster_revs current) (wanted_revs want) \<longleftrightarrow>
      (\<exists>v v'. cluster_revs current k = Some v \<and> wanted_revs want k = Some v' \<and> v \<noteq> v')" for k
    by (auto simp: outdated_def)
  ultimately have "k \<in> ObjectKeyFromObject ` set (df_updates d) \<longleftrightarrow> k \<in> outdated (cluster_revs current) (wanted_revs want)" for k
    unfolding wanted_revs_Some [OF dw] cluster_revs_Some [OF dc] by metis
  then show ?thesis by blast
qed

end

lemma ComputeRollout_zero:
  assumes "scaled (case mu of None \<Rightarrow> defaultMaxUnavail | Some m \<Rightarrow> m) desired = Inr u" and "0 < desired" and "0 \<le> ready"
  shows "\<exists>N. ComputeRollout scaled mu desired ready = Ok N \<and> 0 \<le> N \<and> (N = 0 \<longleftrightarrow> ready \<le> desired - max 1 u)"
  using assms by (auto simp: ComputeRollout_def Let_def max_def split: option.splits)

text \<open>A round without scaling replaces some outdated pods, if there are any and the threshold allows it.\<close>

lemma all_ready:
  assumes "all_in_sync s pods" and "pods_ok crd pods"
  shows "ready_pods s pods = int (length pods)"
proof -
  have "filter (\<lambda>p. live p \<and> in_sync s (GetName p)) pods = pods"
    using assms by (auto simp: all_in_sync_def pods_ok_def intro: filter_True)
  then have "serving s pods = pods" by (simp add: serving_def)
  then show ?thesis by (auto simp: ready_pods_def)
qed

lemma all_no_nil:
  assumes "all_in_sync s pods" and "pods_ok crd pods" and "\<forall>u \<in> set updates. ps_Containers (pod_Spec u) \<noteq> []"
  shows "no_nil s updates pods"
proof -
  have "GetName p \<in> fst ` set s" if "p \<in> set pods" for p
  proof -
    have "map_of s (GetName p) \<noteq> None" using assms(1) that by (auto simp: all_in_sync_def in_sync_def split: option.splits)
    then show ?thesis by (simp add: map_of_eq_None_iff)
  qed
  then show ?thesis using assms(2,3) by (simp add: no_nil_def pods_ok_def)
qed

lemma update_containers:
  assumes "rollout_ok e want u" and "Diff_New (re_sort e) pods want = Ok d" and "v \<in> set (df_updates d)"
  shows "ps_Containers (pod_Spec v) \<noteq> []"
proof -
  have "diff_order (re_sort e)" using assms(1) by (simp add: rollout_ok_def diff_order.intro)
  from diff_order.updates_iff [OF this assms(2), of v] assms(3) obtain c r where "r \<in> set want" "v = stamp (carryOver (currentAdapter c) r)" by blast
  with assms(1) show ?thesis by (simp add: rollout_ok_def)
qed

lemma steady_round:
  assumes ok: "rollout_ok e want u" and pods: "pods_ok (re_crd e) pods" and sync: "all_in_sync s pods"
    and D: "Diff_New (re_sort e) pods want = Ok d" and "df_creates d = []" "df_deletes d = []" and "df_updates d \<noteq> []"
  shows "\<exists>rq st' obs N. control_run e s pods = (Returned rq None, st') \<and> pcs_calls st' = map Delete obs \<and> set obs \<subseteq> set (df_updates d) \<and>
    ComputeRollout (re_scaled e) (ro_MaxUnavailable (sp_RolloutStrategy (fn_Spec (re_crd e)))) (sp_Replicas (fn_Spec (re_crd e)))
      (int (length pods)) = Ok N \<and> (0 < N \<longrightarrow> obs \<noteq> [])"
proof -
  let ?st = "\<lparr>pcs_calls = [], pcs_syncInfo = s, pcs_invalidate = []\<rparr>"
  have n: "no_nil (pcs_syncInfo ?st) (df_updates d) pods" "sync_ok (pcs_syncInfo ?st)"
    using all_no_nil [OF sync pods] update_containers [OF ok D] sync by (simp_all add: all_in_sync_def)
  have sc: "accepts (re_srv e)" "re_scaled e (case ro_MaxUnavailable (sp_RolloutStrategy (fn_Spec (re_crd e))) of None \<Rightarrow> defaultMaxUnavail | Some m \<Rightarrow> m)
       (sp_Replicas (fn_Spec (re_crd e))) = Inr u" "0 < sp_Replicas (fn_Spec (re_crd e))"
    using ok by (simp_all add: rollout_ok_def)
  obtain N where N: "ComputeRollout (re_scaled e) (ro_MaxUnavailable (sp_RolloutStrategy (fn_Spec (re_crd e)))) (sp_Replicas (fn_Spec (re_crd e)))
      (ready_pods (pcs_syncInfo ?st) pods) = Ok N"
    using ComputeRollout_zero [where scaled = "re_scaled e", OF sc(2,3), of "ready_pods s pods"] ready_pods_nonneg [of s pods] by auto
  obtain v where v: "v \<in> set (df_updates d)" using assms(7) by (cases "df_updates d") auto
  have "diff_order (re_sort e)" using ok by (simp add: rollout_ok_def diff_order.intro)
  with v D obtain p where p: "p \<in> set pods" "ObjectKeyFromObject v = ObjectKeyFromObject p"
    by (auto simp: diff_order.updates_iff)
  then obtain q where q: "update_of (df_updates d) p = Some q"
    using v by (cases "update_of (df_updates d) p") (auto simp: update_of_def find_None_iff object_defs)
  have "live p" using p pods by (simp add: pods_ok_def)
  obtain rq st' obs where r: "rollout (re_srv e) (re_scaled e) (re_crd e) pods (df_updates d) ?st = (Returned rq None, st')"
      "pcs_calls st' = map Delete obs" "0 < N \<longrightarrow> obs \<noteq> []"
    using rollout_progress [OF sc(1) n N p(1) \<open>live p\<close> q] by auto
  have "\<forall>p \<in> set pods. GetNamespace p = fn_Namespace (re_crd e)" using pods by (simp add: pods_ok_def)
  from rollout_serving [OF r(1) n(2) distinct_names [OF D this] sc(2)] r(2)
  obtain obs' where "map Delete obs = (map Delete obs' :: PodBody call list)" "set obs' \<subseteq> set (df_updates d)" by auto
  then have "set obs \<subseteq> set (df_updates d)" by (auto dest!: map_injective simp: inj_def)
  moreover have "control_run e s pods = (Returned rq None, st')"
    using ok D r(1) assms(5-7) by (simp add: control_run_def PodControl_Reconcile_def rollout_ok_def reconcile_steady)
  ultimately show ?thesis using r N all_ready [OF sync pods] by auto
qed

lemma ok_diff:
  assumes "rollout_ok e want u" and "pods_ok crd pods"
  shows "\<exists>d. Diff_New (re_sort e) pods want = Ok d"
  using assms Diff_New_lists [of pods want "re_sort e"] by (auto simp: rollout_ok_def pods_ok_def)

lemma created_ok:
  assumes ok: "rollout_ok e want u" and D: "Diff_New (re_sort e) pods want = Ok d" and "ob \<in> set (df_creates d)"
  shows "live (owned (re_setRef e) ob) \<and> GetNamespace (owned (re_setRef e) ob) = fn_Namespace (re_crd e) \<and>
    ps_Containers (pod_Spec (owned (re_setRef e) ob)) \<noteq> []"
proof -
  have "diff_order (re_sort e)" using ok by (simp add: rollout_ok_def diff_order.intro)
  from diff_order.creates_iff [OF this D] assms(3) obtain r where r: "r \<in> set want" "ob = stamp r" by blast
  have ref: "setref_ok (re_setRef e)" using ok by (simp add: rollout_ok_def)
  obtain ob' where ob': "re_setRef e ob = Inr ob'" "ObjectKeyFromObject ob' = ObjectKeyFromObject ob" "ob_Body ob' = ob_Body ob"
      "om_DeletionTimestamp (ob_Meta ob') = om_DeletionTimestamp (ob_Meta ob)"
    using ref [unfolded setref_ok_def, rule_format, of ob] ok by (auto simp: rollout_ok_def)
  have "live ob" "ps_Containers (pod_Spec ob) \<noteq> []" "GetNamespace ob = fn_Namespace (re_crd e)"
    using ok r by (auto simp: rollout_ok_def live_def stamp_def upd_meta_def GetNamespace_def)
  with ob' show ?thesis by (simp add: owned_def live_def object_defs)
qed

lemma round_step:
  assumes ok: "rollout_ok e want u" and many: "sp_Replicas (fn_Spec (re_crd e)) - max 1 u < int (length want)"
    and pods: "pods_ok (re_crd e) pods" and "pod_round e pods pods'"
  shows "pods_ok (re_crd e) pods' \<and>
    (rounds_left (cluster_revs pods') (wanted_revs want) < rounds_left (cluster_revs pods) (wanted_revs want) \<or>
     cluster_revs pods = wanted_revs want \<and> cluster_revs pods' = wanted_revs want)"
proof -
  let ?c = "cluster_revs pods" and ?w = "wanted_revs want"
  obtain s where s: "all_in_sync s pods" "pods' = pods_left (pcs_calls (snd (control_run e s pods))) pods"
    using assms(4) by (auto simp: pod_round_def)
  obtain d where D: "Diff_New (re_sort e) pods want = Ok d" using ok_diff [OF ok pods] by blast
  have order: "diff_order (re_sort e)" and ref: "setref_ok (re_setRef e)" using ok by (simp_all add: rollout_ok_def diff_order.intro)
  show ?thesis
  proof (cases "df_creates d = [] \<and> df_deletes d = []")
    case False
    let ?cs = "map (\<lambda>ob. Create (owned (re_setRef e) ob)) (df_creates d) @ map Delete (df_deletes d)"
    have cs: "pcs_calls (snd (control_run e s pods)) = ?cs" using scaling_calls [OF ok D] False by blast
    have "cluster_revs pods' = scaled_revs ?c ?w"
      unfolding s(2) cs diff_order.scaling_revs [OF order D ref, symmetric] by (rule revs_left) auto
    moreover have "dom ?c \<noteq> dom ?w" using False diff_order.scaling_iff [OF order D] by blast
    moreover have "pods_ok (re_crd e) pods'"
      unfolding s(2) cs by (rule pods_ok_left [OF pods]) (auto dest: created_ok [OF ok D])
    ultimately show ?thesis using rounds_left_scaled [of ?c ?w] by simp
  next
    case steady: True
    then have dom: "dom ?c = dom ?w" using diff_order.scaling_iff [OF order D] by blast
    show ?thesis
    proof (cases "df_updates d = []")
      case True
      then have "?c = ?w" using diff_order.nothing_to_do [OF order D] steady by blast
      moreover have "pods' = pods"
        using steady True ok D s(2) by (simp add: control_run_def PodControl_Reconcile_def rollout_ok_def reconcile_steady pods_left_def)
      ultimately show ?thesis using pods by simp
    next
      case False
      obtain rq st' obs N where r: "control_run e s pods = (Returned rq None, st')" "pcs_calls st' = map Delete obs"
          "set obs \<subseteq> set (df_updates d)" "0 < N \<longrightarrow> obs \<noteq> []"
          "ComputeRollout (re_scaled e) (ro_MaxUnavailable (sp_RolloutStrategy (fn_Spec (re_crd e)))) (sp_Replicas (fn_Spec (re_crd e)))
            (int (length pods)) = Ok N"
        using steady_round [OF ok pods s(1) D _ _ False] steady by blast
      have "length pods = card (dom ?c)" using distinct_card [of "map ObjectKeyFromObject pods"] pods by (simp add: dom_cluster pods_ok_def)
      also have "\<dots> = length want" using distinct_card [of "map rs_key want"] ok by (simp add: dom dom_wanted rollout_ok_def)
      finally have len: "length pods = length want" .
      have "0 < N"
        using ComputeRollout_zero [of "re_scaled e" "ro_MaxUnavailable (sp_RolloutStrategy (fn_Spec (re_crd e)))"
            "sp_Replicas (fn_Spec (re_crd e))" u "int (length pods)"] ok r(5) many len by (auto simp: rollout_ok_def)
      then have "obs \<noteq> []" using r(4) by blast
      let ?K = "ObjectKeyFromObject ` set obs"
      have "cluster_revs pods' = ?c |` (- ?K)"
        unfolding s(2) run_deletes [symmetric, where 'a = PodBody] using r(1,2) by (simp add: revs_left)
      moreover have "?K \<subseteq> outdated ?c ?w" "?K \<noteq> {}"
        using r(3) \<open>obs \<noteq> []\<close> diff_order.update_keys [OF order D] by auto
      moreover have "pods_ok (re_crd e) pods'"
        unfolding s(2) by (rule pods_ok_left [OF pods]) (use r(1,2) in auto)
      ultimately show ?thesis using rounds_left_deleted [OF _ _ finite_dom_cluster dom, of ?K] by simp
    qed
  qed
qed

subsection \<open>Properties\<close>

text \<open>C4: A rollout ends. Start from any running pods of the full node, with any revisions, and let the
  control reconcile again and again: each time all pods that exist are in sync, the server accepts the
  calls, and the pods that the calls leave are the next round's. When the full node wants more pods than
  its replicas less the maximum unavailable, then after at most twice as many rounds as there were pods,
  plus one, exactly the wanted pods run at their wanted revisions, and it stays so.\<close>

theorem rollout_terminates:
  assumes "rollout_ok e want u" and "sp_Replicas (fn_Spec (re_crd e)) - max 1 u < int (length want)"
    and "pods_ok (re_crd e) (pods 0)" and "\<And>n. pod_round e (pods n) (pods (Suc n))"
    and "2 * length (pods 0) + 1 \<le> n"
  shows "cluster_revs (pods n) = wanted_revs want"
proof -
  let ?w = "wanted_revs want"
  have inv: "pods_ok (re_crd e) (pods k)" for k
  proof (induction k)
    case (Suc k)
    then show ?case using round_step [OF assms(1,2) _ assms(4)] by blast
  qed (rule assms(3))
  have "rounds_left (cluster_revs (pods k)) ?w \<le> rounds_left (cluster_revs (pods 0)) ?w - k" for k
  proof (induction k)
    case (Suc k)
    from round_step [OF assms(1,2) inv assms(4), of k] show ?case
    proof (elim conjE disjE)
      assume "cluster_revs (pods (Suc k)) = ?w"
      then show ?thesis by simp
    qed (use Suc in simp)
  qed simp
  then have "rounds_left (cluster_revs (pods n)) ?w = 0"
    using rounds_left_bound [of "pods 0" ?w] assms(5) by (metis diff_is_0_eq le_trans le_zero_eq)
  then show ?thesis using rounds_left_0 [OF finite_dom_cluster] by blast
qed

text \<open>C5: A full node can wait for ever. When it wants no more pods than its replicas less the maximum
  unavailable, because instances are disabled or a snapshot holds one back, then no reconcile of all its
  running pods, all in sync, replaces an outdated pod: the control sends no call and asks to be run
  again, however often it runs.\<close>

theorem rollout_blocked:
  assumes ok: "rollout_ok e want u" and few: "int (length want) \<le> sp_Replicas (fn_Spec (re_crd e)) - max 1 u"
    and pods: "pods_ok (re_crd e) pods" and sync: "all_in_sync s pods"
    and dom: "dom (cluster_revs pods) = dom (wanted_revs want)" and old: "cluster_revs pods \<noteq> wanted_revs want"
  shows "fst (control_run e s pods) = Returned True None \<and> pcs_calls (snd (control_run e s pods)) = []"
proof -
  let ?st = "\<lparr>pcs_calls = [], pcs_syncInfo = s, pcs_invalidate = []\<rparr>"
  obtain d where D: "Diff_New (re_sort e) pods want = Ok d" using ok_diff [OF ok pods] by blast
  have order: "diff_order (re_sort e)" using ok by (simp add: rollout_ok_def diff_order.intro)
  have steady: "df_creates d = []" "df_deletes d = []" using diff_order.scaling_iff [OF order D] dom by blast+
  have upd: "df_updates d \<noteq> []" using diff_order.nothing_to_do [OF order D steady] old by blast
  obtain rq st' obs N where r: "control_run e s pods = (Returned rq None, st')" "pcs_calls st' = map Delete obs"
      "ComputeRollout (re_scaled e) (ro_MaxUnavailable (sp_RolloutStrategy (fn_Spec (re_crd e)))) (sp_Replicas (fn_Spec (re_crd e)))
        (int (length pods)) = Ok N"
    using steady_round [OF ok pods sync D steady upd] by blast
  have "length pods = length want"
    using dom distinct_card [of "map ObjectKeyFromObject pods"] distinct_card [of "map rs_key want"] pods ok
    by (simp add: dom_cluster dom_wanted pods_ok_def rollout_ok_def)
  then have N: "N = 0"
    using ComputeRollout_zero [of "re_scaled e" "ro_MaxUnavailable (sp_RolloutStrategy (fn_Spec (re_crd e)))"
        "sp_Replicas (fn_Spec (re_crd e))" u "int (length pods)"] ok r(3) few by (auto simp: rollout_ok_def)
  have roll: "rollout (re_srv e) (re_scaled e) (re_crd e) pods (df_updates d) ?st = (Returned rq None, st')"
    using ok D r(1) steady upd by (simp add: control_run_def PodControl_Reconcile_def rollout_ok_def reconcile_steady)
  have so: "sync_ok (pcs_syncInfo ?st)" using sync by (simp add: all_in_sync_def)
  have none: "List.map_filter (upgrade_of s updates) zs = []" if "prefix zs pods" for updates zs
  proof -
    have "u \<notin> set (List.map_filter (upgrade_of s updates) zs)" for u
      using sync set_mono_prefix [OF that] by (auto simp: set_map_filter upgrade_of_Some all_in_sync_def sync_ok_def)
    then show ?thesis by (metis list.set_sel(1))
  qed
  from rollout_calls [OF roll so] N r(3) all_ready [OF sync pods] none upd r(1)
  show ?thesis by auto
qed

subsection \<open>Witnesses\<close>

text \<open>The sample wants two pods for three replicas. With two pods allowed to be unavailable its outdated
  pods are replaced; with the default of a quarter, that is one pod, they stay for ever.\<close>

definition sample_rollout :: "CosmosFullNode \<Rightarrow> rollout_env" where
  "sample_rollout crd = \<lparr>re_build = sample_env, re_marshal = ref_marshal, re_patch = ref_patch, re_sort = sort_key rs_Ordinal,
     re_srv = (\<lambda>h c. None), re_setRef = Inr, re_scaled = scaled_ref, re_crd = crd, re_cksums = []\<rparr>"

definition runnable :: "CosmosFullNode \<Rightarrow> PodBody Resource \<Rightarrow> bool" where
  "runnable crd r \<longleftrightarrow> live (rs_Object r) \<and> GetNamespace (rs_Object r) = fn_Namespace crd \<and> ps_Containers (pod_Spec (rs_Object r)) \<noteq> [] \<and>
     rs_Revision r \<noteq> []"

lemma sample_wants:
  assumes "crd = sample_crd \<or> crd = rolling_crd"
  shows "\<exists>want. BuildPods sample_env ref_marshal ref_patch crd [] = Ok (Inr want) \<and>
     map rs_key want = [ObjectKey ''chains'' ''osmo-0'', ObjectKey ''chains'' ''osmo-2''] \<and> list_all (runnable crd) want"
proof -
  have "case BuildPods sample_env ref_marshal ref_patch sample_crd [] of
      Ok (Inr rs) \<Rightarrow> map rs_key rs = [ObjectKey ''chains'' ''osmo-0'', ObjectKey ''chains'' ''osmo-2''] \<and> list_all (runnable sample_crd) rs
    | _ \<Rightarrow> False"
    by code_simp
  moreover have "case BuildPods sample_env ref_marshal ref_patch rolling_crd [] of
      Ok (Inr rs) \<Rightarrow> map rs_key rs = [ObjectKey ''chains'' ''osmo-0'', ObjectKey ''chains'' ''osmo-2''] \<and> list_all (runnable rolling_crd) rs
    | _ \<Rightarrow> False"
    by code_simp
  ultimately show ?thesis using assms by (auto split: exec.splits sum.splits)
qed

lemma sample_rollout_ok:
  assumes "crd = sample_crd \<or> crd = rolling_crd"
  shows "\<exists>want. rollout_ok (sample_rollout crd) want (if crd = sample_crd then 0 else 2) \<and> length want = 2 \<and>
    dom (wanted_revs want) = dom (cluster_revs old_pods) \<and> cluster_revs old_pods \<noteq> wanted_revs want"
proof -
  obtain want where w: "BuildPods sample_env ref_marshal ref_patch crd [] = Ok (Inr want)"
      "map rs_key want = [ObjectKey ''chains'' ''osmo-0'', ObjectKey ''chains'' ''osmo-2'']" "list_all (runnable crd) want"
    using sample_wants [OF assms] by metis
  have sc: "scaled_ref (case ro_MaxUnavailable (sp_RolloutStrategy (fn_Spec sample_crd)) of None \<Rightarrow> defaultMaxUnavail | Some m \<Rightarrow> m)
      (sp_Replicas (fn_Spec sample_crd)) = Inr 0" by code_simp
  have ne: "rolling_crd \<noteq> sample_crd" by (simp add: rolling_crd_def sample_crd_def sample_spec_def)
  have n: "length want = 2" using arg_cong [OF w(2), of length] by simp
  have "rollout_ok (sample_rollout crd) want (if crd = sample_crd then 0 else 2)"
    using w assms sc ne sample_rollout_facts(3,4) by_ordinal.ordering_of_axioms
    by (auto simp: rollout_ok_def sample_rollout_def accepts_def setref_ok_def list_all_iff runnable_def sample_crd_def sample_spec_def)
  moreover have dom: "dom (wanted_revs want) = dom (cluster_revs old_pods)"
    using arg_cong [OF w(2), of set] by (simp add: dom_wanted dom_cluster old_pods_def)
  moreover have "cluster_revs old_pods \<noteq> wanted_revs want"
  proof
    assume e: "cluster_revs old_pods = wanted_revs want"
    obtain r where "r \<in> set want" using n by (cases want) auto
    then have "wanted_revs want (rs_key r) = Some (rs_Revision r)" "rs_Revision r \<noteq> []"
      using wanted_revs_Some [of want "rs_key r" "rs_Revision r"] w(2,3) by (auto simp: list_all_iff runnable_def)
    with e have "cluster_revs old_pods (rs_key r) = Some (rs_Revision r)" by simp
    then show False using \<open>rs_Revision r \<noteq> []\<close> cluster_revs_Some [of old_pods "rs_key r" "rs_Revision r"] by (auto simp: old_pods_def)
  qed
  ultimately show ?thesis using n by blast
qed

lemma old_pods_ok: "crd = sample_crd \<or> crd = rolling_crd \<Longrightarrow> pods_ok crd old_pods"
  by (auto simp: pods_ok_def old_pods_def rolling_crd_def sample_crd_defs)

text \<open>Rounds in which every pod reports that it is in sync.\<close>

definition synced :: "Pod list \<Rightarrow> (string \<times> SyncInfoPodStatus) list" where
  "synced pods = map (\<lambda>p. (GetName p, sample_info True)) pods"

lemma synced_all: "all_in_sync (synced pods) pods"
proof -
  have "map_of (synced pods) n = Some si \<Longrightarrow> si = sample_info True" for n si
    by (auto simp: synced_def dest: map_of_SomeD)
  moreover have "map_of (synced pods) (GetName p) \<noteq> None" if "p \<in> set pods" for p
    using that by (auto simp: synced_def map_of_eq_None_iff image_image)
  ultimately show ?thesis
    by (fastforce simp: all_in_sync_def sync_ok_def in_sync_def reachable_def sample_info_def split: option.splits)
qed

definition next_pods :: "rollout_env \<Rightarrow> Pod list \<Rightarrow> Pod list" where
  "next_pods e pods = pods_left (pcs_calls (snd (control_run e (synced pods) pods))) pods"

theorem rollout_terminates_witness:
  "\<exists>want. BuildPods sample_env ref_marshal ref_patch rolling_crd [] = Ok (Inr want) \<and> cluster_revs old_pods \<noteq> wanted_revs want \<and>
     cluster_revs ((next_pods (sample_rollout rolling_crd) ^^ 5) old_pods) = wanted_revs want"
proof -
  have ne: "rolling_crd \<noteq> sample_crd" by (simp add: rolling_crd_def sample_crd_def sample_spec_def)
  obtain want where w: "rollout_ok (sample_rollout rolling_crd) want 2" "length want = 2" "cluster_revs old_pods \<noteq> wanted_revs want"
    using sample_rollout_ok [of rolling_crd] ne by auto
  let ?pods = "\<lambda>n. (next_pods (sample_rollout rolling_crd) ^^ n) old_pods"
  have "pod_round (sample_rollout rolling_crd) (?pods n) (?pods (Suc n))" for n
    using synced_all [of "?pods n"] by (auto simp: pod_round_def next_pods_def)
  from rollout_terminates [where pods = ?pods and n = 5, OF w(1) _ _ this] w old_pods_ok [of rolling_crd] sample_rollout_facts(4)
  show ?thesis by (intro exI [of _ want]) (auto simp: sample_rollout_def old_pods_def rollout_ok_def)
qed

theorem rollout_blocked_witness:
  "\<exists>want. BuildPods sample_env ref_marshal ref_patch sample_crd [] = Ok (Inr want) \<and> cluster_revs old_pods \<noteq> wanted_revs want \<and>
     fst (control_run (sample_rollout sample_crd) (synced old_pods) old_pods) = Returned True None \<and>
     next_pods (sample_rollout sample_crd) old_pods = old_pods"
proof -
  obtain want where w: "rollout_ok (sample_rollout sample_crd) want 0" "length want = 2" "dom (wanted_revs want) = dom (cluster_revs old_pods)"
      "cluster_revs old_pods \<noteq> wanted_revs want"
    using sample_rollout_ok [of sample_crd] by auto
  have "int (length want) \<le> sp_Replicas (fn_Spec (re_crd (sample_rollout sample_crd))) - max 1 0"
    using w(2) by (simp add: sample_rollout_def sample_crd_def sample_spec_def)
  from rollout_blocked [OF w(1) this _ synced_all w(3) [symmetric] w(4)] old_pods_ok [of sample_crd] w(1,4)
  show ?thesis by (auto simp: next_pods_def pods_left_def sample_rollout_def rollout_ok_def)
qed

end
