(* ===== verification/Healthcheck.thy ===== *)
theory Healthcheck
  imports Comet_Status Fullnode_Names Peers
begin

text \<open>
  \<^verbatim>\<open>internal/healthcheck\<close>: the handlers of the sidecar that every pod runs (the readiness of the
  node and the usage of its disk) and the client with which the operator asks for the disk usage.
  \<open>filepath.Clean\<close>, the file system call, URLs, HTTP and JSON are parameters. A handler yields the status code and
  the response it writes.
\<close>

record healthResponse =
  he_Address :: string
  he_InSync :: bool
  he_Error :: string

text \<open>The state of the \<open>Comet\<close> handler is the last status code; the flag says that a change is logged.\<close>

definition writeResponse :: "int \<Rightarrow> healthResponse \<Rightarrow> int \<Rightarrow> (int \<times> healthResponse) \<times> bool \<times> int" where
  "writeResponse code resp lastStatus = ((code, resp), lastStatus \<noteq> code, code)"

definition Comet_ServeHTTP :: "statuser \<Rightarrow> string \<Rightarrow> int \<Rightarrow> ((int \<times> healthResponse) \<times> bool \<times> int) exec" where
  "Comet_ServeHTTP client rpcHost lastStatus =
     (let resp = \<lparr>he_Address = rpcHost, he_InSync = False, he_Error = []\<rparr>
      in exec_bind (client rpcHost) (\<lambda>r. Ok (case r of
           Inl err \<Rightarrow> writeResponse 503 (resp\<lparr>he_Error := ge_msg err\<rparr>) lastStatus
         | Inr status \<Rightarrow>
             let resp = resp\<lparr>he_InSync := \<not> sy_CatchingUp (cs_SyncInfo status)\<rparr>
             in if \<not> he_InSync resp then writeResponse 422 resp lastStatus
                else writeResponse 200 resp lastStatus)))"

record DiskUsageResponse =
  du_Dir :: string
  du_AllBytes :: "64 word"
  du_FreeBytes :: "64 word"
  du_Error :: string

definition emptyDiskUsage :: DiskUsageResponse where
  "emptyDiskUsage = \<lparr>du_Dir = [], du_AllBytes = 0, du_FreeBytes = 0, du_Error = []\<rparr>"

record Statfs =
  sf_Blocks :: "64 word"
  sf_Bfree :: "64 word"
  sf_Bsize :: "64 word"

definition DiskUsage :: "(string \<Rightarrow> string) \<Rightarrow> (string \<Rightarrow> goerror + Statfs) \<Rightarrow> string \<Rightarrow> int \<times> DiskUsageResponse" where
  "DiskUsage pathClean statfs dir =
     (if dir = [] then (400, emptyDiskUsage\<lparr>du_Error := ''query param dir must be specified''\<rparr>)
      else case statfs (pathClean dir) of
             Inl err \<Rightarrow> (500, emptyDiskUsage\<lparr>du_Dir := dir, du_Error := ge_msg err\<rparr>)
           | Inr fs \<Rightarrow> (200, emptyDiskUsage\<lparr>du_Dir := dir, du_AllBytes := sf_Blocks fs * sf_Bsize fs,
               du_FreeBytes := sf_Bfree fs * sf_Bsize fs\<rparr>))"

text \<open>
  The client. A URL is its host and the rest; the query is set on the request. \<open>dl_Do\<close> sends the
  request for a host, a path and a directory and yields the body.
\<close>

record disk_lib =
  dl_Parse :: "string \<Rightarrow> goerror + string"
  dl_NewRequest :: "string \<Rightarrow> string \<Rightarrow> goerror + unit"
  dl_Do :: "string \<Rightarrow> string \<Rightarrow> string \<Rightarrow> goerror + string"
  dl_Decode :: "string \<Rightarrow> goerror + DiskUsageResponse"

definition Client_DiskUsage :: "disk_lib \<Rightarrow> string \<Rightarrow> string \<Rightarrow> DiskUsageResponse \<times> goerror option" where
  "Client_DiskUsage lib host homeDir =
     (case dl_Parse lib host of
        Inl err \<Rightarrow> (emptyDiskUsage, Some (wrap ''url parse: '' err))
      | Inr uHost \<Rightarrow>
          let uHost = JoinHostPort uHost (FormatInt healthCheckPort)
          in case dl_NewRequest lib uHost ''/disk'' of
               Inl err \<Rightarrow> (emptyDiskUsage, Some (wrap ''new request: '' err))
             | Inr _ \<Rightarrow>
                 (case dl_Do lib uHost ''/disk'' homeDir of
                    Inl err \<Rightarrow> (emptyDiskUsage, Some (wrap ''http do: '' err))
                  | Inr body \<Rightarrow>
                      (case dl_Decode lib body of
                         Inl err \<Rightarrow> (emptyDiskUsage, Some (wrap ''malformed json: '' err))
                       | Inr diskResp \<Rightarrow>
                           if du_Error diskResp \<noteq> [] then (diskResp, Some (errorNew (du_Error diskResp)))
                           else if du_AllBytes diskResp = 0 then (diskResp, Some (errorNew ''invalid response: 0 free bytes''))
                           else (diskResp, None))))"

text \<open>A client never reports success on a disk of size zero.\<close>

lemma Client_DiskUsage_ok: "Client_DiskUsage lib host dir = (r, None) \<Longrightarrow> du_AllBytes r \<noteq> 0 \<and> du_Error r = []"
  by (auto simp: Client_DiskUsage_def Let_def split: sum.splits if_splits)

text \<open>A node is ready exactly when its status can be read and it is not catching up. A panic of the client leaves the
  request without a response.\<close>

lemma ServeHTTP_ready:
  "(\<exists>resp changed lst'. Comet_ServeHTTP client host lst = Ok ((200, resp), changed, lst')) \<longleftrightarrow>
     (\<exists>s. client host = Ok (Inr s) \<and> \<not> sy_CatchingUp (cs_SyncInfo s))"
  by (cases "client host") (auto simp: Comet_ServeHTTP_def writeResponse_def Let_def split: sum.splits)

text \<open>The wire between handler and client: what the handler of a pod writes is what the client reads.\<close>

definition wired ::
  "disk_lib \<Rightarrow> (DiskUsageResponse \<Rightarrow> string) \<Rightarrow> (string \<Rightarrow> int \<times> DiskUsageResponse) \<Rightarrow> string \<Rightarrow> string \<Rightarrow> bool" where
  "wired lib encode handler url host \<longleftrightarrow>
     (let addr = JoinHostPort host (FormatInt healthCheckPort) in
      dl_Parse lib url = Inr host \<and> dl_NewRequest lib addr ''/disk'' = Inr () \<and>
      (\<forall>dir. dl_Do lib addr ''/disk'' dir = Inr (encode (snd (handler dir)))) \<and>
      (\<forall>dir. dl_Decode lib (encode (snd (handler dir))) = Inr (snd (handler dir))))"

lemma wired_client:
  assumes "wired lib encode handler url host"
  shows "Client_DiskUsage lib url dir =
    (let r = snd (handler dir)
     in if du_Error r \<noteq> [] then (r, Some (errorNew (du_Error r)))
        else if du_AllBytes r = 0 then (r, Some (errorNew ''invalid response: 0 free bytes'')) else (r, None))"
  using assms by (simp add: wired_def Let_def Client_DiskUsage_def)

text \<open>C22: The disk usage survives the way from a pod to the operator. With a JSON decoder that undoes
  the encoder and a client wired to the handler of a pod, asking for a directory returns the sizes of
  the pod's file system, in bytes and modulo \<open>2 ^ 64\<close>, unless the disk has size zero, which is an
  error; an error of the file system call arrives with its message.\<close>

theorem DiskUsage_roundtrip:
  assumes "wired lib encode (DiskUsage pathClean statfs) url host" and "dir \<noteq> []"
  shows "case statfs (pathClean dir) of
      Inl err \<Rightarrow> ge_msg err \<noteq> [] \<longrightarrow> snd (Client_DiskUsage lib url dir) = Some (errorNew (ge_msg err))
    | Inr fs \<Rightarrow> (if sf_Blocks fs * sf_Bsize fs = 0 then snd (Client_DiskUsage lib url dir) \<noteq> None
        else Client_DiskUsage lib url dir = (\<lparr>du_Dir = dir, du_AllBytes = sf_Blocks fs * sf_Bsize fs,
               du_FreeBytes = sf_Bfree fs * sf_Bsize fs, du_Error = []\<rparr>, None))"
  using assms(2) by (simp add: wired_client [OF assms(1)] Let_def DiskUsage_def emptyDiskUsage_def split: sum.split)

text \<open>A wire that carries the directory and looks the rest up.\<close>

definition sample_statfs :: "string \<Rightarrow> goerror + Statfs" where
  "sample_statfs dir = Inr \<lparr>sf_Blocks = 100, sf_Bfree = 25, sf_Bsize = 4096\<rparr>"

definition sample_wire :: disk_lib where
  "sample_wire = \<lparr>dl_Parse = Inr, dl_NewRequest = (\<lambda>_ _. Inr ()), dl_Do = (\<lambda>_ _ dir. Inr dir),
     dl_Decode = (\<lambda>body. Inr (snd (DiskUsage id sample_statfs body)))\<rparr>"

theorem DiskUsage_roundtrip_witness:
  "wired sample_wire du_Dir (DiskUsage id sample_statfs) ''10.0.0.7'' ''10.0.0.7'' \<and>
   Client_DiskUsage sample_wire ''10.0.0.7'' ''/home'' =
     (\<lparr>du_Dir = ''/home'', du_AllBytes = 409600, du_FreeBytes = 102400, du_Error = []\<rparr>, None)"
proof -
  have w: "wired sample_wire du_Dir (DiskUsage id sample_statfs) ''10.0.0.7'' ''10.0.0.7''"
    by (simp add: wired_def Let_def sample_wire_def DiskUsage_def sample_statfs_def emptyDiskUsage_def)
  from DiskUsage_roundtrip [OF w, of "''/home''"] show ?thesis using w by (simp add: sample_statfs_def)
qed

end
