(* ===== verification/Go_Float.thy ===== *)
theory Go_Float
  imports Complex_Main "HOL-Library.Log_Nat"
begin

text \<open>
  The part of Go's \<open>float64\<close> that the operator uses: conversions from integers, products,
  quotients, \<open>math.Round\<close> and the conversion back. A finite value is a rational; every operation
  rounds its exact result to a significand of 53 bits, ties to even. Overflow, subnormal values and
  NaN do not occur in the ranges used here: every operand is a 64-bit integer, a percentage, or a
  quotient of two such values.
\<close>

definition round_even :: "rat \<Rightarrow> int" where
  "round_even y =
     (let n = \<lfloor>y\<rfloor>; d = y - of_int n
      in if d < 1 / 2 then n else if 1 / 2 < d then n + 1 else if even n then n else n + 1)"

text \<open>The exponent of a positive rational: \<open>2 powi e \<le> x < 2 powi (e + 1)\<close>.\<close>

definition binade :: "rat \<Rightarrow> int" where
  "binade x =
     (let (a, b) = quotient_of x; e = bitlen a - bitlen b
      in if 2 powi e \<le> x then e else e - 1)"

definition fl64 :: "rat \<Rightarrow> rat" where
  "fl64 x =
     (if x = 0 then 0
      else let u = 2 powi (binade \<bar>x\<bar> - 52)
           in sgn x * of_int (round_even (\<bar>x\<bar> / u)) * u)"

text \<open>\<open>math.Round\<close>: to the nearest integer, ties away from zero.\<close>

definition math_Round :: "rat \<Rightarrow> int" where
  "math_Round x = (if x < 0 then - \<lfloor>- x + 1 / 2\<rfloor> else \<lfloor>x + 1 / 2\<rfloor>)"

subsection \<open>Rounding to even\<close>

lemma round_even_bounds: "\<lfloor>y\<rfloor> \<le> round_even y \<and> round_even y \<le> \<lfloor>y\<rfloor> + 1"
  by (simp add: round_even_def Let_def)

lemma round_even_of_int [simp]: "round_even (of_int n) = n"
  by (simp add: round_even_def)

lemma round_even_mono: "x \<le> y \<Longrightarrow> round_even x \<le> round_even y"
proof (cases "\<lfloor>x\<rfloor> = \<lfloor>y\<rfloor>")
  case True
  assume "x \<le> y"
  with True show ?thesis by (auto simp: round_even_def Let_def)
next
  case False
  assume "x \<le> y"
  then have "\<lfloor>x\<rfloor> + 1 \<le> \<lfloor>y\<rfloor>" using False floor_mono [of x y] by linarith
  then show ?thesis using round_even_bounds [of x] round_even_bounds [of y] by linarith
qed

subsection \<open>Rounding to 53 bits is monotone\<close>

lemma bitlen_powi:
  assumes "0 < (n :: int)"
  shows "(2 :: rat) powi (bitlen n - 1) \<le> of_int n" and "of_int n < (2 :: rat) powi bitlen n"
proof -
  have l: "1 \<le> bitlen n" using bitlen_eq_zero_iff [of n] bitlen_nonneg [of n] assms by linarith
  have "of_int (2 ^ nat (bitlen n - 1)) \<le> (of_int n :: rat)" "of_int n < (of_int (2 ^ nat (bitlen n)) :: rat)"
    using bitlen_bounds [OF assms] by (simp_all only: of_int_le_iff of_int_less_iff)
  with l show "(2 :: rat) powi (bitlen n - 1) \<le> of_int n" "of_int n < (2 :: rat) powi bitlen n"
    by (simp_all add: power_int_def)
qed

lemma binade_bounds:
  assumes "0 < x"
  shows "2 powi (binade x) \<le> x \<and> x < 2 powi (binade x + 1)"
proof -
  obtain a b where q: "quotient_of x = (a, b)" by (cases "quotient_of x")
  then have b: "0 < b" and x: "x = of_int a / of_int b" by (simp_all add: quotient_of_denom_pos quotient_of_div)
  then have a: "0 < a" using assms by (simp add: zero_less_divide_iff)
  let ?e = "bitlen a - bitlen b"
  have "x < 2 powi bitlen a / 2 powi (bitlen b - 1)"
    unfolding x using bitlen_powi [OF a] bitlen_powi [OF b] a b
    by (intro frac_less) auto
  also have "\<dots> = 2 powi (?e + 1)" by (simp add: power_int_diff [symmetric] algebra_simps)
  finally have up: "x < 2 powi (?e + 1)" .
  have "2 powi (bitlen a - 1) / 2 powi bitlen b < x"
    unfolding x using bitlen_powi [OF a] bitlen_powi [OF b] a b
    by (intro frac_less2) auto
  moreover have "(2 :: rat) powi (bitlen a - 1) / 2 powi bitlen b = 2 powi (?e - 1)"
    by (simp add: power_int_diff [symmetric] algebra_simps)
  ultimately show ?thesis using up by (auto simp: binade_def q Let_def)
qed

lemma fl64_pos:
  assumes "0 < x"
  shows "2 powi (binade x) \<le> fl64 x \<and> fl64 x \<le> 2 powi (binade x + 1)"
proof -
  let ?u = "(2 :: rat) powi (binade x - 52)"
  have u: "0 < ?u" by simp
  have f: "fl64 x = of_int (round_even (x / ?u)) * ?u" using assms by (simp add: fl64_def Let_def)
  have lo: "2 powi (binade x) = of_int (2 ^ 52) * ?u" and hi: "2 powi (binade x + 1) = of_int (2 ^ 53) * ?u"
    by (simp_all add: power_int_diff power_int_add)
  have "of_int (2 ^ 52) \<le> x / ?u" "x / ?u \<le> of_int (2 ^ 53)"
    using binade_bounds [OF assms] unfolding lo hi by (simp_all only: pos_le_divide_eq [OF u] pos_divide_le_eq [OF u] less_imp_le)
  then have "2 ^ 52 \<le> round_even (x / ?u)" "round_even (x / ?u) \<le> 2 ^ 53"
    using round_even_mono [of "of_int (2 ^ 52)" "x / ?u"] round_even_mono [of "x / ?u" "of_int (2 ^ 53)"]
    by (simp_all only: round_even_of_int)
  then have "of_int (2 ^ 52) \<le> (of_int (round_even (x / ?u)) :: rat)" "(of_int (round_even (x / ?u)) :: rat) \<le> of_int (2 ^ 53)"
    by (simp_all only: of_int_le_iff)
  then show ?thesis unfolding f lo hi using u by (simp only: mult_le_cancel_right_pos)
qed

lemma fl64_nonneg: "0 \<le> x \<Longrightarrow> 0 \<le> fl64 x"
proof (cases "x = 0")
  case False
  assume "0 \<le> x"
  with False have "0 < x" by simp
  moreover have "(0 :: rat) < 2 powi binade x" by simp
  ultimately show ?thesis using fl64_pos [of x] by linarith
qed (simp add: fl64_def)

lemma fl64_mono:
  assumes "0 \<le> x" and "x \<le> y"
  shows "fl64 x \<le> fl64 y"
proof (cases "x = 0")
  case True
  then show ?thesis using fl64_nonneg [of y] assms by (simp add: fl64_def)
next
  case False
  then have x: "0 < x" and y: "0 < y" using assms by simp_all
  have "(2 :: rat) powi binade x < 2 powi (binade y + 1)"
    using binade_bounds [OF x] binade_bounds [OF y] assms(2) by linarith
  then have "binade x < binade y + 1"
    using power_int_increasing [of "binade y + 1" "binade x" "2 :: rat"] by (meson leI le_less_trans less_irrefl one_le_numeral)
  then consider "binade x = binade y" | "binade x + 1 \<le> binade y" by linarith
  then show ?thesis
  proof cases
    case 1
    let ?u = "(2 :: rat) powi (binade y - 52)"
    have "x / ?u \<le> y / ?u" using assms(2) by (simp add: divide_right_mono)
    then have "(of_int (round_even (x / ?u)) :: rat) \<le> of_int (round_even (y / ?u))" using round_even_mono by simp
    then show ?thesis using x y 1 by (simp add: fl64_def Let_def)
  next
    case 2
    then have "(2 :: rat) powi (binade x + 1) \<le> 2 powi binade y" by (simp add: power_int_increasing)
    then show ?thesis using fl64_pos [OF x] fl64_pos [OF y] by linarith
  qed
qed

lemma fl64_1 [simp]: "fl64 1 = 1" and fl64_100 [simp]: "fl64 100 = 100"
  by code_simp+

lemma math_Round_mono: "0 \<le> x \<Longrightarrow> x \<le> y \<Longrightarrow> math_Round x \<le> math_Round y"
  by (simp add: math_Round_def floor_mono)

lemma math_Round_of_int [simp]: "math_Round (of_int n) = n"
  by (simp add: math_Round_def) linarith

lemma math_Round_nonneg: "0 \<le> x \<Longrightarrow> 0 \<le> math_Round x"
  by (simp add: math_Round_def)

end
