(* ===== verification/Self_Healing.thy ===== *)
theory Self_Healing
  imports Healthcheck Go_Float Status_Updates Pod_Builder Control_Loops Controller_Results
begin

text \<open>
  The self healing of full nodes. \<^verbatim>\<open>internal/fullnode/drift_detection.go\<close> finds the pods that lag
  behind the highest block, \<^verbatim>\<open>pvc_disk_usage.go\<close> collects how full the volumes are,
  \<^verbatim>\<open>pvc_auto_scaler.go\<close> requests larger volumes through the status, and
  \<^verbatim>\<open>controllers/selfhealing_controller.go\<close> drives them. The goroutines of the disk usage collector
  write each to elements of their own.
\<close>

subsection \<open>Height drift\<close>

text \<open>\<open>lo.MaxBy\<close> with the height as the measure: the first highest item, the zero item for none.\<close>

fun MaxByHeight :: "StatusItem \<Rightarrow> StatusCollection \<Rightarrow> StatusItem" where
  "MaxByHeight mx [] = mx"
| "MaxByHeight mx (item # items) =
     MaxByHeight (if LatestBlockHeight (it_Status item) > LatestBlockHeight (it_Status mx) then item else mx) items"

definition maxHeight :: "StatusCollection \<Rightarrow> 64 word" where
  "maxHeight synced =
     (case synced of [] \<Rightarrow> LatestBlockHeight emptyStatus
      | item # items \<Rightarrow> LatestBlockHeight (it_Status (MaxByHeight item items)))"

definition LaggingPods :: "scaler \<Rightarrow> time \<Rightarrow> StatusCollection \<Rightarrow> CosmosFullNode \<Rightarrow> Pod list exec" where
  "LaggingPods scaled now coll crd =
     (case Option.bind (sp_SelfHeal (fn_Spec crd)) sh_HeightDriftMitigation of
        None \<Rightarrow> Panic ''invalid memory address or nil pointer dereference''
      | Some drift \<Rightarrow>
          let synced = Synced coll;
              thresh = ucast (hd_Threshold drift);
              lagging = map it_Pod (filter (\<lambda>item. maxHeight synced - LatestBlockHeight (it_Status item) \<ge> thresh) synced);
              avail = AvailablePods (Pods synced) (5 * time_Second) now
          in exec_bind (ComputeRollout scaled (ro_MaxUnavailable (sp_RolloutStrategy (fn_Spec crd)))
                 (sp_Replicas (fn_Spec crd)) (int (length avail)))
               (\<lambda>n. Ok (take (nat n) lagging)))"

subsection \<open>Disk usage\<close>

record PVCDiskUsage =
  pd_Name :: string
  pd_PercentUsed :: int
  pd_Capacity :: Quantity

definition zeroDiskUsage :: PVCDiskUsage where
  "zeroDiskUsage = \<lparr>pd_Name = [], pd_PercentUsed = 0, pd_Capacity = zeroQuantity\<rparr>"

text \<open>
  The percentage of used bytes. The difference of the two unsigned sizes wraps. For a size of zero
  the quotient is NaN, whose conversion to an integer depends on the machine: \<open>intNaN\<close>.
\<close>

definition percentUsed :: "int \<Rightarrow> DiskUsageResponse \<Rightarrow> int" where
  "percentUsed intNaN resp =
     (if du_AllBytes resp = 0 then intNaN
      else math_Round (fl64 (fl64 (fl64 (of_nat (unat (du_AllBytes resp - du_FreeBytes resp))) /
        fl64 (of_nat (unat (du_AllBytes resp)))) * 100)))"

record usage_reads =
  ur_listPods :: "goerror + Pod list"
  ur_diskUsage :: "string \<Rightarrow> string \<Rightarrow> DiskUsageResponse \<times> goerror option"
  ur_getPVC :: "ObjectKey \<Rightarrow> goerror + PVC"

definition podUsage :: "int \<Rightarrow> usage_reads \<Rightarrow> CosmosFullNode \<Rightarrow> Pod \<Rightarrow> PVCDiskUsage \<times> goerror option" where
  "podUsage intNaN rd crd pod =
     (if \<not> IsPodReady pod then (zeroDiskUsage, Some (errorNew (''pod '' @ GetName pod @ '': not ready'')))
      else case ur_diskUsage rd (''http://'' @ pst_PodIP (pod_Status pod)) (ChainHomeDir crd) of
             (resp, Some err) \<Rightarrow> (zeroDiskUsage, Some (wrap (''pod '' @ GetName pod @ '' '' @ du_Dir resp @ '': '') err))
           | (resp, None) \<Rightarrow>
               let name = PVCName pod;
                   key = ObjectKey (GetNamespace pod) name;
                   (capacity, err) = (case ur_getPVC rd key of
                      Inl err \<Rightarrow> (zeroQuantity, Some (wrap (''get pvc '' @ GetNamespace pod @ ''/'' @ name @ '': '') err))
                    | Inr pvc \<Rightarrow> (quantity_get (pvc_Capacity (ob_Body pvc)) ResourceStorage, None))
               in (\<lparr>pd_Name = name, pd_PercentUsed = percentUsed intNaN resp, pd_Capacity = capacity\<rparr>, err))"

definition realError :: "goerror \<Rightarrow> bool" where
  "realError err \<longleftrightarrow> \<not> strings_HasSuffix (ge_msg err) ''not ready''"

definition CollectDiskUsage :: "int \<Rightarrow> usage_reads \<Rightarrow> CosmosFullNode \<Rightarrow> goerror + PVCDiskUsage list" where
  "CollectDiskUsage intNaN rd crd =
     (case ur_listPods rd of
        Inl err \<Rightarrow> Inl (wrap ''list pods: '' err)
      | Inr pods \<Rightarrow>
          if pods = [] then Inl (errorNew ''no pods found'')
          else let res = map (podUsage intNaN rd crd) pods;
                   realErrs = filter realError (List.map_filter snd res)
               in if length realErrs > 0 \<and> length realErrs = length pods
                  then Inl (the (errors_Join (map Some realErrs)))
                  else Inr (filter (\<lambda>u. u \<noteq> zeroDiskUsage) (map fst res)))"

subsection \<open>Volume auto scaling\<close>

text \<open>\<open>Quantity.Value\<close>: rounded away from zero.\<close>

definition q_Value :: "Quantity \<Rightarrow> int" where
  "q_Value q = (if q_Amount q \<ge> 0 then \<lceil>q_Amount q\<rceil> else \<lfloor>q_Amount q\<rfloor>)"

definition NewQuantity :: "int \<Rightarrow> string \<Rightarrow> Quantity" where
  "NewQuantity v f = \<lparr>q_Amount = of_int v, q_Format = f\<rparr>"

definition calcNextCapacity ::
  "scaler \<Rightarrow> (string \<Rightarrow> goerror + Quantity) \<Rightarrow> Quantity \<Rightarrow> string \<Rightarrow> goerror + Quantity" where
  "calcNextCapacity scaled ParseQuantity current increase =
     (case scaled (StrVal increase) 100 of
        Inr percent \<Rightarrow>
          let addtl = math_Round (fl64 (fl64 (of_int (q_Value current)) * fl64 (fl64 (of_int percent) / 100)))
          in Inr (NewQuantity (int64_wrap (q_Value current + addtl)) (q_Format current))
      | Inl err \<Rightarrow>
          (case ParseQuantity increase of
             Inl err' \<Rightarrow> Inl (the (errors_Join [Some err, Some err']))
           | Inr addtl \<Rightarrow> Inr (NewQuantity (int64_wrap (q_Value current + q_Value addtl)) (q_Format current))))"

type_synonym patches = "(string \<times> PVCAutoScaleStatus) list"

definition resize_step ::
  "scaler \<Rightarrow> (string \<Rightarrow> goerror + Quantity) \<Rightarrow> PVCAutoScaleSpec \<Rightarrow> patches option \<Rightarrow> time \<Rightarrow>
   patches \<times> goerror option \<Rightarrow> PVCDiskUsage \<Rightarrow> patches \<times> goerror option" where
  "resize_step scaled ParseQuantity spec status now acc pvc =
     (if pd_PercentUsed pvc < pa_UsedSpacePercentage spec then acc
      else case calcNextCapacity scaled ParseQuantity (pd_Capacity pvc) (pa_IncreaseQuantity spec) of
             Inl err \<Rightarrow> (fst acc, errors_Join [snd acc, Some err])
           | Inr newSize \<Rightarrow>
               let requested = (case Option.bind status (\<lambda>m. map_of m (pd_Name pvc)) of
                     None \<Rightarrow> False | Some s \<Rightarrow> q_Value (as_RequestedSize s) = q_Value newSize);
                   mx = pa_MaxSize spec
               in if requested then acc
                  else if q_Amount mx \<noteq> 0 \<and> q_Cmp (pd_Capacity pvc) mx \<ge> 0 then acc
                  else let newSize = (if q_Amount mx \<noteq> 0 \<and> q_Cmp newSize mx \<ge> 0 then mx else newSize)
                       in (AList.update (pd_Name pvc) \<lparr>as_RequestedSize = newSize, as_RequestedAt = now\<rparr> (fst acc), snd acc))"

text \<open>The function that \<open>SyncUpdate\<close> applies to the status.\<close>

definition applyPatches :: "patches \<Rightarrow> FullNodeStatus \<Rightarrow> FullNodeStatus" where
  "applyPatches ps status = status\<lparr>st_SelfHealing := (st_SelfHealing status)\<lparr>shs_PVCAutoScale := Some
     (case shs_PVCAutoScale (st_SelfHealing status) of
        None \<Rightarrow> ps
      | Some m \<Rightarrow> foldl (\<lambda>m kv. AList.update (fst kv) (snd kv) m) m ps)\<rparr>\<rparr>"

definition resizePatches ::
  "scaler \<Rightarrow> (string \<Rightarrow> goerror + Quantity) \<Rightarrow> PVCAutoScaleSpec \<Rightarrow> patches option \<Rightarrow> time \<Rightarrow> PVCDiskUsage list \<Rightarrow>
   patches \<times> goerror option" where
  "resizePatches scaled ParseQuantity spec status now results =
     foldl (resize_step scaled ParseQuantity spec status now) ([], None) results"

definition SignalPVCResize ::
  "scaler \<Rightarrow> (string \<Rightarrow> goerror + Quantity) \<Rightarrow> (ObjectKey \<Rightarrow> status_fun \<Rightarrow> goerror option) \<Rightarrow> time \<Rightarrow> CosmosFullNode \<Rightarrow>
   PVCDiskUsage list \<Rightarrow> (bool \<times> goerror option) exec" where
  "SignalPVCResize scaled ParseQuantity syncUpdate now crd results =
     (case Option.bind (sp_SelfHeal (fn_Spec crd)) sh_PVCAutoScale of
        None \<Rightarrow> Panic ''invalid memory address or nil pointer dereference''
      | Some spec \<Rightarrow>
          (case resizePatches scaled ParseQuantity spec (shs_PVCAutoScale (st_SelfHealing (fn_Status crd))) now results of
             (patches, joinedErr) \<Rightarrow>
               if patches = [] then Ok (False, joinedErr)
               else Ok (True, errors_Join [joinedErr,
                 syncUpdate (ObjectKey (fn_Namespace crd) (fn_Name crd)) (applyPatches patches)])))"

subsection \<open>The controller\<close>

text \<open>The events that are recorded and the log are left out. Errors are reported, never returned.\<close>

definition pvcAutoScale ::
  "int \<Rightarrow> usage_reads \<Rightarrow> scaler \<Rightarrow> (string \<Rightarrow> goerror + Quantity) \<Rightarrow> (ObjectKey \<Rightarrow> status_fun \<Rightarrow> goerror option) \<Rightarrow> time \<Rightarrow>
   CosmosFullNode \<Rightarrow> bool exec" where
  "pvcAutoScale intNaN rd scaled ParseQuantity syncUpdate now crd =
     (case sp_SelfHeal (fn_Spec crd) of
        None \<Rightarrow> Panic ''invalid memory address or nil pointer dereference''
      | Some sh \<Rightarrow>
          if sh_PVCAutoScale sh = None then Ok False
          else case CollectDiskUsage intNaN rd crd of
                 Inl err \<Rightarrow> Ok False
               | Inr usage \<Rightarrow>
                   exec_bind (SignalPVCResize scaled ParseQuantity syncUpdate now crd usage)
                     (\<lambda>(didSignal, err). Ok (didSignal \<and> err = None)))"

definition mitigateHeightDrift ::
  "PodBody server \<Rightarrow> scaler \<Rightarrow> time \<Rightarrow> StatusCollection \<Rightarrow> CosmosFullNode \<Rightarrow> PodBody history \<Rightarrow> PodBody history exec" where
  "mitigateHeightDrift srv scaled now coll crd h =
     (case sp_SelfHeal (fn_Spec crd) of
        None \<Rightarrow> Panic ''invalid memory address or nil pointer dereference''
      | Some sh \<Rightarrow>
          if sh_HeightDriftMitigation sh = None then Ok h
          else exec_bind (LaggingPods scaled now coll crd) (\<lambda>pods.
                 Ok (foldl (\<lambda>h pod. snd (send srv (Delete pod) h)) h pods)))"

definition SelfHealing_Reconcile ::
  "int \<Rightarrow> usage_reads \<Rightarrow> scaler \<Rightarrow> (string \<Rightarrow> goerror + Quantity) \<Rightarrow> (ObjectKey \<Rightarrow> status_fun \<Rightarrow> goerror option) \<Rightarrow>
   PodBody server \<Rightarrow> time \<Rightarrow> StatusCollection \<Rightarrow> goerror + CosmosFullNode \<Rightarrow> PodBody history \<Rightarrow>
   ((Result \<times> goerror option) \<times> PodBody history) exec" where
  "SelfHealing_Reconcile intNaN rd scaled ParseQuantity syncUpdate srv now coll got h =
     (case got of
        Inl err \<Rightarrow> Ok ((stopResult, IgnoreNotFound (Some err)), h)
      | Inr crd \<Rightarrow>
          if sp_SelfHeal (fn_Spec crd) = None then Ok ((stopResult, None), h)
          else exec_bind (pvcAutoScale intNaN rd scaled ParseQuantity syncUpdate now crd) (\<lambda>_.
               exec_bind (mitigateHeightDrift srv scaled now coll crd h) (\<lambda>h'.
                 Ok ((requeueAfter (60 * time_Second), None), h'))))"

subsection \<open>Drift lemmas\<close>

lemma MaxByHeight_ge:
  "LatestBlockHeight (it_Status mx) \<le> LatestBlockHeight (it_Status (MaxByHeight mx items)) \<and>
   (\<forall>it \<in> set items. LatestBlockHeight (it_Status it) \<le> LatestBlockHeight (it_Status (MaxByHeight mx items)))"
proof (induction items arbitrary: mx)
  case (Cons item items)
  let ?m = "if LatestBlockHeight (it_Status item) > LatestBlockHeight (it_Status mx) then item else mx"
  have "LatestBlockHeight (it_Status mx) \<le> LatestBlockHeight (it_Status ?m)"
    "LatestBlockHeight (it_Status item) \<le> LatestBlockHeight (it_Status ?m)" by auto
  then show ?case using Cons.IH [of ?m] by (auto intro: order_trans)
qed simp

lemma maxHeight_ge: "it \<in> set synced \<Longrightarrow> LatestBlockHeight (it_Status it) \<le> maxHeight synced"
  using MaxByHeight_ge by (auto simp: maxHeight_def split: list.splits)

lemma filter_remove_length:
  assumes "distinct xs"
  shows "length xs \<le> length (filter (\<lambda>x. x \<notin> set ys) xs) + length ys"
proof -
  have "length (filter (\<lambda>x. x \<in> set ys) xs) = card (set xs \<inter> set ys)"
    using distinct_card [OF distinct_filter [OF assms], of "\<lambda>x. x \<in> set ys"] by (simp add: Int_def)
  also have "\<dots> \<le> length ys" by (meson Int_lower2 List.finite_set card_length card_mono le_trans)
  finally show ?thesis using sum_length_filter_compl [of "\<lambda>x. x \<in> set ys" xs] by simp
qed

text \<open>C19: Drift mitigation never restarts a pod in vain and never costs availability. For a collection
  that holds each pod once, every pod it picks is in sync and at least the threshold behind the
  highest block of the pods in sync (without wrap-around); and of the available pods it leaves at
  least as many as there were or \<open>Replicas\<close> less the maximum unavailable, whichever is lower.\<close>

theorem LaggingPods_safe:
  assumes "LaggingPods scaled now coll crd = Ok pods" and "distinct (map it_Pod coll)"
    and "sp_SelfHeal (fn_Spec crd) = Some sh" and "sh_HeightDriftMitigation sh = Some drift"
    and "scaled (case ro_MaxUnavailable (sp_RolloutStrategy (fn_Spec crd)) of None \<Rightarrow> defaultMaxUnavail | Some m \<Rightarrow> m)
      (sp_Replicas (fn_Spec crd)) = Inr u"
  shows "(\<forall>p \<in> set pods. \<exists>it \<in> set (Synced coll). it_Pod it = p \<and>
      unat (LatestBlockHeight (it_Status it)) + unat (hd_Threshold drift) \<le> unat (maxHeight (Synced coll))) \<and>
    min (int (length (AvailablePods (SyncedPods coll) (5 * time_Second) now))) (sp_Replicas (fn_Spec crd) - max 1 u)
      \<le> int (length (filter (\<lambda>p. p \<notin> set pods) (AvailablePods (SyncedPods coll) (5 * time_Second) now)))"
proof -
  let ?avail = "AvailablePods (SyncedPods coll) (5 * time_Second) now"
  let ?lag = "filter (\<lambda>item. maxHeight (Synced coll) - LatestBlockHeight (it_Status item) \<ge> ucast (hd_Threshold drift)) (Synced coll)"
  have av: "AvailablePods (Pods (Synced coll)) (5 * time_Second) now = ?avail" by (simp add: Pods_def SyncedPods_def)
  obtain n where n: "ComputeRollout scaled (ro_MaxUnavailable (sp_RolloutStrategy (fn_Spec crd))) (sp_Replicas (fn_Spec crd))
      (int (length ?avail)) = Ok n" and pods: "pods = take (nat n) (map it_Pod ?lag)"
    using assms(1,3,4) by (auto simp: LaggingPods_def Let_def av exec_bind_Ok_iff)
  have "\<exists>it \<in> set (Synced coll). it_Pod it = p \<and>
      unat (LatestBlockHeight (it_Status it)) + unat (hd_Threshold drift) \<le> unat (maxHeight (Synced coll))" if p: "p \<in> set pods" for p
  proof -
    obtain it where it: "it \<in> set (Synced coll)" "it_Pod it = p"
        "ucast (hd_Threshold drift) \<le> maxHeight (Synced coll) - LatestBlockHeight (it_Status it)"
      using p pods by (auto dest!: in_set_takeD)
    have "unat (ucast (hd_Threshold drift) :: 64 word) = unat (hd_Threshold drift)"
      using unsigned_less [of "hd_Threshold drift", where ?'a = nat]
      by (simp add: unsigned_ucast_eq take_bit_nat_eq_self)
    then show ?thesis using it maxHeight_ge [OF it(1)] unat_sub [of "LatestBlockHeight (it_Status it)" "maxHeight (Synced coll)"]
      by (auto simp: word_le_nat_alt)
  qed
  moreover have "distinct ?avail"
    using assms(2) by (simp add: AvailablePods_def SyncedPods_def Synced_def distinct_map_filter)
  then have len: "length ?avail \<le> length (filter (\<lambda>p. p \<notin> set pods) ?avail) + nat n"
    using filter_remove_length [of ?avail pods] pods by (auto intro: le_trans)
  have bound: "n \<le> int (length ?avail) - (sp_Replicas (fn_Spec crd) - max 1 u)" if "0 < n"
    using n assms(5) that by (auto simp: ComputeRollout_def Let_def max_def split: option.splits if_splits)
  have "min (int (length ?avail)) (sp_Replicas (fn_Spec crd) - max 1 u) \<le> int (length (filter (\<lambda>p. p \<notin> set pods) ?avail))"
  proof (cases "0 < n")
    case True
    with len bound show ?thesis by linarith
  next
    case False
    with len show ?thesis by simp
  qed
  ultimately show ?thesis by blast
qed

text \<open>Two synced, available pods, one of them ten blocks behind.\<close>

definition drift_crd :: CosmosFullNode where
  "drift_crd = sample_crd\<lparr>fn_Spec := sample_spec\<lparr>sp_Replicas := 2, sp_SelfHeal := Some \<lparr>sh_PVCAutoScale = None,
     sh_HeightDriftMitigation = Some \<lparr>hd_Threshold = 10\<rparr>, sh_PruningSpec = None\<rparr>\<rparr>\<rparr>"

definition ready_pod :: "string \<Rightarrow> Pod" where
  "ready_pod n = (uid_pod n)\<lparr>ob_Body := \<lparr>pb_Spec = emptyPodSpec, pb_Status = emptyPodStatus\<lparr>pst_Conditions :=
     [\<lparr>pc_Type = ''Ready'', pc_Status = ''True'', pc_LastTransitionTime = 0\<rparr>]\<rparr>\<rparr>\<rparr>"

definition at_height :: "string \<Rightarrow> string \<Rightarrow> StatusItem" where
  "at_height n h = \<lparr>it_Pod = ready_pod n, it_Status = emptyStatus\<lparr>cs_SyncInfo := emptySyncInfo\<lparr>sy_LatestBlockHeight := h\<rparr>\<rparr>,
     it_TS = 0, it_Err = None\<rparr>"

definition drift_coll :: StatusCollection where
  "drift_coll = [at_height ''osmo-0'' ''110'', at_height ''osmo-2'' ''100'']"

lemma drift_simps [simp]:
  "LatestBlockHeight (it_Status (at_height n ''110'')) = 110" "LatestBlockHeight (it_Status (at_height n ''100'')) = 100"
  "it_Pod (at_height n h) = ready_pod n" "it_Err (at_height n h) = None"
  "\<not> sy_CatchingUp (cs_SyncInfo (it_Status (at_height n h)))" "IsPodAvailable (ready_pod n) (5 * time_Second) (10 * time_Second)"
  by (simp_all add: LatestBlockHeight_def at_height_def ParseUint_def is_digit_def dec_value_def digit_val_def emptySyncInfo_def
      ready_pod_def IsPodAvailable_def isPodReadyConditionTrue_def getPodReadyCondition_def getPodCondition_def
      getPodConditionFromList_def zeroTime_def time_Second_def)

theorem LaggingPods_safe_witness:
  "LaggingPods scaled_ref (10 * time_Second) drift_coll drift_crd = Ok [ready_pod ''osmo-2''] \<and>
   1 \<le> int (length (filter (\<lambda>p. p \<notin> {ready_pod ''osmo-2''})
     (AvailablePods (SyncedPods drift_coll) (5 * time_Second) (10 * time_Second))))"
proof -
  have s: "scaled_ref (case ro_MaxUnavailable (sp_RolloutStrategy (fn_Spec drift_crd)) of None \<Rightarrow> defaultMaxUnavail | Some m \<Rightarrow> m)
      (sp_Replicas (fn_Spec drift_crd)) = Inr 0" by code_simp
  have c: "ComputeRollout scaled_ref (ro_MaxUnavailable (sp_RolloutStrategy (fn_Spec drift_crd))) 2 2 = Ok 1" by code_simp
  have d: "distinct (map it_Pod drift_coll)" by (simp add: drift_coll_def ready_pod_def uid_pod_def emptyMeta_def)
  have a: "length (AvailablePods (SyncedPods drift_coll) (5 * time_Second) (10 * time_Second)) = 2"
    by (simp add: drift_coll_def AvailablePods_def SyncedPods_def Synced_def)
  have l: "LaggingPods scaled_ref (10 * time_Second) drift_coll drift_crd = Ok [ready_pod ''osmo-2'']"
    using c a by (simp add: LaggingPods_def Let_def drift_crd_def drift_coll_def Synced_def maxHeight_def Pods_def SyncedPods_def)
  have h: "sp_SelfHeal (fn_Spec drift_crd) = Some \<lparr>sh_PVCAutoScale = None, sh_HeightDriftMitigation = Some \<lparr>hd_Threshold = 10\<rparr>, sh_PruningSpec = None\<rparr>"
    by (simp add: drift_crd_def)
  show ?thesis
    using LaggingPods_safe [where scaled = scaled_ref, OF l d h _ s] l a by (simp add: drift_crd_def)
qed

subsection \<open>Disk usage and volume sizes\<close>

text \<open>C21: The reported usage is a percentage: whatever the rounding of the floating point operations,
  a disk with at most as many free bytes as bytes is between 0 and 100 percent full, and with more
  free bytes never more full.\<close>

theorem percentUsed_bounds:
  assumes "du_AllBytes r \<noteq> 0" and "du_FreeBytes r \<le> du_AllBytes r"
    and "du_AllBytes r' = du_AllBytes r" and "du_FreeBytes r' \<le> du_FreeBytes r"
  shows "0 \<le> percentUsed intNaN r \<and> percentUsed intNaN r \<le> percentUsed intNaN r' \<and> percentUsed intNaN r' \<le> 100"
proof -
  let ?a = "of_nat (unat (du_AllBytes r)) :: rat"
  let ?d = "\<lambda>r. of_nat (unat (du_AllBytes r - du_FreeBytes r)) :: rat"
  have sub: "unat (du_AllBytes r - du_FreeBytes r'') = unat (du_AllBytes r) - unat (du_FreeBytes r'')"
    if "du_FreeBytes r'' \<le> du_FreeBytes r" for r''
    using that assms(2) by (intro unat_sub) auto
  have "unat (du_AllBytes r - du_FreeBytes r) \<le> unat (du_AllBytes r' - du_FreeBytes r')"
      "unat (du_AllBytes r' - du_FreeBytes r') \<le> unat (du_AllBytes r)"
    using sub [of r] sub [of r'] assms(3,4) by (auto simp: word_le_nat_alt)
  then have d: "0 \<le> ?d r" "?d r \<le> ?d r'" "?d r' \<le> ?a"
    by (simp_all only: of_nat_le_iff of_nat_0_le_iff)
  have a: "0 < fl64 ?a" 
  proof -
    have "1 \<le> unat (du_AllBytes r)" using assms(1) by (simp add: Suc_le_eq unat_gt_0)
    then have "of_nat 1 \<le> ?a" by (simp only: of_nat_le_iff)
    then have "1 \<le> ?a" by (simp only: of_nat_1)
    then show ?thesis using fl64_mono [of 1 ?a] by simp
  qed
  have q: "0 \<le> fl64 (?d r) / fl64 ?a" "fl64 (?d r) / fl64 ?a \<le> fl64 (?d r') / fl64 ?a" "fl64 (?d r') / fl64 ?a \<le> 1"
    using a fl64_nonneg [OF d(1)] fl64_mono [OF d(1,2)] fl64_mono [of "?d r'" ?a] d by (auto simp: divide_right_mono)
  let ?p = "\<lambda>r. fl64 (fl64 (fl64 (?d r) / fl64 ?a) * 100)"
  have "0 \<le> ?p r" "?p r \<le> ?p r'" "?p r' \<le> 100"
  proof -
    have m: "0 \<le> fl64 (fl64 (?d r) / fl64 ?a)" "fl64 (fl64 (?d r) / fl64 ?a) \<le> fl64 (fl64 (?d r') / fl64 ?a)"
        "fl64 (fl64 (?d r') / fl64 ?a) \<le> 1"
      using fl64_nonneg [OF q(1)] fl64_mono [OF q(1,2)] fl64_mono [of "fl64 (?d r') / fl64 ?a" 1] q by auto
    then show "0 \<le> ?p r" "?p r \<le> ?p r'" "?p r' \<le> 100"
      using fl64_mono [of "fl64 (fl64 (?d r') / fl64 ?a) * 100" 100]
      by (auto intro!: fl64_nonneg fl64_mono)
  qed
  then have "0 \<le> math_Round (?p r)" "math_Round (?p r) \<le> math_Round (?p r')" "math_Round (?p r') \<le> math_Round (of_int 100)"
    by (intro math_Round_nonneg math_Round_mono; simp)+
  then show ?thesis using assms(1,3) unfolding percentUsed_def math_Round_of_int by simp
qed

theorem percentUsed_bounds_witness:
  "0 \<le> percentUsed 0 (emptyDiskUsage\<lparr>du_AllBytes := 300, du_FreeBytes := 100\<rparr>) \<and>
   percentUsed 0 (emptyDiskUsage\<lparr>du_AllBytes := 300, du_FreeBytes := 100\<rparr>)
     \<le> percentUsed 0 (emptyDiskUsage\<lparr>du_AllBytes := 300, du_FreeBytes := 50\<rparr>) \<and>
   percentUsed 0 (emptyDiskUsage\<lparr>du_AllBytes := 300, du_FreeBytes := 50\<rparr>) \<le> 100"
  by (rule percentUsed_bounds) simp_all

lemma int64_wrap_id: "- (2 ^ 63) \<le> n \<Longrightarrow> n < 2 ^ 63 \<Longrightarrow> int64_wrap n = n"
  by (simp add: int64_wrap_def)

lemma q_Value_nonneg: "0 \<le> q_Amount q \<Longrightarrow> 0 \<le> q_Value q \<and> q_Amount q \<le> of_int (q_Value q)"
  by (simp add: q_Value_def)

text \<open>An increase that the spec may ask for: a percentage up to 100, or an amount of bytes.\<close>

definition increase_ok :: "scaler \<Rightarrow> (string \<Rightarrow> goerror + Quantity) \<Rightarrow> string \<Rightarrow> bool" where
  "increase_ok scaled ParseQuantity inc \<longleftrightarrow>
     (case scaled (StrVal inc) 100 of
        Inr p \<Rightarrow> 0 \<le> p \<and> p \<le> 100
      | Inl _ \<Rightarrow> (case ParseQuantity inc of Inr q \<Rightarrow> 0 \<le> q_Amount q \<and> q_Amount q \<le> 2 ^ 62 | Inl _ \<Rightarrow> False))"

lemma addtl_bounds:
  assumes "0 \<le> v" and "v \<le> 2 ^ 62" and "0 \<le> p" and "p \<le> (100 :: int)"
  shows "0 \<le> math_Round (fl64 (fl64 (of_int v) * fl64 (fl64 (of_int p) / 100)))"
    and "math_Round (fl64 (fl64 (of_int v) * fl64 (fl64 (of_int p) / 100))) \<le> 2 ^ 62"
proof -
  have p: "0 \<le> fl64 (of_int p)" "fl64 (of_int p) \<le> 100"
    using assms(3,4) fl64_nonneg [of "of_int p"] fl64_mono [of "of_int p" 100] by auto
  then have f: "0 \<le> fl64 (fl64 (of_int p) / 100)" "fl64 (fl64 (of_int p) / 100) \<le> 1"
    using fl64_nonneg [of "fl64 (of_int p) / 100"] fl64_mono [of "fl64 (of_int p) / 100" 1] by auto
  have two: "fl64 (2 ^ 62) = 2 ^ 62" by code_simp
  have v: "0 \<le> fl64 (of_int v)" "fl64 (of_int v) \<le> 2 ^ 62"
    using assms(1,2) fl64_nonneg [of "of_int v"] fl64_mono [of "of_int v" "2 ^ 62"] two by auto
  have pr: "0 \<le> fl64 (of_int v) * fl64 (fl64 (of_int p) / 100)" "fl64 (of_int v) * fl64 (fl64 (of_int p) / 100) \<le> 2 ^ 62"
    using v f mult_mono [of "fl64 (of_int v)" "2 ^ 62" "fl64 (fl64 (of_int p) / 100)" 1] by auto
  then have r: "0 \<le> fl64 (fl64 (of_int v) * fl64 (fl64 (of_int p) / 100))"
      "fl64 (fl64 (of_int v) * fl64 (fl64 (of_int p) / 100)) \<le> of_int (2 ^ 62)"
    using fl64_nonneg [OF pr(1)] fl64_mono [OF pr] two by auto
  then show "0 \<le> math_Round (fl64 (fl64 (of_int v) * fl64 (fl64 (of_int p) / 100)))" by (intro math_Round_nonneg)
  show "math_Round (fl64 (fl64 (of_int v) * fl64 (fl64 (of_int p) / 100))) \<le> 2 ^ 62"
    using math_Round_mono [OF r] unfolding math_Round_of_int .
qed

lemma calcNextCapacity_grows:
  assumes "increase_ok scaled ParseQuantity inc" and "0 \<le> q_Amount cap" and "q_Amount cap \<le> 2 ^ 61"
  shows "\<exists>q. calcNextCapacity scaled ParseQuantity cap inc = Inr q \<and> q_Amount cap \<le> q_Amount q"
proof -
  have v: "0 \<le> q_Value cap" "q_Amount cap \<le> of_int (q_Value cap)" "q_Value cap \<le> 2 ^ 61"
    using q_Value_nonneg [OF assms(2)] assms(2,3) by (auto simp: q_Value_def ceiling_le_iff)
  have grow: "q_Amount cap \<le> q_Amount (NewQuantity (int64_wrap (q_Value cap + a)) f)" if "0 \<le> a" "a \<le> 2 ^ 62" for a f
  proof -
    have "int64_wrap (q_Value cap + a) = q_Value cap + a" using v that by (intro int64_wrap_id) auto
    then show ?thesis using v that by (simp add: NewQuantity_def)
  qed
  show ?thesis
  proof (cases "scaled (StrVal inc) 100")
    case (Inr p)
    with assms(1) have "0 \<le> p" "p \<le> 100" by (auto simp: increase_ok_def)
    then show ?thesis using Inr grow addtl_bounds [OF v(1)] v(3) by (simp add: calcNextCapacity_def Let_def)
  next
    case (Inl e)
    with assms(1) obtain q where q: "ParseQuantity inc = Inr q" "0 \<le> q_Amount q" "q_Amount q \<le> 2 ^ 62"
      by (auto simp: increase_ok_def split: sum.splits)
    have "0 \<le> q_Value q" "q_Value q \<le> 2 ^ 62" using q_Value_nonneg [OF q(2)] q by (auto simp: q_Value_def ceiling_le_iff)
    then show ?thesis using Inl q(1) grow by (simp add: calcNextCapacity_def)
  qed
qed

lemma resize_step_cases:
  assumes "calcNextCapacity scaled ParseQuantity (pd_Capacity u) (pa_IncreaseQuantity spec) = Inr q"
  shows "resize_step scaled ParseQuantity spec status now acc u = acc \<or>
    pa_UsedSpacePercentage spec \<le> pd_PercentUsed u \<and>
    (q_Amount (pa_MaxSize spec) = 0 \<or> q_Amount (pd_Capacity u) < q_Amount (pa_MaxSize spec)) \<and>
    resize_step scaled ParseQuantity spec status now acc u =
      (AList.update (pd_Name u) \<lparr>as_RequestedSize = (if q_Amount (pa_MaxSize spec) \<noteq> 0 \<and> q_Cmp q (pa_MaxSize spec) \<ge> 0
          then pa_MaxSize spec else q), as_RequestedAt = now\<rparr> (fst acc), snd acc)"
  using assms unfolding resize_step_def Let_def by (simp del: q_Cmp_nonneg) (simp add: not_less)

lemma resizePatches_spec:
  assumes "increase_ok scaled ParseQuantity (pa_IncreaseQuantity spec)"
    and "\<forall>u \<in> set results. 0 \<le> q_Amount (pd_Capacity u) \<and> q_Amount (pd_Capacity u) \<le> 2 ^ 61"
  shows "snd (resizePatches scaled ParseQuantity spec status now results) = None \<and>
    (\<forall>(n, p) \<in> set (fst (resizePatches scaled ParseQuantity spec status now results)).
       \<exists>u \<in> set results. pd_Name u = n \<and> pa_UsedSpacePercentage spec \<le> pd_PercentUsed u \<and>
         q_Amount (pd_Capacity u) \<le> q_Amount (as_RequestedSize p) \<and> as_RequestedAt p = now \<and>
         (q_Amount (pa_MaxSize spec) \<noteq> 0 \<longrightarrow> q_Amount (as_RequestedSize p) \<le> q_Amount (pa_MaxSize spec)))"
  using assms(2)
proof (induction results rule: rev_induct)
  case Nil
  then show ?case by (simp add: resizePatches_def)
next
  case (snoc u results)
  let ?r = "resizePatches scaled ParseQuantity spec status now results"
  have IH: "snd ?r = None" "\<forall>(n, p) \<in> set (fst ?r). \<exists>u \<in> set results. pd_Name u = n \<and>
       pa_UsedSpacePercentage spec \<le> pd_PercentUsed u \<and>
       q_Amount (pd_Capacity u) \<le> q_Amount (as_RequestedSize p) \<and> as_RequestedAt p = now \<and>
       (q_Amount (pa_MaxSize spec) \<noteq> 0 \<longrightarrow> q_Amount (as_RequestedSize p) \<le> q_Amount (pa_MaxSize spec))"
    using snoc by auto
  have step: "resizePatches scaled ParseQuantity spec status now (results @ [u]) =
      resize_step scaled ParseQuantity spec status now ?r u"
    by (simp add: resizePatches_def)
  obtain q where q: "calcNextCapacity scaled ParseQuantity (pd_Capacity u) (pa_IncreaseQuantity spec) = Inr q"
      "q_Amount (pd_Capacity u) \<le> q_Amount q"
    using calcNextCapacity_grows [OF assms(1), of "pd_Capacity u"] snoc.prems by auto
  let ?size = "if q_Amount (pa_MaxSize spec) \<noteq> 0 \<and> q_Cmp q (pa_MaxSize spec) \<ge> 0 then pa_MaxSize spec else q"
  consider "resize_step scaled ParseQuantity spec status now ?r u = ?r"
    | "pa_UsedSpacePercentage spec \<le> pd_PercentUsed u"
      "q_Amount (pa_MaxSize spec) = 0 \<or> q_Amount (pd_Capacity u) < q_Amount (pa_MaxSize spec)"
      "resize_step scaled ParseQuantity spec status now ?r u =
         (AList.update (pd_Name u) \<lparr>as_RequestedSize = ?size, as_RequestedAt = now\<rparr> (fst ?r), None)"
    using resize_step_cases [where status = status and now = now and acc = ?r, OF q(1)] IH(1) by auto
  then show ?case
  proof cases
    case 1
    with IH show ?thesis unfolding step by fastforce
  next
    case 2
    have "q_Amount (pd_Capacity u) \<le> q_Amount ?size" "q_Amount (pa_MaxSize spec) \<noteq> 0 \<longrightarrow> q_Amount ?size \<le> q_Amount (pa_MaxSize spec)"
      using q(2) 2(2) by auto
    with 2 IH show ?thesis unfolding step by (fastforce dest: in_set_update)
  qed
qed

text \<open>C20: A resize request is sound. For volumes of at most \<open>2 ^ 61\<close> bytes and an increase by up to
  100 percent or \<open>2 ^ 62\<close> bytes, a size is requested only for a volume that is used at least as much
  as the trigger; it is no smaller than the volume's capacity and no larger than the maximum, if there
  is one; and no error is reported.\<close>

theorem resizePatches_sound:
  assumes "increase_ok scaled ParseQuantity (pa_IncreaseQuantity spec)"
    and "\<forall>u \<in> set results. 0 \<le> q_Amount (pd_Capacity u) \<and> q_Amount (pd_Capacity u) \<le> 2 ^ 61"
  shows "snd (resizePatches scaled ParseQuantity spec status now results) = None \<and>
    (\<forall>(n, p) \<in> set (fst (resizePatches scaled ParseQuantity spec status now results)).
       \<exists>u \<in> set results. pd_Name u = n \<and> pa_UsedSpacePercentage spec \<le> pd_PercentUsed u \<and>
         q_Amount (pd_Capacity u) \<le> q_Amount (as_RequestedSize p) \<and> as_RequestedAt p = now \<and>
         (q_Amount (pa_MaxSize spec) \<noteq> 0 \<longrightarrow> q_Amount (as_RequestedSize p) \<le> q_Amount (pa_MaxSize spec)))"
  by (rule resizePatches_spec [OF assms])

definition sample_scale :: PVCAutoScaleSpec where
  "sample_scale = \<lparr>pa_UsedSpacePercentage = 80, pa_IncreaseQuantity = ''20%'', pa_MaxSize = NewQuantity 1100 []\<rparr>"

definition sample_usage :: PVCDiskUsage where
  "sample_usage = \<lparr>pd_Name = ''pvc-osmo-0'', pd_PercentUsed = 90, pd_Capacity = NewQuantity 1000 []\<rparr>"

theorem resizePatches_sound_witness:
  "fst (resizePatches scaled_ref (\<lambda>s. Inl (errorNew s)) sample_scale None 7 [sample_usage]) =
     [(''pvc-osmo-0'', \<lparr>as_RequestedSize = NewQuantity 1100 [], as_RequestedAt = 7\<rparr>)] \<and>
   snd (resizePatches scaled_ref (\<lambda>s. Inl (errorNew s)) sample_scale None 7 [sample_usage]) = None"
proof -
  have i: "increase_ok scaled_ref (\<lambda>s. Inl (errorNew s)) (pa_IncreaseQuantity sample_scale)" by code_simp
  have c: "\<forall>u \<in> set [sample_usage]. 0 \<le> q_Amount (pd_Capacity u) \<and> q_Amount (pd_Capacity u) \<le> 2 ^ 61" by code_simp
  have "fst (resizePatches scaled_ref (\<lambda>s. Inl (errorNew s)) sample_scale None 7 [sample_usage]) =
     [(''pvc-osmo-0'', \<lparr>as_RequestedSize = NewQuantity 1100 [], as_RequestedAt = 7\<rparr>)]" by code_simp
  with resizePatches_sound [OF i c] show ?thesis by blast
qed

text \<open>A request that was cut to the maximum is made again on every round: although the status
  already holds the maximum for a volume, which is all that can be requested, the status is patched
  once more. The comparison with the status uses the size before it is cut.\<close>

theorem capped_request_repeats:
  "\<exists>spec status now u. (\<exists>p. map_of status (pd_Name u) = Some p \<and> as_RequestedSize p = pa_MaxSize spec) \<and>
     fst (resizePatches scaled_ref (\<lambda>s. Inl (errorNew s)) spec (Some status) now [u]) =
       [(pd_Name u, \<lparr>as_RequestedSize = pa_MaxSize spec, as_RequestedAt = now\<rparr>)]"
proof -
  let ?st = "[(''pvc-osmo-0'', \<lparr>as_RequestedSize = NewQuantity 1100 [], as_RequestedAt = 7\<rparr>)]"
  have "fst (resizePatches scaled_ref (\<lambda>s. Inl (errorNew s)) sample_scale (Some ?st) 8 [sample_usage]) =
      [(pd_Name sample_usage, \<lparr>as_RequestedSize = pa_MaxSize sample_scale, as_RequestedAt = 8\<rparr>)]" by code_simp
  then show ?thesis
    by (intro exI [of _ sample_scale] exI [of _ ?st] exI [of _ 8] exI [of _ sample_usage])
      (simp add: sample_usage_def sample_scale_def)
qed

end
