(* ===== verification/Autoscale.thy ===== *)
theory Autoscale
  imports Self_Healing Pvc_Builder
begin

text \<open>
  The way of a resize through three components: the self healing controller measures the disks and requests sizes
  (\<open>resizePatches\<close>), the status client stores the requests in the status (\<open>applyPatches\<close>), and the
  builder of claims reads them there (\<open>pvcResources\<close>).
\<close>

subsection \<open>Requests arrive in the status\<close>

lemma resizePatches_distinct: "distinct (map fst (fst (resizePatches scaled ParseQuantity spec status now results)))"
proof (induction results rule: rev_induct)
  case Nil
  then show ?case by (simp add: resizePatches_def)
next
  case (snoc u results)
  have "distinct (map fst (fst acc)) \<Longrightarrow> distinct (map fst (fst (resize_step scaled ParseQuantity spec status now acc u)))" for acc
    by (auto simp: resize_step_def Let_def distinct_update split: sum.split)
  with snoc show ?case by (simp add: resizePatches_def)
qed

lemma map_of_foldl_update:
  assumes "distinct (map fst ps)" and "(n, p) \<in> set ps"
  shows "map_of (foldl (\<lambda>m kv. AList.update (fst kv) (snd kv) m) m ps) n = Some p"
  using assms
proof (induction ps rule: rev_induct)
  case (snoc kv ps)
  show ?case
  proof (cases "fst kv = n")
    case True
    then have "kv = (n, p)" using snoc.prems by (force simp: image_iff)
    then show ?thesis by (simp add: update_conv')
  next
    case False
    then show ?thesis using snoc by (auto simp: update_conv')
  qed
qed simp

lemma applyPatches_request:
  assumes "distinct (map fst ps)" and "(n, p) \<in> set ps"
  shows "Option.bind (shs_PVCAutoScale (st_SelfHealing (applyPatches ps status))) (\<lambda>m. map_of m n) = Some p"
  using assms map_of_foldl_update [OF assms] by (auto simp: applyPatches_def split: option.split)

lemma map_of_foldl_update_other:
  "n \<notin> fst ` set ps \<Longrightarrow> map_of (foldl (\<lambda>m kv. AList.update (fst kv) (snd kv) m) m ps) n = map_of m n"
  by (induction ps arbitrary: m) (auto simp: update_conv')

subsection \<open>A full disk has a request\<close>

text \<open>The size that the status requests for a claim.\<close>

definition request_of :: "FullNodeStatus \<Rightarrow> string \<Rightarrow> PVCAutoScaleStatus option" where
  "request_of status n = Option.bind (shs_PVCAutoScale (st_SelfHealing status)) (\<lambda>m. map_of m n)"

lemma applyPatches_other:
  "\<nexists>p. (n, p) \<in> set ps \<Longrightarrow> request_of status n \<noteq> None \<Longrightarrow> request_of (applyPatches ps status) n = request_of status n"
proof (cases "shs_PVCAutoScale (st_SelfHealing status)")
  case (Some m)
  assume "\<nexists>p. (n, p) \<in> set ps"
  then have "n \<notin> fst ` set ps" by force
  from map_of_foldl_update_other [OF this] show ?thesis using Some by (simp add: request_of_def applyPatches_def)
qed (simp add: request_of_def)

lemma resize_step_keeps:
  "n \<in> fst ` set (fst acc) \<Longrightarrow> n \<in> fst ` set (fst (resize_step scaled ParseQuantity spec status now acc u))"
  by (auto simp: resize_step_def Let_def update_keys dom_update split: sum.split)

lemma resizePatches_entry:
  assumes "\<And>acc. pd_Name u \<in> fst ` set (fst (resize_step scaled ParseQuantity spec status now acc u))" and "u \<in> set results"
  shows "\<exists>p. (pd_Name u, p) \<in> set (fst (resizePatches scaled ParseQuantity spec status now results))"
proof -
  have "pd_Name u \<in> fst ` set (fst (resizePatches scaled ParseQuantity spec status now results))"
    using assms(2)
  proof (induction results rule: rev_induct)
    case (snoc x xs)
    then show ?case using assms(1) by (cases "u = x") (simp_all add: resizePatches_def resize_step_keeps)
  qed simp
  then show ?thesis by force
qed

text \<open>A disk that is used up to the trigger, and below the maximum, is patched unless its next size is in the
  status already.\<close>

lemma full_disk_requested:
  assumes "calcNextCapacity scaled ParseQuantity (pd_Capacity u) (pa_IncreaseQuantity spec) = Inr q" and "u \<in> set results"
    and "pa_UsedSpacePercentage spec \<le> pd_PercentUsed u"
    and "q_Amount (pa_MaxSize spec) = 0 \<or> q_Amount (pd_Capacity u) < q_Amount (pa_MaxSize spec)"
  shows "(\<exists>p. (pd_Name u, p) \<in> set (fst (resizePatches scaled ParseQuantity spec status now results))) \<or>
    (\<exists>s. Option.bind status (\<lambda>m. map_of m (pd_Name u)) = Some s \<and> q_Value (as_RequestedSize s) = q_Value q)"
proof (cases "\<exists>s. Option.bind status (\<lambda>m. map_of m (pd_Name u)) = Some s \<and> q_Value (as_RequestedSize s) = q_Value q")
  case False
  then have "pd_Name u \<in> fst ` set (fst (resize_step scaled ParseQuantity spec status now acc u))" for acc
    using assms(1,3,4) unfolding resize_step_def Let_def
    by (auto simp: dom_update not_le simp del: q_Cmp_nonneg split: option.split) (auto simp: q_Cmp_def)
  then show ?thesis using resizePatches_entry [OF _ assms(2)] by blast
qed simp

text \<open>Two percent more than a size that rounds to the next capacity is more than the capacity, once that is
  more than fifty bytes.\<close>

lemma padded_exceeds:
  assumes "q_Value s = q_Value q" and "q_Amount cap \<le> q_Amount q" and "51 \<le> q_Amount cap"
  shows "q_Amount cap < q_Amount (padded s)"
proof -
  have "0 \<le> q_Amount q" using assms(2,3) by linarith
  from q_Value_nonneg [OF this] assms(2) have v: "q_Amount cap \<le> of_int (q_Value q)" by linarith
  then have "(0 :: rat) < of_int (q_Value q)" using assms(3) by linarith
  then have "0 < q_Value s" using assms(1) by simp
  then have "0 \<le> q_Amount s" by (auto simp: q_Value_def split: if_splits)
  then have "of_int (q_Value s) < q_Amount s + 1" by (simp add: q_Value_def) linarith
  then show ?thesis using v assms(1,3) by (simp add: padded_def snapshotGrowthFactor_def)
qed

subsection \<open>From the disk to the claim\<close>

text \<open>The claim that is built for an instance, if it is not to be restored from a data source.\<close>

lemma requested_claim:
  assumes "i \<in> set (ordinals (sp_Replicas (fn_Spec crd)))" and "\<not> pvcDisabled crd i" and "map_of ds i = None"
    and "rr_Requests (vct_Resources (sp_VolumeClaimTemplate (fn_Spec crd))) \<noteq> None"
    and "BuildPVCs marshal crd ds current = Ok claims" and "request_of (fn_Status crd) (pvcName crd i) = Some p"
  shows "\<exists>r \<in> set claims. rs_key r = ObjectKey (fn_Namespace crd) (pvcName crd i) \<and>
    q_Amount (padded (as_RequestedSize p)) \<le> storage (pvc_Resources (ob_Body (rs_Object r)))"
proof -
  obtain r where r: "r \<in> set claims" "buildPVC marshal crd ds current i = Ok (Some r)"
    using BuildPVCs_member [OF assms(5,1,2)] by blast
  obtain size where "pvcResources crd (pvcName crd i) None size = Ok (pvc_Resources (ob_Body (rs_Object r)))"
    using buildPVC_resources [OF r(2)] assms(3) by auto
  with pvcResources_max [OF assms(4), of "pvcName crd i" size] assms(6)
  have "q_Amount (padded (as_RequestedSize p)) \<le> storage (pvc_Resources (ob_Body (rs_Object r)))"
    by (auto simp: request_of_def)
  then show ?thesis using r(1) buildPVC_Some [OF r(2)] by blast
qed

lemma SignalPVCResize_cases:
  assumes "Option.bind (sp_SelfHeal (fn_Spec read)) sh_PVCAutoScale = Some spec"
    and "resizePatches scaled ParseQuantity spec (shs_PVCAutoScale (st_SelfHealing (fn_Status read))) now results = (ps, None)"
  shows "SignalPVCResize scaled ParseQuantity syncUpdate now read results = Ok (ps \<noteq> [],
    if ps \<noteq> [] then errors_Join [None, syncUpdate (ObjectKey (fn_Namespace read) (fn_Name read)) (applyPatches ps)] else None)"
  using assms by (simp add: SignalPVCResize_def)

text \<open>The request of a full disk exceeds its capacity when padded, whether it was made now or before.\<close>

lemma full_disk_growing:
  fixes spec :: PVCAutoScaleSpec
  assumes "increase_ok scaled ParseQuantity (pa_IncreaseQuantity spec)"
    and "\<forall>u \<in> set results. 0 \<le> q_Amount (pd_Capacity u) \<and> q_Amount (pd_Capacity u) \<le> 2 ^ 61" and "distinct (map pd_Name results)"
    and "u \<in> set results" and "pa_UsedSpacePercentage spec \<le> pd_PercentUsed u" and "51 \<le> q_Amount (pd_Capacity u)"
    and "q_Amount (pa_MaxSize spec) = 0 \<or> q_Amount (pd_Capacity u) < q_Amount (pa_MaxSize spec)"
    and "ps = fst (resizePatches scaled ParseQuantity spec (shs_PVCAutoScale (st_SelfHealing (fn_Status read))) now results)"
    and "request_of stored (pd_Name u) = request_of (fn_Status read) (pd_Name u)"
  shows "\<exists>p. request_of (if ps = [] then stored else applyPatches ps stored) (pd_Name u) = Some p \<and>
    q_Amount (pd_Capacity u) < q_Amount (padded (as_RequestedSize p))"
proof -
  obtain q where q: "calcNextCapacity scaled ParseQuantity (pd_Capacity u) (pa_IncreaseQuantity spec) = Inr q"
      "q_Amount (pd_Capacity u) \<le> q_Amount q"
    using calcNextCapacity_grows [OF assms(1)] assms(2,4) by blast
  have d: "distinct (map fst ps)" unfolding assms(8) by (rule resizePatches_distinct)
  show ?thesis
  proof (cases "\<exists>p. (pd_Name u, p) \<in> set ps")
    case True
    then obtain p where p: "(pd_Name u, p) \<in> set ps" by blast
    with resizePatches_spec [OF assms(1,2)] assms(8) obtain u' where
      u': "u' \<in> set results" "pd_Name u' = pd_Name u" "q_Amount (pd_Capacity u') \<le> q_Amount (as_RequestedSize p)" by blast
    then have "u' = u" using assms(3,4) by (auto simp: distinct_map dest: inj_onD)
    with padded_exceeds [OF refl _ assms(6), of "as_RequestedSize p"] u'(3) applyPatches_request [OF d p] p
    show ?thesis by (auto simp: request_of_def)
  next
    case False
    with full_disk_requested [OF q(1) assms(4,5,7)] assms(8)
    obtain s where s: "request_of (fn_Status read) (pd_Name u) = Some s" "q_Value (as_RequestedSize s) = q_Value q"
      unfolding request_of_def by blast
    have "request_of (applyPatches ps stored) (pd_Name u) = request_of stored (pd_Name u)"
      using False s(1) assms(9) by (rule_tac applyPatches_other) auto
    with s assms(9) padded_exceeds [OF s(2) q(2) assms(6)] show ?thesis by auto
  qed
qed

text \<open>C7: A full disk grows. The self healing controller measures the disks, one for each claim, and signals
  sizes from the status of the full node that it read. Then it never panics, and what it did is a function on the
  status, that it hands to the status client when there is anything to patch. Take a disk that is used up to the trigger or
  more and is below the maximum, if there is one. Apply the function to whatever status the full node has when the
  client writes, provided that an earlier request for that claim was not dropped in between. The next
  claim that the full node controller wants for that instance, if it is not to be restored from a data source,
  then asks for more storage than the measured capacity of the disk. (The capacity is at least 51 bytes, for a request
  that is there already is compared in whole bytes only, and at most $2^{61}$.)\<close>

theorem autoscale_grows_claim:
  assumes "Option.bind (sp_SelfHeal (fn_Spec read)) sh_PVCAutoScale = Some spec"
    and "increase_ok scaled ParseQuantity (pa_IncreaseQuantity spec)"
    and "\<forall>u \<in> set results. 0 \<le> q_Amount (pd_Capacity u) \<and> q_Amount (pd_Capacity u) \<le> 2 ^ 61" and "distinct (map pd_Name results)"
    and "u \<in> set results" and "pa_UsedSpacePercentage spec \<le> pd_PercentUsed u" and "51 \<le> q_Amount (pd_Capacity u)"
    and "q_Amount (pa_MaxSize spec) = 0 \<or> q_Amount (pd_Capacity u) < q_Amount (pa_MaxSize spec)"
  shows "\<exists>did f. (\<forall>syncUpdate. SignalPVCResize scaled ParseQuantity syncUpdate now read results =
      Ok (did, if did then errors_Join [None, syncUpdate (ObjectKey (fn_Namespace read) (fn_Name read)) f] else None)) \<and>
    (\<forall>crd stored i ds current claims.
       fn_Status crd = (if did then f stored else stored) \<and> request_of stored (pd_Name u) = request_of (fn_Status read) (pd_Name u) \<and>
       pd_Name u = pvcName crd i \<and> i \<in> set (ordinals (sp_Replicas (fn_Spec crd))) \<and> \<not> pvcDisabled crd i \<and> map_of ds i = None \<and>
       rr_Requests (vct_Resources (sp_VolumeClaimTemplate (fn_Spec crd))) \<noteq> None \<and>
       BuildPVCs marshal crd ds current = Ok claims \<longrightarrow>
       (\<exists>r \<in> set claims. rs_key r = ObjectKey (fn_Namespace crd) (pvcName crd i) \<and>
          q_Amount (pd_Capacity u) < storage (pvc_Resources (ob_Body (rs_Object r)))))"
proof -
  let ?r = "resizePatches scaled ParseQuantity spec (shs_PVCAutoScale (st_SelfHealing (fn_Status read))) now results"
  obtain ps where ps: "?r = (ps, None)" using resizePatches_spec [OF assms(2,3)] by (metis prod.collapse)
  note signal = SignalPVCResize_cases [OF assms(1) ps]
  have claim: "\<exists>r \<in> set claims. rs_key r = ObjectKey (fn_Namespace crd) (pvcName crd i) \<and>
      q_Amount (pd_Capacity u) < storage (pvc_Resources (ob_Body (rs_Object r)))"
    if st: "fn_Status crd = (if ps \<noteq> [] then applyPatches ps stored else stored)"
      "request_of stored (pd_Name u) = request_of (fn_Status read) (pd_Name u)" and n: "pd_Name u = pvcName crd i"
      and i: "i \<in> set (ordinals (sp_Replicas (fn_Spec crd)))" "\<not> pvcDisabled crd i" "map_of ds i = None"
      "rr_Requests (vct_Resources (sp_VolumeClaimTemplate (fn_Spec crd))) \<noteq> None"
      "BuildPVCs marshal crd ds current = Ok claims" for crd stored i ds current claims
  proof -
    obtain p where p: "request_of (fn_Status crd) (pvcName crd i) = Some p"
        "q_Amount (pd_Capacity u) < q_Amount (padded (as_RequestedSize p))"
      using full_disk_growing [OF assms(2-8) _ st(2), of ps now] ps st(1) n by (auto split: if_splits)
    from requested_claim [OF i p(1)] p(2) show ?thesis by (meson less_le_trans)
  qed
  show ?thesis
    by (intro exI [of _ "ps \<noteq> []"] exI [of _ "applyPatches ps"] conjI allI impI; (elim conjE)?)
      (rule signal, rule claim, assumption+)
qed

text \<open>The disk of the first instance of the sample is used to nine tenths: the function that is signalled makes the next
  claim ask for more than the thousand bytes that it has.\<close>

definition scaled_crd :: CosmosFullNode where
  "scaled_crd = sample_crd\<lparr>fn_Status := applyPatches
     (fst (resizePatches scaled_ref (\<lambda>s. Inl (errorNew s)) sample_scale None 7 [sample_usage])) (fn_Status sample_crd)\<rparr>"

definition scaling_crd :: CosmosFullNode where
  "scaling_crd = sample_crd\<lparr>fn_Spec := (fn_Spec sample_crd)\<lparr>sp_SelfHeal :=
     Some \<lparr>sh_PVCAutoScale = Some sample_scale, sh_HeightDriftMitigation = None, sh_PruningSpec = None\<rparr>\<rparr>\<rparr>"

theorem autoscale_grows_claim_witness:
  "\<exists>f claims. SignalPVCResize scaled_ref (\<lambda>s. Inl (errorNew s)) (\<lambda>key f. None) 7 scaling_crd [sample_usage] = Ok (True, None) \<and>
     BuildPVCs (\<lambda>ob. Inr []) (scaling_crd\<lparr>fn_Status := f (fn_Status scaling_crd)\<rparr>) [] [] = Ok claims \<and>
     (\<exists>r \<in> set claims. key_Name (rs_key r) = ''pvc-osmo-0'' \<and> 1000 < storage (pvc_Resources (ob_Body (rs_Object r))))"
proof -
  have sh: "Option.bind (sp_SelfHeal (fn_Spec scaling_crd)) sh_PVCAutoScale = Some sample_scale" by (simp add: scaling_crd_def)
  have i: "increase_ok scaled_ref (\<lambda>s. Inl (errorNew s)) (pa_IncreaseQuantity sample_scale)" by code_simp
  have c: "\<forall>u \<in> set [sample_usage]. 0 \<le> q_Amount (pd_Capacity u) \<and> q_Amount (pd_Capacity u) \<le> 2 ^ 61" by code_simp
  have u: "pa_UsedSpacePercentage sample_scale \<le> pd_PercentUsed sample_usage" "51 \<le> q_Amount (pd_Capacity sample_usage)"
      "q_Amount (pa_MaxSize sample_scale) = 0 \<or> q_Amount (pd_Capacity sample_usage) < q_Amount (pa_MaxSize sample_scale)"
    by code_simp+
  have cap: "q_Amount (pd_Capacity sample_usage) = 1000" by (simp add: sample_usage_def NewQuantity_def)
  have did: "case SignalPVCResize scaled_ref (\<lambda>s. Inl (errorNew s)) (\<lambda>key f. None) 7 scaling_crd [sample_usage] of
      Ok x \<Rightarrow> x = (True, None) | Panic m \<Rightarrow> False" by code_simp
  from autoscale_grows_claim [OF sh i c _ _ u, where now = 7 and marshal = "\<lambda>ob. Inr []"] obtain d f where
    f: "\<forall>syncUpdate. SignalPVCResize scaled_ref (\<lambda>s. Inl (errorNew s)) syncUpdate 7 scaling_crd [sample_usage] =
      Ok (d, if d then errors_Join [None, syncUpdate (ObjectKey (fn_Namespace scaling_crd) (fn_Name scaling_crd)) f] else None)"
    and g: "\<And>crd stored i ds current claims.
       fn_Status crd = (if d then f stored else stored) \<and>
       request_of stored (pd_Name sample_usage) = request_of (fn_Status scaling_crd) (pd_Name sample_usage) \<and>
       pd_Name sample_usage = pvcName crd i \<and> i \<in> set (ordinals (sp_Replicas (fn_Spec crd))) \<and> \<not> pvcDisabled crd i \<and>
       map_of ds i = None \<and> rr_Requests (vct_Resources (sp_VolumeClaimTemplate (fn_Spec crd))) \<noteq> None \<and>
       BuildPVCs (\<lambda>ob. Inr []) crd ds current = Ok claims \<longrightarrow>
       (\<exists>r \<in> set claims. rs_key r = ObjectKey (fn_Namespace crd) (pvcName crd i) \<and>
          q_Amount (pd_Capacity sample_usage) < storage (pvc_Resources (ob_Body (rs_Object r))))"
    by auto
  have d: d using did f by (auto split: exec.splits)
  let ?crd = "scaling_crd\<lparr>fn_Status := f (fn_Status scaling_crd)\<rparr>"
  have q: "rr_Requests (vct_Resources (sp_VolumeClaimTemplate (fn_Spec ?crd))) \<noteq> None"
    by (simp add: scaling_crd_def sample_crd_defs)
  obtain claims where b: "BuildPVCs (\<lambda>ob. Inr []) ?crd [] [] = Ok claims"
    using BuildPVCs_total [OF q, of "\<lambda>ob. Inr []"] by (auto simp: encodes_def)
  have "pvcName ?crd 0 = pvcName sample_crd 0" "pvcDisabled ?crd 0 = pvcDisabled sample_crd 0"
      "ordinals (sp_Replicas (fn_Spec ?crd)) = ordinals (sp_Replicas (fn_Spec sample_crd))"
    by (simp_all add: scaling_crd_def pvcName_def pvcDisabled_def appName_def instanceName_def)
  moreover have "pvcName sample_crd 0 = ''pvc-osmo-0''" "\<not> pvcDisabled sample_crd 0" "0 \<in> set (ordinals (sp_Replicas (fn_Spec sample_crd)))"
      "pd_Name sample_usage = ''pvc-osmo-0''"
    by code_simp+
  ultimately have "\<exists>r \<in> set claims. rs_key r = ObjectKey (fn_Namespace ?crd) ''pvc-osmo-0'' \<and>
      1000 < storage (pvc_Resources (ob_Body (rs_Object r)))"
    using g [of ?crd "fn_Status scaling_crd" 0 "[]" "[]" claims] d q b cap by simp
  moreover have "SignalPVCResize scaled_ref (\<lambda>s. Inl (errorNew s)) (\<lambda>key f. None) 7 scaling_crd [sample_usage] = Ok (True, None)"
    using did by (auto split: exec.splits)
  ultimately show ?thesis using b by (intro exI [of _ f] exI [of _ claims]) force
qed

text \<open>The growth factor applies to a request that was cut to the maximum as well: a claim can be asked to hold
  two percent more than the maximum that the full node allows.\<close>

lemma maximum_exceeded:
  "\<exists>r. pvcResources scaled_crd ''pvc-osmo-0'' None zeroQuantity = Ok r \<and> storage r = 1122 \<and> q_Amount (pa_MaxSize sample_scale) = 1100"
proof -
  have "case pvcResources scaled_crd ''pvc-osmo-0'' None zeroQuantity of Ok r \<Rightarrow> storage r = 1122 | Panic m \<Rightarrow> False" by code_simp
  then show ?thesis by (auto simp: sample_scale_def NewQuantity_def split: exec.splits)
qed

end
