(* ===== verification/Object_References.thy ===== *)
theory Object_References
  imports Resource_Controls Pvc_Builder Build_Pods
begin

text \<open>
  How the wanted objects of one full node fit together: the volumes of a wanted pod name a claim, a config map and
  a secret that the other builders want as well, and the p2p service of an instance selects
  the pod of that instance and no other one.
\<close>

subsection \<open>Where a wanted pod comes from\<close>

lemma BuildPods_loop_origin:
  assumes "BuildPods_loop env marshal patch builder cand cksums is acc = Ok (Inr rs)" and "r \<in> set rs"
  shows "r \<in> set acc \<or> (\<exists>b pod. rs_Ordinal r \<in> set is \<and> WithOrdinal env builder (rs_Ordinal r) = Ok b \<and>
    Build patch b = Inr (Some pod) \<and> GetName pod \<notin> set cand \<and> rs_Object r = annotateChecksum cksums pod)"
  using assms
proof (induction "is" arbitrary: acc)
  case Nil
  then show ?case by simp
next
  case (Cons i "is")
  obtain b where b: "WithOrdinal env builder i = Ok b" using Cons.prems(1) by auto
  obtain opt where opt: "Build patch b = Inr opt" using Cons.prems(1) b by (cases "Build patch b") auto
  show ?case
  proof (cases "\<exists>pod. opt = Some pod \<and> GetName pod \<notin> set cand")
    case False
    then have "BuildPods_loop env marshal patch builder cand cksums is acc = Ok (Inr rs)"
      using Cons.prems(1) b opt by (cases opt) auto
    then show ?thesis using Cons.IH Cons.prems(2) by auto
  next
    case True
    then obtain pod r' where p: "opt = Some pod" "GetName pod \<notin> set cand" "Adapt marshal (annotateChecksum cksums pod) i = Ok r'"
      "BuildPods_loop env marshal patch builder cand cksums is (acc @ [r']) = Ok (Inr rs)"
      using Cons.prems(1) b opt by auto
    have "rs_Ordinal r' = i" "rs_Object r' = annotateChecksum cksums pod" using p(3) by (auto dest!: Adapt_Ok)
    then show ?thesis using Cons.IH [OF p(4) Cons.prems(2)] b opt p(1,2) by auto
  qed
qed

text \<open>The labels of a pod before they are normalized: the defaults, the user's, and the instance.\<close>

definition podLabels :: "CosmosFullNode \<Rightarrow> labels \<Rightarrow> int \<Rightarrow> labels" where
  "podLabels crd lbls i = AList.update InstanceLabel (instanceName crd i) (preserveMergeInto lbls (md_Labels (tpl_Metadata (fn_Tpl crd))))"

lemma pod_labels:
  assumes "NewPodBuilder env (Some crd) = Ok b0" and "WithOrdinal env b0 i = Ok b"
  shows "\<exists>lbls. defaultLabels crd [] = Ok lbls \<and> om_Labels (ob_Meta (bld_pod b)) = podLabels crd lbls i"
  using assms by (auto simp: NewPodBuilder_def WithOrdinal_def podLabels_def Let_def upd_meta_def upd_spec_def)

text \<open>What a wanted pod keeps of its template: ordinal, labels, and the volumes that the user does not redefine.\<close>

context pod_patch
begin

lemma wanted_pod:
  assumes "BuildPods env marshal patch crd cksums = Ok (Inr rs)" and "r \<in> set rs" and "int32_replicas crd"
  shows "rs_Ordinal r \<in> set (ordinals (sp_Replicas (fn_Spec crd))) \<and> runs crd (rs_Ordinal r) \<and>
    (\<exists>lbls. defaultLabels crd [] = Ok lbls \<and> om_Labels (ob_Meta (rs_Object r)) = normalizeMap (podLabels crd lbls (rs_Ordinal r))) \<and>
    (\<forall>n. n \<notin> vol_Name ` set (tpl_Volumes (fn_Tpl crd)) \<longrightarrow>
      find (\<lambda>v. vol_Name v = n) (ps_Volumes (pod_Spec (rs_Object r))) = find (\<lambda>v. vol_Name v = n) (podVolumes crd (rs_Ordinal r)))"
proof -
  obtain b0 where b0: "NewPodBuilder env (Some crd) = Ok b0" "builder_ok crd b0" using NewPodBuilder_ok by blast
  have "BuildPods_loop env marshal patch b0 (podCandidates crd) cksums (ordinals (sp_Replicas (fn_Spec crd))) [] = Ok (Inr rs)"
    using assms(1) b0(1) by (simp add: BuildPods_def)
  then obtain b pod where o: "rs_Ordinal r \<in> set (ordinals (sp_Replicas (fn_Spec crd)))" "WithOrdinal env b0 (rs_Ordinal r) = Ok b"
      "Build patch b = Inr (Some pod)" "GetName pod \<notin> set (podCandidates crd)" "rs_Object r = annotateChecksum cksums pod"
    using BuildPods_loop_origin [OF _ assms(2)] by fastforce
  have i: "is_ordinal (rs_Ordinal r)" using ordinals_is_ordinal [OF assms(3) o(1)] .
  have b: "builder_ok crd b" "GetName (bld_pod b) = instanceName crd (rs_Ordinal r)" "ps_Volumes (pod_Spec (bld_pod b)) = podVolumes crd (rs_Ordinal r)"
    using WithOrdinal_total [OF b0(2), of env "rs_Ordinal r"] o(2) by auto
  note cases = Build_cases [OF b(1,2) i]
  have nd: "\<not> disabled crd (instanceName crd (rs_Ordinal r))" using cases o(3) by auto
  obtain pod0 where p0: "patch (bld_pod b) (podPatch crd) = Inr pod0" "ob_Meta pod = NormalizeMetadata (ob_Meta (bld_pod b))"
      "ps_Volumes (pod_Spec pod) = ps_Volumes (pod_Spec pod0)"
    using cases nd o(3) by (auto split: sum.splits)
  have "GetName pod = instanceName crd (rs_Ordinal r)"
    using p0(2) b(2) by (simp add: GetName_def NormalizeMetadata_def)
  then have "runs crd (rs_Ordinal r)" using nd o(4) by (simp add: runs_def)
  moreover have "om_Labels (ob_Meta (rs_Object r)) = normalizeMap (om_Labels (ob_Meta (bld_pod b)))"
    using o(5) p0(2) by (simp add: NormalizeMetadata_def annotateChecksum_def upd_meta_def)
  moreover obtain lbls where "defaultLabels crd [] = Ok lbls" "om_Labels (ob_Meta (bld_pod b)) = podLabels crd lbls (rs_Ordinal r)"
    using pod_labels [OF b0(1) o(2)] by blast
  ultimately show ?thesis using o(1,5) p0(1,3) b(3) patch_volume by simp
qed

end

subsection \<open>The keys of the other wanted objects\<close>

lemma nodeKeySecret_key:
  assumes "nodeKeySecret lib marshal existing crd i = Ok (Inr r)"
  shows "rs_key r = ObjectKey (fn_Namespace crd) (nodeKeySecretName crd i)"
proof -
  have "GetName (FindOrDefaultCopy existing (emptySecret crd i)) = nodeKeySecretName crd i"
    "GetNamespace (FindOrDefaultCopy existing (emptySecret crd i)) = fn_Namespace crd"
    using FindOrDefaultCopy_key [of existing "emptySecret crd i"] by (auto simp: emptySecret_def object_defs)
  with assms show ?thesis
    by (auto simp: nodeKeySecret_def Let_def rs_key_def object_defs split: option.splits sum.splits dest!: Adapt_Ok)
qed

lemma nodeKeySecrets_keys:
  "nodeKeySecrets lib marshal existing crd xs = Ok (Inr rs) \<Longrightarrow>
   map rs_key rs = map (\<lambda>i. ObjectKey (fn_Namespace crd) (nodeKeySecretName crd i)) xs"
  by (induction xs arbitrary: rs) (auto dest!: nodeKeySecret_key)

lemma runs_keeps_claim: "runs crd i \<Longrightarrow> \<not> pvcDisabled crd i"
  by (auto simp: runs_def disabled_def pvcDisabled_def split: option.splits)

text \<open>The object that a volume refers to, with its kind.\<close>

definition volume_target :: "Volume \<Rightarrow> (string \<times> string) option" where
  "volume_target v = (case vol_Source v of
     PersistentVolumeClaimSource c \<Rightarrow> Some (''PersistentVolumeClaim'', c)
   | ConfigMapSource c items \<Rightarrow> Some (''ConfigMap'', c)
   | SecretSource c items \<Rightarrow> Some (''Secret'', c)
   | _ \<Rightarrow> None)"

lemma podVolumes_targets:
  "map_option volume_target (find (\<lambda>v. vol_Name v = volChainHome) (podVolumes crd i)) = Some (Some (''PersistentVolumeClaim'', pvcName crd i))"
  "map_option volume_target (find (\<lambda>v. vol_Name v = volConfig) (podVolumes crd i)) = Some (Some (''ConfigMap'', instanceName crd i))"
  "map_option volume_target (find (\<lambda>v. vol_Name v = volNodeKey) (podVolumes crd i)) = Some (Some (''Secret'', nodeKeySecretName crd i))"
  by (simp_all add: podVolumes_def volume_target_def volChainHome_def volConfig_def volNodeKey_def volTmp_def volSystemTmp_def)

text \<open>C8: No wanted pod waits for an object that nobody wants. When the builders succeed, each wanted pod finds
  behind its three volumes of the operator, unless the user's template redefines them, a claim, a config map and
  a secret with node key that are wanted for the same full node, in its namespace: also with disabled
  instances and pods that are down for a snapshot.\<close>

theorem wanted_references_resolve:
  assumes "pod_patch patch" and "int32_replicas crd"
    and "{volChainHome, volConfig, volNodeKey} \<inter> vol_Name ` set (tpl_Volumes (fn_Tpl crd)) = {}"
    and "BuildPods env marshal patch crd cksums = Ok (Inr pods)" and "BuildPVCs mp crd ds current = Ok claims"
    and "BuildConfigMaps toml mc crd peers = Ok (Inr cms)" and "BuildNodeKeySecrets keys ms existing crd = Ok (Inr secrets)"
    and "r \<in> set pods"
  shows "\<exists>claim cm secret.
    map_option volume_target (find (\<lambda>v. vol_Name v = volChainHome) (ps_Volumes (pod_Spec (rs_Object r)))) = Some (Some (''PersistentVolumeClaim'', claim)) \<and>
    map_option volume_target (find (\<lambda>v. vol_Name v = volConfig) (ps_Volumes (pod_Spec (rs_Object r)))) = Some (Some (''ConfigMap'', cm)) \<and>
    map_option volume_target (find (\<lambda>v. vol_Name v = volNodeKey) (ps_Volumes (pod_Spec (rs_Object r)))) = Some (Some (''Secret'', secret)) \<and>
    ObjectKey (fn_Namespace crd) claim \<in> rs_key ` set claims \<and> ObjectKey (fn_Namespace crd) cm \<in> rs_key ` set cms \<and>
    ObjectKey (fn_Namespace crd) secret \<in> rs_key ` set secrets"
proof -
  let ?i = "rs_Ordinal r" and ?os = "ordinals (sp_Replicas (fn_Spec crd))"
  have w: "?i \<in> set ?os" "runs crd ?i"
      "\<forall>n. n \<notin> vol_Name ` set (tpl_Volumes (fn_Tpl crd)) \<longrightarrow>
        find (\<lambda>v. vol_Name v = n) (ps_Volumes (pod_Spec (rs_Object r))) = find (\<lambda>v. vol_Name v = n) (podVolumes crd ?i)"
    using pod_patch.wanted_pod [OF assms(1,4,8,2)] by blast+
  have v: "find (\<lambda>v. vol_Name v = n) (ps_Volumes (pod_Spec (rs_Object r))) = find (\<lambda>v. vol_Name v = n) (podVolumes crd ?i)"
    if "n \<in> {volChainHome, volConfig, volNodeKey}" for n
    using w(3) assms(3) that by blast
  have "ObjectKey (fn_Namespace crd) (pvcName crd ?i) \<in> set (map rs_key claims)"
    using BuildPVCs_keys [OF assms(5)] w(1) runs_keeps_claim [OF w(2)] by auto
  moreover have "ObjectKey (fn_Namespace crd) (instanceName crd ?i) \<in> set (map rs_key cms)"
    using assms(6) configMaps_keys [of toml mc crd peers ?os cms] w(1) by (auto simp: BuildConfigMaps_def split: if_splits)
  moreover have "ObjectKey (fn_Namespace crd) (nodeKeySecretName crd ?i) \<in> set (map rs_key secrets)"
    using assms(7) nodeKeySecrets_keys [of keys ms existing crd ?os secrets] w(1) by (auto simp: BuildNodeKeySecrets_def split: if_splits)
  ultimately show ?thesis using podVolumes_targets [of crd ?i] by (auto simp: v)
qed

subsection \<open>Services and pods\<close>

lemma normalizeMap_lookup:
  assumes "distinct (map fst m)" and "map_of m k = Some v" and "ToLabelKey k = k" and "\<forall>k' \<in> fst ` set m. ToLabelKey k' = k \<longrightarrow> k' = k"
  shows "map_of (normalizeMap m) k = Some (trimMiddle v 63)"
  using assms(1,2,4)
proof (induction m rule: rev_induct)
  case (snoc kv m)
  show ?case
  proof (cases "fst kv = k")
    case True
    moreover have "map_of m k = None" using snoc.prems(1) True by (auto simp: map_of_eq_None_iff)
    then have "snd kv = v" using snoc.prems(2) True by (cases kv) (simp add: map_add_def)
    ultimately show ?thesis using assms(3) by (cases kv) (simp add: normalizeMap_snoc update_conv')
  next
    case False
    then have "ToLabelKey (fst kv) \<noteq> k" using snoc.prems(3) by auto
    moreover have "map_of m k = Some v" using snoc.prems(2) False by (cases kv) (auto simp: map_add_def split: if_splits option.splits)
    ultimately show ?thesis using snoc by (cases kv) (simp add: normalizeMap_snoc update_conv')
  qed
qed simp

lemma preserveMergeInto_keys:
  "distinct (map fst into) \<Longrightarrow> distinct (map fst (preserveMergeInto into other))"
  "fst ` set (preserveMergeInto into other) = fst ` set into \<union> fst ` set other"
proof -
  show "distinct (map fst into) \<Longrightarrow> distinct (map fst (preserveMergeInto into other))"
    by (induction other rule: rev_induct) (auto simp: preserveMergeInto_def distinct_update)
  show "fst ` set (preserveMergeInto into other) = fst ` set into \<union> fst ` set other"
    using preserveMergeInto_map_of [of into other] by (metis dom_map_add dom_map_of_conv_image_fst)
qed

text \<open>The label of the instance, when no label of the user turns into it.\<close>

lemma instance_label:
  assumes "defaultLabels crd [] = Ok lbls" and "\<forall>k \<in> fst ` set (md_Labels (tpl_Metadata (fn_Tpl crd))). ToLabelKey k = InstanceLabel \<longrightarrow> k = InstanceLabel"
  shows "map_of (normalizeMap (podLabels crd lbls i)) InstanceLabel = Some (trimMiddle (instanceName crd i) 63)"
proof -
  have keys: "map fst lbls = [ControllerLabel, ComponentLabel, NameLabel, VersionLabel, networkLabel, typeLabel]"
    using assms(1) by (auto simp: defaultLabels_def Let_def)
  have norm: "map ToLabelKey [ControllerLabel, ComponentLabel, NameLabel, VersionLabel, networkLabel, typeLabel, InstanceLabel] =
      [ControllerLabel, ComponentLabel, NameLabel, VersionLabel, networkLabel, typeLabel, InstanceLabel]" by code_simp
  have "distinct [ControllerLabel, ComponentLabel, NameLabel, VersionLabel, networkLabel, typeLabel, InstanceLabel]" by code_simp
  then have d: "distinct (map fst lbls)" unfolding keys by simp
  have "ToLabelKey k = k" if "k \<in> fst ` set lbls" for k
  proof -
    have "k \<in> set (map fst lbls)" using that by simp
    then show ?thesis unfolding keys using norm by auto
  qed
  moreover have "fst ` set (podLabels crd lbls i) = insert InstanceLabel (fst ` set lbls \<union> fst ` set (md_Labels (tpl_Metadata (fn_Tpl crd))))"
    unfolding podLabels_def dom_update preserveMergeInto_keys(2) by auto
  ultimately have "\<forall>k \<in> fst ` set (podLabels crd lbls i). ToLabelKey k = InstanceLabel \<longrightarrow> k = InstanceLabel"
    using assms(2) by (metis UnE insertE)
  moreover have "distinct (map fst (podLabels crd lbls i))"
    unfolding podLabels_def by (intro distinct_update preserveMergeInto_keys(1) d)
  moreover have "map_of (podLabels crd lbls i) InstanceLabel = Some (instanceName crd i)" by (simp add: podLabels_def update_conv')
  moreover have "ToLabelKey InstanceLabel = InstanceLabel" using norm by simp
  ultimately show ?thesis using normalizeMap_lookup [of "podLabels crd lbls i" InstanceLabel] by simp
qed

text \<open>A service selects the pods that carry all labels of its selector.\<close>

definition selects :: "Service \<Rightarrow> Pod \<Rightarrow> bool" where
  "selects svc pod \<longleftrightarrow> list_all (\<lambda>(k, v). map_of (om_Labels (ob_Meta pod)) k = Some v) (svc_Selector (ob_Body svc))"

text \<open>C9: Traffic for an instance reaches its pod. When no label of the user's template turns into that of the
  instance, every wanted pod whose name fits into a label is selected by the p2p service that is
  wanted for its ordinal, and by no other p2p service.\<close>

theorem p2p_service_selects_its_pod:
  assumes "pod_patch patch" and "int32_replicas crd" and "0 \<le> sp_Replicas (fn_Spec crd)" "sp_Replicas (fn_Spec crd) < 2 ^ 30"
    and "encodes marshal" and "length (instanceName crd (rs_Ordinal r)) \<le> 63"
    and "\<forall>k \<in> fst ` set (md_Labels (tpl_Metadata (fn_Tpl crd))). ToLabelKey k = InstanceLabel \<longrightarrow> k = InstanceLabel"
    and "BuildPods env mp patch crd cksums = Ok (Inr pods)" and "r \<in> set pods"
  shows "\<exists>p2p rest. BuildServices marshal crd = Ok (p2p @ rest) \<and> length p2p = length (ordinals (sp_Replicas (fn_Spec crd))) \<and>
    (\<forall>s \<in> set p2p. selects (rs_Object s) (rs_Object r) \<longleftrightarrow> rs_key s = ObjectKey (fn_Namespace crd) (p2pServiceName crd (rs_Ordinal r))) \<and>
    (\<exists>s \<in> set p2p. selects (rs_Object s) (rs_Object r))"
proof -
  let ?i = "rs_Ordinal r" and ?os = "ordinals (sp_Replicas (fn_Spec crd))"
  obtain lbls where w: "?i \<in> set ?os" "defaultLabels crd [] = Ok lbls" "om_Labels (ob_Meta (rs_Object r)) = normalizeMap (podLabels crd lbls ?i)"
    using pod_patch.wanted_pod [OF assms(1,8,9,2)] by blast
  have label: "map_of (om_Labels (ob_Meta (rs_Object r))) InstanceLabel = Some (instanceName crd ?i)"
    unfolding w(3) instance_label [OF w(2) assms(7)] using assms(6) by (simp add: trimMiddle_def)
  obtain p2p sentry rpc where b: "BuildServices marshal crd = Ok (p2p @ sentry @ [rpc])" "list_all2 (p2p_of crd) ?os p2p"
    using BuildServices_spec [OF assms(3,4,5)] by blast
  have inst: "instanceName crd i = instanceName crd ?i \<longleftrightarrow> i = ?i" if "i \<in> set ?os" for i
    using instance_names.nm_inj [of i ?i crd] ordinals_is_ordinal [OF assms(2)] that w(1) by blast
  have svc: "p2pServiceName crd i = p2pServiceName crd ?i \<longleftrightarrow> i = ?i" if "i \<in> set ?os" for i
    using p2p_names.nm_inj [of i ?i crd] ordinals_is_ordinal [OF assms(2)] that w(1) by blast
  have sel: "selects (rs_Object s) (rs_Object r) \<longleftrightarrow> i = ?i" "rs_key s = ObjectKey (fn_Namespace crd) (p2pServiceName crd i)"
    if "p2p_of crd i s" "i \<in> set ?os" for i s
    using that inst [OF that(2)] label by (auto simp: selects_def p2p_of_def)
  have in1: "\<exists>i \<in> set ?os. p2p_of crd i s" if "s \<in> set p2p" for s
    using b(2) that by (metis in_set_conv_nth list_all2_conv_all_nth nth_mem)
  have in2: "\<exists>s \<in> set p2p. p2p_of crd ?i s"
    using b(2) w(1) by (metis in_set_conv_nth list_all2_conv_all_nth nth_mem)
  have "selects (rs_Object s) (rs_Object r) \<longleftrightarrow> rs_key s = ObjectKey (fn_Namespace crd) (p2pServiceName crd ?i)" if "s \<in> set p2p" for s
    using in1 [OF that] sel svc by (metis ObjectKey.inject)
  moreover have "\<exists>s \<in> set p2p. selects (rs_Object s) (rs_Object r)" using in2 sel w(1) by blast
  moreover have "length p2p = length ?os" using list_all2_lengthD [OF b(2)] by simp
  ultimately show ?thesis using b(1) by blast
qed

text \<open>The label is cut to 63 bytes, the selector is not: with a longer name the service of an instance never selects its pod.\<close>

lemma long_name_not_selected:
  assumes "pod_patch patch" and "int32_replicas crd"
    and "\<forall>k \<in> fst ` set (md_Labels (tpl_Metadata (fn_Tpl crd))). ToLabelKey k = InstanceLabel \<longrightarrow> k = InstanceLabel"
    and "BuildPods env mp patch crd cksums = Ok (Inr pods)" and "r \<in> set pods"
    and "63 < length (instanceName crd (rs_Ordinal r))" and "p2p_of crd (rs_Ordinal r) s"
  shows "\<not> selects (rs_Object s) (rs_Object r)"
proof -
  obtain lbls where w: "defaultLabels crd [] = Ok lbls" "om_Labels (ob_Meta (rs_Object r)) = normalizeMap (podLabels crd lbls (rs_Ordinal r))"
    using pod_patch.wanted_pod [OF assms(1,4,5,2)] by blast
  have "length (trimMiddle (instanceName crd (rs_Ordinal r)) 63) \<noteq> length (instanceName crd (rs_Ordinal r))"
    using assms(6) by (simp add: length_trimMiddle)
  then have "trimMiddle (instanceName crd (rs_Ordinal r)) 63 \<noteq> instanceName crd (rs_Ordinal r)" by metis
  then show ?thesis using assms(7) instance_label [OF w(1) assms(3)] by (simp add: selects_def p2p_of_def w(2))
qed

subsection \<open>Witnesses\<close>

text \<open>The sample full node, with two wanted pods out of three.\<close>

lemma sample_wanted: "\<exists>pods. BuildPods sample_env ref_marshal ref_patch sample_crd [] = Ok (Inr pods) \<and> pods \<noteq> [] \<and>
    (\<forall>r \<in> set pods. rs_Ordinal r \<in> {0, 1, 2})"
proof -
  have "int32_replicas sample_crd" by (simp add: int32_replicas_def sample_crd_defs)
  then obtain pods where p: "BuildPods sample_env ref_marshal ref_patch sample_crd [] = Ok (Inr pods)"
      "map rs_Ordinal pods = filter (runs sample_crd) (ordinals (sp_Replicas (fn_Spec sample_crd)))"
    using pod_patch.BuildPods_spec [OF ref_strategic.applied.pod_patch_axioms _ ref_patch_total, of sample_crd ref_marshal]
      ref_marshal_encodes unfolding encodes_def by blast
  moreover have "filter (runs sample_crd) (ordinals (sp_Replicas (fn_Spec sample_crd))) \<noteq> []" by code_simp
  moreover have "ordinals (sp_Replicas (fn_Spec sample_crd)) = [0, 1, 2]" by code_simp
  ultimately have "map rs_Ordinal pods \<noteq> []" "set (map rs_Ordinal pods) \<subseteq> {0, 1, 2}" by auto
  then show ?thesis using p(1) by auto
qed

theorem wanted_references_resolve_witness:
  "\<exists>pods claims cms secrets. BuildPods sample_env ref_marshal ref_patch sample_crd [] = Ok (Inr pods) \<and> pods \<noteq> [] \<and>
     BuildPVCs (\<lambda>ob. Inr []) sample_crd [] [] = Ok claims \<and> BuildConfigMaps sample_toml name_marshal sample_crd [] = Ok (Inr cms) \<and>
     BuildNodeKeySecrets sample_keys sample_secret_marshal [] sample_crd = Ok (Inr secrets) \<and>
     (\<forall>r \<in> set pods. \<exists>claim. map_option volume_target (find (\<lambda>v. vol_Name v = volChainHome) (ps_Volumes (pod_Spec (rs_Object r)))) =
        Some (Some (''PersistentVolumeClaim'', claim)) \<and> ObjectKey ''chains'' claim \<in> rs_key ` set claims)"
proof -
  obtain pods where p: "BuildPods sample_env ref_marshal ref_patch sample_crd [] = Ok (Inr pods)" "pods \<noteq> []" using sample_wanted by blast
  obtain claims where c: "BuildPVCs (\<lambda>ob. Inr []) sample_crd [] [] = Ok claims"
    using BuildPVCs_total [of sample_crd "\<lambda>ob. Inr []" "[]" "[]"] by (auto simp: encodes_def sample_crd_defs)
  obtain cms where m: "BuildConfigMaps sample_toml name_marshal sample_crd [] = Ok (Inr cms)" using sample_BuildConfigMaps by blast
  have e: "encodes sample_secret_marshal" by (simp add: encodes_def sample_secret_marshal_def)
  obtain secrets where s: "BuildNodeKeySecrets sample_keys sample_secret_marshal [] sample_crd = Ok (Inr secrets)"
    using nodeKeySecrets_total [OF e sample_keys_total, of "[]" sample_crd] by (auto simp: BuildNodeKeySecrets_def sample_crd_defs)
  have i: "int32_replicas sample_crd" by (simp add: int32_replicas_def sample_crd_defs)
  have v: "{volChainHome, volConfig, volNodeKey} \<inter> vol_Name ` set (tpl_Volumes (fn_Tpl sample_crd)) = {}" by (simp add: sample_crd_defs)
  have "fn_Namespace sample_crd = ''chains''" by (simp add: sample_crd_defs)
  with wanted_references_resolve [OF ref_strategic.applied.pod_patch_axioms i v p(1) c m s]
  have "\<forall>r \<in> set pods. \<exists>claim. map_option volume_target (find (\<lambda>v. vol_Name v = volChainHome) (ps_Volumes (pod_Spec (rs_Object r)))) =
        Some (Some (''PersistentVolumeClaim'', claim)) \<and> ObjectKey ''chains'' claim \<in> rs_key ` set claims" by metis
  with p c m s show ?thesis by blast
qed

theorem p2p_service_selects_its_pod_witness:
  "\<exists>pods r p2p rest s. BuildPods sample_env ref_marshal ref_patch sample_crd [] = Ok (Inr pods) \<and> r \<in> set pods \<and>
     BuildServices ref_svc_marshal sample_crd = Ok (p2p @ rest) \<and> s \<in> set p2p \<and> selects (rs_Object s) (rs_Object r)"
proof -
  obtain pods where p: "BuildPods sample_env ref_marshal ref_patch sample_crd [] = Ok (Inr pods)" "pods \<noteq> []"
      "\<forall>r \<in> set pods. rs_Ordinal r \<in> {0, 1, 2}" using sample_wanted by blast
  then obtain r where r: "r \<in> set pods" by (cases pods) auto
  have "\<forall>i \<in> {0, 1, 2}. length (instanceName sample_crd i) \<le> 63" by code_simp
  then have l: "length (instanceName sample_crd (rs_Ordinal r)) \<le> 63" using p(3) r by blast
  have i: "int32_replicas sample_crd" "0 \<le> sp_Replicas (fn_Spec sample_crd)" "sp_Replicas (fn_Spec sample_crd) < 2 ^ 30"
    by (simp_all add: int32_replicas_def sample_crd_defs)
  have k: "\<forall>k \<in> fst ` set (md_Labels (tpl_Metadata (fn_Tpl sample_crd))). ToLabelKey k = InstanceLabel \<longrightarrow> k = InstanceLabel" by code_simp
  have e: "encodes ref_svc_marshal" by (simp add: encodes_def ref_svc_marshal_def)
  show ?thesis
    using p2p_service_selects_its_pod [OF ref_strategic.applied.pod_patch_axioms i e l k p(1) r] p(1) r by blast
qed

end
