(* ===== verification/Api_V1alpha1.thy ===== *)
theory Api_V1alpha1
  imports Api_V1
begin

text \<open>
  The types of \<^verbatim>\<open>api/v1alpha1\<close>: \<open>ScheduledVolumeSnapshot\<close> and \<open>StatefulJob\<close>, field by field, and
  the batch job that a \<open>StatefulJob\<close> runs. Integers of 32 bits are kept in \<open>int\<close>; a pointer is an
  option.
\<close>

definition GroupVersion_Group :: string where "GroupVersion_Group = ''cosmos.bharvest.io''"
definition GroupVersion_Version :: string where "GroupVersion_Version = ''v1alpha1''"

subsection \<open>ScheduledVolumeSnapshot\<close>

definition ScheduledVolumeSnapshotController :: string where
  "ScheduledVolumeSnapshotController = ''ScheduledVolumeSnapshot''"

record LocalFullNodeRef =
  lf_Name :: string
  lf_Namespace :: string
  lf_Ordinal :: "int option"

record ScheduledVolumeSnapshotSpec =
  vp_FullNodeRef :: LocalFullNodeRef
  vp_Schedule :: string
  vp_VolumeSnapshotClassName :: string
  vp_DeletePod :: bool
  vp_MinAvailable :: int
  vp_Limit :: int
  vp_Suspend :: bool

record SnapshotCandidate =
  sd_PodName :: string
  sd_PVCName :: string
  sd_PodLabels :: labels

text \<open>The phases; the first is the empty string of a resource that was never reconciled.\<close>

datatype SnapshotPhase =
    SnapshotPhaseNone
  | SnapshotPhaseWaitingForNext
  | SnapshotPhaseFindingCandidate
  | SnapshotPhaseDeletingPod
  | SnapshotPhaseWaitingForPodDeletion
  | SnapshotPhaseCreating
  | SnapshotPhaseWaitingForCreation
  | SnapshotPhaseRestorePod
  | SnapshotPhaseSuspended
  | SnapshotPhaseMissingCRDs

record VolumeSnapshotStatus =
  ls_Name :: string
  ls_StartedAt :: time
  ls_Status :: "VolumeSnapshotStat option"

record ScheduledVolumeSnapshotStatus =
  vt_ObservedGeneration :: int
  vt_StatusMessage :: "string option"
  vt_Phase :: SnapshotPhase
  vt_CreatedAt :: time
  vt_Candidate :: "SnapshotCandidate option"
  vt_LastSnapshot :: "VolumeSnapshotStatus option"

record ScheduledVolumeSnapshot =
  sv_Meta :: ObjectMeta
  sv_Spec :: ScheduledVolumeSnapshotSpec
  sv_Status :: ScheduledVolumeSnapshotStatus

type_synonym ScheduledVolumeSnapshotList = "ScheduledVolumeSnapshot list"

subsection \<open>StatefulJob\<close>

definition StatefulJobController :: string where "StatefulJobController = ''StatefulJob''"

record JobTemplateSpec =
  jt_ActiveDeadlineSeconds :: "int option"
  jt_BackoffLimit :: "int option"
  jt_TTLSecondsAfterFinished :: "int option"

record StatefulJobVolumeClaimTemplate =
  jv_StorageClassName :: string
  jv_AccessModes :: "string list"

text \<open>\<open>corev1.PodTemplateSpec\<close>.\<close>

record PodTemplateSpec =
  pt_Meta :: ObjectMeta
  pt_Spec :: PodSpec

record StatefulJobSpec =
  jp_Selector :: labels
  jp_Interval :: duration
  jp_JobTemplate :: JobTemplateSpec
  jp_PodTemplate :: PodTemplateSpec
  jp_VolumeClaimTemplate :: StatefulJobVolumeClaimTemplate

record StatefulJobStatus =
  jst_ObservedGeneration :: int
  jst_StatusMessage :: "string option"
  jst_JobHistory :: "JobStatus list"

record StatefulJob =
  sj_Meta :: ObjectMeta
  sj_Spec :: StatefulJobSpec
  sj_Status :: StatefulJobStatus

type_synonym StatefulJobList = "StatefulJob list"

record JobBody =
  jb_ActiveDeadlineSeconds :: "int option"
  jb_BackoffLimit :: "int option"
  jb_TTLSecondsAfterFinished :: "int option"
  jb_Template :: PodTemplateSpec
  jb_Status :: JobStatus

type_synonym Job = "JobBody kobject"

definition emptyJobStatus :: JobStatus where
  "emptyJobStatus = \<lparr>js_Conditions = [], js_StartTime = None, js_CompletionTime = None, js_Active = 0, js_Succeeded = 0, js_Failed = 0\<rparr>"

end
