(* ===== verification/Go_Duration.thy ===== *)
theory Go_Duration
  imports Kube_Client Go_Float
begin

text \<open>
  The part of Go's \<open>time.Duration\<close> that the controllers use: \<open>time.ParseDuration\<close> with its loops over
  the text and its overflow checks on \<open>uint64\<close>, \<open>Duration.String\<close> and \<open>Duration.Round\<close>. A
  duration is an integer number of nanoseconds.
\<close>

subsection \<open>time.ParseDuration\<close>

text \<open>Quoting in error messages: quotes, backslashes and bytes that are not printable ASCII are escaped.\<close>

definition hex_digit :: "nat \<Rightarrow> char" where
  "hex_digit d = (if d < 10 then digit_char d else char_of (87 + d))"

definition quote_byte :: "char \<Rightarrow> string" where
  "quote_byte c =
     (let n = (of_char c :: nat)
      in if n \<ge> 128 \<or> n < 32 then [CHR 0x5C, CHR ''x'', hex_digit (n div 16), hex_digit (n mod 16)]
         else if c = CHR 0x22 \<or> c = CHR 0x5C then [CHR 0x5C, c] else [c])"

definition quote :: "string \<Rightarrow> string" where
  "quote s = [CHR 0x22] @ concat (map quote_byte s) @ [CHR 0x22]"

text \<open>\<open>leadingInt\<close>: the value of the leading digits and the rest, or nothing when it exceeds \<open>2 ^ 63\<close>.\<close>

fun leadingInt :: "int \<Rightarrow> string \<Rightarrow> (int \<times> string) option" where
  "leadingInt x [] = Some (x, [])"
| "leadingInt x (c # s) =
     (if \<not> is_digit c then Some (x, c # s)
      else if x > 2 ^ 63 div 10 then None
      else let y = x * 10 + int (digit_val c)
           in if y > 2 ^ 63 then None else leadingInt y s)"

text \<open>\<open>leadingFraction\<close>: digits that no longer fit are dropped.\<close>

fun leadingFraction :: "int \<Rightarrow> rat \<Rightarrow> bool \<Rightarrow> string \<Rightarrow> int \<times> rat \<times> string" where
  "leadingFraction x scale overflow [] = (x, scale, [])"
| "leadingFraction x scale overflow (c # s) =
     (if \<not> is_digit c then (x, scale, c # s)
      else if overflow \<or> x > (2 ^ 63 - 1) div 10 then leadingFraction x scale True s
      else let y = x * 10 + int (digit_val c)
           in if y > 2 ^ 63 then leadingFraction x scale True s
              else leadingFraction y (fl64 (scale * 10)) False s)"

definition unitMap :: "(string \<times> int) list" where
  "unitMap = [(''ns'', 1), (''us'', 1000), ([CHR 0xC2, CHR 0xB5, CHR ''s''], 1000),
     ([CHR 0xCE, CHR 0xBC, CHR ''s''], 1000), (''ms'', 1000000), (''s'', 1000000000),
     (''m'', 60000000000), (''h'', 3600000000000)]"

definition unit_char :: "char \<Rightarrow> bool" where
  "unit_char c \<longleftrightarrow> c \<noteq> CHR ''.'' \<and> \<not> is_digit c"

definition invalid_duration :: "string \<Rightarrow> goerror" where
  "invalid_duration orig = errorNew (''time: invalid duration '' @ quote orig)"

text \<open>One round of the loop: the number, its unit and the rest of the text.\<close>

definition duration_term :: "string \<Rightarrow> string \<Rightarrow> goerror + int \<times> string" where
  "duration_term orig s =
     (if \<not> (hd s = CHR ''.'' \<or> is_digit (hd s)) then Inl (invalid_duration orig)
      else case leadingInt 0 s of
        None \<Rightarrow> Inl (invalid_duration orig)
      | Some (v, s1) \<Rightarrow>
          let pre = length s \<noteq> length s1;
              dotted = s1 \<noteq> [] \<and> hd s1 = CHR ''.'';
              (f, scale, s2) = (if dotted then leadingFraction 0 1 False (tl s1) else (0, 1, s1));
              post = dotted \<and> length (tl s1) \<noteq> length s2;
              u = takeWhile unit_char s2;
              rest = dropWhile unit_char s2
          in if \<not> pre \<and> \<not> post then Inl (invalid_duration orig)
             else if u = [] then Inl (errorNew (''time: missing unit in duration '' @ quote orig))
             else (case map_of unitMap u of
               None \<Rightarrow> Inl (errorNew (''time: unknown unit '' @ quote u @ '' in duration '' @ quote orig))
             | Some unit \<Rightarrow>
                 if v > 2 ^ 63 div unit then Inl (invalid_duration orig)
                 else let v = v * unit;
                          v = (if f > 0 then v + \<lfloor>fl64 (fl64 (of_int f) * fl64 (of_int unit / scale))\<rfloor> else v)
                      in if v > 2 ^ 63 then Inl (invalid_duration orig) else Inr (v, rest)))"

lemma leadingInt_length: "leadingInt x s = Some (v, s') \<Longrightarrow> length s' \<le> length s"
  by (induction x s arbitrary: v s' rule: leadingInt.induct) (fastforce simp: Let_def split: if_splits)+

lemma leadingFraction_length: "leadingFraction x scale ov s = (f, scale', s') \<Longrightarrow> length s' \<le> length s"
proof (induction s arbitrary: x scale ov f scale' s')
  case (Cons c s)
  show ?case
  proof (cases "is_digit c")
    case True
    then obtain y scale1 ov1 where "leadingFraction y scale1 ov1 s = (f, scale', s')"
      using Cons.prems by (auto simp: Let_def split: if_splits)
    from Cons.IH [OF this] show ?thesis by simp
  qed (use Cons.prems in auto)
qed simp

text \<open>Every round consumes at least a unit.\<close>

lemma duration_term_shorter:
  assumes "duration_term orig s = Inr (v, rest)"
  shows "length rest < length s"
proof -
  obtain w s1 where 1: "leadingInt 0 s = Some (w, s1)"
    using assms by (auto simp: duration_term_def split: if_splits option.splits)
  obtain f scale s2 where 2: "(f, scale, s2) =
      (if s1 \<noteq> [] \<and> hd s1 = CHR ''.'' then leadingFraction 0 1 False (tl s1) else (0, 1, s1))"
    by (metis prod.exhaust)
  have "length s2 \<le> length s"
    using 2 leadingFraction_length [of 0 1 False "tl s1" f scale s2] leadingInt_length [OF 1]
    by (auto split: if_splits)
  moreover have "takeWhile unit_char s2 \<noteq> [] \<and> rest = dropWhile unit_char s2"
    using assms 1 2 [symmetric] unfolding duration_term_def Let_def
    by (auto simp del: takeWhile_eq_Nil_iff split: if_splits option.splits prod.splits)
  ultimately show ?thesis
    using length_append [of "takeWhile unit_char s2" "dropWhile unit_char s2"]
    by (metis add_lessD1 dual_order.trans length_greater_0_conv less_add_same_cancel2 not_less takeWhile_dropWhile_id add.commute)
qed

function duration_loop :: "string \<Rightarrow> int \<Rightarrow> string \<Rightarrow> goerror + int" where
  "duration_loop orig d s =
     (if s = [] then Inr d
      else case duration_term orig s of
        Inl err \<Rightarrow> Inl err
      | Inr (v, rest) \<Rightarrow>
          let d = (d + v) mod 2 ^ 64
          in if d > 2 ^ 63 then Inl (invalid_duration orig) else duration_loop orig d rest)"
  by auto
termination
  by (relation "measure (\<lambda>(orig, d, s). length s)") (auto dest: duration_term_shorter)

declare duration_loop.simps [simp del]

definition ParseDuration :: "string \<Rightarrow> goerror + duration" where
  "ParseDuration orig =
     (let signed = orig \<noteq> [] \<and> (hd orig = CHR ''-'' \<or> hd orig = CHR ''+'');
          neg = signed \<and> hd orig = CHR ''-'';
          s = (if signed then tl orig else orig)
      in if s = ''0'' then Inr 0
         else if s = [] then Inl (invalid_duration orig)
         else case duration_loop orig 0 s of
           Inl err \<Rightarrow> Inl err
         | Inr d \<Rightarrow> if neg then Inr (- d)
                    else if d > 2 ^ 63 - 1 then Inl (invalid_duration orig) else Inr d)"

subsection \<open>Duration.String and Duration.Round\<close>

text \<open>\<open>fmtFrac\<close>: the fraction of \<open>prec\<close> digits without trailing zeros, with its point, and the integer part.\<close>

fun fmtFrac :: "nat \<Rightarrow> int \<Rightarrow> string \<Rightarrow> bool \<Rightarrow> string \<times> int" where
  "fmtFrac 0 u acc pr = (if pr then CHR ''.'' # acc else acc, u)"
| "fmtFrac (Suc prec) u acc pr =
     (let digit = u mod 10; pr = pr \<or> digit \<noteq> 0
      in fmtFrac prec (u div 10) (if pr then digit_char (nat digit) # acc else acc) pr)"

definition Duration_String :: "duration \<Rightarrow> string" where
  "Duration_String d =
     (let u = \<bar>d\<bar>; sign = (if d < 0 then ''-'' else [])
      in if u < 1000000000
         then if u = 0 then ''0s''
              else let (prec, unit) = (if u < 1000 then (0, ''ns'')
                         else if u < 1000000 then (3, [CHR 0xC2, CHR 0xB5, CHR ''s'']) else (6, ''ms''));
                       (frac, n) = fmtFrac prec u [] False
                   in sign @ FormatInt n @ frac @ unit
         else let (frac, n) = fmtFrac 9 u [] False;
                  secs = FormatInt (n mod 60) @ frac @ ''s'';
                  mins = n div 60
              in sign @ (if mins = 0 then secs
                   else if mins div 60 = 0 then FormatInt (mins mod 60) @ ''m'' @ secs
                   else FormatInt (mins div 60) @ ''h'' @ FormatInt (mins mod 60) @ ''m'' @ secs))"

text \<open>\<open>Duration.Round\<close>: to the nearest multiple, halfway values away from zero, saturated.\<close>

definition Duration_Round :: "duration \<Rightarrow> duration \<Rightarrow> duration" where
  "Duration_Round d m =
     (if m \<le> 0 then d
      else let r = \<bar>d\<bar> mod m
           in if 2 * r < m then sgn d * (\<bar>d\<bar> - r)
              else max minDuration (min maxDuration (sgn d * (\<bar>d\<bar> - r + m))))"

end
