(* ===== verification/Vol_Snapshot.thy ===== *)
theory Vol_Snapshot
  imports Api_V1alpha1 Pod_Builder Go_Duration Build_Pods
begin

text \<open>
  \<^verbatim>\<open>internal/volsnapshot\<close>: the parts of the controller that takes scheduled snapshots of a volume.
  \<open>FullNodeControl\<close> tells the full node, through its status, to delete and to restore a pod;
  \<open>VolumeSnapshotControl\<close> finds a candidate, creates the snapshot and prunes old ones; \<open>Scheduler\<close>
  computes the next date. The world holds the stored resource, the status of the full node it
  refers to, the snapshots, and the calls made; the environment of one reconcile gives the clock,
  the reads and the server's answers. The cron library and the unstable sort are parameters.
\<close>

datatype svs_call =
    SignalDeletionCall ObjectKey string string
  | SignalRestorationCall ObjectKey string
  | SvsCreateCall VolumeSnapshot
  | SvsDeleteCall VolumeSnapshot
  | SvsUpdateCall ScheduledVolumeSnapshot

record svs_world =
  vw_Stored :: ScheduledVolumeSnapshot
  vw_Status :: FullNodeStatus
  vw_Created :: "VolumeSnapshot list"
  vw_Calls :: "svs_call list"

record svs_env =
  se_Clock :: "nat \<Rightarrow> time"
  se_Synced :: "Pod list"
  se_Pods :: "goerror + Pod list"
  se_FullNodeErr :: "nat \<Rightarrow> goerror option"
  se_List :: "goerror + VolumeSnapshot list"
  se_Get :: "ObjectKey \<Rightarrow> goerror + VolumeSnapshot"
  se_Server :: "svs_call list \<Rightarrow> svs_call \<Rightarrow> goerror option"
  se_Cron :: "string \<Rightarrow> goerror + (time \<Rightarrow> time)"
  se_Sort :: "VolumeSnapshot list \<Rightarrow> VolumeSnapshot list"
  se_Trunc :: "time \<Rightarrow> time"
  se_Missing :: bool

text \<open>
  \<open>se_FullNodeErr\<close> is the error, if any, of the first and the second read of the full node.
  Times are stored with the resolution of \<open>metav1.Time\<close>.
\<close>

definition stored_svs :: "svs_env \<Rightarrow> ScheduledVolumeSnapshotStatus \<Rightarrow> ScheduledVolumeSnapshotStatus" where
  "stored_svs env st = st\<lparr>vt_CreatedAt := se_Trunc env (vt_CreatedAt st),
     vt_LastSnapshot := map_option (\<lambda>l. l\<lparr>ls_StartedAt := se_Trunc env (ls_StartedAt l)\<rparr>) (vt_LastSnapshot st)\<rparr>"

definition upd_candidates ::
  "((string \<times> FullNodeSnapshotStatus) list \<Rightarrow> (string \<times> FullNodeSnapshotStatus) list) \<Rightarrow> FullNodeStatus \<Rightarrow> FullNodeStatus" where
  "upd_candidates f st = st\<lparr>st_ScheduledSnapshotStatus := f (st_ScheduledSnapshotStatus st)\<rparr>"

fun svs_perform :: "svs_env \<Rightarrow> svs_call \<Rightarrow> svs_world \<Rightarrow> svs_world" where
  "svs_perform env (SignalDeletionCall objKey key pod) w =
     w\<lparr>vw_Status := upd_candidates (AList.update key \<lparr>fs_PodCandidate = pod\<rparr>) (vw_Status w)\<rparr>"
| "svs_perform env (SignalRestorationCall objKey key) w =
     w\<lparr>vw_Status := upd_candidates (AList.delete key) (vw_Status w)\<rparr>"
| "svs_perform env (SvsCreateCall s) w = w\<lparr>vw_Created := s # vw_Created w\<rparr>"
| "svs_perform env (SvsDeleteCall s) w = w"
| "svs_perform env (SvsUpdateCall crd) w =
     w\<lparr>vw_Stored := (vw_Stored w)\<lparr>sv_Status := stored_svs env (sv_Status crd)\<rparr>\<rparr>"

definition svs_request :: "svs_env \<Rightarrow> svs_call \<Rightarrow> svs_world \<Rightarrow> goerror option \<times> svs_world" where
  "svs_request env c w =
     (let w' = w\<lparr>vw_Calls := vw_Calls w @ [c]\<rparr>
      in case se_Server env (vw_Calls w) c of
           Some err \<Rightarrow> (Some err, w')
         | None \<Rightarrow> (None, svs_perform env c w'))"

subsection \<open>status.go\<close>

definition set_svs :: "(ScheduledVolumeSnapshotStatus \<Rightarrow> ScheduledVolumeSnapshotStatus) \<Rightarrow> ScheduledVolumeSnapshot \<Rightarrow> ScheduledVolumeSnapshot" where
  "set_svs f crd = crd\<lparr>sv_Status := f (sv_Status crd)\<rparr>"

definition ResetStatus :: "time \<Rightarrow> ScheduledVolumeSnapshot \<Rightarrow> ScheduledVolumeSnapshot" where
  "ResetStatus now crd =
     set_svs (\<lambda>st. st\<lparr>vt_ObservedGeneration := om_Generation (sv_Meta crd), vt_StatusMessage := None,
       vt_CreatedAt := (if vt_CreatedAt st = zeroTime then now else vt_CreatedAt st),
       vt_Phase := (if vp_Suspend (sv_Spec crd) then SnapshotPhaseRestorePod
         else if \<not> vp_Suspend (sv_Spec crd) \<and> vt_Phase st = SnapshotPhaseSuspended then SnapshotPhaseWaitingForNext
         else if vt_Phase st = SnapshotPhaseNone then SnapshotPhaseWaitingForNext
         else vt_Phase st)\<rparr>) crd"

subsection \<open>fullnode\_control.go\<close>

definition sourceKey :: "ScheduledVolumeSnapshot \<Rightarrow> string" where
  "sourceKey crd = filter (\<lambda>c. c \<noteq> CHR ''/'')
     (strings_Join ''.'' [om_Namespace (sv_Meta crd), om_Name (sv_Meta crd), GroupVersion_Version, GroupVersion_Group])"

definition fullNodeKey :: "ScheduledVolumeSnapshot \<Rightarrow> ObjectKey" where
  "fullNodeKey crd = ObjectKey (om_Namespace (sv_Meta crd)) (lf_Name (vp_FullNodeRef (sv_Spec crd)))"

text \<open>A candidate that is nil panics where its fields are read.\<close>

definition candidate_of :: "ScheduledVolumeSnapshot \<Rightarrow> SnapshotCandidate exec" where
  "candidate_of crd = (case vt_Candidate (sv_Status crd) of None \<Rightarrow> Panic ''nil candidate'' | Some c \<Rightarrow> Ok c)"

text \<open>
  \<open>SignalPodDeletion\<close>: the update runs inside \<open>SyncUpdate\<close>, once the full node was read; with a nil
  candidate it panics there.
\<close>

definition SignalPodDeletion :: "svs_env \<Rightarrow> ScheduledVolumeSnapshot \<Rightarrow> svs_world \<Rightarrow> goerror option exec \<times> svs_world" where
  "SignalPodDeletion env crd w =
     (case se_FullNodeErr env 0 of
        Some err \<Rightarrow> (Ok (Some err), w)
      | None \<Rightarrow>
          (case candidate_of crd of
             Panic m \<Rightarrow> (Panic m, w)
           | Ok c \<Rightarrow>
               (case svs_request env (SignalDeletionCall (fullNodeKey crd) (sourceKey crd) (sd_PodName c)) w of
                  (err, w') \<Rightarrow> (Ok err, w'))))"

definition SignalPodRestoration :: "svs_env \<Rightarrow> ScheduledVolumeSnapshot \<Rightarrow> svs_world \<Rightarrow> goerror option \<times> svs_world" where
  "SignalPodRestoration env crd w =
     (case se_FullNodeErr env 1 of
        Some err \<Rightarrow> (Some err, w)
      | None \<Rightarrow> svs_request env (SignalRestorationCall (fullNodeKey crd) (sourceKey crd)) w)"

definition ConfirmPodRestoration :: "svs_env \<Rightarrow> ScheduledVolumeSnapshot \<Rightarrow> svs_world \<Rightarrow> goerror option exec" where
  "ConfirmPodRestoration env crd w =
     (case se_FullNodeErr env 0 of
        Some err \<Rightarrow> Ok (Some (wrap ''get CosmosFullNode: '' err))
      | None \<Rightarrow>
          (case map_of (st_ScheduledSnapshotStatus (vw_Status w)) (sourceKey crd) of
             Some _ \<Rightarrow> exec_bind (candidate_of crd) (\<lambda>c.
               Ok (Some (errorNew (''pod '' @ sd_PodName c @ '' not restored yet''))))
           | None \<Rightarrow> Ok None))"

fun deletion_loop :: "ScheduledVolumeSnapshot \<Rightarrow> Pod list \<Rightarrow> goerror option exec" where
  "deletion_loop crd [] = Ok None"
| "deletion_loop crd (pod # pods) =
     exec_bind (candidate_of crd) (\<lambda>c.
       if GetName pod = sd_PodName c then Ok (Some (errorNew (''pod '' @ GetName pod @ '' not deleted yet'')))
       else deletion_loop crd pods)"

definition ConfirmPodDeletion :: "svs_env \<Rightarrow> ScheduledVolumeSnapshot \<Rightarrow> goerror option exec" where
  "ConfirmPodDeletion env crd =
     (case se_Pods env of
        Inl err \<Rightarrow> Ok (Some (wrap ''list pods: '' err))
      | Inr pods \<Rightarrow> deletion_loop crd pods)"

subsection \<open>vol\_snapshot\_control.go\<close>

definition cosmosSourceLabel :: string where "cosmosSourceLabel = ''cosmos.bharvest.io/source''"

definition minAvail :: "ScheduledVolumeSnapshotSpec \<Rightarrow> int" where
  "minAvail spec = (if vp_MinAvailable spec \<le> 0 then 2 else vp_MinAvailable spec)"

definition FindCandidate :: "svs_env \<Rightarrow> ScheduledVolumeSnapshot \<Rightarrow> goerror + SnapshotCandidate" where
  "FindCandidate env crd =
     (let synced = se_Synced env;
          availCount = int32_wrap (int (length synced));
          minAvail = minAvail (sv_Spec crd);
          candidate = (\<lambda>pod. \<lparr>sd_PodName = GetName pod, sd_PVCName = PVCName pod, sd_PodLabels = om_Labels (ob_Meta pod)\<rparr>)
      in if availCount < minAvail
         then Inl (errorNew (FormatInt minAvail @ '' or more pods must be in-sync to prevent downtime, found '' @
                FormatInt availCount @ '' in-sync''))
         else case lf_Ordinal (vp_FullNodeRef (sv_Spec crd)) of
           Some podIndex \<Rightarrow>
             (case find (\<lambda>p. label_get (om_Annotations (ob_Meta p)) ''app.kubernetes.io/ordinal'' = FormatInt podIndex) synced of
                None \<Rightarrow> Inl (errorNew (''in-sync pod with index '' @ FormatInt podIndex @ '' not found''))
              | Some pod \<Rightarrow> Inr (candidate pod))
         | None \<Rightarrow> Inr (candidate (synced ! 0)))"

text \<open>\<open>Time.UTC().Format("200601021504")\<close>: the civil date of the days since 1970, in the Gregorian calendar.\<close>

definition civil :: "int \<Rightarrow> int \<times> int \<times> int" where
  "civil days =
     (let z = days + 719468; era = z div 146097; doe = z mod 146097;
          yoe = (doe - doe div 1460 + doe div 36524 - doe div 146096) div 365;
          doy = doe - (365 * yoe + yoe div 4 - yoe div 100);
          mp = (5 * doy + 2) div 153;
          d = doy - (153 * mp + 2) div 5 + 1;
          m = (if mp < 10 then mp + 3 else mp - 9);
          y = yoe + era * 400
      in (if m \<le> 2 then y + 1 else y, m, d))"

definition pad :: "nat \<Rightarrow> int \<Rightarrow> string" where
  "pad n v = (let s = FormatInt v in replicate (n - length s) CHR ''0'' @ s)"

definition formatMinute :: "time \<Rightarrow> string" where
  "formatMinute t =
     (let secs = t div time_Second; (y, m, d) = civil (secs div 86400); r = secs mod 86400
      in pad 4 y @ pad 2 m @ pad 2 d @ pad 2 (r div 3600) @ pad 2 (r div 60 mod 60))"

definition snapshotLabels :: "ScheduledVolumeSnapshot \<Rightarrow> SnapshotCandidate \<Rightarrow> labels" where
  "snapshotLabels crd candidate =
     AList.update cosmosSourceLabel (om_Name (sv_Meta crd))
       (AList.update ControllerLabel ''cosmos-operator''
         (AList.update ComponentLabel ScheduledVolumeSnapshotController (sd_PodLabels candidate)))"

definition scheduledSnapshot :: "time \<Rightarrow> ScheduledVolumeSnapshot \<Rightarrow> SnapshotCandidate \<Rightarrow> VolumeSnapshot" where
  "scheduledSnapshot now crd candidate =
     \<lparr>ob_Kind = [], ob_APIVersion = [],
      ob_Meta = emptyMeta\<lparr>om_Name := ToName (om_Name (sv_Meta crd) @ ''-'' @ formatMinute now),
        om_Namespace := om_Namespace (sv_Meta crd), om_Labels := snapshotLabels crd candidate\<rparr>,
      ob_Body = \<lparr>vs_SourcePVC = Some (sd_PVCName candidate), vs_ClassName = Some (vp_VolumeSnapshotClassName (sv_Spec crd)),
        vs_Status = None\<rparr>\<rparr>"

text \<open>\<open>CreateSnapshot\<close> reads the clock for the name and again for the status.\<close>

definition CreateSnapshot ::
  "svs_env \<Rightarrow> ScheduledVolumeSnapshot \<Rightarrow> SnapshotCandidate \<Rightarrow> svs_world \<Rightarrow> goerror option \<times> ScheduledVolumeSnapshot \<times> svs_world" where
  "CreateSnapshot env crd candidate w =
     (let snapshot = scheduledSnapshot (se_Clock env 1) crd candidate
      in case svs_request env (SvsCreateCall snapshot) w of
           (Some err, w') \<Rightarrow> (Some err, crd, w')
         | (None, w') \<Rightarrow> (None, set_svs (\<lambda>st. st\<lparr>vt_LastSnapshot :=
               Some \<lparr>ls_Name = GetName snapshot, ls_StartedAt = se_Clock env 2, ls_Status = None\<rparr>\<rparr>) crd, w'))"

definition snapshotLimit :: "ScheduledVolumeSnapshotSpec \<Rightarrow> nat" where
  "snapshotLimit spec = nat (if vp_Limit spec \<le> 0 then 3 else vp_Limit spec)"

definition delete_old :: "svs_env \<Rightarrow> goerror option \<times> svs_world \<Rightarrow> VolumeSnapshot \<Rightarrow> goerror option \<times> svs_world" where
  "delete_old env acc vs =
     (case acc of (merr, w) \<Rightarrow>
        (case svs_request env (SvsDeleteCall vs) w of
           (err, w') \<Rightarrow> (if IgnoreNotFound err \<noteq> None
             then errors_Join [merr, Some (wrap (''delete '' @ GetName vs @ '': '') (the err))] else merr, w')))"

definition hasCreationTime :: "VolumeSnapshot \<Rightarrow> bool" where
  "hasCreationTime s = (case vs_Status (ob_Body s) of None \<Rightarrow> False | Some st \<Rightarrow> vss_CreationTime st \<noteq> None)"

definition oldSnapshots :: "svs_env \<Rightarrow> ScheduledVolumeSnapshot \<Rightarrow> VolumeSnapshot list \<Rightarrow> VolumeSnapshot list" where
  "oldSnapshots env crd items =
     (let filtered = filter hasCreationTime items; limit = snapshotLimit (sv_Spec crd)
      in if length filtered \<le> limit then [] else drop limit (se_Sort env filtered))"

definition DeleteOldSnapshots :: "svs_env \<Rightarrow> ScheduledVolumeSnapshot \<Rightarrow> svs_world \<Rightarrow> goerror option \<times> svs_world" where
  "DeleteOldSnapshots env crd w =
     (case se_List env of
        Inl err \<Rightarrow> (Some (wrap ''list volume snapshots: '' err), w)
      | Inr items \<Rightarrow> foldl (delete_old env) (None, w) (oldSnapshots env crd items))"

subsection \<open>scheduler.go\<close>

definition CalcNext :: "svs_env \<Rightarrow> ScheduledVolumeSnapshot \<Rightarrow> goerror + duration" where
  "CalcNext env crd =
     (case se_Cron env (vp_Schedule (sv_Spec crd)) of
        Inl err \<Rightarrow> Inl (wrap ''invalid spec.schedule: '' err)
      | Inr next \<Rightarrow>
          let refDate = (case vt_LastSnapshot (sv_Status crd) of None \<Rightarrow> vt_CreatedAt (sv_Status crd) | Some l \<Rightarrow> ls_StartedAt l)
          in Inr (max (time_Sub (next refDate) (se_Clock env 1)) 0))"

definition IsSnapshotReady :: "svs_env \<Rightarrow> ScheduledVolumeSnapshot \<Rightarrow> (goerror + bool \<times> ScheduledVolumeSnapshot) exec" where
  "IsSnapshotReady env crd =
     (case vt_LastSnapshot (sv_Status crd) of
        None \<Rightarrow> Panic ''nil last snapshot''
      | Some l \<Rightarrow>
          (case se_Get env (ObjectKey (om_Namespace (sv_Meta crd)) (ls_Name l)) of
             Inl err \<Rightarrow> Ok (if IsNotFound (Some err) then Inr (True, crd) else Inl err)
           | Inr snapshot \<Rightarrow>
               Ok (Inr (VolumeSnapshotIsReady (vs_Status (ob_Body snapshot)),
                 set_svs (\<lambda>st. st\<lparr>vt_LastSnapshot := Some (l\<lparr>ls_Status := vs_Status (ob_Body snapshot)\<rparr>)\<rparr>) crd))))"

end
