(* ===== verification/Snapshot_Controller.thy ===== *)
theory Snapshot_Controller
  imports Vol_Snapshot Controller_Results Machines
begin

text \<open>
  \<^verbatim>\<open>controllers/scheduledvolumesnapshot_controller.go\<close>: the state machine of a scheduled snapshot. A
  reconcile handles the phase of the resource and then, in a deferred call, writes the status
  whatever happened before. The result of a reconcile is an \<open>exec\<close>, because some phases read
  pointers that may be nil.
\<close>

definition reportError :: "goerror \<Rightarrow> ScheduledVolumeSnapshot \<Rightarrow> ScheduledVolumeSnapshot" where
  "reportError err = set_svs (\<lambda>st. st\<lparr>vt_StatusMessage := Some (''Error: '' @ ge_msg err)\<rparr>)"

definition retryResult :: Result where "retryResult = requeueAfter (10 * time_Second)"

definition errMissingVolSnapCRD :: goerror where
  "errMissingVolSnapCRD = errorNew ''cluster does not have VolumeSnapshot CRDs installed''"

definition to_phase :: "SnapshotPhase \<Rightarrow> ScheduledVolumeSnapshot \<Rightarrow> ScheduledVolumeSnapshot" where
  "to_phase p = set_svs (\<lambda>st. st\<lparr>vt_Phase := p\<rparr>)"

type_synonym svs_outcome = "Result exec \<times> ScheduledVolumeSnapshot \<times> svs_world"

definition restorePod :: "svs_env \<Rightarrow> ScheduledVolumeSnapshot \<Rightarrow> svs_world \<Rightarrow> goerror option exec \<times> ScheduledVolumeSnapshot \<times> svs_world" where
  "restorePod env crd w =
     (case ConfirmPodRestoration env crd w of
        Panic m \<Rightarrow> (Panic m, crd, w)
      | Ok None \<Rightarrow> (Ok None, crd, w)
      | Ok (Some _) \<Rightarrow>
          (case SignalPodRestoration env crd w of
             (Some err, w') \<Rightarrow> (Ok (Some err), reportError err crd, w')
           | (None, w') \<Rightarrow> (Ok None, crd, w')))"

subsection \<open>The phases\<close>

definition waitingForNext :: "svs_env \<Rightarrow> ScheduledVolumeSnapshot \<Rightarrow> svs_world \<Rightarrow> svs_outcome" where
  "waitingForNext env crd w =
     (case DeleteOldSnapshots env crd w of (derr, w1) \<Rightarrow>
        let crd1 = (case derr of None \<Rightarrow> crd | Some err \<Rightarrow> reportError err crd)
        in case CalcNext env crd1 of
             Inl err \<Rightarrow> (Ok stopResult, reportError err crd1, w1)
           | Inr dur \<Rightarrow>
               if dur > 0 then (Ok (requeueAfter dur), crd1, w1)
               else (Ok stopResult, to_phase SnapshotPhaseFindingCandidate crd1, w1))"

definition findingCandidate :: "svs_env \<Rightarrow> ScheduledVolumeSnapshot \<Rightarrow> svs_world \<Rightarrow> svs_outcome" where
  "findingCandidate env crd w =
     (case FindCandidate env crd of
        Inl err \<Rightarrow> (Ok retryResult, reportError err crd, w)
      | Inr candidate \<Rightarrow>
          (Ok stopResult, to_phase (if vp_DeletePod (sv_Spec crd) then SnapshotPhaseDeletingPod else SnapshotPhaseCreating)
             (set_svs (\<lambda>st. st\<lparr>vt_Candidate := Some candidate\<rparr>) crd), w))"

definition deletingPod :: "svs_env \<Rightarrow> ScheduledVolumeSnapshot \<Rightarrow> svs_world \<Rightarrow> svs_outcome" where
  "deletingPod env crd w =
     (case SignalPodDeletion env crd w of
        (Panic m, w1) \<Rightarrow> (Panic m, crd, w1)
      | (Ok (Some err), w1) \<Rightarrow> (Ok retryResult, reportError err crd, w1)
      | (Ok None, w1) \<Rightarrow> (Ok stopResult, to_phase SnapshotPhaseWaitingForPodDeletion crd, w1))"

definition waitingForPodDeletion :: "svs_env \<Rightarrow> ScheduledVolumeSnapshot \<Rightarrow> svs_world \<Rightarrow> svs_outcome" where
  "waitingForPodDeletion env crd w =
     (case ConfirmPodDeletion env crd of
        Panic m \<Rightarrow> (Panic m, crd, w)
      | Ok (Some err) \<Rightarrow>
          (case candidate_of crd of
             Panic m \<Rightarrow> (Panic m, crd, w)
           | Ok _ \<Rightarrow> (Ok retryResult, reportError err crd, w))
      | Ok None \<Rightarrow> (Ok stopResult, to_phase SnapshotPhaseCreating crd, w))"

definition creatingSnapshot :: "svs_env \<Rightarrow> ScheduledVolumeSnapshot \<Rightarrow> svs_world \<Rightarrow> svs_outcome" where
  "creatingSnapshot env crd w =
     (case candidate_of crd of
        Panic m \<Rightarrow> (Panic m, crd, w)
      | Ok candidate \<Rightarrow>
          (case CreateSnapshot env crd candidate w of
             (Some err, crd1, w1) \<Rightarrow> (Ok retryResult, reportError err crd1, w1)
           | (None, crd1, w1) \<Rightarrow> (Ok stopResult, to_phase SnapshotPhaseWaitingForCreation crd1, w1)))"

definition waitingForCreation :: "svs_env \<Rightarrow> ScheduledVolumeSnapshot \<Rightarrow> svs_world \<Rightarrow> svs_outcome" where
  "waitingForCreation env crd w =
     (case IsSnapshotReady env crd of
        Panic m \<Rightarrow> (Panic m, crd, w)
      | Ok (Inl err) \<Rightarrow> (Ok retryResult, reportError err crd, w)
      | Ok (Inr (ready, crd1)) \<Rightarrow>
          if \<not> ready then (Ok retryResult, crd1, w)
          else (Ok stopResult, to_phase SnapshotPhaseRestorePod crd1, w))"

definition restoringPod :: "svs_env \<Rightarrow> ScheduledVolumeSnapshot \<Rightarrow> svs_world \<Rightarrow> svs_outcome" where
  "restoringPod env crd w =
     (case restorePod env crd w of
        (Panic m, crd1, w1) \<Rightarrow> (Panic m, crd1, w1)
      | (Ok (Some err), crd1, w1) \<Rightarrow> (Ok retryResult, crd1, w1)
      | (Ok None, crd1, w1) \<Rightarrow>
          (Ok stopResult, to_phase (if vp_Suspend (sv_Spec crd1) then SnapshotPhaseSuspended else SnapshotPhaseWaitingForNext) crd1, w1))"

fun svs_phase :: "SnapshotPhase \<Rightarrow> svs_env \<Rightarrow> ScheduledVolumeSnapshot \<Rightarrow> svs_world \<Rightarrow> svs_outcome" where
  "svs_phase SnapshotPhaseWaitingForNext env crd w = waitingForNext env crd w"
| "svs_phase SnapshotPhaseFindingCandidate env crd w = findingCandidate env crd w"
| "svs_phase SnapshotPhaseDeletingPod env crd w = deletingPod env crd w"
| "svs_phase SnapshotPhaseWaitingForPodDeletion env crd w = waitingForPodDeletion env crd w"
| "svs_phase SnapshotPhaseCreating env crd w = creatingSnapshot env crd w"
| "svs_phase SnapshotPhaseWaitingForCreation env crd w = waitingForCreation env crd w"
| "svs_phase SnapshotPhaseRestorePod env crd w = restoringPod env crd w"
| "svs_phase _ env crd w = (Ok stopResult, crd, w)"

definition ScheduledVolumeSnapshot_Reconcile ::
  "svs_env \<Rightarrow> goerror + ScheduledVolumeSnapshot \<Rightarrow> svs_world \<Rightarrow> (Result \<times> goerror option) exec \<times> svs_world" where
  "ScheduledVolumeSnapshot_Reconcile env got w =
     (case got of
        Inl err \<Rightarrow> (Ok (stopResult, IgnoreNotFound (Some err)), w)
      | Inr crd0 \<Rightarrow>
          let crd = Vol_Snapshot.ResetStatus (se_Clock env 0) crd0;
              (res, crd1, w1) = (if se_Missing env
                then (Ok stopResult, to_phase SnapshotPhaseMissingCRDs (reportError errMissingVolSnapCRD crd), w)
                else svs_phase (vt_Phase (sv_Status crd)) env crd w)
          in (exec_bind res (\<lambda>r. Ok (r, None)), snd (svs_request env (SvsUpdateCall crd1) w1)))"

subsection \<open>Runs of the controller\<close>

text \<open>
  A run alternates reconciles, which read the stored resource or an error, with the user's edits of the resource and
  with writes to the full node's status by others, which leave this resource's entry alone. \<open>sm_Absent\<close>
  records the pods that a reconcile has found absent from the cluster since the full node was told to delete
  them. The runs follow one full node: an edit keeps the reference to it. They have two more restrictions, and
  without either of them the controller can take a snapshot of a pod that runs: no update of the status is refused
  while the resource is suspended (\<open>snapshot_of_running_pod\<close>), and no edit asks for the deletion of pods
  while a snapshot is already being taken (\<open>late_pod_deletion\<close>).
\<close>

definition signalled :: "svs_world \<Rightarrow> string option" where
  "signalled w = map_option fs_PodCandidate (map_of (st_ScheduledSnapshotStatus (vw_Status w)) (sourceKey (vw_Stored w)))"

definition lists_without :: "svs_env \<Rightarrow> string \<Rightarrow> bool" where
  "lists_without env n = (case se_Pods env of Inl _ \<Rightarrow> False | Inr pods \<Rightarrow> n \<notin> GetName ` set pods)"

record svs_machine =
  sm_World :: svs_world
  sm_Absent :: "string \<Rightarrow> bool"

definition next_absent :: "svs_env \<Rightarrow> (string \<Rightarrow> bool) \<Rightarrow> string option \<Rightarrow> string option \<Rightarrow> string \<Rightarrow> bool" where
  "next_absent env A before after n \<longleftrightarrow> before = Some n \<and> after = Some n \<and> (A n \<or> lists_without env n)"

definition svs_read_ok :: "goerror + ScheduledVolumeSnapshot \<Rightarrow> svs_world \<Rightarrow> bool" where
  "svs_read_ok got w = (case got of Inl _ \<Rightarrow> True | Inr crd \<Rightarrow> crd = vw_Stored w)"

definition svs_env_ok :: "svs_env \<Rightarrow> svs_world \<Rightarrow> bool" where
  "svs_env_ok env w \<longleftrightarrow> (vp_Suspend (sv_Spec (vw_Stored w)) \<longrightarrow> (\<forall>cs crd. se_Server env cs (SvsUpdateCall crd) = None))"

definition svs_set_suspend :: "bool \<Rightarrow> svs_world \<Rightarrow> svs_world" where
  "svs_set_suspend b w = w\<lparr>vw_Stored := (vw_Stored w)\<lparr>sv_Spec := (sv_Spec (vw_Stored w))\<lparr>vp_Suspend := b\<rparr>\<rparr>\<rparr>"

definition svs_edit_spec :: "ScheduledVolumeSnapshotSpec \<Rightarrow> svs_world \<Rightarrow> svs_world" where
  "svs_edit_spec spec w = w\<lparr>vw_Stored := (vw_Stored w)\<lparr>sv_Spec := spec\<rparr>\<rparr>"

definition svs_edit_ok :: "ScheduledVolumeSnapshotSpec \<Rightarrow> svs_world \<Rightarrow> bool" where
  "svs_edit_ok spec w \<longleftrightarrow> vp_FullNodeRef spec = vp_FullNodeRef (sv_Spec (vw_Stored w)) \<and>
     (vp_DeletePod spec \<longrightarrow> vp_DeletePod (sv_Spec (vw_Stored w)) \<or>
        vt_Phase (sv_Status (vw_Stored w)) \<notin> {SnapshotPhaseCreating, SnapshotPhaseWaitingForCreation})"

definition fresh_svs :: "svs_machine \<Rightarrow> bool" where
  "fresh_svs m \<longleftrightarrow> vt_Phase (sv_Status (vw_Stored (sm_World m))) = SnapshotPhaseNone \<and>
     signalled (sm_World m) = None \<and> vw_Created (sm_World m) = []"

inductive svs_step :: "svs_machine \<Rightarrow> svs_machine \<Rightarrow> bool" where
  svs_reconcile: "svs_env_ok env (sm_World m) \<Longrightarrow> svs_read_ok got (sm_World m) \<Longrightarrow>
     w' = snd (ScheduledVolumeSnapshot_Reconcile env got (sm_World m)) \<Longrightarrow>
     svs_step m \<lparr>sm_World = w', sm_Absent = next_absent env (sm_Absent m) (signalled (sm_World m)) (signalled w')\<rparr>"
| svs_edit: "svs_edit_ok spec (sm_World m) \<Longrightarrow> svs_step m (m\<lparr>sm_World := svs_edit_spec spec (sm_World m)\<rparr>)"
| svs_other: "signalled ((sm_World m)\<lparr>vw_Status := st\<rparr>) = signalled (sm_World m) \<Longrightarrow>
     svs_step m (m\<lparr>sm_World := (sm_World m)\<lparr>vw_Status := st\<rparr>\<rparr>)"

inductive_cases svs_stepE [elim]: "svs_step m m'"

text \<open>
  What holds in a phase: the flag says that pods are to be deleted, \<open>s\<close> is the pod that the full node
  was told to delete, \<open>c\<close> the candidate of the status, \<open>l\<close> says that a last snapshot is recorded.
\<close>

fun phase_ok :: "SnapshotPhase \<Rightarrow> bool \<Rightarrow> (string \<Rightarrow> bool) \<Rightarrow> string option \<Rightarrow> SnapshotCandidate option \<Rightarrow> bool \<Rightarrow> bool" where
  "phase_ok SnapshotPhaseDeletingPod dp A s c l = (c \<noteq> None)"
| "phase_ok SnapshotPhaseWaitingForPodDeletion dp A s c l = (\<exists>d. c = Some d \<and> s = Some (sd_PodName d))"
| "phase_ok SnapshotPhaseCreating dp A s c l = (\<exists>d. c = Some d \<and> (dp \<longrightarrow> s = Some (sd_PodName d) \<and> A (sd_PodName d)))"
| "phase_ok SnapshotPhaseWaitingForCreation dp A s c l =
     (l \<and> (\<exists>d. c = Some d \<and> (dp \<longrightarrow> s = Some (sd_PodName d) \<and> A (sd_PodName d))))"
| "phase_ok SnapshotPhaseRestorePod dp A s c l = True"
| "phase_ok SnapshotPhaseMissingCRDs dp A s c l = True"
| "phase_ok _ dp A s c l = (s = None)"

definition svs_ok :: "bool \<Rightarrow> (string \<Rightarrow> bool) \<Rightarrow> string option \<Rightarrow> ScheduledVolumeSnapshotStatus \<Rightarrow> bool" where
  "svs_ok dp A s st \<longleftrightarrow> phase_ok (vt_Phase st) dp A s (vt_Candidate st) (vt_LastSnapshot st \<noteq> None) \<and>
     (s \<noteq> None \<longrightarrow> vt_Candidate st \<noteq> None)"

definition svs_inv :: "svs_machine \<Rightarrow> bool" where
  "svs_inv m \<longleftrightarrow> svs_ok (vp_DeletePod (sv_Spec (vw_Stored (sm_World m)))) (sm_Absent m) (signalled (sm_World m))
     (sv_Status (vw_Stored (sm_World m)))"

lemma phase_ok_next: "phase_ok p dp A s c l \<Longrightarrow> phase_ok p dp (next_absent env A s s) s c l"
  by (cases p) (auto simp: next_absent_def)

lemma svs_ok_next: "svs_ok dp A s st \<Longrightarrow> svs_ok dp (next_absent env A s s) s st"
  by (simp add: svs_ok_def phase_ok_next)

lemma svs_ok_stored [simp]: "svs_ok dp A s (stored_svs env st) = svs_ok dp A s st"
  by (simp add: svs_ok_def stored_svs_def)

lemma set_svs_simps [simp]:
  "sv_Spec (set_svs f crd) = sv_Spec crd" "sv_Meta (set_svs f crd) = sv_Meta crd" "sv_Status (set_svs f crd) = f (sv_Status crd)"
  by (simp_all add: set_svs_def)

lemma report_phase_simps [simp]:
  "sv_Spec (reportError e crd) = sv_Spec crd" "sv_Meta (reportError e crd) = sv_Meta crd"
  "vt_Phase (sv_Status (reportError e crd)) = vt_Phase (sv_Status crd)"
  "vt_Candidate (sv_Status (reportError e crd)) = vt_Candidate (sv_Status crd)"
  "vt_LastSnapshot (sv_Status (reportError e crd)) = vt_LastSnapshot (sv_Status crd)"
  "sv_Spec (to_phase p crd) = sv_Spec crd" "sv_Meta (to_phase p crd) = sv_Meta crd"
  "vt_Phase (sv_Status (to_phase p crd)) = p" "vt_Candidate (sv_Status (to_phase p crd)) = vt_Candidate (sv_Status crd)"
  "vt_LastSnapshot (sv_Status (to_phase p crd)) = vt_LastSnapshot (sv_Status crd)"
  by (simp_all add: reportError_def to_phase_def)

text \<open>A call other than the status update leaves the resource; only two calls change what the full node was told.\<close>

lemma request_Stored:
  assumes "\<And>crd. c \<noteq> SvsUpdateCall crd"
  shows "vw_Stored (snd (svs_request env c w)) = vw_Stored w"
  using assms by (cases c) (auto simp: svs_request_def Let_def split: option.split)

lemma request_Status:
  "vw_Status (snd (svs_request env (SvsCreateCall s) w)) = vw_Status w"
  "vw_Status (snd (svs_request env (SvsDeleteCall s) w)) = vw_Status w"
  "vw_Status (snd (svs_request env (SvsUpdateCall crd) w)) = vw_Status w"
  by (simp_all add: svs_request_def Let_def split: option.split)

lemma DeleteOld_keeps:
  assumes "DeleteOldSnapshots env crd w = (err, w')"
  shows "vw_Stored w' = vw_Stored w \<and> vw_Status w' = vw_Status w \<and> vw_Created w' = vw_Created w"
proof -
  have one: "vw_Stored (snd (delete_old env acc v)) = vw_Stored (snd acc) \<and> vw_Status (snd (delete_old env acc v)) = vw_Status (snd acc) \<and>
      vw_Created (snd (delete_old env acc v)) = vw_Created (snd acc)" for acc v
    by (auto simp: delete_old_def svs_request_def Let_def split: prod.split option.split)
  have all: "vw_Stored (snd (foldl (delete_old env) acc vs)) = vw_Stored (snd acc) \<and> vw_Status (snd (foldl (delete_old env) acc vs)) = vw_Status (snd acc) \<and>
      vw_Created (snd (foldl (delete_old env) acc vs)) = vw_Created (snd acc)" for acc vs
    by (induction vs arbitrary: acc) (simp_all add: one)
  show ?thesis
  proof (cases "se_List env")
    case (Inr items)
    with assms all [of "(None, w)" "oldSnapshots env crd items"] show ?thesis by (simp add: DeleteOldSnapshots_def)
  qed (use assms in \<open>simp add: DeleteOldSnapshots_def\<close>)
qed

text \<open>
  The contract of a phase's handler, working on a copy of the stored resource: it does not panic, and
  both the status it leaves in memory and the stored one fit the world it leaves, the latter unless
  the resource is suspended.
\<close>

definition svs_copy :: "(string \<Rightarrow> bool) \<Rightarrow> svs_world \<Rightarrow> ScheduledVolumeSnapshot \<Rightarrow> bool" where
  "svs_copy A w crd \<longleftrightarrow> sv_Spec crd = sv_Spec (vw_Stored w) \<and> sv_Meta crd = sv_Meta (vw_Stored w) \<and>
     vt_Candidate (sv_Status crd) = vt_Candidate (sv_Status (vw_Stored w)) \<and>
     svs_ok (vp_DeletePod (sv_Spec (vw_Stored w))) A (signalled w) (sv_Status crd) \<and>
     svs_ok (vp_DeletePod (sv_Spec (vw_Stored w))) A (signalled w) (sv_Status (vw_Stored w)) \<and>
     (\<not> vp_Suspend (sv_Spec (vw_Stored w)) \<longrightarrow> vt_Phase (sv_Status crd) = SnapshotPhaseRestorePod \<longrightarrow>
        vt_Phase (sv_Status (vw_Stored w)) = SnapshotPhaseRestorePod) \<and>
     (vt_Phase (sv_Status crd) = SnapshotPhaseDeletingPod \<longrightarrow> vt_Phase (sv_Status (vw_Stored w)) = SnapshotPhaseDeletingPod)"

definition svs_good :: "svs_env \<Rightarrow> (string \<Rightarrow> bool) \<Rightarrow> svs_world \<Rightarrow> svs_outcome \<Rightarrow> bool" where
  "svs_good env A w out \<longleftrightarrow> (case out of (res, crd1, w1) \<Rightarrow>
     \<not> is_panic res \<and> vw_Stored w1 = vw_Stored w \<and>
     (let dp = vp_DeletePod (sv_Spec (vw_Stored w)); A1 = next_absent env A (signalled w) (signalled w1)
      in svs_ok dp A1 (signalled w1) (sv_Status crd1) \<and>
         (\<not> vp_Suspend (sv_Spec (vw_Stored w)) \<longrightarrow> svs_ok dp A1 (signalled w1) (sv_Status (vw_Stored w)))))"

lemma svs_goodI:
  assumes "svs_copy A w crd" and "\<not> is_panic res" and "vw_Stored w1 = vw_Stored w" and "vw_Status w1 = vw_Status w"
    and "svs_ok (vp_DeletePod (sv_Spec (vw_Stored w))) (next_absent env A (signalled w) (signalled w)) (signalled w) (sv_Status crd1)"
  shows "svs_good env A w (res, crd1, w1)"
proof -
  have "signalled w1 = signalled w" using assms(3,4) by (simp add: signalled_def)
  then show ?thesis using assms by (simp add: svs_good_def svs_copy_def Let_def svs_ok_next)
qed

lemma svs_copy_next:
  assumes "svs_copy A w crd" and "vt_Phase (sv_Status crd1) = vt_Phase (sv_Status crd)"
    and "vt_Candidate (sv_Status crd1) = vt_Candidate (sv_Status crd)"
    and "vt_LastSnapshot (sv_Status crd1) = None \<longleftrightarrow> vt_LastSnapshot (sv_Status crd) = None"
  shows "svs_ok (vp_DeletePod (sv_Spec (vw_Stored w))) (next_absent env A (signalled w) (signalled w)) (signalled w) (sv_Status crd1)"
  by (rule svs_ok_next) (use assms in \<open>auto simp: svs_copy_def svs_ok_def simp del: not_None_eq\<close>)

lemma good_waitingForNext:
  assumes "svs_copy A w crd" and "vt_Phase (sv_Status crd) = SnapshotPhaseWaitingForNext"
  shows "svs_good env A w (waitingForNext env crd w)"
proof -
  obtain err w1 where d: "DeleteOldSnapshots env crd w = (err, w1)" by (cases "DeleteOldSnapshots env crd w")
  let ?crd1 = "case err of None \<Rightarrow> crd | Some e \<Rightarrow> reportError e crd"
  have p: "vt_Phase (sv_Status ?crd1) = vt_Phase (sv_Status crd)" "vt_Candidate (sv_Status ?crd1) = vt_Candidate (sv_Status crd)"
      "vt_LastSnapshot (sv_Status ?crd1) = vt_LastSnapshot (sv_Status crd)"
    by (simp_all split: option.split)
  have s: "signalled w = None" using assms by (simp add: svs_copy_def svs_ok_def)
  have g: "svs_good env A w (res, crd2, w1)"
    if "\<not> is_panic res" "vt_Phase (sv_Status crd2) \<in> {SnapshotPhaseWaitingForNext, SnapshotPhaseFindingCandidate}" for res crd2
    using that s DeleteOld_keeps [OF d] by (intro svs_goodI [OF assms(1)]) (auto simp: svs_ok_def)
  show ?thesis unfolding waitingForNext_def d
    by (simp add: Let_def p assms(2) g split: sum.split)
qed

lemma good_findingCandidate:
  assumes "svs_copy A w crd" and "vt_Phase (sv_Status crd) = SnapshotPhaseFindingCandidate"
  shows "svs_good env A w (findingCandidate env crd w)"
proof -
  have s: "signalled w = None" "sv_Spec crd = sv_Spec (vw_Stored w)" using assms by (simp_all add: svs_copy_def svs_ok_def)
  show ?thesis
    using s assms(2) by (auto simp: findingCandidate_def svs_ok_def split: sum.split intro!: svs_goodI [OF assms(1)])
qed

lemma svs_copyD:
  assumes "svs_copy A w crd"
  shows "sv_Spec crd = sv_Spec (vw_Stored w)" "sv_Meta crd = sv_Meta (vw_Stored w)" "sourceKey crd = sourceKey (vw_Stored w)"
    "signalled w \<noteq> None \<Longrightarrow> vt_Candidate (sv_Status crd) \<noteq> None"
    "phase_ok (vt_Phase (sv_Status crd)) (vp_DeletePod (sv_Spec (vw_Stored w))) A (signalled w)
       (vt_Candidate (sv_Status crd)) (vt_LastSnapshot (sv_Status crd) \<noteq> None)"
  using assms by (auto simp: svs_copy_def svs_ok_def sourceKey_def simp del: not_None_eq)

lemma good_deletingPod:
  assumes "svs_copy A w crd" and "vt_Phase (sv_Status crd) = SnapshotPhaseDeletingPod"
  shows "svs_good env A w (deletingPod env crd w)"
proof -
  obtain c where c: "vt_Candidate (sv_Status crd) = Some c" using svs_copyD(5) [OF assms(1)] assms(2) by auto
  have stay: "svs_good env A w (Ok retryResult, reportError err crd, w1)"
    if "vw_Stored w1 = vw_Stored w" "vw_Status w1 = vw_Status w" for err w1
    using that by (intro svs_goodI [OF assms(1)] svs_copy_next [OF assms(1)]) simp_all
  show ?thesis
  proof (cases "se_FullNodeErr env 0")
    case (Some err)
    then show ?thesis using stay by (simp add: deletingPod_def SignalPodDeletion_def)
  next
    case None
    let ?call = "SignalDeletionCall (fullNodeKey crd) (sourceKey crd) (sd_PodName c)"
    show ?thesis
    proof (cases "se_Server env (vw_Calls w) ?call")
      case (Some err)
      then show ?thesis using None c stay
        by (simp add: deletingPod_def SignalPodDeletion_def candidate_of_def svs_request_def Let_def)
    next
      case accepted: None
      let ?w1 = "svs_perform env ?call (w\<lparr>vw_Calls := vw_Calls w @ [?call]\<rparr>)"
      have w1: "vw_Stored ?w1 = vw_Stored w" "signalled ?w1 = Some (sd_PodName c)"
        by (simp_all add: signalled_def upd_candidates_def update_conv' svs_copyD(3) [OF assms(1)])
      have "vt_Phase (sv_Status (vw_Stored w)) = SnapshotPhaseDeletingPod" "vt_Candidate (sv_Status (vw_Stored w)) = Some c"
        using assms c by (simp_all add: svs_copy_def)
      then have "svs_good env A w (Ok stopResult, to_phase SnapshotPhaseWaitingForPodDeletion crd, ?w1)"
        unfolding svs_good_def Let_def prod.case w1 using c by (simp add: svs_ok_def)
      then show ?thesis using None accepted c
        by (simp add: deletingPod_def SignalPodDeletion_def candidate_of_def svs_request_def Let_def)
    qed
  qed
qed

lemma deletion_loop_Ok:
  assumes "vt_Candidate (sv_Status crd) = Some c"
  shows "\<not> is_panic (deletion_loop crd pods)" "deletion_loop crd pods = Ok None \<longleftrightarrow> sd_PodName c \<notin> GetName ` set pods"
  using assms by (induction pods) (auto simp: candidate_of_def)

lemma good_waitingForPodDeletion:
  assumes "svs_copy A w crd" and "vt_Phase (sv_Status crd) = SnapshotPhaseWaitingForPodDeletion"
  shows "svs_good env A w (waitingForPodDeletion env crd w)"
proof -
  obtain c where c: "vt_Candidate (sv_Status crd) = Some c" "signalled w = Some (sd_PodName c)"
    using svs_copyD(5) [OF assms(1)] assms(2) by auto
  have stay: "svs_good env A w (Ok retryResult, reportError err crd, w)" for err
    by (intro svs_goodI [OF assms(1)] svs_copy_next [OF assms(1)]) simp_all
  have go: "svs_good env A w (Ok stopResult, to_phase SnapshotPhaseCreating crd, w)" if "lists_without env (sd_PodName c)"
    using that c by (intro svs_goodI [OF assms(1)]) (simp_all add: svs_ok_def next_absent_def)
  show ?thesis
  proof (cases "se_Pods env")
    case (Inl err)
    then show ?thesis using stay c by (simp add: waitingForPodDeletion_def ConfirmPodDeletion_def candidate_of_def)
  next
    case (Inr pods)
    then show ?thesis using stay go c deletion_loop_Ok [OF c(1), of pods]
      by (auto simp: waitingForPodDeletion_def ConfirmPodDeletion_def candidate_of_def lists_without_def split: exec.split option.split)
  qed
qed

lemma good_creatingSnapshot:
  assumes "svs_copy A w crd" and "vt_Phase (sv_Status crd) = SnapshotPhaseCreating"
  shows "svs_good env A w (creatingSnapshot env crd w)"
proof -
  obtain c where c: "vt_Candidate (sv_Status crd) = Some c"
    using svs_copyD(5) [OF assms(1)] assms(2) by auto
  let ?call = "SvsCreateCall (scheduledSnapshot (se_Clock env 1) crd c)"
  have w1: "vw_Stored (snd (svs_request env ?call w)) = vw_Stored w" "vw_Status (snd (svs_request env ?call w)) = vw_Status w"
    by (rule request_Stored, simp) (rule request_Status)
  have "svs_ok (vp_DeletePod (sv_Spec (vw_Stored w))) (next_absent env A (signalled w) (signalled w)) (signalled w) (sv_Status crd)"
    using svs_copy_next [OF assms(1) refl refl refl] .
  then have go: "svs_good env A w (Ok stopResult, to_phase SnapshotPhaseWaitingForCreation
      (set_svs (\<lambda>st. st\<lparr>vt_LastSnapshot := Some l\<rparr>) crd), snd (svs_request env ?call w))" for l
    using w1 assms(2) by (intro svs_goodI [OF assms(1)]) (simp_all add: svs_ok_def to_phase_def)
  have stay: "svs_good env A w (Ok retryResult, reportError err crd, snd (svs_request env ?call w))" for err
    using w1 by (intro svs_goodI [OF assms(1)] svs_copy_next [OF assms(1)]) simp_all
  show ?thesis
    using go stay c by (simp add: creatingSnapshot_def CreateSnapshot_def candidate_of_def Let_def case_prod_beta split: option.split)
qed

lemma good_waitingForCreation:
  assumes "svs_copy A w crd" and "vt_Phase (sv_Status crd) = SnapshotPhaseWaitingForCreation"
  shows "svs_good env A w (waitingForCreation env crd w)"
proof -
  obtain l where l: "vt_LastSnapshot (sv_Status crd) = Some l" using svs_copyD(5) [OF assms(1)] assms(2) by auto
  have stay: "svs_good env A w (Ok retryResult, crd1, w)" if "vt_Phase (sv_Status crd1) = vt_Phase (sv_Status crd)"
      "vt_Candidate (sv_Status crd1) = vt_Candidate (sv_Status crd)" "vt_LastSnapshot (sv_Status crd1) \<noteq> None" for crd1
    using that l by (intro svs_goodI [OF assms(1)] svs_copy_next [OF assms(1)]) simp_all
  have go: "svs_good env A w (Ok stopResult, to_phase SnapshotPhaseRestorePod crd1, w)"
    if "vt_Candidate (sv_Status crd1) = vt_Candidate (sv_Status crd)" for crd1
    using that svs_copyD(4) [OF assms(1)] by (intro svs_goodI [OF assms(1)]) (simp_all add: svs_ok_def)
  show ?thesis
    using stay go l by (simp add: waitingForCreation_def IsSnapshotReady_def split: sum.split)
qed

lemma good_restoringPod:
  assumes "svs_copy A w crd" and "vt_Phase (sv_Status crd) = SnapshotPhaseRestorePod"
  shows "svs_good env A w (restoringPod env crd w)"
proof -
  let ?call = "SignalRestorationCall (fullNodeKey crd) (sourceKey crd)"
  have stay: "svs_good env A w (Ok retryResult, reportError err crd, w1)"
    if "vw_Stored w1 = vw_Stored w" "vw_Status w1 = vw_Status w" for err w1
    using that by (intro svs_goodI [OF assms(1)] svs_copy_next [OF assms(1)]) simp_all
  have done': "svs_good env A w (Ok stopResult, to_phase p crd, w1)"
    if "p = SnapshotPhaseSuspended \<or> p = SnapshotPhaseWaitingForNext" "vw_Stored w1 = vw_Stored w" "signalled w1 = None" for p w1
  proof -
    have "\<not> vp_Suspend (sv_Spec (vw_Stored w)) \<Longrightarrow> vt_Phase (sv_Status (vw_Stored w)) = SnapshotPhaseRestorePod"
      using assms by (simp add: svs_copy_def)
    then show ?thesis unfolding svs_good_def Let_def prod.case that(2,3) using that(1) by (auto simp: svs_ok_def)
  qed
  have signal: "svs_good env A w (case SignalPodRestoration env crd w of
        (Some err, w') \<Rightarrow> (Ok retryResult, reportError err crd, w')
      | (None, w') \<Rightarrow> (Ok stopResult, to_phase (if vp_Suspend (sv_Spec crd) then SnapshotPhaseSuspended else SnapshotPhaseWaitingForNext) crd, w'))"
  proof (cases "se_FullNodeErr env 1")
    case (Some err)
    then show ?thesis using stay by (simp add: SignalPodRestoration_def)
  next
    case None
    have "signalled (svs_perform env ?call (w\<lparr>vw_Calls := cs\<rparr>)) = None" for cs
      by (simp add: signalled_def upd_candidates_def delete_conv' svs_copyD(3) [OF assms(1)])
    then show ?thesis using None stay done'
      by (auto simp: SignalPodRestoration_def svs_request_def Let_def split: option.split)
  qed
  show ?thesis
  proof (cases "ConfirmPodRestoration env crd w")
    case (Panic m)
    have "vt_Candidate (sv_Status crd) = None" "signalled w \<noteq> None"
      using Panic by (auto simp: ConfirmPodRestoration_def candidate_of_def signalled_def svs_copyD(3) [OF assms(1)] split: option.splits)
    then show ?thesis using svs_copyD(4) [OF assms(1)] by simp
  next
    case (Ok r)
    have "signalled w = None" if "r = None"
      using Ok that by (auto simp: ConfirmPodRestoration_def signalled_def svs_copyD(3) [OF assms(1)] split: option.splits)
    then show ?thesis using Ok done' signal
      by (cases r) (auto simp: restoringPod_def restorePod_def case_prod_beta split: option.splits)
  qed
qed

lemma svs_copy_Reset:
  assumes "svs_ok (vp_DeletePod (sv_Spec (vw_Stored w))) A (signalled w) (sv_Status (vw_Stored w))"
  shows "svs_copy A w (Vol_Snapshot.ResetStatus now (vw_Stored w))"
proof -
  let ?st = "sv_Status (vw_Stored w)"
  have "svs_ok (vp_DeletePod (sv_Spec (vw_Stored w))) A (signalled w) (?st\<lparr>vt_ObservedGeneration := g, vt_StatusMessage := msg,
      vt_CreatedAt := t, vt_Phase := p\<rparr>)"
    if "p = SnapshotPhaseRestorePod \<or> p = vt_Phase ?st \<or>
      p = SnapshotPhaseWaitingForNext \<and> vt_Phase ?st \<in> {SnapshotPhaseSuspended, SnapshotPhaseNone}" for g msg t p
    using that assms by (auto simp: svs_ok_def)
  with assms show ?thesis by (simp add: svs_copy_def Vol_Snapshot.ResetStatus_def)
qed

lemma svs_phase_good:
  assumes "svs_copy A w crd"
  shows "svs_good env A w (svs_phase (vt_Phase (sv_Status crd)) env crd w)"
proof -
  have "svs_good env A w (Ok stopResult, crd, w)"
    using svs_goodI [OF assms _ refl refl svs_copy_next [OF assms refl refl refl]] by simp
  then show ?thesis
    using good_waitingForNext [OF assms] good_findingCandidate [OF assms] good_deletingPod [OF assms]
      good_waitingForPodDeletion [OF assms] good_creatingSnapshot [OF assms] good_waitingForCreation [OF assms] good_restoringPod [OF assms]
    by (cases "vt_Phase (sv_Status crd)") simp_all
qed

lemma svs_Reconcile_ok:
  assumes ok: "svs_ok (vp_DeletePod (sv_Spec (vw_Stored w))) A (signalled w) (sv_Status (vw_Stored w))"
    and env: "svs_env_ok env w" and got: "svs_read_ok got w"
    and w': "w' = snd (ScheduledVolumeSnapshot_Reconcile env got w)"
  shows "svs_ok (vp_DeletePod (sv_Spec (vw_Stored w'))) (next_absent env A (signalled w) (signalled w')) (signalled w') (sv_Status (vw_Stored w'))"
    and "\<not> is_panic (fst (ScheduledVolumeSnapshot_Reconcile env got w))"
proof -
  have "svs_ok (vp_DeletePod (sv_Spec (vw_Stored w'))) (next_absent env A (signalled w) (signalled w')) (signalled w') (sv_Status (vw_Stored w')) \<and>
    \<not> is_panic (fst (ScheduledVolumeSnapshot_Reconcile env got w))"
  proof (cases got)
    case (Inl err)
    then show ?thesis using ok w' by (simp add: ScheduledVolumeSnapshot_Reconcile_def svs_ok_next)
  next
    case (Inr crd0)
    then have crd0: "crd0 = vw_Stored w" using got by (simp add: svs_read_ok_def)
    let ?crd = "Vol_Snapshot.ResetStatus (se_Clock env 0) crd0"
    have copy: "svs_copy A w ?crd" using svs_copy_Reset [OF ok] crd0 by simp
    define out where "out = (if se_Missing env
      then (Ok stopResult, to_phase SnapshotPhaseMissingCRDs (reportError errMissingVolSnapCRD ?crd), w)
      else svs_phase (vt_Phase (sv_Status ?crd)) env ?crd w)"
    obtain res crd1 w1 where o: "out = (res, crd1, w1)" by (cases out)
    have "svs_good env A w (Ok stopResult, to_phase SnapshotPhaseMissingCRDs (reportError errMissingVolSnapCRD ?crd), w)"
      using svs_copyD(4) [OF copy] by (intro svs_goodI [OF copy]) (simp_all add: svs_ok_def)
    then have "svs_good env A w out" using svs_phase_good [OF copy] by (simp add: out_def)
    then have g: "\<not> is_panic res" "vw_Stored w1 = vw_Stored w"
        "svs_ok (vp_DeletePod (sv_Spec (vw_Stored w))) (next_absent env A (signalled w) (signalled w1)) (signalled w1) (sv_Status crd1)"
        "\<not> vp_Suspend (sv_Spec (vw_Stored w)) \<Longrightarrow>
           svs_ok (vp_DeletePod (sv_Spec (vw_Stored w))) (next_absent env A (signalled w) (signalled w1)) (signalled w1) (sv_Status (vw_Stored w))"
      by (simp_all add: svs_good_def o Let_def)
    have r: "ScheduledVolumeSnapshot_Reconcile env got w = (exec_bind res (\<lambda>r. Ok (r, None)), snd (svs_request env (SvsUpdateCall crd1) w1))"
      by (simp add: ScheduledVolumeSnapshot_Reconcile_def Inr Let_def out_def [symmetric] o)
    have s: "sourceKey (vw_Stored (snd (svs_request env (SvsUpdateCall crd1) w1))) = sourceKey (vw_Stored w1)"
      by (simp add: svs_request_def Let_def sourceKey_def split: option.split)
    then have sig: "signalled w' = signalled w1" by (simp add: w' r signalled_def request_Status)
    have "svs_ok (vp_DeletePod (sv_Spec (vw_Stored w'))) (next_absent env A (signalled w) (signalled w1)) (signalled w1) (sv_Status (vw_Stored w'))"
      using g env unfolding w' r snd_conv
      by (cases "se_Server env (vw_Calls w1) (SvsUpdateCall crd1)") (auto simp: svs_request_def Let_def svs_env_ok_def)
    with g(1) sig show ?thesis by (auto simp: r not_is_panic_iff)
  qed
  then show "svs_ok (vp_DeletePod (sv_Spec (vw_Stored w'))) (next_absent env A (signalled w) (signalled w')) (signalled w') (sv_Status (vw_Stored w'))"
    and "\<not> is_panic (fst (ScheduledVolumeSnapshot_Reconcile env got w))" by blast+
qed

lemma svs_ok_edit:
  assumes "svs_ok dp A s st" and "r \<and> (dp' \<longrightarrow> dp \<or> vt_Phase st \<notin> {SnapshotPhaseCreating, SnapshotPhaseWaitingForCreation})"
  shows "svs_ok dp' A s st"
  using assms by (cases "vt_Phase st") (auto simp: svs_ok_def)

interpretation svs: invariant_of fresh_svs svs_step svs_inv
proof
  show "svs_inv m" if "fresh_svs m" for m
    using that by (simp add: fresh_svs_def svs_inv_def svs_ok_def)
next
  fix m m' assume inv: "svs_inv m" and step: "svs_step m m'"
  from step show "svs_inv m'"
  proof cases
    case (svs_reconcile env got w')
    then show ?thesis using svs_Reconcile_ok(1) [OF _ svs_reconcile(2,3,4)] inv by (simp add: svs_inv_def)
  next
    case (svs_edit spec)
    have "signalled (svs_edit_spec spec (sm_World m)) = signalled (sm_World m)"
      by (simp add: signalled_def svs_edit_spec_def sourceKey_def)
    moreover have "svs_ok (vp_DeletePod spec) (sm_Absent m) (signalled (sm_World m)) (sv_Status (vw_Stored (sm_World m)))"
      using inv svs_edit(2) unfolding svs_inv_def svs_edit_ok_def by (rule svs_ok_edit)
    ultimately show ?thesis by (simp add: svs_inv_def svs_edit(1)) (simp add: svs_edit_spec_def)
  next
    case (svs_other st)
    then show ?thesis using inv by (simp add: svs_inv_def)
  qed
qed

subsection \<open>A sample run\<close>

definition sample_svs :: ScheduledVolumeSnapshot where
  "sample_svs = \<lparr>sv_Meta = emptyMeta\<lparr>om_Name := ''daily'', om_Namespace := ''chains''\<rparr>,
     sv_Spec = \<lparr>vp_FullNodeRef = \<lparr>lf_Name = ''osmo'', lf_Namespace = [], lf_Ordinal = None\<rparr>, vp_Schedule = ''0 0 * * *'',
       vp_VolumeSnapshotClassName = ''csi'', vp_DeletePod = True, vp_MinAvailable = 0, vp_Limit = 0, vp_Suspend = False\<rparr>,
     sv_Status = \<lparr>vt_ObservedGeneration = 0, vt_StatusMessage = None, vt_Phase = SnapshotPhaseNone, vt_CreatedAt = 0,
       vt_Candidate = None, vt_LastSnapshot = None\<rparr>\<rparr>"

definition svs_sample_world :: svs_world where
  "svs_sample_world = \<lparr>vw_Stored = sample_svs, vw_Status = fn_Status sample_crd, vw_Created = [], vw_Calls = []\<rparr>"

definition svs_pod :: "string \<Rightarrow> Pod" where
  "svs_pod n = \<lparr>ob_Kind = ''Pod'', ob_APIVersion = ''v1'', ob_Meta = emptyMeta\<lparr>om_Name := n\<rparr>,
     ob_Body = \<lparr>pb_Spec = emptyPodSpec\<lparr>ps_Volumes := [\<lparr>vol_Name = volChainHome, vol_Source = PersistentVolumeClaimSource (''pvc-'' @ n)\<rparr>]\<rparr>,
       pb_Status = emptyPodStatus\<rparr>\<rparr>"

text \<open>An environment at a time, with the pods that are listed and the server's answers.\<close>

definition svs_sample_env :: "time \<Rightarrow> string list \<Rightarrow> (svs_call \<Rightarrow> goerror option) \<Rightarrow> svs_env" where
  "svs_sample_env t pods srv = \<lparr>se_Clock = (\<lambda>_. t * time_Second), se_Synced = map svs_pod [''osmo-0'', ''osmo-2''],
     se_Pods = Inr (map svs_pod pods), se_FullNodeErr = (\<lambda>_. None), se_List = Inr [], se_Get = (\<lambda>_. Inl (errorNew ''down'')),
     se_Server = (\<lambda>_ c. srv c), se_Cron = (\<lambda>_. Inr (\<lambda>t. t + 86400 * time_Second)), se_Sort = sort_key snapshot_age,
     se_Trunc = id, se_Missing = False\<rparr>"

definition svs_run :: "svs_world \<Rightarrow> svs_env list \<Rightarrow> svs_world" where
  "svs_run w envs = foldl (\<lambda>w env. snd (ScheduledVolumeSnapshot_Reconcile env (Inr (vw_Stored w)) w)) w envs"

lemma svs_run_reach:
  assumes "reach fresh_svs svs_step \<lparr>sm_World = w, sm_Absent = A\<rparr>" and "\<forall>env \<in> set envs. \<forall>cs c. se_Server env cs c = None"
  shows "\<exists>A'. reach fresh_svs svs_step \<lparr>sm_World = svs_run w envs, sm_Absent = A'\<rparr>"
  using assms
proof (induction envs arbitrary: w A)
  case Nil
  then show ?case by (auto simp: svs_run_def)
next
  case (Cons env envs)
  let ?w' = "snd (ScheduledVolumeSnapshot_Reconcile env (Inr (vw_Stored w)) w)"
  have "svs_step \<lparr>sm_World = w, sm_Absent = A\<rparr> \<lparr>sm_World = ?w', sm_Absent = next_absent env A (signalled w) (signalled ?w')\<rparr>"
    using svs_reconcile [of env "\<lparr>sm_World = w, sm_Absent = A\<rparr>" "Inr (vw_Stored w)" ?w'] Cons.prems(2)
    by (simp add: svs_env_ok_def svs_read_ok_def)
  from Cons.IH [OF reach_step [OF Cons.prems(1) this]] Cons.prems(2) show ?case by (simp add: svs_run_def)
qed

text \<open>A day later the candidate is found, deleted, and its volume is about to be saved.\<close>

definition svs_saving :: svs_world where
  "svs_saving = svs_run svs_sample_world
     [svs_sample_env 90000 [''osmo-0'', ''osmo-2''] (\<lambda>_. None), svs_sample_env 90001 [''osmo-0'', ''osmo-2''] (\<lambda>_. None),
      svs_sample_env 90002 [''osmo-0'', ''osmo-2''] (\<lambda>_. None), svs_sample_env 90010 [''osmo-2''] (\<lambda>_. None)]"

lemma svs_saving_reach: "\<exists>A. reach fresh_svs svs_step \<lparr>sm_World = svs_saving, sm_Absent = A\<rparr>"
  unfolding svs_saving_def
proof (rule svs_run_reach [where A = "\<lambda>_. False"])
  show "reach fresh_svs svs_step \<lparr>sm_World = svs_sample_world, sm_Absent = \<lambda>_. False\<rparr>"
    by (rule reach_init) (simp add: fresh_svs_def svs_sample_world_def sample_svs_def signalled_def sample_crd_def)
qed (simp add: svs_sample_env_def)

lemma svs_saving_facts:
  "vt_Phase (sv_Status (vw_Stored svs_saving)) = SnapshotPhaseCreating"
  "map_option sd_PodName (vt_Candidate (sv_Status (vw_Stored svs_saving))) = Some ''osmo-0''"
  "vp_DeletePod (sv_Spec (vw_Stored svs_saving))" "vw_Created svs_saving = []"
  "map vs_SourcePVC (map ob_Body (vw_Created (svs_run svs_saving [svs_sample_env 90011 [''osmo-2''] (\<lambda>_. None)]))) = [Some ''pvc-osmo-0'']"
  "\<not> vp_Suspend (sv_Spec (vw_Stored svs_saving))"
proof -
  have "let w = svs_saving; w' = svs_run w [svs_sample_env 90011 [''osmo-2''] (\<lambda>_. None)] in
      vt_Phase (sv_Status (vw_Stored w)) = SnapshotPhaseCreating \<and>
      map_option sd_PodName (vt_Candidate (sv_Status (vw_Stored w))) = Some ''osmo-0'' \<and>
      vp_DeletePod (sv_Spec (vw_Stored w)) \<and> vw_Created w = [] \<and>
      map vs_SourcePVC (map ob_Body (vw_Created w')) = [Some ''pvc-osmo-0''] \<and> \<not> vp_Suspend (sv_Spec (vw_Stored w))"
    by code_simp
  then show "vt_Phase (sv_Status (vw_Stored svs_saving)) = SnapshotPhaseCreating"
    "map_option sd_PodName (vt_Candidate (sv_Status (vw_Stored svs_saving))) = Some ''osmo-0''"
    "vp_DeletePod (sv_Spec (vw_Stored svs_saving))" "vw_Created svs_saving = []"
    "map vs_SourcePVC (map ob_Body (vw_Created (svs_run svs_saving [svs_sample_env 90011 [''osmo-2''] (\<lambda>_. None)]))) = [Some ''pvc-osmo-0'']"
    "\<not> vp_Suspend (sv_Spec (vw_Stored svs_saving))"
    unfolding Let_def by simp_all
qed

subsection \<open>Properties of runs\<close>

lemma created_request: "(\<And>s. c \<noteq> SvsCreateCall s) \<Longrightarrow> vw_Created (snd (svs_request env c w)) = vw_Created w"
  by (cases c) (auto simp: svs_request_def Let_def split: option.split)

text \<open>Only the phase \<open>CreatingSnapshot\<close> creates a snapshot, of the claim of its candidate.\<close>

lemma created_phase:
  assumes "vw_Created (snd (snd (svs_phase p env crd w))) \<noteq> vw_Created w"
  shows "p = SnapshotPhaseCreating \<and> (\<exists>c s. vt_Candidate (sv_Status crd) = Some c \<and> vs_SourcePVC (ob_Body s) = Some (sd_PVCName c) \<and>
    vw_Created (snd (snd (svs_phase p env crd w))) = s # vw_Created w)"
proof -
  have "vw_Created (snd (snd (waitingForNext env crd w))) = vw_Created w"
    using DeleteOld_keeps [of env crd w] by (cases "DeleteOldSnapshots env crd w") (simp add: waitingForNext_def Let_def split: sum.split)
  moreover have "vw_Created (snd (snd (findingCandidate env crd w))) = vw_Created w"
      "vw_Created (snd (snd (waitingForPodDeletion env crd w))) = vw_Created w"
      "vw_Created (snd (snd (waitingForCreation env crd w))) = vw_Created w"
    by (auto simp: findingCandidate_def waitingForPodDeletion_def waitingForCreation_def split: sum.split exec.split option.split)
  moreover have "vw_Created (snd (snd (deletingPod env crd w))) = vw_Created w" "vw_Created (snd (snd (restoringPod env crd w))) = vw_Created w"
    using created_request [of "SignalDeletionCall x y z" env w for x y z] created_request [of "SignalRestorationCall x y" env w for x y]
    by (auto simp: deletingPod_def SignalPodDeletion_def restoringPod_def restorePod_def SignalPodRestoration_def case_prod_beta
      split: exec.split option.split)
  ultimately have p: "p = SnapshotPhaseCreating" using assms by (cases p) simp_all
  then have "vw_Created (snd (snd (creatingSnapshot env crd w))) \<noteq> vw_Created w" using assms by simp
  then show ?thesis unfolding p svs_phase.simps
    by (auto simp: creatingSnapshot_def candidate_of_def CreateSnapshot_def svs_request_def Let_def scheduledSnapshot_def
      split: option.splits)
qed

text \<open>C26: A scheduled snapshot is taken of a quiet volume. In the runs described above (whatever reconciles find, answers
  of the server among them, but no refused status update of a suspended resource; edits of the user, but none that
  turns the deletion of pods on while a snapshot is being taken), a reconcile that creates a
  snapshot takes it from the claim of the recorded candidate, and, when pods are to be deleted first, the full node's
  status names the candidate, before and after, among the pods not to run, and an earlier reconcile
  has found the pod gone since the full node was told.\<close>

theorem scheduled_snapshot_quiet:
  assumes "reach fresh_svs svs_step m" and "svs_env_ok env (sm_World m)" and "svs_read_ok got (sm_World m)"
    and "w' = snd (ScheduledVolumeSnapshot_Reconcile env got (sm_World m))" and "vw_Created w' \<noteq> vw_Created (sm_World m)"
  shows "\<exists>c s. vt_Candidate (sv_Status (vw_Stored (sm_World m))) = Some c \<and> vw_Created w' = s # vw_Created (sm_World m) \<and>
    vs_SourcePVC (ob_Body s) = Some (sd_PVCName c) \<and>
    (vp_DeletePod (sv_Spec (vw_Stored (sm_World m))) \<longrightarrow>
       sd_PodName c \<in> set (podCandidates (crd\<lparr>fn_Status := vw_Status (sm_World m)\<rparr>)) \<and>
       sd_PodName c \<in> set (podCandidates (crd\<lparr>fn_Status := vw_Status w'\<rparr>)) \<and> sm_Absent m (sd_PodName c))"
proof -
  let ?w = "sm_World m"
  have inv: "svs_ok (vp_DeletePod (sv_Spec (vw_Stored ?w))) (sm_Absent m) (signalled ?w) (sv_Status (vw_Stored ?w))"
    using svs.reach_inv [OF assms(1)] by (simp add: svs_inv_def)
  obtain crd0 where got: "got = Inr crd0" using assms(4,5) by (cases got) (auto simp: ScheduledVolumeSnapshot_Reconcile_def)
  then have crd0: "crd0 = vw_Stored ?w" using assms(3) by (simp add: svs_read_ok_def)
  let ?crd = "Vol_Snapshot.ResetStatus (se_Clock env 0) crd0"
  let ?out = "svs_phase (vt_Phase (sv_Status ?crd)) env ?crd ?w"
  have nm: "\<not> se_Missing env"
    using assms(4,5) got by (auto simp: ScheduledVolumeSnapshot_Reconcile_def Let_def created_request)
  then have w': "w' = snd (svs_request env (SvsUpdateCall (fst (snd ?out))) (snd (snd ?out)))"
    using assms(4) got by (simp add: ScheduledVolumeSnapshot_Reconcile_def Let_def case_prod_beta)
  then have cr: "vw_Created w' = vw_Created (snd (snd ?out))" by (simp add: created_request)
  obtain c s where c: "vt_Phase (sv_Status ?crd) = SnapshotPhaseCreating" "vt_Candidate (sv_Status ?crd) = Some c"
      "vs_SourcePVC (ob_Body s) = Some (sd_PVCName c)" "vw_Created w' = s # vw_Created ?w"
    using created_phase [of "vt_Phase (sv_Status ?crd)" env ?crd ?w] assms(5) unfolding cr by blast
  have st: "vt_Candidate (sv_Status (vw_Stored ?w)) = Some c" "vt_Phase (sv_Status (vw_Stored ?w)) = SnapshotPhaseCreating"
    using c(1,2) crd0 by (auto simp: Vol_Snapshot.ResetStatus_def split: if_splits)
  have "vw_Status w' = vw_Status ?w"
    using c(1,2) unfolding w' request_Status svs_phase.simps
    by (simp add: creatingSnapshot_def candidate_of_def CreateSnapshot_def Let_def case_prod_beta request_Status split: option.split)
  moreover have "sd_PodName c \<in> set (podCandidates (crd\<lparr>fn_Status := vw_Status ?w\<rparr>)) \<and> sm_Absent m (sd_PodName c)"
    if "vp_DeletePod (sv_Spec (vw_Stored ?w))"
  proof -
    have "signalled ?w = Some (sd_PodName c)" "sm_Absent m (sd_PodName c)" using inv st that by (simp_all add: svs_ok_def)
    then show ?thesis by (force simp: signalled_def podCandidates_def dest: map_of_SomeD)
  qed
  ultimately show ?thesis using c(3,4) st(1) by auto
qed

theorem scheduled_snapshot_quiet_witness:
  "\<exists>A env c s. reach fresh_svs svs_step \<lparr>sm_World = svs_saving, sm_Absent = A\<rparr> \<and>
     vw_Created (snd (ScheduledVolumeSnapshot_Reconcile env (Inr (vw_Stored svs_saving)) svs_saving)) = s # vw_Created svs_saving \<and>
     vt_Candidate (sv_Status (vw_Stored svs_saving)) = Some c \<and>
     sd_PodName c \<in> set (podCandidates (sample_crd\<lparr>fn_Status := vw_Status svs_saving\<rparr>)) \<and> A (sd_PodName c)"
proof -
  obtain A where r: "reach fresh_svs svs_step \<lparr>sm_World = svs_saving, sm_Absent = A\<rparr>" using svs_saving_reach by blast
  let ?env = "svs_sample_env 90011 [''osmo-2''] (\<lambda>_. None)"
  let ?w' = "snd (ScheduledVolumeSnapshot_Reconcile ?env (Inr (vw_Stored svs_saving)) svs_saving)"
  have "svs_run svs_saving [?env] = ?w'" by (simp add: svs_run_def)
  then have n: "vw_Created ?w' \<noteq> vw_Created (sm_World \<lparr>sm_World = svs_saving, sm_Absent = A\<rparr>)"
    using svs_saving_facts(4,5) by (metis Nil_is_map_conv list.distinct(1) svs_machine.select_convs(1))
  have e: "svs_env_ok ?env (sm_World \<lparr>sm_World = svs_saving, sm_Absent = A\<rparr>)" by (simp add: svs_env_ok_def svs_sample_env_def)
  have g: "svs_read_ok (Inr (vw_Stored svs_saving)) (sm_World \<lparr>sm_World = svs_saving, sm_Absent = A\<rparr>)" by (simp add: svs_read_ok_def)
  have w: "?w' = snd (ScheduledVolumeSnapshot_Reconcile ?env (Inr (vw_Stored svs_saving)) (sm_World \<lparr>sm_World = svs_saving, sm_Absent = A\<rparr>))"
    by simp
  show ?thesis
    using scheduled_snapshot_quiet [OF r e g w n, where crd = sample_crd] svs_saving_facts(3) r by auto
qed

text \<open>C27: No pod is left deleted, and no reconcile panics. In every state that one of the runs described above reaches, a resource that
  waits for its next date, looks for a candidate or is suspended has no entry in the full node's
  status, so that the full node runs all its pods; and the next reconcile does not dereference a nil
  candidate or a nil last snapshot.\<close>

theorem scheduled_snapshot_restores:
  assumes "reach fresh_svs svs_step m"
  shows "(vt_Phase (sv_Status (vw_Stored (sm_World m))) \<in> {SnapshotPhaseWaitingForNext, SnapshotPhaseFindingCandidate, SnapshotPhaseSuspended} \<longrightarrow>
      map_of (st_ScheduledSnapshotStatus (vw_Status (sm_World m))) (sourceKey (vw_Stored (sm_World m))) = None) \<and>
    (svs_env_ok env (sm_World m) \<longrightarrow>
      \<not> is_panic (fst (ScheduledVolumeSnapshot_Reconcile env (Inr (vw_Stored (sm_World m))) (sm_World m))))"
proof -
  have inv: "svs_ok (vp_DeletePod (sv_Spec (vw_Stored (sm_World m)))) (sm_Absent m) (signalled (sm_World m)) (sv_Status (vw_Stored (sm_World m)))"
    using svs.reach_inv [OF assms] by (simp add: svs_inv_def)
  have "signalled (sm_World m) = None"
    if "vt_Phase (sv_Status (vw_Stored (sm_World m))) \<in> {SnapshotPhaseWaitingForNext, SnapshotPhaseFindingCandidate, SnapshotPhaseSuspended}"
    using inv that by (auto simp: svs_ok_def)
  moreover have "\<not> is_panic (fst (ScheduledVolumeSnapshot_Reconcile env (Inr (vw_Stored (sm_World m))) (sm_World m)))"
    if "svs_env_ok env (sm_World m)"
    using svs_Reconcile_ok(2) [OF inv that _ refl, of "Inr (vw_Stored (sm_World m))"] by (simp add: svs_read_ok_def)
  ultimately show ?thesis by (simp add: signalled_def)
qed

theorem scheduled_snapshot_restores_witness:
  "\<exists>A. reach fresh_svs svs_step \<lparr>sm_World = svs_saving, sm_Absent = A\<rparr> \<and>
     \<not> is_panic (fst (ScheduledVolumeSnapshot_Reconcile (svs_sample_env 90011 [''osmo-2''] (\<lambda>_. None)) (Inr (vw_Stored svs_saving)) svs_saving))"
proof -
  obtain A where r: "reach fresh_svs svs_step \<lparr>sm_World = svs_saving, sm_Absent = A\<rparr>" using svs_saving_reach by blast
  have "svs_env_ok (svs_sample_env 90011 [''osmo-2''] (\<lambda>_. None)) svs_saving" by (simp add: svs_env_ok_def svs_sample_env_def)
  with scheduled_snapshot_restores [OF r, where env = "svs_sample_env 90011 [''osmo-2''] (\<lambda>_. None)"] r show ?thesis by auto
qed

text \<open>
  The assumption on suspended resources is needed. Suspending while the snapshot is about to be taken,
  a rejected status update, and resuming lead to a snapshot of a claim whose pod the full node runs.
\<close>

theorem snapshot_of_running_pod:
  "\<exists>w env. vt_Phase (sv_Status (vw_Stored svs_saving)) = SnapshotPhaseCreating \<and>
     w = svs_set_suspend False (snd (ScheduledVolumeSnapshot_Reconcile env
       (Inr (vw_Stored (svs_set_suspend True svs_saving))) (svs_set_suspend True svs_saving))) \<and>
     podCandidates (sample_crd\<lparr>fn_Status := vw_Status w\<rparr>) = [] \<and>
     vw_Created (svs_run w [svs_sample_env 90012 [''osmo-0'', ''osmo-2''] (\<lambda>_. None)]) \<noteq> vw_Created w"
proof -
  let ?env = "svs_sample_env 90011 [''osmo-2''] (\<lambda>c. case c of SvsUpdateCall _ \<Rightarrow> Some (errorNew ''conflict'') | _ \<Rightarrow> None)"
  let ?w = "svs_set_suspend False (snd (ScheduledVolumeSnapshot_Reconcile ?env
    (Inr (vw_Stored (svs_set_suspend True svs_saving))) (svs_set_suspend True svs_saving)))"
  have "podCandidates (sample_crd\<lparr>fn_Status := vw_Status ?w\<rparr>) = []" by code_simp
  moreover have "length (vw_Created (svs_run ?w [svs_sample_env 90012 [''osmo-0'', ''osmo-2''] (\<lambda>_. None)])) = 1 \<and> length (vw_Created ?w) = 0"
    by code_simp
  ultimately show ?thesis using svs_saving_facts(1) by (metis One_nat_def nat.distinct(1))
qed

text \<open>
  So is the assumption on edits. The candidate of a snapshot without pod deletion is never signalled to the full
  node; turning the deletion on before the snapshot is taken comes too late.
\<close>

lemma late_pod_deletion:
  "\<exists>w spec env. vp_DeletePod spec \<and> w = svs_edit_spec spec (svs_run (svs_edit_spec (spec\<lparr>vp_DeletePod := False\<rparr>) svs_sample_world)
       [svs_sample_env 90000 [''osmo-0'', ''osmo-2''] (\<lambda>_. None), svs_sample_env 90001 [''osmo-0'', ''osmo-2''] (\<lambda>_. None)]) \<and>
     podCandidates (sample_crd\<lparr>fn_Status := vw_Status (svs_run w [env])\<rparr>) = [] \<and> vw_Created (svs_run w [env]) \<noteq> []"
proof -
  let ?w = "svs_edit_spec (sv_Spec sample_svs) (svs_run (svs_edit_spec ((sv_Spec sample_svs)\<lparr>vp_DeletePod := False\<rparr>) svs_sample_world)
     [svs_sample_env 90000 [''osmo-0'', ''osmo-2''] (\<lambda>_. None), svs_sample_env 90001 [''osmo-0'', ''osmo-2''] (\<lambda>_. None)])"
  let ?env = "svs_sample_env 90011 [''osmo-0'', ''osmo-2''] (\<lambda>_. None)"
  have "let w = svs_run ?w [?env] in podCandidates (sample_crd\<lparr>fn_Status := vw_Status w\<rparr>) = [] \<and> vw_Created w \<noteq> []"
    by code_simp
  then show ?thesis unfolding Let_def
    by (intro exI [of _ ?w] exI [of _ "sv_Spec sample_svs"] exI [of _ ?env]) (simp add: sample_svs_def)
qed

text \<open>C30: Pruning keeps the newest snapshots. Of the listed snapshots that have a creation time, the
  newest ones, as many as the limit (three by default), are kept, and a delete is requested for every
  other one, also after deletes that failed; a snapshot without a creation time is never deleted.\<close>

theorem DeleteOldSnapshots_keeps_newest:
  assumes "ordering_of (se_Sort env) snapshot_age" and "se_List env = Inr items"
  shows "\<exists>kept old. mset kept + mset old = mset (filter hasCreationTime items) \<and>
    length kept = min (nat (if vp_Limit (sv_Spec crd) \<le> 0 then 3 else vp_Limit (sv_Spec crd))) (length (filter hasCreationTime items)) \<and>
    (\<forall>k \<in> set kept. \<forall>s \<in> set old. statusCreationTime (vs_Status (ob_Body s)) \<le> statusCreationTime (vs_Status (ob_Body k))) \<and>
    vw_Calls (snd (DeleteOldSnapshots env crd w)) = vw_Calls w @ map SvsDeleteCall old"
proof -
  let ?f = "filter hasCreationTime items" and ?n = "snapshotLimit (sv_Spec crd)"
  let ?s = "se_Sort env ?f"
  have calls: "vw_Calls (snd (foldl (delete_old env) acc vs)) = vw_Calls (snd acc) @ map SvsDeleteCall vs" for acc vs
    by (induction vs arbitrary: acc) (auto simp: delete_old_def svs_request_def Let_def split: prod.split option.split)
  have "sorted (map snapshot_age (take ?n ?s @ drop ?n ?s))"
    using ordering_of.srt_sorted [OF assms(1)] by simp
  then have age: "snapshot_age k \<le> snapshot_age s" if "k \<in> set (take ?n ?s)" "s \<in> set (drop ?n ?s)" for k s
    using that unfolding map_append sorted_append by simp
  have len: "length ?s = length ?f" using ordering_of.srt_length [OF assms(1)] .
  show ?thesis
  proof (rule exI [of _ "take ?n ?s"], rule exI [of _ "drop ?n ?s"], intro conjI)
    show "mset (take ?n ?s) + mset (drop ?n ?s) = mset ?f"
      using ordering_of.srt_mset [OF assms(1), of ?f] by (metis append_take_drop_id mset_append)
    show "length (take ?n ?s) = min (nat (if vp_Limit (sv_Spec crd) \<le> 0 then 3 else vp_Limit (sv_Spec crd))) (length ?f)"
      by (simp add: len snapshotLimit_def min.commute)
    show "\<forall>k \<in> set (take ?n ?s). \<forall>s \<in> set (drop ?n ?s). statusCreationTime (vs_Status (ob_Body s)) \<le> statusCreationTime (vs_Status (ob_Body k))"
      using age by (simp add: snapshot_age_def)
    show "vw_Calls (snd (DeleteOldSnapshots env crd w)) = vw_Calls w @ map SvsDeleteCall (drop ?n ?s)"
      using assms(2) len by (simp add: DeleteOldSnapshots_def oldSnapshots_def Let_def calls)
  qed
qed

definition four_snapshots :: "VolumeSnapshot list" where
  "four_snapshots = [sample_snapshot ''a'' 1 True, sample_snapshot ''d'' 4 True, sample_snapshot ''b'' 2 True, sample_snapshot ''c'' 3 False]"

theorem DeleteOldSnapshots_keeps_newest_witness:
  "\<exists>kept old. mset kept + mset old = mset (filter hasCreationTime four_snapshots) \<and> length kept = 3 \<and> length old = 1 \<and>
     vw_Calls (snd (DeleteOldSnapshots ((svs_sample_env 1 [] (\<lambda>_. None))\<lparr>se_List := Inr four_snapshots\<rparr>) sample_svs svs_sample_world)) = map SvsDeleteCall old"
proof -
  let ?env = "(svs_sample_env 1 [] (\<lambda>_. None))\<lparr>se_List := Inr four_snapshots\<rparr>"
  have s: "ordering_of (se_Sort ?env) snapshot_age" "se_List ?env = Inr four_snapshots"
    using by_age.ordering_of_axioms by (simp_all add: svs_sample_env_def)
  have f: "length (filter hasCreationTime four_snapshots) = 4" by code_simp
  from DeleteOldSnapshots_keeps_newest [OF s, of sample_svs svs_sample_world]
  obtain kept old where k: "mset kept + mset old = mset (filter hasCreationTime four_snapshots)" "length kept = 3"
      "vw_Calls (snd (DeleteOldSnapshots ?env sample_svs svs_sample_world)) = map SvsDeleteCall old"
    unfolding f by (auto simp: sample_svs_def svs_sample_world_def)
  have "length kept + length old = 4" using arg_cong [OF k(1), of size] f by (simp only: size_union size_mset)
  then have "length old = 1" using k(2) by simp
  with k show ?thesis by blast
qed

end
