(* ===== verification/Snapshot_Cycle.thy ===== *)
theory Snapshot_Cycle
  imports Snapshot_Controller
begin

text \<open>
  The cycle of \<^verbatim>\<open>controllers/scheduledvolumesnapshot_controller.go\<close> as a whole. A run is a list of events:
  reconciles, whose reads and requests may fail in any way, and writes of the full node's status by others.
  A phase has a rank, the number of moves that the cycle still needs; no event raises it, and each reconcile that finds
  what its phase waits for lowers it. So a cycle that has begun ends, with its snapshot taken and its pod released.
\<close>

subsection \<open>Events\<close>

datatype svs_event =
    Reconciled "goerror option" svs_env
  | StatusWritten FullNodeStatus

definition svs_got :: "goerror option \<Rightarrow> svs_world \<Rightarrow> goerror + ScheduledVolumeSnapshot" where
  "svs_got err w = (case err of None \<Rightarrow> Inr (vw_Stored w) | Some e \<Rightarrow> Inl e)"

fun svs_after :: "svs_world \<Rightarrow> svs_event \<Rightarrow> svs_world" where
  "svs_after w (Reconciled err env) = snd (ScheduledVolumeSnapshot_Reconcile env (svs_got err w) w)"
| "svs_after w (StatusWritten st) = w\<lparr>vw_Status := st\<rparr>"

definition svs_events :: "svs_world \<Rightarrow> svs_event list \<Rightarrow> svs_world" where
  "svs_events w es = foldl svs_after w es"

lemma svs_events_simps [simp]:
  "svs_events w [] = w" "svs_events w (e # es) = svs_events (svs_after w e) es"
  by (simp_all add: svs_events_def)

text \<open>The volume snapshots stay installed, and others leave the entry of this resource alone.\<close>

fun event_ok :: "svs_world \<Rightarrow> svs_event \<Rightarrow> bool" where
  "event_ok w (Reconciled err env) = (\<not> se_Missing env)"
| "event_ok w (StatusWritten st) = (signalled (w\<lparr>vw_Status := st\<rparr>) = signalled w)"

fun events_ok :: "svs_world \<Rightarrow> svs_event list \<Rightarrow> bool" where
  "events_ok w [] = True"
| "events_ok w (e # es) = (event_ok w e \<and> events_ok (svs_after w e) es)"

subsection \<open>What a phase waits for\<close>

definition candidate_available :: "svs_env \<Rightarrow> ScheduledVolumeSnapshotSpec \<Rightarrow> bool" where
  "candidate_available env spec \<longleftrightarrow> minAvail spec \<le> int (length (se_Synced env)) \<and> length (se_Synced env) < 2 ^ 31 \<and>
     (case lf_Ordinal (vp_FullNodeRef spec) of
        None \<Rightarrow> True
      | Some i \<Rightarrow> list_ex (\<lambda>p. label_get (om_Annotations (ob_Meta p)) ''app.kubernetes.io/ordinal'' = FormatInt i) (se_Synced env))"

definition snapshot_done :: "svs_env \<Rightarrow> ScheduledVolumeSnapshot \<Rightarrow> bool" where
  "snapshot_done env crd \<longleftrightarrow>
     (case vt_LastSnapshot (sv_Status crd) of
        None \<Rightarrow> False
      | Some l \<Rightarrow> (case se_Get env (ObjectKey (om_Namespace (sv_Meta crd)) (ls_Name l)) of
                    Inl err \<Rightarrow> IsNotFound (Some err)
                  | Inr s \<Rightarrow> VolumeSnapshotIsReady (vs_Status (ob_Body s))))"

definition candidate_gone :: "svs_env \<Rightarrow> ScheduledVolumeSnapshot \<Rightarrow> bool" where
  "candidate_gone env crd \<longleftrightarrow>
     (case vt_Candidate (sv_Status crd) of None \<Rightarrow> False | Some c \<Rightarrow> lists_without env (sd_PodName c))"

fun phase_served :: "SnapshotPhase \<Rightarrow> svs_env \<Rightarrow> ScheduledVolumeSnapshot \<Rightarrow> bool" where
  "phase_served SnapshotPhaseFindingCandidate env crd = candidate_available env (sv_Spec crd)"
| "phase_served SnapshotPhaseDeletingPod env crd = (se_FullNodeErr env 0 = None)"
| "phase_served SnapshotPhaseWaitingForPodDeletion env crd = candidate_gone env crd"
| "phase_served SnapshotPhaseCreating env crd = True"
| "phase_served SnapshotPhaseWaitingForCreation env crd = snapshot_done env crd"
| "phase_served SnapshotPhaseRestorePod env crd = (se_FullNodeErr env 1 = None)"
| "phase_served _ env crd = False"

text \<open>An event helps when the resource is read, the phase finds what it waits for and the server accepts every request.\<close>

fun helps :: "svs_world \<Rightarrow> svs_event \<Rightarrow> bool" where
  "helps w (Reconciled err env) = (err = None \<and> (\<forall>cs c. se_Server env cs c = None) \<and>
     phase_served (vt_Phase (sv_Status (vw_Stored w))) env (vw_Stored w))"
| "helps w (StatusWritten st) = False"

fun help_count :: "svs_world \<Rightarrow> svs_event list \<Rightarrow> nat" where
  "help_count w [] = 0"
| "help_count w (e # es) = (if helps w e then 1 else 0) + help_count (svs_after w e) es"

subsection \<open>The rank of a phase\<close>

fun rank :: "SnapshotPhase \<Rightarrow> nat" where
  "rank SnapshotPhaseFindingCandidate = 6"
| "rank SnapshotPhaseDeletingPod = 5"
| "rank SnapshotPhaseWaitingForPodDeletion = 4"
| "rank SnapshotPhaseCreating = 3"
| "rank SnapshotPhaseWaitingForCreation = 2"
| "rank SnapshotPhaseRestorePod = 1"
| "rank _ = 0"

abbreviation phase_of :: "svs_world \<Rightarrow> SnapshotPhase" where "phase_of w \<equiv> vt_Phase (sv_Status (vw_Stored w))"

text \<open>The new phase of a copy: the same, or one further in the cycle; the snapshot is not skipped.\<close>

definition moved_on :: "SnapshotPhase \<Rightarrow> SnapshotPhase \<Rightarrow> bool" where
  "moved_on p q \<longleftrightarrow> q = p \<or> rank q < rank p \<and> (rank q = 0 \<longrightarrow> q = SnapshotPhaseWaitingForNext) \<and>
     (3 < rank p \<longrightarrow> 3 \<le> rank q) \<and> (rank p = 3 \<longrightarrow> rank q = 2)"

definition same_records :: "ScheduledVolumeSnapshotStatus \<Rightarrow> ScheduledVolumeSnapshotStatus \<Rightarrow> bool" where
  "same_records st st' \<longleftrightarrow> vt_Candidate st' = vt_Candidate st \<and>
     map_option ls_Name (vt_LastSnapshot st') = map_option ls_Name (vt_LastSnapshot st)"

text \<open>The snapshot \<open>s\<close> is the recorded one, of the claim of the recorded candidate.\<close>

definition records :: "ScheduledVolumeSnapshotStatus \<Rightarrow> VolumeSnapshot \<Rightarrow> bool" where
  "records st s \<longleftrightarrow> (\<exists>c. vt_Candidate st = Some c \<and> vs_SourcePVC (ob_Body s) = Some (sd_PVCName c)) \<and>
     map_option ls_Name (vt_LastSnapshot st) = Some (GetName s)"

lemma records_same: "same_records st st' \<Longrightarrow> records st' s = records st s"
  by (simp add: records_def same_records_def)

lemma same_records_refl [simp]: "same_records st st"
  by (simp add: same_records_def)

lemma same_records_stored [simp]: "same_records st (stored_svs env st') = same_records st st'"
  by (simp add: same_records_def stored_svs_def option.map_comp comp_def)

lemma stored_phase [simp]: "vt_Phase (stored_svs env st) = vt_Phase st"
  by (simp add: stored_svs_def)

text \<open>What the handler of a phase does to the copy, whatever the environment.\<close>

lemma phase_moves:
  assumes "svs_phase p env crd w = (res, crd1, w1)" and "vt_Phase (sv_Status crd) = p" and "0 < rank p"
    and "\<not> vp_Suspend (sv_Spec crd)"
  shows "vw_Stored w1 = vw_Stored w \<and> moved_on p (vt_Phase (sv_Status crd1)) \<and>
    (rank p < 3 \<longrightarrow> same_records (sv_Status crd) (sv_Status crd1)) \<and>
    (vw_Created w1 = vw_Created w \<or> (\<exists>s. vw_Created w1 = s # vw_Created w)) \<and>
    (p = SnapshotPhaseCreating \<longrightarrow> vt_Phase (sv_Status crd1) \<noteq> p \<longrightarrow>
       (\<exists>s. vw_Created w1 = s # vw_Created w \<and> records (sv_Status crd1) s))"
proof -
  have c: "vw_Created w1 = vw_Created w \<or> (\<exists>s. vw_Created w1 = s # vw_Created w)"
    using created_phase [of p env crd w] assms(1) by (metis snd_conv)
  have q: "vw_Stored (snd (svs_request env (SignalDeletionCall x y z) v)) = vw_Stored v"
      "vw_Stored (snd (svs_request env (SignalRestorationCall x y) v)) = vw_Stored v"
      "vw_Stored (snd (svs_request env (SvsCreateCall s) v)) = vw_Stored v" for x y z v s
    by (rule request_Stored, simp)+
  note d = moved_on_def same_records_def case_prod_beta
  show ?thesis
  proof (cases p)
    case SnapshotPhaseFindingCandidate
    with assms(1,2) c show ?thesis
      by (auto simp: findingCandidate_def d split: sum.splits if_splits)
  next
    case SnapshotPhaseDeletingPod
    with assms(1,2) c q(1) show ?thesis
      by (auto simp: deletingPod_def SignalPodDeletion_def d split: exec.splits option.splits) 
  next
    case SnapshotPhaseWaitingForPodDeletion
    with assms(1,2) c show ?thesis
      by (auto simp: waitingForPodDeletion_def d split: exec.splits option.splits)
  next
    case SnapshotPhaseCreating
    with assms(1,2) c q(3) show ?thesis
      by (auto simp: creatingSnapshot_def CreateSnapshot_def candidate_of_def d records_def Let_def svs_request_def
        scheduledSnapshot_def to_phase_def split: exec.splits option.splits)
  next
    case SnapshotPhaseWaitingForCreation
    with assms(1,2) c show ?thesis
      by (auto simp: waitingForCreation_def IsSnapshotReady_def d split: exec.splits option.splits sum.splits if_splits)
  next
    case SnapshotPhaseRestorePod
    with assms(1,2,4) c q(2) show ?thesis
      by (auto simp: restoringPod_def restorePod_def SignalPodRestoration_def d split: exec.splits option.splits)
  qed (use assms(3) in simp_all)
qed

text \<open>A phase that is served, with a server that accepts, moves on.\<close>

lemma served_moves:
  assumes copy: "svs_copy A w crd" and ph: "svs_phase p env crd w = (res, crd1, w1)" and p: "vt_Phase (sv_Status crd) = p"
    and srv: "\<forall>cs c. se_Server env cs c = None" and serve: "phase_served p env crd"
  shows "vt_Phase (sv_Status crd1) \<noteq> p"
proof -
  have req: "svs_request env c v = (None, svs_perform env c (v\<lparr>vw_Calls := vw_Calls v @ [c]\<rparr>))" for c v
    using srv by (simp add: svs_request_def Let_def)
  show ?thesis
  proof (cases p)
    case SnapshotPhaseFindingCandidate
    then have "candidate_available env (sv_Spec crd)" using serve by simp
    then have "\<exists>c. FindCandidate env crd = Inr c"
      by (auto simp: FindCandidate_def candidate_available_def int32_wrap_def Let_def find_None_iff list_ex_iff split: option.splits)
    then show ?thesis using ph SnapshotPhaseFindingCandidate by (auto simp: findingCandidate_def split: if_splits)
  next
    case SnapshotPhaseDeletingPod
    then obtain c where "vt_Candidate (sv_Status crd) = Some c" using svs_copyD(5) [OF copy] p by auto
    then show ?thesis using ph serve SnapshotPhaseDeletingPod by (auto simp: deletingPod_def SignalPodDeletion_def candidate_of_def req)
  next
    case SnapshotPhaseWaitingForPodDeletion
    then obtain c pods where c: "vt_Candidate (sv_Status crd) = Some c" "se_Pods env = Inr pods" "sd_PodName c \<notin> GetName ` set pods"
      using serve by (auto simp: candidate_gone_def lists_without_def split: option.splits sum.splits)
    then have "ConfirmPodDeletion env crd = Ok None" using deletion_loop_Ok(2) [OF c(1)] by (simp add: ConfirmPodDeletion_def)
    then show ?thesis using ph SnapshotPhaseWaitingForPodDeletion by (auto simp: waitingForPodDeletion_def)
  next
    case SnapshotPhaseCreating
    then obtain c where "vt_Candidate (sv_Status crd) = Some c" using svs_copyD(5) [OF copy] p by auto
    then show ?thesis using ph SnapshotPhaseCreating by (auto simp: creatingSnapshot_def CreateSnapshot_def candidate_of_def Let_def req)
  next
    case SnapshotPhaseWaitingForCreation
    then show ?thesis using ph serve
      by (auto simp: waitingForCreation_def IsSnapshotReady_def snapshot_done_def split: option.splits sum.splits)
  next
    case SnapshotPhaseRestorePod
    have "\<exists>r. ConfirmPodRestoration env crd w = Ok r"
      using svs_copyD(3,4) [OF copy]
      by (auto simp: ConfirmPodRestoration_def candidate_of_def signalled_def split: option.splits)
    then show ?thesis using ph serve SnapshotPhaseRestorePod
      by (auto simp: restoringPod_def restorePod_def SignalPodRestoration_def req split: option.splits if_splits)
  qed (use serve in simp_all)
qed

lemma Reset_simps:
  "sv_Spec (Vol_Snapshot.ResetStatus now crd) = sv_Spec crd" "sv_Meta (Vol_Snapshot.ResetStatus now crd) = sv_Meta crd"
  "vt_Candidate (sv_Status (Vol_Snapshot.ResetStatus now crd)) = vt_Candidate (sv_Status crd)"
  "vt_LastSnapshot (sv_Status (Vol_Snapshot.ResetStatus now crd)) = vt_LastSnapshot (sv_Status crd)"
  by (simp_all add: Vol_Snapshot.ResetStatus_def)

lemma served_Reset [simp]: "phase_served p env (Vol_Snapshot.ResetStatus now crd) = phase_served p env crd"
  by (cases p) (simp_all add: Reset_simps snapshot_done_def candidate_gone_def cong: option.case_cong)

lemma Reset_records: "same_records (sv_Status crd) (sv_Status (Vol_Snapshot.ResetStatus now crd))"
  by (simp add: Reset_simps same_records_def)

lemma Reset_phase:
  "\<not> vp_Suspend (sv_Spec crd) \<Longrightarrow> 0 < rank (vt_Phase (sv_Status crd)) \<Longrightarrow>
    vt_Phase (sv_Status (Vol_Snapshot.ResetStatus now crd)) = vt_Phase (sv_Status crd)"
  by (auto simp: Vol_Snapshot.ResetStatus_def)

text \<open>One event, from a state of the cycle.\<close>

lemma event_step:
  assumes inv: "svs_inv m" and run: "\<not> vp_Suspend (sv_Spec (vw_Stored (sm_World m)))" and pos: "0 < rank (phase_of (sm_World m))"
    and ok: "event_ok (sm_World m) e" and w': "w' = svs_after (sm_World m) e"
  shows "\<exists>A. svs_step m \<lparr>sm_World = w', sm_Absent = A\<rparr>"
    and "sv_Spec (vw_Stored w') = sv_Spec (vw_Stored (sm_World m))"
    and "moved_on (phase_of (sm_World m)) (phase_of w')"
    and "helps (sm_World m) e \<Longrightarrow> phase_of w' \<noteq> phase_of (sm_World m)"
    and "\<exists>cs. vw_Created w' = cs @ vw_Created (sm_World m)"
    and "rank (phase_of (sm_World m)) < 3 \<Longrightarrow> vw_Created w' = vw_Created (sm_World m) \<and>
      same_records (sv_Status (vw_Stored (sm_World m))) (sv_Status (vw_Stored w'))"
    and "rank (phase_of (sm_World m)) = 3 \<Longrightarrow> phase_of w' \<noteq> phase_of (sm_World m) \<Longrightarrow>
      \<exists>s. vw_Created w' = s # vw_Created (sm_World m) \<and> records (sv_Status (vw_Stored w')) s"
proof -
  let ?w = "sm_World m"
  have "(\<exists>A. svs_step m \<lparr>sm_World = w', sm_Absent = A\<rparr>) \<and> sv_Spec (vw_Stored w') = sv_Spec (vw_Stored ?w) \<and>
    moved_on (phase_of ?w) (phase_of w') \<and> (helps ?w e \<longrightarrow> phase_of w' \<noteq> phase_of ?w) \<and> (\<exists>cs. vw_Created w' = cs @ vw_Created ?w) \<and>
    (rank (phase_of ?w) < 3 \<longrightarrow> vw_Created w' = vw_Created ?w \<and> same_records (sv_Status (vw_Stored ?w)) (sv_Status (vw_Stored w'))) \<and>
    (rank (phase_of ?w) = 3 \<longrightarrow> phase_of w' \<noteq> phase_of ?w \<longrightarrow>
      (\<exists>s. vw_Created w' = s # vw_Created ?w \<and> records (sv_Status (vw_Stored w')) s))"
  proof (cases e)
    case (StatusWritten st)
    have eq: "m\<lparr>sm_World := w'\<rparr> = \<lparr>sm_World = w', sm_Absent = sm_Absent m\<rparr>" by simp
    have "svs_step m (m\<lparr>sm_World := w'\<rparr>)" using StatusWritten ok w' svs_other [where m = m and st = st] by simp
    then have "\<exists>A. svs_step m \<lparr>sm_World = w', sm_Absent = A\<rparr>" unfolding eq by blast
    then show ?thesis using StatusWritten w' by (simp add: moved_on_def same_records_def)
  next
    case (Reconciled err env)
    let ?got = "svs_got err ?w"
    have w'': "w' = snd (ScheduledVolumeSnapshot_Reconcile env ?got ?w)" using w' Reconciled by simp
    have "svs_env_ok env ?w" "svs_read_ok ?got ?w" using run by (simp_all add: svs_env_ok_def svs_read_ok_def svs_got_def split: option.split)
    from svs_reconcile [OF this w''] have st: "\<exists>A. svs_step m \<lparr>sm_World = w', sm_Absent = A\<rparr>" by blast
    show ?thesis
    proof (cases err)
      case (Some x)
      then have "w' = ?w" using w'' by (simp add: svs_got_def ScheduledVolumeSnapshot_Reconcile_def)
      then show ?thesis using st Reconciled Some by (auto simp: moved_on_def same_records_def)
    next
      case None
      let ?crd = "Vol_Snapshot.ResetStatus (se_Clock env 0) (vw_Stored ?w)"
      have p: "vt_Phase (sv_Status ?crd) = phase_of ?w" "\<not> vp_Suspend (sv_Spec ?crd)"
        using Reset_phase [OF run pos] run by (simp_all add: Vol_Snapshot.ResetStatus_def)
      obtain res crd1 w1 where o: "svs_phase (phase_of ?w) env ?crd ?w = (res, crd1, w1)" (is "?e = _") by (cases ?e)
      have r: "w' = snd (svs_request env (SvsUpdateCall crd1) w1)"
        using ok Reconciled None w'' p(1) o by (simp add: svs_got_def ScheduledVolumeSnapshot_Reconcile_def Let_def)
      note mv = phase_moves [OF o p(1) pos p(2)]
      have copy: "svs_copy (sm_Absent m) ?w ?crd" using svs_copy_Reset inv by (simp add: svs_inv_def)
      have cr: "vw_Created w' = vw_Created w1" by (simp add: r created_request)
      have rank3: "phase_of ?w = SnapshotPhaseCreating" if "rank (phase_of ?w) = 3" using that by (cases "phase_of ?w") simp_all
      have low: "vw_Created w1 = vw_Created ?w" if "rank (phase_of ?w) < 3"
        using created_phase [of "phase_of ?w" env ?crd ?w] that o by (metis less_irrefl rank.simps(4) snd_conv)
      have rec: "same_records (sv_Status (vw_Stored ?w)) (sv_Status crd1)" if "rank (phase_of ?w) < 3"
        using mv that Reset_records [of "vw_Stored ?w" "se_Clock env 0"] by (simp add: same_records_def)
      show ?thesis
      proof (cases "se_Server env (vw_Calls w1) (SvsUpdateCall crd1)")
        case (Some x)
        then have s: "vw_Stored w' = vw_Stored ?w" using r mv by (simp add: svs_request_def Let_def)
        moreover have "\<not> helps ?w e" using Reconciled Some by auto
        ultimately show ?thesis using st cr low mv by (auto simp: moved_on_def same_records_def)
      next
        case acc: None
        then have s: "vw_Stored w' = (vw_Stored ?w)\<lparr>sv_Status := stored_svs env (sv_Status crd1)\<rparr>"
          using r mv by (simp add: svs_request_def Let_def)
        have "vt_Phase (sv_Status crd1) \<noteq> phase_of ?w" if "helps ?w e"
          using served_moves [OF copy o p(1)] that Reconciled by simp
        moreover have "records (stored_svs env (sv_Status crd1)) x = records (sv_Status crd1) x" for x
          by (rule records_same) simp
        ultimately show ?thesis unfolding s using st cr low rec mv rank3 by auto
      qed
    qed
  qed
  then show "\<exists>A. svs_step m \<lparr>sm_World = w', sm_Absent = A\<rparr>"
    and "sv_Spec (vw_Stored w') = sv_Spec (vw_Stored (sm_World m))"
    and "moved_on (phase_of (sm_World m)) (phase_of w')"
    and "helps (sm_World m) e \<Longrightarrow> phase_of w' \<noteq> phase_of (sm_World m)"
    and "\<exists>cs. vw_Created w' = cs @ vw_Created (sm_World m)"
    and "rank (phase_of (sm_World m)) < 3 \<Longrightarrow> vw_Created w' = vw_Created (sm_World m) \<and>
      same_records (sv_Status (vw_Stored (sm_World m))) (sv_Status (vw_Stored w'))"
    and "rank (phase_of (sm_World m)) = 3 \<Longrightarrow> phase_of w' \<noteq> phase_of (sm_World m) \<Longrightarrow>
      \<exists>s. vw_Created w' = s # vw_Created (sm_World m) \<and> records (sv_Status (vw_Stored w')) s"
    by blast+
qed

subsection \<open>The cycle ends\<close>

definition saved :: "VolumeSnapshot list \<Rightarrow> svs_world \<Rightarrow> bool" where
  "saved created w \<longleftrightarrow> (\<exists>s cs. vw_Created w = s # cs @ created \<and> records (sv_Status (vw_Stored w)) s)"

lemma cycle_run:
  assumes "svs_inv m" and "\<not> vp_Suspend (sv_Spec (vw_Stored (sm_World m)))" and "0 < rank (phase_of (sm_World m))"
    and "events_ok (sm_World m) es" and "rank (phase_of (sm_World m)) \<le> help_count (sm_World m) es"
    and "\<exists>cs. vw_Created (sm_World m) = cs @ created" and "save \<Longrightarrow> rank (phase_of (sm_World m)) < 3 \<Longrightarrow> saved created (sm_World m)"
  shows "\<exists>es1 es2. es = es1 @ es2 \<and> phase_of (svs_events (sm_World m) es1) = SnapshotPhaseWaitingForNext \<and>
    signalled (svs_events (sm_World m) es1) = None \<and> (save \<longrightarrow> saved created (svs_events (sm_World m) es1))"
  using assms
proof (induction es arbitrary: m)
  case Nil
  then show ?case by simp
next
  case (Cons e es)
  let ?w = "sm_World m" and ?w' = "svs_after (sm_World m) e"
  have ok: "event_ok ?w e" "events_ok ?w' es" using Cons.prems(4) by simp_all
  note step = event_step [OF Cons.prems(1-3) ok(1) refl]
  obtain A where "svs_step m \<lparr>sm_World = ?w', sm_Absent = A\<rparr>" (is "svs_step m ?m") using step(1) by blast
  then have inv: "svs_inv ?m" by (rule svs.inv_step [OF Cons.prems(1)])
  have less: "rank (phase_of ?w') + (if helps ?w e then 1 else 0) \<le> rank (phase_of ?w)"
    using step(3,4) by (auto simp: moved_on_def)
  have cre: "\<exists>cs. vw_Created ?w' = cs @ created" using step(5) Cons.prems(6) by auto
  have sav: "saved created ?w'" if "save" "rank (phase_of ?w') < 3"
  proof (cases "rank (phase_of ?w) < 3")
    case True
    then show ?thesis using step(6) Cons.prems(7) that(1) records_same unfolding saved_def by metis
  next
    case False
    then have "rank (phase_of ?w) = 3" "phase_of ?w' \<noteq> phase_of ?w"
      using step(3) that(2) by (auto simp: moved_on_def)
    with step(7) Cons.prems(6) show ?thesis unfolding saved_def by fastforce
  qed
  show ?case
  proof (cases "rank (phase_of ?w') = 0")
    case True
    then have next': "phase_of ?w' = SnapshotPhaseWaitingForNext" using step(3) Cons.prems(3) by (auto simp: moved_on_def)
    moreover have "signalled ?w' = None" using inv next' by (simp add: svs_inv_def svs_ok_def)
    ultimately show ?thesis using sav True by (intro exI [of _ "[e]"] exI [of _ es]) simp
  next
    case False
    have "rank (phase_of ?w') \<le> help_count ?w' es" using Cons.prems(5) less by simp
    then have "\<exists>es1 es2. es = es1 @ es2 \<and> phase_of (svs_events ?w' es1) = SnapshotPhaseWaitingForNext \<and>
        signalled (svs_events ?w' es1) = None \<and> (save \<longrightarrow> saved created (svs_events ?w' es1))"
      using Cons.IH [of ?m] inv step(2) Cons.prems(2) False ok(2) cre sav by simp
    then obtain es1 es2 where "es = es1 @ es2" "phase_of (svs_events ?w' es1) = SnapshotPhaseWaitingForNext"
        "signalled (svs_events ?w' es1) = None" "save \<longrightarrow> saved created (svs_events ?w' es1)" by blast
    then show ?thesis by (intro exI [of _ "e # es1"] exI [of _ es2]) simp
  qed
qed

text \<open>C28: A snapshot cycle that has begun ends. Start in any state that a run of \<open>Snapshot_Controller\<close> reaches, in a phase of
  the cycle and not suspended, and let any events follow: reconciles that read stale or broken clusters and whose
  requests fail, and writes by others. Once as many reconciles as the cycle has phases left, at most six, have found what
  their phase waits for, at whatever times between the others, there was a moment at which the controller was waiting for the
  next date, the full node was told to run the pod again, and, if the cycle had not yet taken it at
  the start, a new snapshot of the claim of the recorded candidate had been created under the recorded name.\<close>

theorem snapshot_cycle_completes:
  assumes "reach fresh_svs svs_step m" and "w = sm_World m" and "\<not> vp_Suspend (sv_Spec (vw_Stored w))"
    and "0 < rank (vt_Phase (sv_Status (vw_Stored w)))" and "events_ok w es"
    and "rank (vt_Phase (sv_Status (vw_Stored w))) \<le> help_count w es"
  shows "\<exists>es1 es2 w'. es = es1 @ es2 \<and> w' = svs_events w es1 \<and>
    vt_Phase (sv_Status (vw_Stored w')) = SnapshotPhaseWaitingForNext \<and>
    map_of (st_ScheduledSnapshotStatus (vw_Status w')) (sourceKey (vw_Stored w')) = None \<and>
    (3 \<le> rank (vt_Phase (sv_Status (vw_Stored w))) \<longrightarrow>
      (\<exists>s cs c l. vw_Created w' = s # cs @ vw_Created w \<and> vt_Candidate (sv_Status (vw_Stored w')) = Some c \<and>
         vs_SourcePVC (ob_Body s) = Some (sd_PVCName c) \<and>
         vt_LastSnapshot (sv_Status (vw_Stored w')) = Some l \<and> ls_Name l = GetName s))"
proof -
  have inv: "svs_inv m" using svs.reach_inv [OF assms(1)] .
  obtain es1 es2 where r: "es = es1 @ es2" "phase_of (svs_events w es1) = SnapshotPhaseWaitingForNext" "signalled (svs_events w es1) = None"
      "3 \<le> rank (phase_of w) \<longrightarrow> saved (vw_Created w) (svs_events w es1)"
    using cycle_run [OF inv, of es "vw_Created w" "3 \<le> rank (phase_of w)"] assms(2-6) by auto
  have "\<exists>s cs c l. vw_Created (svs_events w es1) = s # cs @ vw_Created w \<and>
      vt_Candidate (sv_Status (vw_Stored (svs_events w es1))) = Some c \<and> vs_SourcePVC (ob_Body s) = Some (sd_PVCName c) \<and>
      vt_LastSnapshot (sv_Status (vw_Stored (svs_events w es1))) = Some l \<and> ls_Name l = GetName s"
    if "3 \<le> rank (phase_of w)"
    using r(4) that by (auto simp: saved_def records_def)
  then show ?thesis using r(1-3) by (auto simp: signalled_def)
qed

text \<open>A run of the sample resource: the full node's status changes, the server first refuses the snapshot, one poll
  finds the snapshot unfinished.\<close>

definition poll_env :: "time \<Rightarrow> bool \<Rightarrow> svs_env" where
  "poll_env t ready = (svs_sample_env t [''osmo-2''] (\<lambda>_. None))\<lparr>se_Get := \<lambda>_. Inr (sample_snapshot ''daily'' 1 ready)\<rparr>"

definition sample_events :: "svs_event list" where
  "sample_events =
    [StatusWritten ((vw_Status svs_saving)\<lparr>st_Phase := FullNodePhaseError\<rparr>),
     Reconciled None (svs_sample_env 90011 [''osmo-2''] (\<lambda>_. Some (errorNew ''refused''))),
     Reconciled None (poll_env 90021 False), Reconciled None (poll_env 90031 False),
     Reconciled None (poll_env 90041 True), Reconciled None (poll_env 90051 True)]"

theorem snapshot_cycle_completes_witness:
  "\<exists>es1 es2 s cs c. sample_events = es1 @ es2 \<and> vw_Created (svs_events svs_saving es1) = s # cs \<and>
     phase_of (svs_events svs_saving es1) = SnapshotPhaseWaitingForNext \<and>
     vt_Candidate (sv_Status (vw_Stored (svs_events svs_saving es1))) = Some c \<and> vs_SourcePVC (ob_Body s) = Some (sd_PVCName c)"
proof -
  obtain A where r: "reach fresh_svs svs_step \<lparr>sm_World = svs_saving, sm_Absent = A\<rparr>" (is "reach _ _ ?m") using svs_saving_reach by blast
  define aft where "aft k = svs_events svs_saving (take k sample_events)" for k
  have "let w2 = svs_events svs_saving (take 2 sample_events); w4 = svs_events w2 (take 2 (drop 2 sample_events));
      w5 = svs_after w4 (sample_events ! 4)
    in phase_of w2 = SnapshotPhaseCreating \<and> phase_of w4 = SnapshotPhaseWaitingForCreation \<and>
       snapshot_done (poll_env 90041 True) (vw_Stored w4) \<and> phase_of w5 = SnapshotPhaseRestorePod"
    by code_simp
  then have phases: "phase_of (aft 2) = SnapshotPhaseCreating" "phase_of (aft 4) = SnapshotPhaseWaitingForCreation"
      "snapshot_done (poll_env 90041 True) (vw_Stored (aft 4))" "phase_of (aft 5) = SnapshotPhaseRestorePod"
    by (simp_all add: aft_def sample_events_def Let_def eval_nat_numeral)
  have env: "se_Server (poll_env t b) cs c = None" "se_FullNodeErr (poll_env t b) i = None" "\<not> se_Missing (poll_env t b)" for t b cs c i
    by (simp_all add: poll_env_def svs_sample_env_def)
  have ok: "events_ok svs_saving sample_events"
    by (simp add: sample_events_def env signalled_def svs_sample_env_def)
  have "helps (aft 2) (sample_events ! 2)" "helps (aft 4) (sample_events ! 4)" "helps (aft 5) (sample_events ! 5)"
    using phases by (simp_all add: sample_events_def env)
  then have n: "3 \<le> help_count svs_saving sample_events"
    by (simp add: aft_def sample_events_def eval_nat_numeral)
  have p: "\<not> vp_Suspend (sv_Spec (vw_Stored (sm_World ?m)))" using svs_saving_facts(6) by simp
  have k: "rank (phase_of svs_saving) = 3" using svs_saving_facts(1) by simp
  obtain es1 es2 where e: "sample_events = es1 @ es2" "phase_of (svs_events svs_saving es1) = SnapshotPhaseWaitingForNext"
      "\<exists>s cs c l. vw_Created (svs_events svs_saving es1) = s # cs @ vw_Created svs_saving \<and>
         vt_Candidate (sv_Status (vw_Stored (svs_events svs_saving es1))) = Some c \<and> vs_SourcePVC (ob_Body s) = Some (sd_PVCName c) \<and>
         vt_LastSnapshot (sv_Status (vw_Stored (svs_events svs_saving es1))) = Some l \<and> ls_Name l = GetName s"
    using snapshot_cycle_completes [OF r refl p, of sample_events] n ok k by auto
  then show ?thesis unfolding svs_saving_facts(4) by blast
qed

text \<open>A refused status update, on the other hand, repeats what the reconcile did: the snapshot of one cycle is taken twice,
  and only the second one is recorded.\<close>

theorem snapshot_taken_twice:
  "\<exists>env1 env2. length (vw_Created (svs_run svs_saving [env1, env2])) = length (vw_Created svs_saving) + 2 \<and>
     vt_Phase (sv_Status (vw_Stored (svs_run svs_saving [env1, env2]))) = SnapshotPhaseWaitingForCreation"
proof -
  let ?envs = "[svs_sample_env 90011 [''osmo-2''] (\<lambda>c. case c of SvsUpdateCall _ \<Rightarrow> Some (errorNew ''conflict'') | _ \<Rightarrow> None),
    svs_sample_env 90081 [''osmo-2''] (\<lambda>_. None)]"
  have "let w = svs_run svs_saving ?envs in length (vw_Created w) = 2 \<and> vt_Phase (sv_Status (vw_Stored w)) = SnapshotPhaseWaitingForCreation"
    by code_simp
  then have "length (vw_Created (svs_run svs_saving ?envs)) = length (vw_Created svs_saving) + 2 \<and>
      vt_Phase (sv_Status (vw_Stored (svs_run svs_saving ?envs))) = SnapshotPhaseWaitingForCreation"
    unfolding Let_def svs_saving_facts(4) by simp
  then show ?thesis by (intro exI)
qed

end
