(* ===== verification/Stuck_Height.thy ===== *)
theory Stuck_Height
  imports Go_Duration Api_V1 Control_Loops
begin

text \<open>
  \<^verbatim>\<open>internal/stuckheight\<close>: the parts with which the operator recovers a node whose height does not
  move. The height monitor decides that a height is stuck, the rate limiter counts attempts in a
  window of time, the snapshot creator and the pod builder prepare and run a recovery. Reads of the
  API server are functions from keys; every reading of the clock is an argument of its own, because
  the code reads the clock several times.
\<close>

subsection \<open>height\_monitor.go\<close>

text \<open>
  The result is \<open>(isStuck, podName, height)\<close>. The loop over the map of heights takes the entry
  that the iteration yields first, the head of the association list.
\<close>

definition CheckStuckHeight ::
  "time \<Rightarrow> CosmosFullNode \<Rightarrow> StuckHeightRecovery \<Rightarrow> goerror + bool \<times> string \<times> uint64" where
  "CheckStuckHeight now crd recovery =
     (case st_Height (fn_Status crd) of
        [] \<Rightarrow> Inl (errorNew ''no height information available'')
      | (stuckPodName, currentHeight) # _ \<Rightarrow>
          if currentHeight = 0 then Inl (errorNew ''height is zero'')
          else case ParseDuration (sr_StuckDuration (shr_Spec recovery)) of
            Inl err \<Rightarrow> Inl (wrap ''invalid stuck duration: '' err)
          | Inr stuckDuration \<Rightarrow>
              if ssr_LastObservedHeight (shr_Status recovery) \<noteq> currentHeight then Inr (False, [], currentHeight)
              else case ssr_LastHeightUpdateTime (shr_Status recovery) of
                None \<Rightarrow> Inr (False, [], currentHeight)
              | Some t \<Rightarrow>
                  if time_Sub now t \<ge> stuckDuration then Inr (True, stuckPodName, currentHeight)
                  else Inr (False, [], currentHeight))"

subsection \<open>rate\_limiter.go\<close>

definition DefaultMaxRetries :: int where "DefaultMaxRetries = 3"
definition DefaultRateLimitWindow :: string where "DefaultRateLimitWindow = ''5m''"

definition maxRetries :: "StuckHeightRecoverySpec \<Rightarrow> int" where
  "maxRetries spec = (case sr_MaxRetries spec of None \<Rightarrow> DefaultMaxRetries | Some n \<Rightarrow> n)"

definition rateLimitWindow :: "StuckHeightRecoverySpec \<Rightarrow> string" where
  "rateLimitWindow spec = (if sr_RateLimitWindow spec \<noteq> [] then sr_RateLimitWindow spec else DefaultRateLimitWindow)"

definition CanAttemptRecovery :: "time \<Rightarrow> StuckHeightRecovery \<Rightarrow> goerror + bool \<times> string" where
  "CanAttemptRecovery now recovery =
     (case ParseDuration (rateLimitWindow (shr_Spec recovery)) of
        Inl err \<Rightarrow> Inl (wrap ''invalid rate limit window: '' err)
      | Inr windowDuration \<Rightarrow>
          (case ssr_RateLimitWindowStart (shr_Status recovery) of
             None \<Rightarrow> Inr (True, [])
           | Some windowStart \<Rightarrow>
               let timeSinceWindowStart = time_Sub now windowStart
               in if timeSinceWindowStart \<ge> windowDuration then Inr (True, [])
                  else if ssr_RecoveryAttempts (shr_Status recovery) \<ge> maxRetries (shr_Spec recovery)
                  then let remainingTime = windowDuration - timeSinceWindowStart
                       in Inr (False, ''Rate limit exceeded: '' @ FormatInt (ssr_RecoveryAttempts (shr_Status recovery)) @
                            '' attempts in '' @ Duration_String windowDuration @ ''. Will retry after '' @
                            Duration_String (Duration_Round remainingTime time_Second))
                  else Inr (True, [])))"

text \<open>
  \<open>RecordAttempt\<close> reads the clock twice: \<open>now\<close> at its start and \<open>later\<close> in \<open>time.Since\<close>. It
  ignores an error of \<open>ParseDuration\<close>, whose value is zero then.
\<close>

definition RecordAttempt :: "time \<Rightarrow> time \<Rightarrow> StuckHeightRecoverySpec \<Rightarrow> StuckHeightRecoveryStatus \<Rightarrow> StuckHeightRecoveryStatus" where
  "RecordAttempt now later spec status =
     (case ssr_RateLimitWindowStart status of
        None \<Rightarrow> status\<lparr>ssr_RateLimitWindowStart := Some now, ssr_RecoveryAttempts := 1, ssr_LastRecoveryTime := Some now\<rparr>
      | Some windowStart \<Rightarrow>
          let windowDuration = (case ParseDuration (rateLimitWindow spec) of Inl _ \<Rightarrow> 0 | Inr d \<Rightarrow> d);
              timeSinceWindowStart = time_Sub later windowStart;
              status = (if timeSinceWindowStart \<ge> windowDuration
                        then status\<lparr>ssr_RateLimitWindowStart := Some now, ssr_RecoveryAttempts := 1\<rparr>
                        else status\<lparr>ssr_RecoveryAttempts := int32_wrap (ssr_RecoveryAttempts status + 1)\<rparr>)
          in status\<lparr>ssr_LastRecoveryTime := Some now\<rparr>)"

definition ResetWindow :: "StuckHeightRecoveryStatus \<Rightarrow> StuckHeightRecoveryStatus" where
  "ResetWindow status = status\<lparr>ssr_RecoveryAttempts := 0, ssr_RateLimitWindowStart := None\<rparr>"

subsection \<open>snapshot\_creator.go\<close>

definition recoveryLabels :: "StuckHeightRecovery \<Rightarrow> labels" where
  "recoveryLabels recovery = [(''app.kubernetes.io/managed-by'', ''cosmos-operator''),
     (''cosmos.bharvest.io/recovery'', om_Name (shr_Meta recovery))]"

text \<open>The snapshot that \<open>CreateSnapshot\<close> builds; its name holds the Unix time.\<close>

definition recoverySnapshot :: "time \<Rightarrow> StuckHeightRecovery \<Rightarrow> string \<Rightarrow> VolumeSnapshot" where
  "recoverySnapshot now recovery pvcName =
     \<lparr>ob_Kind = [], ob_APIVersion = [],
      ob_Meta = emptyMeta\<lparr>om_Name := pvcName @ ''-recovery-'' @ FormatInt (now div time_Second),
        om_Namespace := om_Namespace (shr_Meta recovery), om_Labels := recoveryLabels recovery\<rparr>,
      ob_Body = \<lparr>vs_SourcePVC = Some pvcName,
        vs_ClassName = (if sr_VolumeSnapshotClassName (shr_Spec recovery) \<noteq> []
          then Some (sr_VolumeSnapshotClassName (shr_Spec recovery)) else None), vs_Status = None\<rparr>\<rparr>"

definition CheckSnapshotReady ::
  "(ObjectKey \<Rightarrow> goerror + VolumeSnapshot) \<Rightarrow> string \<Rightarrow> string \<Rightarrow> goerror + bool" where
  "CheckSnapshotReady get namespace snapshotName =
     (case get (ObjectKey namespace snapshotName) of
        Inl err \<Rightarrow> Inl (wrap ''get volume snapshot: '' err)
      | Inr snapshot \<Rightarrow> Inr (VolumeSnapshotIsReady (vs_Status (ob_Body snapshot))))"

fun claim_loop :: "Volume list \<Rightarrow> string option" where
  "claim_loop [] = None"
| "claim_loop (v # vs) =
     (case claimName (vol_Source v) of
        Some c \<Rightarrow> if vol_Name v = ''vol-chain-home'' then Some c else claim_loop vs
      | None \<Rightarrow> claim_loop vs)"

definition GetPVCForPod :: "(ObjectKey \<Rightarrow> goerror + Pod) \<Rightarrow> string \<Rightarrow> string \<Rightarrow> goerror + string" where
  "GetPVCForPod get namespace podName =
     (case get (ObjectKey namespace podName) of
        Inl err \<Rightarrow> Inl (wrap ''get pod: '' err)
      | Inr pod \<Rightarrow>
          (case claim_loop (ps_Volumes (pod_Spec pod)) of
             Some c \<Rightarrow> Inr c
           | None \<Rightarrow> Inl (errorNew (''no PVC found for pod '' @ podName))))"

subsection \<open>recovery\_pod.go\<close>

definition DefaultRecoveryImage :: string where "DefaultRecoveryImage = ''busybox:latest''"

definition emptyRecoveryTemplate :: RecoveryPodTemplate where
  "emptyRecoveryTemplate = \<lparr>rt_Image = [], rt_ImagePullPolicy = [], rt_ImagePullSecrets = [],
     rt_Resources = noResources, rt_Env = [], rt_VolumeMounts = [], rt_Volumes = []\<rparr>"

definition recoveryResources :: "ResourceRequirements \<Rightarrow> ResourceRequirements" where
  "recoveryResources r =
     (if rr_Requests r = None
      then r\<lparr>rr_Requests := Some [(ResourceCPU, \<lparr>q_Amount = 1 / 10, q_Format = ''DecimalSI''\<rparr>),
             (ResourceMemory, \<lparr>q_Amount = 134217728, q_Format = ''BinarySI''\<rparr>)]\<rparr>
      else r)"

definition BuildPod :: "StuckHeightRecovery \<Rightarrow> string \<Rightarrow> string \<Rightarrow> uint64 \<Rightarrow> Pod" where
  "BuildPod recovery podName pvcName currentHeight =
     (let podTemplate = (case sr_PodTemplate (shr_Spec recovery) of None \<Rightarrow> emptyRecoveryTemplate | Some t \<Rightarrow> t);
          image = (if rt_Image podTemplate \<noteq> [] then rt_Image podTemplate else DefaultRecoveryImage);
          imagePullPolicy = (if rt_ImagePullPolicy podTemplate \<noteq> [] then rt_ImagePullPolicy podTemplate else ''IfNotPresent'');
          envVars = [\<lparr>env_Name = ''POD_NAME'', env_Value = ssr_StuckPodName (shr_Status recovery)\<rparr>,
            \<lparr>env_Name = ''POD_NAMESPACE'', env_Value = om_Namespace (shr_Meta recovery)\<rparr>,
            \<lparr>env_Name = ''CURRENT_HEIGHT'', env_Value = FormatInt (uint currentHeight)\<rparr>,
            \<lparr>env_Name = ''PVC_NAME'', env_Value = pvcName\<rparr>,
            \<lparr>env_Name = ''CHAIN_HOME'', env_Value = ''/chain-home''\<rparr>] @ rt_Env podTemplate;
          volumeMounts = [\<lparr>vm_Name = ''chain-data'', vm_MountPath = ''/chain-home'', vm_SubPath = [], vm_ReadOnly = False\<rparr>]
            @ rt_VolumeMounts podTemplate;
          volumes = [\<lparr>vol_Name = ''chain-data'', vol_Source = PersistentVolumeClaimSource pvcName\<rparr>] @ rt_Volumes podTemplate
      in \<lparr>ob_Kind = [], ob_APIVersion = [],
          ob_Meta = emptyMeta\<lparr>om_Name := om_Name (shr_Meta recovery) @ ''-recovery-'' @ podName,
            om_Namespace := om_Namespace (shr_Meta recovery),
            om_Labels := recoveryLabels recovery @ [(''cosmos.bharvest.io/type'', ''recovery-pod'')]\<rparr>,
          ob_Body = \<lparr>pb_Spec = emptyPodSpec\<lparr>ps_RestartPolicy := ''Never'',
              ps_ImagePullSecrets := rt_ImagePullSecrets podTemplate,
              ps_Containers := [emptyContainer\<lparr>ct_Name := ''recovery'', ct_Image := image,
                ct_ImagePullPolicy := imagePullPolicy, ct_Command := [''/bin/sh''],
                ct_Args := [''-c'', sr_RecoveryScript (shr_Spec recovery)], ct_Env := envVars,
                ct_VolumeMounts := volumeMounts, ct_Resources := recoveryResources (rt_Resources podTemplate)\<rparr>],
              ps_Volumes := volumes\<rparr>, pb_Status = emptyPodStatus\<rparr>\<rparr>)"

text \<open>\<open>CheckPodComplete\<close>: completed, and with success.\<close>

definition CheckPodComplete :: "(ObjectKey \<Rightarrow> goerror + Pod) \<Rightarrow> string \<Rightarrow> string \<Rightarrow> goerror + bool \<times> bool" where
  "CheckPodComplete get namespace podName =
     (case get (ObjectKey namespace podName) of
        Inl err \<Rightarrow> Inl (wrap ''get recovery pod: '' err)
      | Inr pod \<Rightarrow>
          if pst_Phase (pod_Status pod) = ''Succeeded'' then Inr (True, True)
          else if pst_Phase (pod_Status pod) = ''Failed'' then Inr (True, False)
          else Inr (False, False))"

end
