(* ===== verification/Stuck_Height_Controller.thy ===== *)
theory Stuck_Height_Controller
  imports Stuck_Height Controller_Results Machines
begin

text \<open>
  \<^verbatim>\<open>controllers/stuckheightrecovery_controller.go\<close>: the state machine of a recovery, one handler per
  phase. The world holds the resource as the server stores it, the snapshots and pods that were
  created, and every call that was made. The environment of one reconcile gives the readings of the
  clock, the answers of reads, and the server's answer to each write, which may depend on the calls
  before it; a write changes the world only when the server accepts it. Times are stored with the
  resolution of \<open>metav1.Time\<close>, a parameter. Events and log lines are left out.
\<close>

datatype rec_call =
    CreateSnapshotCall VolumeSnapshot
  | CreatePodCall Pod
  | StatusUpdateCall StuckHeightRecovery

record rec_world =
  rw_Stored :: StuckHeightRecovery
  rw_Snapshots :: "VolumeSnapshot list"
  rw_Pods :: "Pod list"
  rw_Calls :: "rec_call list"

record rec_env =
  ev_Clock :: "nat \<Rightarrow> time"
  ev_FullNode :: "ObjectKey \<Rightarrow> goerror + CosmosFullNode"
  ev_Pod :: "ObjectKey \<Rightarrow> goerror + Pod"
  ev_Snapshot :: "ObjectKey \<Rightarrow> goerror + VolumeSnapshot"
  ev_Server :: "rec_call list \<Rightarrow> rec_call \<Rightarrow> goerror option"
  ev_Trunc :: "time \<Rightarrow> time"
  ev_RefSnapshot :: "VolumeSnapshotBody setref"
  ev_RefPod :: "PodBody setref"

subsection \<open>Calls\<close>

definition stored_status :: "rec_env \<Rightarrow> StuckHeightRecoveryStatus \<Rightarrow> StuckHeightRecoveryStatus" where
  "stored_status env st = st\<lparr>ssr_LastRecoveryTime := map_option (ev_Trunc env) (ssr_LastRecoveryTime st),
     ssr_RateLimitWindowStart := map_option (ev_Trunc env) (ssr_RateLimitWindowStart st),
     ssr_LastHeightUpdateTime := map_option (ev_Trunc env) (ssr_LastHeightUpdateTime st)\<rparr>"

fun perform :: "rec_env \<Rightarrow> rec_call \<Rightarrow> rec_world \<Rightarrow> rec_world" where
  "perform env (CreateSnapshotCall s) w = w\<lparr>rw_Snapshots := s # rw_Snapshots w\<rparr>"
| "perform env (CreatePodCall p) w = w\<lparr>rw_Pods := p # rw_Pods w\<rparr>"
| "perform env (StatusUpdateCall r) w =
     w\<lparr>rw_Stored := (rw_Stored w)\<lparr>shr_Status := stored_status env (shr_Status r)\<rparr>\<rparr>"

definition request :: "rec_env \<Rightarrow> rec_call \<Rightarrow> rec_world \<Rightarrow> goerror option \<times> rec_world" where
  "request env c w =
     (let w' = w\<lparr>rw_Calls := rw_Calls w @ [c]\<rparr>
      in case ev_Server env (rw_Calls w) c of
           Some err \<Rightarrow> (Some err, w')
         | None \<Rightarrow> (None, perform env c w'))"

definition set_status :: "(StuckHeightRecoveryStatus \<Rightarrow> StuckHeightRecoveryStatus) \<Rightarrow> StuckHeightRecovery \<Rightarrow> StuckHeightRecovery" where
  "set_status f recovery = recovery\<lparr>shr_Status := f (shr_Status recovery)\<rparr>"

type_synonym outcome = "(Result \<times> goerror option) \<times> rec_world"

text \<open>The two ways in which handlers write the status: returning the server's error, or ignoring it.\<close>

definition update_then :: "rec_env \<Rightarrow> StuckHeightRecovery \<Rightarrow> Result \<Rightarrow> rec_world \<Rightarrow> outcome" where
  "update_then env recovery res w =
     (case request env (StatusUpdateCall recovery) w of
        (Some err, w') \<Rightarrow> ((stopResult, Some err), w')
      | (None, w') \<Rightarrow> ((res, None), w'))"

definition update_fail :: "rec_env \<Rightarrow> StuckHeightRecovery \<Rightarrow> Result \<Rightarrow> goerror \<Rightarrow> rec_world \<Rightarrow> outcome" where
  "update_fail env recovery res err w = ((res, Some err), snd (request env (StatusUpdateCall recovery) w))"

definition requeueNow :: Result where "requeueNow = stopResult\<lparr>rq_Requeue := True\<rparr>"

definition set_phase :: "StuckHeightRecoveryPhase \<Rightarrow> string \<Rightarrow> StuckHeightRecoveryStatus \<Rightarrow> StuckHeightRecoveryStatus" where
  "set_phase phase msg st = st\<lparr>ssr_Phase := phase, ssr_Message := msg\<rparr>"

text \<open>\<open>SnapshotCreator.CreateSnapshot\<close> and \<open>RecoveryPodBuilder.CreatePod\<close> return the name of what they created.\<close>

definition CreateSnapshot :: "rec_env \<Rightarrow> StuckHeightRecovery \<Rightarrow> string \<Rightarrow> rec_world \<Rightarrow> (goerror + string) \<times> rec_world" where
  "CreateSnapshot env recovery pvcName w =
     (let snapshot = recoverySnapshot (ev_Clock env 0) recovery pvcName
      in case ev_RefSnapshot env snapshot of
           Inl err \<Rightarrow> (Inl (wrap ''set controller reference: '' err), w)
         | Inr snapshot' \<Rightarrow>
             (case request env (CreateSnapshotCall snapshot') w of
                (Some err, w') \<Rightarrow> (Inl (wrap ''create volume snapshot: '' err), w')
              | (None, w') \<Rightarrow> (Inr (GetName snapshot), w')))"

definition CreatePod ::
  "rec_env \<Rightarrow> StuckHeightRecovery \<Rightarrow> string \<Rightarrow> string \<Rightarrow> uint64 \<Rightarrow> rec_world \<Rightarrow> (goerror + string) \<times> rec_world" where
  "CreatePod env recovery podName pvcName currentHeight w =
     (case ev_RefPod env (BuildPod recovery podName pvcName currentHeight) of
        Inl err \<Rightarrow> (Inl (wrap ''set controller reference: '' err), w)
      | Inr pod \<Rightarrow>
          (case request env (CreatePodCall pod) w of
             (Some err, w') \<Rightarrow> (Inl (wrap ''create recovery pod: '' err), w')
           | (None, w') \<Rightarrow> (Inr (GetName pod), w')))"

subsection \<open>The handlers\<close>

text \<open>A height that differs from the last one is recorded and resets the rate limiter.\<close>

definition observeHeight :: "time \<Rightarrow> uint64 \<Rightarrow> StuckHeightRecoveryStatus \<Rightarrow> StuckHeightRecoveryStatus" where
  "observeHeight now currentHeight st =
     ResetWindow (st\<lparr>ssr_LastObservedHeight := currentHeight, ssr_LastHeightUpdateTime := Some now,
       ssr_Message := ''Monitoring height: '' @ FormatInt (uint currentHeight)\<rparr>)"

definition handleMonitoring :: "rec_env \<Rightarrow> StuckHeightRecovery \<Rightarrow> CosmosFullNode \<Rightarrow> rec_world \<Rightarrow> outcome" where
  "handleMonitoring env recovery crd w =
     (case CheckStuckHeight (ev_Clock env 0) crd recovery of
        Inl err \<Rightarrow>
          update_fail env (set_status (\<lambda>st. st\<lparr>ssr_Message := ''Error checking height: '' @ ge_msg err\<rparr>) recovery)
            (requeueAfter (30 * time_Second)) err w
      | Inr (isStuck, stuckPodName, currentHeight) \<Rightarrow>
          let now = ev_Clock env 1;
              changed = ssr_LastObservedHeight (shr_Status recovery) \<noteq> currentHeight;
              recovery1 = (if changed
                then set_status (observeHeight now currentHeight) recovery else recovery);
              (err1, w1) = (if changed then request env (StatusUpdateCall recovery1) w else (None, w))
          in case err1 of
               Some err \<Rightarrow> ((stopResult, Some err), w1)
             | None \<Rightarrow>
                 if isStuck
                 then update_then env (set_status (\<lambda>st. set_phase StuckHeightRecoveryPhaseHeightStuck
                          (''Height stuck at '' @ FormatInt (uint currentHeight) @ '' for '' @ sr_StuckDuration (shr_Spec recovery))
                          (st\<lparr>ssr_StuckPodName := stuckPodName\<rparr>)) recovery1) requeueNow w1
                 else update_then env (set_status (\<lambda>st. st\<lparr>ssr_Phase := StuckHeightRecoveryPhaseMonitoring\<rparr>) recovery1)
                        (requeueAfter (30 * time_Second)) w1)"

definition handleHeightStuck :: "rec_env \<Rightarrow> StuckHeightRecovery \<Rightarrow> CosmosFullNode \<Rightarrow> rec_world \<Rightarrow> outcome" where
  "handleHeightStuck env recovery crd w =
     (case CanAttemptRecovery (ev_Clock env 0) recovery of
        Inl err \<Rightarrow> ((requeueAfter (30 * time_Second), Some err), w)
      | Inr (canAttempt, message) \<Rightarrow>
          if \<not> canAttempt
          then update_then env (set_status (set_phase StuckHeightRecoveryPhaseRateLimited message) recovery)
                 (requeueAfter (60 * time_Second)) w
          else let recovery1 = set_status (RecordAttempt (ev_Clock env 1) (ev_Clock env 2) (shr_Spec recovery)) recovery;
                   recovery2 = (if sr_CreateVolumeSnapshot (shr_Spec recovery)
                     then set_status (set_phase StuckHeightRecoveryPhaseCreatingSnapshot ''Creating VolumeSnapshot'') recovery1
                     else set_status (set_phase StuckHeightRecoveryPhaseRunningRecovery ''Starting recovery script'') recovery1)
               in update_then env recovery2 requeueNow w)"

definition handleCreatingSnapshot :: "rec_env \<Rightarrow> StuckHeightRecovery \<Rightarrow> rec_world \<Rightarrow> outcome" where
  "handleCreatingSnapshot env recovery w =
     (case GetPVCForPod (ev_Pod env) (om_Namespace (shr_Meta recovery)) (ssr_StuckPodName (shr_Status recovery)) of
        Inl err \<Rightarrow>
          update_fail env (set_status (set_phase StuckHeightRecoveryPhaseRecoveryFailed (''Failed to get PVC: '' @ ge_msg err)) recovery)
            (requeueAfter (60 * time_Second)) err w
      | Inr pvcName \<Rightarrow>
          (case CreateSnapshot env recovery pvcName w of
             (Inl err, w1) \<Rightarrow>
               update_fail env (set_status (set_phase StuckHeightRecoveryPhaseRecoveryFailed (''Failed to create snapshot: '' @ ge_msg err)) recovery)
                 (requeueAfter (60 * time_Second)) err w1
           | (Inr snapshotName, w1) \<Rightarrow>
               update_then env (set_status (\<lambda>st. set_phase StuckHeightRecoveryPhaseWaitingForSnapshot
                   (''Waiting for VolumeSnapshot '' @ snapshotName @ '' to be ready'') (st\<lparr>ssr_VolumeSnapshotName := snapshotName\<rparr>)) recovery)
                 (requeueAfter (10 * time_Second)) w1))"

definition handleWaitingForSnapshot :: "rec_env \<Rightarrow> StuckHeightRecovery \<Rightarrow> rec_world \<Rightarrow> outcome" where
  "handleWaitingForSnapshot env recovery w =
     (case CheckSnapshotReady (ev_Snapshot env) (om_Namespace (shr_Meta recovery)) (ssr_VolumeSnapshotName (shr_Status recovery)) of
        Inl err \<Rightarrow> ((requeueAfter (10 * time_Second), Some err), w)
      | Inr ready \<Rightarrow>
          if \<not> ready then ((requeueAfter (10 * time_Second), None), w)
          else update_then env (set_status (set_phase StuckHeightRecoveryPhaseRunningRecovery ''Starting recovery script'') recovery) requeueNow w)"

definition handleRunningRecovery :: "rec_env \<Rightarrow> StuckHeightRecovery \<Rightarrow> CosmosFullNode \<Rightarrow> rec_world \<Rightarrow> outcome" where
  "handleRunningRecovery env recovery crd w =
     (case GetPVCForPod (ev_Pod env) (om_Namespace (shr_Meta recovery)) (ssr_StuckPodName (shr_Status recovery)) of
        Inl err \<Rightarrow>
          update_fail env (set_status (set_phase StuckHeightRecoveryPhaseRecoveryFailed (''Failed to get PVC: '' @ ge_msg err)) recovery)
            (requeueAfter (60 * time_Second)) err w
      | Inr pvcName \<Rightarrow>
          (case CreatePod env recovery (ssr_StuckPodName (shr_Status recovery)) pvcName (ssr_LastObservedHeight (shr_Status recovery)) w of
             (Inl err, w1) \<Rightarrow>
               update_fail env (set_status (set_phase StuckHeightRecoveryPhaseRecoveryFailed (''Failed to create recovery pod: '' @ ge_msg err)) recovery)
                 (requeueAfter (60 * time_Second)) err w1
           | (Inr recoveryPodName, w1) \<Rightarrow>
               update_then env (set_status (\<lambda>st. set_phase StuckHeightRecoveryPhaseWaitingForRecovery
                   (''Waiting for recovery pod '' @ recoveryPodName @ '' to complete'') (st\<lparr>ssr_RecoveryPodName := recoveryPodName\<rparr>)) recovery)
                 (requeueAfter (10 * time_Second)) w1))"

definition handleWaitingForRecovery :: "rec_env \<Rightarrow> StuckHeightRecovery \<Rightarrow> rec_world \<Rightarrow> outcome" where
  "handleWaitingForRecovery env recovery w =
     (case CheckPodComplete (ev_Pod env) (om_Namespace (shr_Meta recovery)) (ssr_RecoveryPodName (shr_Status recovery)) of
        Inl err \<Rightarrow> ((requeueAfter (10 * time_Second), Some err), w)
      | Inr (completed, success) \<Rightarrow>
          if \<not> completed then ((requeueAfter (10 * time_Second), None), w)
          else update_then env (set_status
                 (if success then set_phase StuckHeightRecoveryPhaseRecoveryComplete ''Recovery completed successfully''
                  else set_phase StuckHeightRecoveryPhaseRecoveryFailed ''Recovery script failed'') recovery)
                 (requeueAfter (30 * time_Second)) w)"

definition handleRecoveryComplete :: "rec_env \<Rightarrow> StuckHeightRecovery \<Rightarrow> rec_world \<Rightarrow> outcome" where
  "handleRecoveryComplete env recovery w =
     update_then env (set_status (\<lambda>st. set_phase StuckHeightRecoveryPhaseMonitoring ''Monitoring height''
         (st\<lparr>ssr_StuckPodName := [], ssr_RecoveryPodName := [], ssr_VolumeSnapshotName := []\<rparr>)) recovery)
       (requeueAfter (30 * time_Second)) w"

definition handleRecoveryFailed :: "rec_env \<Rightarrow> StuckHeightRecovery \<Rightarrow> rec_world \<Rightarrow> outcome" where
  "handleRecoveryFailed env recovery w =
     update_then env (set_status (\<lambda>st. set_phase StuckHeightRecoveryPhaseMonitoring ''Monitoring height after failure''
         (st\<lparr>ssr_StuckPodName := [], ssr_RecoveryPodName := []\<rparr>)) recovery)
       (requeueAfter (60 * time_Second)) w"

definition handleRateLimited :: "rec_env \<Rightarrow> StuckHeightRecovery \<Rightarrow> CosmosFullNode \<Rightarrow> rec_world \<Rightarrow> outcome" where
  "handleRateLimited env recovery crd w =
     (case CanAttemptRecovery (ev_Clock env 0) recovery of
        Inl err \<Rightarrow> ((requeueAfter (30 * time_Second), Some err), w)
      | Inr (canAttempt, message) \<Rightarrow>
          if canAttempt
          then update_then env (set_status (set_phase StuckHeightRecoveryPhaseMonitoring ''Monitoring height'') recovery) requeueNow w
          else update_then env (set_status (\<lambda>st. st\<lparr>ssr_Message := message\<rparr>) recovery) (requeueAfter (30 * time_Second)) w)"

subsection \<open>Reconcile\<close>

fun handle_phase :: "StuckHeightRecoveryPhase \<Rightarrow> rec_env \<Rightarrow> StuckHeightRecovery \<Rightarrow> CosmosFullNode \<Rightarrow> rec_world \<Rightarrow> outcome" where
  "handle_phase StuckHeightRecoveryPhaseNone env recovery crd w = handleMonitoring env recovery crd w"
| "handle_phase StuckHeightRecoveryPhaseMonitoring env recovery crd w = handleMonitoring env recovery crd w"
| "handle_phase StuckHeightRecoveryPhaseHeightStuck env recovery crd w = handleHeightStuck env recovery crd w"
| "handle_phase StuckHeightRecoveryPhaseCreatingSnapshot env recovery crd w = handleCreatingSnapshot env recovery w"
| "handle_phase StuckHeightRecoveryPhaseWaitingForSnapshot env recovery crd w = handleWaitingForSnapshot env recovery w"
| "handle_phase StuckHeightRecoveryPhaseRunningRecovery env recovery crd w = handleRunningRecovery env recovery crd w"
| "handle_phase StuckHeightRecoveryPhaseWaitingForRecovery env recovery crd w = handleWaitingForRecovery env recovery w"
| "handle_phase StuckHeightRecoveryPhaseRecoveryComplete env recovery crd w = handleRecoveryComplete env recovery w"
| "handle_phase StuckHeightRecoveryPhaseRecoveryFailed env recovery crd w = handleRecoveryFailed env recovery w"
| "handle_phase StuckHeightRecoveryPhaseRateLimited env recovery crd w = handleRateLimited env recovery crd w"
| "handle_phase StuckHeightRecoveryPhaseSuspended env recovery crd w = ((requeueAfter (30 * time_Second), None), w)"

definition StuckHeightRecovery_Reconcile :: "rec_env \<Rightarrow> goerror + StuckHeightRecovery \<Rightarrow> rec_world \<Rightarrow> outcome" where
  "StuckHeightRecovery_Reconcile env got w =
     (case got of
        Inl err \<Rightarrow> if IsNotFound (Some err) then ((stopResult, None), w) else ((stopResult, Some err), w)
      | Inr recovery \<Rightarrow>
          if sr_Suspend (shr_Spec recovery)
          then if ssr_Phase (shr_Status recovery) \<noteq> StuckHeightRecoveryPhaseSuspended
               then update_then env (set_status (set_phase StuckHeightRecoveryPhaseSuspended ''Recovery is suspended'') recovery)
                      (requeueAfter (60 * time_Second)) w
               else ((requeueAfter (60 * time_Second), None), w)
          else case ev_FullNode env (ObjectKey (om_Namespace (shr_Meta recovery)) (fr_Name (sr_FullNodeRef (shr_Spec recovery)))) of
                 Inl err \<Rightarrow>
                   update_fail env (set_status (set_phase StuckHeightRecoveryPhaseRecoveryFailed
                       (''CosmosFullNode not found: '' @ fr_Name (sr_FullNodeRef (shr_Spec recovery)))) recovery)
                     (requeueAfter (60 * time_Second)) err w
               | Inr crd \<Rightarrow>
                   let recovery = set_status (\<lambda>st. st\<lparr>ssr_ObservedGeneration := om_Generation (shr_Meta recovery)\<rparr>) recovery
                   in handle_phase (ssr_Phase (shr_Status recovery)) env recovery crd w)"

subsection \<open>Runs of the controller\<close>

text \<open>
  A run alternates reconciles, each in an environment of its own, with the user suspending and
  resuming the recovery. \<open>rm_Seen\<close> records what the environments so far have shown: which snapshots were
  ready to use, and which claims pods mounted.
  Setting an owner reference keeps the key of an object, and the clock does
  not run backwards during a reconcile.
\<close>

datatype observation = SeenReady ObjectKey | SeenClaim ObjectKey string

record rec_machine =
  rm_World :: rec_world
  rm_Seen :: "observation \<Rightarrow> bool"

definition env_ok :: "rec_env \<Rightarrow> bool" where
  "env_ok env \<longleftrightarrow> setref_ok (ev_RefSnapshot env) \<and> setref_ok (ev_RefPod env) \<and> mono (ev_Clock env)"

definition shown_ready :: "rec_env \<Rightarrow> ObjectKey \<Rightarrow> bool" where
  "shown_ready env key = (case ev_Snapshot env key of Inl _ \<Rightarrow> False | Inr s \<Rightarrow> VolumeSnapshotIsReady (vs_Status (ob_Body s)))"

fun observes :: "rec_env \<Rightarrow> observation \<Rightarrow> bool" where
  "observes env (SeenReady key) = shown_ready env key"
| "observes env (SeenClaim (ObjectKey ns pod) claim) = (GetPVCForPod (ev_Pod env) ns pod = Inr claim)"

definition read_ok :: "goerror + StuckHeightRecovery \<Rightarrow> rec_world \<Rightarrow> bool" where
  "read_ok got w = (case got of Inl _ \<Rightarrow> True | Inr r \<Rightarrow> r = rw_Stored w)"

definition set_suspend :: "bool \<Rightarrow> rec_world \<Rightarrow> rec_world" where
  "set_suspend b w = w\<lparr>rw_Stored := (rw_Stored w)\<lparr>shr_Spec := (shr_Spec (rw_Stored w))\<lparr>sr_Suspend := b\<rparr>\<rparr>\<rparr>"

definition fresh_recovery :: "rec_machine \<Rightarrow> bool" where
  "fresh_recovery m \<longleftrightarrow>
     (let st = shr_Status (rw_Stored (rm_World m))
      in ssr_Phase st = StuckHeightRecoveryPhaseNone \<and> ssr_RecoveryAttempts st = 0 \<and> ssr_RateLimitWindowStart st = None \<and>
         maxRetries (shr_Spec (rw_Stored (rm_World m))) < 2 ^ 31 \<and> rw_Snapshots (rm_World m) = [] \<and> rw_Pods (rm_World m) = [])"

inductive shr_step :: "rec_machine \<Rightarrow> rec_machine \<Rightarrow> bool" where
  shr_reconcile: "env_ok env \<Longrightarrow> read_ok got (rm_World m) \<Longrightarrow>
     shr_step m \<lparr>rm_World = snd (StuckHeightRecovery_Reconcile env got (rm_World m)),
       rm_Seen = (\<lambda>ob. rm_Seen m ob \<or> observes env ob)\<rparr>"
| shr_suspend: "shr_step m (m\<lparr>rm_World := set_suspend b (rm_World m)\<rparr>)"

inductive_cases shr_stepE [elim]: "shr_step m m'"

text \<open>The phases in which an attempt is under way.\<close>

fun recovering :: "StuckHeightRecoveryPhase \<Rightarrow> bool" where
  "recovering StuckHeightRecoveryPhaseCreatingSnapshot = True"
| "recovering StuckHeightRecoveryPhaseWaitingForSnapshot = True"
| "recovering StuckHeightRecoveryPhaseRunningRecovery = True"
| "recovering StuckHeightRecoveryPhaseWaitingForRecovery = True"
| "recovering _ = False"

text \<open>
  The invariant in two parts: what the rate limiter guarantees, and what the names in the status
  refer to.
\<close>

definition limit_ok :: "StuckHeightRecoverySpec \<Rightarrow> StuckHeightRecoveryStatus \<Rightarrow> bool" where
  "limit_ok spec st \<longleftrightarrow> 0 \<le> ssr_RecoveryAttempts st \<and> ssr_RecoveryAttempts st \<le> max 1 (maxRetries spec) \<and>
     (ssr_RateLimitWindowStart st = None \<longrightarrow> ssr_RecoveryAttempts st = 0) \<and> maxRetries spec < 2 ^ 31 \<and>
     (recovering (ssr_Phase st) \<longrightarrow> 1 \<le> ssr_RecoveryAttempts st)"

definition newest_of :: "VolumeSnapshot list \<Rightarrow> string \<Rightarrow> (string \<Rightarrow> bool) \<Rightarrow> bool" where
  "newest_of snaps n C \<longleftrightarrow> (\<exists>s rest c. snaps = s # rest \<and> GetName s = n \<and> vs_SourcePVC (ob_Body s) = Some c \<and> C c)"

fun refs_ok :: "StuckHeightRecoveryPhase \<Rightarrow> bool \<Rightarrow> (string \<Rightarrow> bool) \<Rightarrow> (string \<Rightarrow> bool) \<Rightarrow> VolumeSnapshot list \<Rightarrow> Pod list \<Rightarrow> string \<Rightarrow> string \<Rightarrow> bool" where
  "refs_ok StuckHeightRecoveryPhaseCreatingSnapshot cvs R C snaps pods vs pod = cvs"
| "refs_ok StuckHeightRecoveryPhaseWaitingForSnapshot cvs R C snaps pods vs pod = (cvs \<and> newest_of snaps vs C)"
| "refs_ok StuckHeightRecoveryPhaseRunningRecovery cvs R C snaps pods vs pod = (cvs \<longrightarrow> R vs \<and> newest_of snaps vs C)"
| "refs_ok StuckHeightRecoveryPhaseWaitingForRecovery cvs R C snaps pods vs pod =
     (\<exists>p rest. pods = p # rest \<and> GetName p = pod)"
| "refs_ok _ cvs R C snaps pods vs pod = True"

definition status_ok :: "(observation \<Rightarrow> bool) \<Rightarrow> rec_world \<Rightarrow> StuckHeightRecoveryStatus \<Rightarrow> bool" where
  "status_ok R w st \<longleftrightarrow> limit_ok (shr_Spec (rw_Stored w)) st \<and>
     refs_ok (ssr_Phase st) (sr_CreateVolumeSnapshot (shr_Spec (rw_Stored w)))
       (\<lambda>n. R (SeenReady (ObjectKey (om_Namespace (shr_Meta (rw_Stored w))) n)))
       (\<lambda>c. R (SeenClaim (ObjectKey (om_Namespace (shr_Meta (rw_Stored w))) (ssr_StuckPodName st)) c)) (rw_Snapshots w) (rw_Pods w)
       (ssr_VolumeSnapshotName st) (ssr_RecoveryPodName st)"

definition rec_inv :: "rec_machine \<Rightarrow> bool" where
  "rec_inv m \<longleftrightarrow> status_ok (rm_Seen m) (rm_World m) (shr_Status (rw_Stored (rm_World m)))"

lemma stored_status_simps [simp]:
  "ssr_Phase (stored_status env st) = ssr_Phase st" "ssr_RecoveryAttempts (stored_status env st) = ssr_RecoveryAttempts st"
  "ssr_RateLimitWindowStart (stored_status env st) = None \<longleftrightarrow> ssr_RateLimitWindowStart st = None"
  "ssr_VolumeSnapshotName (stored_status env st) = ssr_VolumeSnapshotName st"
  "ssr_RecoveryPodName (stored_status env st) = ssr_RecoveryPodName st" "ssr_StuckPodName (stored_status env st) = ssr_StuckPodName st"
  by (simp_all add: stored_status_def)

lemma set_status_simps [simp]:
  "shr_Spec (set_status f r) = shr_Spec r" "shr_Meta (set_status f r) = shr_Meta r"
  "shr_Status (set_status f r) = f (shr_Status r)"
  by (simp_all add: set_status_def)

lemma set_phase_simps [simp]:
  "ssr_Phase (set_phase p msg st) = p" "ssr_RecoveryAttempts (set_phase p msg st) = ssr_RecoveryAttempts st"
  "ssr_RateLimitWindowStart (set_phase p msg st) = ssr_RateLimitWindowStart st"
  "ssr_VolumeSnapshotName (set_phase p msg st) = ssr_VolumeSnapshotName st"
  "ssr_RecoveryPodName (set_phase p msg st) = ssr_RecoveryPodName st" "ssr_StuckPodName (set_phase p msg st) = ssr_StuckPodName st"
  by (simp_all add: set_phase_def)

lemma snd_update [simp]:
  "snd (update_then env r res w) = snd (request env (StatusUpdateCall r) w)"
  "snd (update_fail env r res err w) = snd (request env (StatusUpdateCall r) w)"
  by (simp_all add: update_then_def update_fail_def split: prod.split option.split)

text \<open>The status is good in a world, and stays so however the server answers an update to a good one.\<close>

abbreviation good :: "(observation \<Rightarrow> bool) \<Rightarrow> rec_world \<Rightarrow> bool" where
  "good R w \<equiv> status_ok R w (shr_Status (rw_Stored w))"

lemma good_update:
  assumes "good R w" and "status_ok R w (shr_Status r)"
  shows "good R (snd (request env (StatusUpdateCall r) w))"
  using assms by (auto simp: request_def Let_def status_ok_def limit_ok_def split: option.split)

lemma good_calls: "good R (w\<lparr>rw_Calls := cs\<rparr>) = good R w"
  by (simp add: status_ok_def)

text \<open>An attempt that is allowed within the window is below the limit, and counting it does not wrap around.\<close>

lemma attempt_below_limit:
  assumes "limit_ok spec st" and "CanAttemptRecovery t0 r = Inr (True, msg)"
    and "shr_Spec r = spec" and "ssr_RecoveryAttempts (shr_Status r) = ssr_RecoveryAttempts st"
    and "ssr_RateLimitWindowStart (shr_Status r) = ssr_RateLimitWindowStart st" and "t0 \<le> t2"
    and "ssr_RateLimitWindowStart st = Some ws"
  obtains d where "ParseDuration (rateLimitWindow spec) = Inr d"
    "time_Sub t2 ws < d \<Longrightarrow> ssr_RecoveryAttempts st + 1 \<le> maxRetries spec"
    "time_Sub t2 ws < d \<Longrightarrow> int32_wrap (ssr_RecoveryAttempts st + 1) = ssr_RecoveryAttempts st + 1"
proof -
  obtain d where d: "ParseDuration (rateLimitWindow spec) = Inr d"
    using assms(2,3) by (auto simp: CanAttemptRecovery_def split: sum.splits)
  have le: "ssr_RecoveryAttempts st + 1 \<le> maxRetries spec" if "time_Sub t2 ws < d"
  proof -
    have "time_Sub t0 ws < d" using that time_Sub_mono [OF assms(6), of ws] by linarith
    then show ?thesis using assms(2,3,4,5,7) d by (auto simp: CanAttemptRecovery_def Let_def split: if_splits)
  qed
  moreover have "int32_wrap (ssr_RecoveryAttempts st + 1) = ssr_RecoveryAttempts st + 1" if "time_Sub t2 ws < d"
    using assms(1) le [OF that] by (auto simp: int32_wrap_def limit_ok_def)
  ultimately show thesis using that d by blast
qed

lemma limit_ok_attempt:
  assumes "limit_ok spec st" and "CanAttemptRecovery t0 r = Inr (True, msg)"
    and "shr_Spec r = spec" and "ssr_RecoveryAttempts (shr_Status r) = ssr_RecoveryAttempts st"
    and "ssr_RateLimitWindowStart (shr_Status r) = ssr_RateLimitWindowStart st" and "t0 \<le> t2"
  shows "limit_ok spec (set_phase p m (RecordAttempt t1 t2 spec st))"
proof (cases "ssr_RateLimitWindowStart st")
  case (Some ws)
  obtain d where d: "ParseDuration (rateLimitWindow spec) = Inr d"
      "time_Sub t2 ws < d \<Longrightarrow> ssr_RecoveryAttempts st + 1 \<le> maxRetries spec"
      "time_Sub t2 ws < d \<Longrightarrow> int32_wrap (ssr_RecoveryAttempts st + 1) = ssr_RecoveryAttempts st + 1"
    using attempt_below_limit [OF assms Some] by metis
  show ?thesis using assms(1) d Some by (auto simp: RecordAttempt_def Let_def limit_ok_def not_le)
qed (use assms(1) in \<open>auto simp: RecordAttempt_def limit_ok_def\<close>)

text \<open>
  Each handler keeps a good world, when the resource it works on is the stored one up to the
  observed generation.
\<close>

definition copy_of :: "rec_world \<Rightarrow> StuckHeightRecovery \<Rightarrow> bool" where
  "copy_of w r \<longleftrightarrow> shr_Spec r = shr_Spec (rw_Stored w) \<and> shr_Meta r = shr_Meta (rw_Stored w) \<and>
     (\<exists>g. shr_Status r = (shr_Status (rw_Stored w))\<lparr>ssr_ObservedGeneration := g\<rparr>)"

lemma status_ok_phase:
  assumes "status_ok R w st" and "\<not> recovering p"
  shows "status_ok R w (set_phase p msg st)"
  using assms by (cases p) (simp_all add: status_ok_def limit_ok_def)

lemma copy_ofD:
  assumes "copy_of w r"
  shows "shr_Spec r = shr_Spec (rw_Stored w)" "shr_Meta r = shr_Meta (rw_Stored w)"
    "ssr_Phase (shr_Status r) = ssr_Phase (shr_Status (rw_Stored w))"
    "ssr_RecoveryAttempts (shr_Status r) = ssr_RecoveryAttempts (shr_Status (rw_Stored w))"
    "ssr_RateLimitWindowStart (shr_Status r) = ssr_RateLimitWindowStart (shr_Status (rw_Stored w))"
    "ssr_VolumeSnapshotName (shr_Status r) = ssr_VolumeSnapshotName (shr_Status (rw_Stored w))"
    "ssr_RecoveryPodName (shr_Status r) = ssr_RecoveryPodName (shr_Status (rw_Stored w))"
    "ssr_StuckPodName (shr_Status r) = ssr_StuckPodName (shr_Status (rw_Stored w))"
  using assms by (auto simp: copy_of_def)

lemma status_ok_copy: "copy_of w r \<Longrightarrow> good R w \<Longrightarrow> status_ok R w (shr_Status r)"
  by (simp add: status_ok_def limit_ok_def copy_ofD)

lemma status_ok_same:
  assumes "status_ok R w st" and "ssr_Phase st' = ssr_Phase st" and "ssr_RecoveryAttempts st' = ssr_RecoveryAttempts st"
    and "ssr_RateLimitWindowStart st' = ssr_RateLimitWindowStart st"
    and "ssr_VolumeSnapshotName st' = ssr_VolumeSnapshotName st" and "ssr_RecoveryPodName st' = ssr_RecoveryPodName st"
    and "ssr_StuckPodName st' = ssr_StuckPodName st"
  shows "status_ok R w st'"
  using assms by (simp add: status_ok_def limit_ok_def)

lemma request_stored [simp]:
  "shr_Spec (rw_Stored (snd (request env c w))) = shr_Spec (rw_Stored w)"
  "shr_Meta (rw_Stored (snd (request env c w))) = shr_Meta (rw_Stored w)"
  by (cases c; simp add: request_def Let_def split: option.split)+

lemma status_ok_update: "status_ok R (snd (request env (StatusUpdateCall r) w)) = status_ok R w"
  by (simp add: status_ok_def request_def Let_def fun_eq_iff split: option.split)

lemma good_Monitoring:
  assumes "copy_of w r" and "good R w" and "\<not> recovering (ssr_Phase (shr_Status r))"
  shows "good R (snd (handleMonitoring env r crd w))"
proof -
  have ok: "status_ok R w (shr_Status r)" using status_ok_copy [OF assms(1,2)] .
  have idle: "status_ok R w st" if "limit_ok (shr_Spec (rw_Stored w)) st" "\<not> recovering (ssr_Phase st)" for st
    using that by (cases "ssr_Phase st") (auto simp: status_ok_def)
  have lim: "limit_ok (shr_Spec (rw_Stored w)) (shr_Status r)" using ok by (simp add: status_ok_def)
  show ?thesis
  proof (cases "CheckStuckHeight (ev_Clock env 0) crd r")
    case (Inl err)
    have "status_ok R w ((shr_Status r)\<lparr>ssr_Message := msg\<rparr>)" for msg
      using ok by (rule status_ok_same) simp_all
    then show ?thesis using Inl assms(2) by (simp add: handleMonitoring_def good_update)
  next
    case (Inr res)
    obtain stuck pod h where res: "res = (stuck, pod, h)" by (cases res)
    show ?thesis
    proof (cases "ssr_LastObservedHeight (shr_Status r) = h")
      case True
      then show ?thesis using Inr res assms(2) lim assms(3)
        by (auto simp: handleMonitoring_def Let_def limit_ok_def intro!: good_update idle)
    next
      case False
      have reset: "limit_ok (shr_Spec (rw_Stored w)) (st\<lparr>ssr_RecoveryAttempts := 0, ssr_RateLimitWindowStart := None\<rparr>)"
        if "\<not> recovering (ssr_Phase st)" for st using lim that by (simp add: limit_ok_def)
      define r1 where "r1 = set_status (observeHeight (ev_Clock env (Suc 0)) h) r"
      define w1 where "w1 = snd (request env (StatusUpdateCall r1) w)"
      have r1: "limit_ok (shr_Spec (rw_Stored w)) (shr_Status r1)" "\<not> recovering (ssr_Phase (shr_Status r1))"
        using assms(3) reset by (simp_all add: r1_def observeHeight_def ResetWindow_def)
      have w1: "good R w1" "status_ok R w1 = status_ok R w"
        unfolding w1_def using good_update [OF assms(2) idle [OF r1]] by (simp_all only: status_ok_update)
      have "good R (snd (update_then env r2 res w1))"
        if "limit_ok (shr_Spec (rw_Stored w)) (shr_Status r2)" "\<not> recovering (ssr_Phase (shr_Status r2))" for r2 res
        using good_update [OF w1(1)] w1(2) idle [OF that] by simp
      moreover have "limit_ok (shr_Spec (rw_Stored w)) ((shr_Status r1)\<lparr>ssr_Phase := StuckHeightRecoveryPhaseMonitoring\<rparr>)"
        "limit_ok (shr_Spec (rw_Stored w)) (set_phase StuckHeightRecoveryPhaseHeightStuck msg ((shr_Status r1)\<lparr>ssr_StuckPodName := pod\<rparr>))" for msg
        using r1 by (simp_all add: limit_ok_def)
      ultimately show ?thesis
        using Inr False w1(1) unfolding handleMonitoring_def res
        by (simp add: Let_def r1_def [symmetric] w1_def [symmetric] case_prod_beta del: snd_update split: option.split)
    qed
  qed
qed

lemma good_HeightStuck:
  assumes "copy_of w r" and "good R w" and "mono (ev_Clock env)" and "\<not> recovering (ssr_Phase (shr_Status r))"
  shows "good R (snd (handleHeightStuck env r crd w))"
proof (cases "CanAttemptRecovery (ev_Clock env 0) r")
  case (Inl err)
  then show ?thesis using assms(2) by (simp add: handleHeightStuck_def)
next
  case (Inr res)
  have ok: "status_ok R w (shr_Status r)" using status_ok_copy [OF assms(1,2)] .
  obtain can msg where res: "res = (can, msg)" by (cases res)
  show ?thesis
  proof (cases can)
    case True
    have "limit_ok (shr_Spec r) (shr_Status r)" using ok by (simp add: status_ok_def copy_ofD [OF assms(1)])
    then have "limit_ok (shr_Spec r) (set_phase p m (RecordAttempt (ev_Clock env 1) (ev_Clock env 2) (shr_Spec r) (shr_Status r)))" for p m
      using Inr res True monoD [OF assms(3), of 0 2] by (intro limit_ok_attempt [where r = r and msg = msg]) simp_all
    then have "sr_CreateVolumeSnapshot (shr_Spec r) \<Longrightarrow> status_ok R w (set_phase StuckHeightRecoveryPhaseCreatingSnapshot m
        (RecordAttempt (ev_Clock env 1) (ev_Clock env 2) (shr_Spec r) (shr_Status r)))"
      and "\<not> sr_CreateVolumeSnapshot (shr_Spec r) \<Longrightarrow> status_ok R w (set_phase StuckHeightRecoveryPhaseRunningRecovery m
        (RecordAttempt (ev_Clock env 1) (ev_Clock env 2) (shr_Spec r) (shr_Status r)))" for m
      using copy_ofD(1) [OF assms(1)] by (simp_all add: status_ok_def)
    then show ?thesis using assms(2) Inr res True
      by (simp add: handleHeightStuck_def Let_def good_update)
  next
    case False
    then show ?thesis using assms(2) Inr res ok
      by (simp add: handleHeightStuck_def good_update status_ok_phase)
  qed
qed

lemma good_simple:
  assumes "copy_of w r" and "good R w"
  shows "good R (snd (handleRateLimited env r crd w))"
    and "good R (snd (handleRecoveryComplete env r w))" and "good R (snd (handleRecoveryFailed env r w))"
    and "good R (snd (handleWaitingForRecovery env r w))"
proof -
  have ok: "status_ok R w (shr_Status r)" using status_ok_copy [OF assms] .
  have lim: "limit_ok (shr_Spec (rw_Stored w)) (shr_Status r)" using ok by (simp add: status_ok_def)
  have "status_ok R w ((shr_Status r)\<lparr>ssr_Message := msg\<rparr>)" for msg using ok by (rule status_ok_same) simp_all
  then show "good R (snd (handleRateLimited env r crd w))"
    using ok assms(2) by (simp add: handleRateLimited_def good_update status_ok_phase split: sum.split)
  show "good R (snd (handleRecoveryComplete env r w))" "good R (snd (handleRecoveryFailed env r w))"
    unfolding handleRecoveryComplete_def handleRecoveryFailed_def snd_update
    by (rule good_update [OF assms(2)], use lim in \<open>simp add: status_ok_def limit_ok_def\<close>)+
  show "good R (snd (handleWaitingForRecovery env r w))"
    using ok assms(2) by (simp add: handleWaitingForRecovery_def good_update status_ok_phase split: sum.split)
qed

text \<open>Creating a snapshot or a pod in the phase meant for it, and what was created.\<close>

lemma setref_body: "setref_ok setRef \<Longrightarrow> setRef ob = Inr ob' \<Longrightarrow> ob_Body ob' = ob_Body ob"
  unfolding setref_ok_def by (metis sum.inject(2))

lemma CreateSnapshot_good:
  assumes "CreateSnapshot env r pvc w = (res, w')" and "copy_of w r" and "good R w" and "setref_ok (ev_RefSnapshot env)"
    and "ssr_Phase (shr_Status r) = StuckHeightRecoveryPhaseCreatingSnapshot"
  shows "good R w' \<and> copy_of w' r \<and> (\<forall>n. res = Inr n \<longrightarrow> (\<exists>s rest. rw_Snapshots w' = s # rest \<and> GetName s = n \<and> vs_SourcePVC (ob_Body s) = Some pvc))"
proof -
  let ?s = "recoverySnapshot (ev_Clock env 0) r pvc"
  have own: "ev_RefSnapshot env ?s = Inr (owned (ev_RefSnapshot env) ?s)"
    "GetName (owned (ev_RefSnapshot env) ?s) = GetName ?s"
    using owned_simps [OF assms(4), of ?s] by (auto simp: ObjectKeyFromObject_def)
  have src: "vs_SourcePVC (ob_Body (owned (ev_RefSnapshot env) ?s)) = Some pvc"
    using setref_body [OF assms(4) own(1)] by (simp add: recoverySnapshot_def)
  have p: "ssr_Phase (shr_Status (rw_Stored w)) = StuckHeightRecoveryPhaseCreatingSnapshot"
    using copy_ofD(3) [OF assms(2)] assms(5) by simp
  have "w' = snd (request env (CreateSnapshotCall (owned (ev_RefSnapshot env) ?s)) w)"
    using assms(1) own(1) by (auto simp: CreateSnapshot_def Let_def split: prod.splits option.splits)
  moreover have "res = Inr (GetName ?s)" if "res = Inr n" for n
    using assms(1) own(1) that by (auto simp: CreateSnapshot_def Let_def split: prod.splits option.splits)
  moreover have "ev_Server env (rw_Calls w) (CreateSnapshotCall (owned (ev_RefSnapshot env) ?s)) = None" if "res = Inr n" for n
    using assms(1) own(1) that by (auto simp: CreateSnapshot_def Let_def request_def split: prod.splits option.splits)
  ultimately show ?thesis
    using assms(2,3) p own(2) src by (auto simp: request_def Let_def status_ok_def copy_of_def split: option.splits)
qed

lemma CreatePod_good:
  assumes "CreatePod env r podName pvc h w = (res, w')" and "copy_of w r" and "good R w" and "setref_ok (ev_RefPod env)"
    and "ssr_Phase (shr_Status r) = StuckHeightRecoveryPhaseRunningRecovery"
  shows "good R w' \<and> copy_of w' r \<and> (\<forall>n. res = Inr n \<longrightarrow> (\<exists>p rest. rw_Pods w' = p # rest \<and> GetName p = n))"
proof -
  let ?p = "BuildPod r podName pvc h"
  have own: "ev_RefPod env ?p = Inr (owned (ev_RefPod env) ?p)" using owned_simps(3) [OF assms(4)] .
  have p: "ssr_Phase (shr_Status (rw_Stored w)) = StuckHeightRecoveryPhaseRunningRecovery"
    using copy_ofD(3) [OF assms(2)] assms(5) by simp
  have "w' = snd (request env (CreatePodCall (owned (ev_RefPod env) ?p)) w)"
    using assms(1) own by (auto simp: CreatePod_def Let_def split: prod.splits option.splits)
  moreover have "n = GetName (owned (ev_RefPod env) ?p) \<and>
      ev_Server env (rw_Calls w) (CreatePodCall (owned (ev_RefPod env) ?p)) = None" if "res = Inr n" for n
    using assms(1) own that by (auto simp: CreatePod_def Let_def request_def split: prod.splits option.splits)
  ultimately show ?thesis
    using assms(2,3) p by (auto simp: request_def Let_def status_ok_def copy_of_def split: option.splits)
qed

lemma good_CreatingSnapshot:
  assumes "copy_of w r" and "good R w" and "env_ok env" and "ssr_Phase (shr_Status r) = StuckHeightRecoveryPhaseCreatingSnapshot"
    and "\<And>ob. observes env ob \<Longrightarrow> R ob"
  shows "good R (snd (handleCreatingSnapshot env r w))"
proof (cases "GetPVCForPod (ev_Pod env) (om_Namespace (shr_Meta r)) (ssr_StuckPodName (shr_Status r))")
  case (Inl err)
  then show ?thesis using assms(2) status_ok_copy [OF assms(1,2)]
    by (simp add: handleCreatingSnapshot_def good_update status_ok_phase)
next
  case (Inr pvc)
  obtain res w1 where cs: "CreateSnapshot env r pvc w = (res, w1)" by (cases "CreateSnapshot env r pvc w")
  have w1: "good R w1" "copy_of w1 r"
    "res = Inr n \<Longrightarrow> \<exists>s rest. rw_Snapshots w1 = s # rest \<and> GetName s = n \<and> vs_SourcePVC (ob_Body s) = Some pvc" for n
    using CreateSnapshot_good [OF cs assms(1,2) _ assms(4)] assms(3) by (auto simp: env_ok_def)
  have seen: "R (SeenClaim (ObjectKey (om_Namespace (shr_Meta (rw_Stored w1))) (ssr_StuckPodName (shr_Status r))) pvc)"
    using Inr copy_ofD(2) [OF w1(2)] by (intro assms(5)) simp
  have ok: "status_ok R w1 (shr_Status r)" using status_ok_copy [OF w1(2,1)] .
  show ?thesis
  proof (cases res)
    case (Inl err)
    then show ?thesis using Inr cs w1(1) ok
      by (simp add: handleCreatingSnapshot_def good_update status_ok_phase)
  next
    case (Inr n)
    have "status_ok R w1 (set_phase StuckHeightRecoveryPhaseWaitingForSnapshot m ((shr_Status r)\<lparr>ssr_VolumeSnapshotName := n\<rparr>))" for m
      using ok assms(4) w1(3) [OF Inr] seen by (auto simp: status_ok_def limit_ok_def newest_of_def)
    then show ?thesis using Inr \<open>GetPVCForPod _ _ _ = _\<close> cs w1(1)
      by (simp add: handleCreatingSnapshot_def good_update)
  qed
qed

lemma good_RunningRecovery:
  assumes "copy_of w r" and "good R w" and "env_ok env" and "ssr_Phase (shr_Status r) = StuckHeightRecoveryPhaseRunningRecovery"
  shows "good R (snd (handleRunningRecovery env r crd w))"
proof (cases "GetPVCForPod (ev_Pod env) (om_Namespace (shr_Meta r)) (ssr_StuckPodName (shr_Status r))")
  case (Inl err)
  then show ?thesis using assms(2) status_ok_copy [OF assms(1,2)]
    by (simp add: handleRunningRecovery_def good_update status_ok_phase)
next
  case (Inr pvc)
  let ?call = "CreatePod env r (ssr_StuckPodName (shr_Status r)) pvc (ssr_LastObservedHeight (shr_Status r)) w"
  obtain res w1 where cp: "?call = (res, w1)" by (cases ?call)
  have w1: "good R w1" "copy_of w1 r"
    "res = Inr n \<Longrightarrow> \<exists>p rest. rw_Pods w1 = p # rest \<and> GetName p = n" for n
    using CreatePod_good [OF cp assms(1,2) _ assms(4)] assms(3) by (auto simp: env_ok_def)
  have ok: "status_ok R w1 (shr_Status r)" using status_ok_copy [OF w1(2,1)] .
  show ?thesis
  proof (cases res)
    case (Inl err)
    then show ?thesis using Inr cp w1(1) ok
      by (simp add: handleRunningRecovery_def good_update status_ok_phase)
  next
    case (Inr n)
    have "status_ok R w1 (set_phase StuckHeightRecoveryPhaseWaitingForRecovery m ((shr_Status r)\<lparr>ssr_RecoveryPodName := n\<rparr>))" for m
      using ok assms(4) w1(3) [OF Inr] by (auto simp: status_ok_def limit_ok_def)
    then show ?thesis using Inr \<open>GetPVCForPod _ _ _ = _\<close> cp w1(1)
      by (simp add: handleRunningRecovery_def good_update)
  qed
qed

lemma good_WaitingForSnapshot:
  assumes "copy_of w r" and "good R w" and "\<And>ob. observes env ob \<Longrightarrow> R ob"
    and "ssr_Phase (shr_Status r) = StuckHeightRecoveryPhaseWaitingForSnapshot"
  shows "good R (snd (handleWaitingForSnapshot env r w))"
proof -
  have ok: "status_ok R w (shr_Status r)" using status_ok_copy [OF assms(1,2)] .
  have "R (SeenReady (ObjectKey (om_Namespace (shr_Meta r)) (ssr_VolumeSnapshotName (shr_Status r))))"
    if "CheckSnapshotReady (ev_Snapshot env) (om_Namespace (shr_Meta r)) (ssr_VolumeSnapshotName (shr_Status r)) = Inr True"
    using that by (intro assms(3)) (auto simp: CheckSnapshotReady_def shown_ready_def split: sum.splits)
  then have "status_ok R w (set_phase StuckHeightRecoveryPhaseRunningRecovery msg (shr_Status r))"
    if "CheckSnapshotReady (ev_Snapshot env) (om_Namespace (shr_Meta r)) (ssr_VolumeSnapshotName (shr_Status r)) = Inr True" for msg
    using that ok assms(4) copy_ofD(1,2) [OF assms(1)] by (auto simp: status_ok_def limit_ok_def)
  then show ?thesis using assms(2)
    by (auto simp: handleWaitingForSnapshot_def good_update split: sum.split)
qed

lemma good_handle_phase:
  assumes "copy_of w r" and "good R w" and "env_ok env" and "\<And>ob. observes env ob \<Longrightarrow> R ob"
  shows "good R (snd (handle_phase (ssr_Phase (shr_Status r)) env r crd w))"
proof -
  have "mono (ev_Clock env)" using assms(3) by (simp add: env_ok_def)
  then show ?thesis
    using assms good_simple [OF assms(1,2)] good_Monitoring [OF assms(1,2)] good_HeightStuck [OF assms(1,2)]
      good_CreatingSnapshot [OF assms(1-3) _ assms(4)] good_WaitingForSnapshot [OF assms(1,2,4)] good_RunningRecovery [OF assms(1-3)]
    by (cases "ssr_Phase (shr_Status r)") simp_all
qed

lemma good_mono: "good R w \<Longrightarrow> (\<And>k. R k \<Longrightarrow> R' k) \<Longrightarrow> good R' w"
  by (cases "ssr_Phase (shr_Status (rw_Stored w))") (auto simp: status_ok_def newest_of_def)

lemma good_Reconcile:
  assumes "good R w" and "env_ok env" and "\<And>ob. observes env ob \<Longrightarrow> R ob" and "read_ok got w"
  shows "good R (snd (StuckHeightRecovery_Reconcile env got w))"
proof (cases got)
  case (Inl err)
  then show ?thesis using assms(1) by (simp add: StuckHeightRecovery_Reconcile_def)
next
  case (Inr r)
  then have r: "r = rw_Stored w" using assms(4) by (simp add: read_ok_def)
  let ?r = "set_status (\<lambda>st. st\<lparr>ssr_ObservedGeneration := om_Generation (shr_Meta r)\<rparr>) r"
  have "copy_of w ?r" by (auto simp: copy_of_def r)
  from good_handle_phase [OF this assms(1-3)]
  have "good R (snd (handle_phase (ssr_Phase (shr_Status r)) env ?r crd w))" for crd by simp
  then show ?thesis using assms(1) Inr r
    by (simp add: StuckHeightRecovery_Reconcile_def Let_def good_update status_ok_phase split: sum.split)
qed

interpretation shr: invariant_of fresh_recovery shr_step rec_inv
proof
  show "rec_inv m" if "fresh_recovery m" for m
    using that by (simp add: fresh_recovery_def rec_inv_def status_ok_def limit_ok_def Let_def)
next
  fix m m' assume inv: "rec_inv m" and step: "shr_step m m'"
  from step show "rec_inv m'"
  proof cases
    case (shr_reconcile env got)
    let ?R = "\<lambda>ob. rm_Seen m ob \<or> observes env ob"
    have "good ?R (rm_World m)" using good_mono [of "rm_Seen m" "rm_World m" ?R] inv by (simp add: rec_inv_def)
    from good_Reconcile [OF this shr_reconcile(2) _ shr_reconcile(3)] show ?thesis
      by (simp add: rec_inv_def shr_reconcile(1))
  next
    case (shr_suspend b)
    have "limit_ok (spec\<lparr>sr_Suspend := b\<rparr>) = limit_ok spec" for spec by (simp add: fun_eq_iff limit_ok_def maxRetries_def)
    then show ?thesis using inv by (simp add: rec_inv_def shr_suspend set_suspend_def status_ok_def)
  qed
qed

subsection \<open>Sequences of reconciles\<close>

text \<open>A run of reconciles that read the stored resource, one per environment.\<close>

definition reconcile_machine :: "rec_machine \<Rightarrow> rec_env \<Rightarrow> rec_machine" where
  "reconcile_machine m env =
     \<lparr>rm_World = snd (StuckHeightRecovery_Reconcile env (Inr (rw_Stored (rm_World m))) (rm_World m)),
      rm_Seen = (\<lambda>ob. rm_Seen m ob \<or> observes env ob)\<rparr>"

definition machine_run :: "rec_machine \<Rightarrow> rec_env list \<Rightarrow> rec_machine" where
  "machine_run m envs = foldl reconcile_machine m envs"

lemma reach_run:
  "reach fresh_recovery shr_step m \<Longrightarrow> \<forall>env \<in> set envs. env_ok env \<Longrightarrow> reach fresh_recovery shr_step (machine_run m envs)"
proof (induction envs arbitrary: m)
  case (Cons env envs)
  have "shr_step m (reconcile_machine m env)"
    unfolding reconcile_machine_def using Cons.prems(2) by (intro shr_reconcile) (simp_all add: read_ok_def)
  from Cons.IH [OF reach_step [OF Cons.prems(1) this]] show ?case using Cons.prems(2) by (simp add: machine_run_def)
qed (simp add: machine_run_def)

text \<open>A sample: a recovery with snapshots for the sample full node, in a cluster that accepts every call.\<close>

definition sample_recovery :: StuckHeightRecovery where
  "sample_recovery = \<lparr>shr_Meta = emptyMeta\<lparr>om_Name := ''fix'', om_Namespace := ''chains'', om_Generation := 1\<rparr>,
     shr_Spec = \<lparr>sr_FullNodeRef = \<lparr>fr_Name = ''osmo''\<rparr>, sr_StuckDuration = ''10m'', sr_RecoveryScript = ''rm -rf data'',
       sr_PodTemplate = None, sr_CreateVolumeSnapshot = True, sr_VolumeSnapshotClassName = [], sr_MaxRetries = None,
       sr_RateLimitWindow = [], sr_Suspend = False\<rparr>,
     shr_Status = \<lparr>ssr_Phase = StuckHeightRecoveryPhaseNone, ssr_LastRecoveryTime = None, ssr_RecoveryAttempts = 0,
       ssr_RateLimitWindowStart = None, ssr_LastObservedHeight = 0, ssr_LastHeightUpdateTime = None, ssr_StuckPodName = [],
       ssr_VolumeSnapshotName = [], ssr_RecoveryPodName = [], ssr_Message = [], ssr_ObservedGeneration = 0\<rparr>\<rparr>"

definition sample_machine :: rec_machine where
  "sample_machine = \<lparr>rm_World = \<lparr>rw_Stored = sample_recovery, rw_Snapshots = [], rw_Pods = [], rw_Calls = []\<rparr>, rm_Seen = (\<lambda>_. False)\<rparr>"

definition chain_pod :: Pod where
  "chain_pod = \<lparr>ob_Kind = ''Pod'', ob_APIVersion = ''v1'', ob_Meta = emptyMeta,
     ob_Body = \<lparr>pb_Spec = emptyPodSpec\<lparr>ps_Volumes := [\<lparr>vol_Name = ''vol-chain-home'', vol_Source = PersistentVolumeClaimSource ''pvc-osmo-0''\<rparr>]\<rparr>,
       pb_Status = emptyPodStatus\<rparr>\<rparr>"

definition ready_snapshot :: VolumeSnapshot where
  "ready_snapshot = \<lparr>ob_Kind = [], ob_APIVersion = [], ob_Meta = emptyMeta, ob_Body = \<lparr>vs_SourcePVC = None, vs_ClassName = None,
     vs_Status = Some \<lparr>vss_ReadyToUse = Some True, vss_CreationTime = None, vss_RestoreSize = None\<rparr>\<rparr>\<rparr>"

definition sample_owner :: OwnerReference where
  "sample_owner = \<lparr>or_APIVersion = [], or_Kind = [], or_Name = ''fix'', or_Controller = Some True\<rparr>"

definition sample_env :: "time \<Rightarrow> rec_env" where
  "sample_env t = \<lparr>ev_Clock = (\<lambda>i. t * time_Second), ev_FullNode = (\<lambda>_. Inr sample_crd), ev_Pod = (\<lambda>_. Inr chain_pod),
     ev_Snapshot = (\<lambda>_. Inr ready_snapshot), ev_Server = (\<lambda>_ _. None), ev_Trunc = id,
     ev_RefSnapshot = ref_setref sample_owner, ev_RefPod = ref_setref sample_owner\<rparr>"

lemma sample_env_ok: "env_ok (sample_env t)"
  by (simp add: env_ok_def sample_env_def ref_setref_ok mono_def)

lemma sample_reach: "reach fresh_recovery shr_step (machine_run sample_machine (map sample_env ts))"
  by (intro reach_run reach_init)
    (auto simp: sample_env_ok sample_machine_def fresh_recovery_def sample_recovery_def maxRetries_def DefaultMaxRetries_def)

lemma sample_run_pods:
  "map GetName (rw_Pods (rm_World (machine_run sample_machine (map sample_env [1, 700, 701, 702, 703])))) = [] \<and>
   map GetName (rw_Pods (rm_World (machine_run sample_machine (map sample_env [1, 700, 701, 702, 703, 704])))) = [''fix-recovery-osmo-0'']"
  by code_simp

subsection \<open>Properties of runs\<close>

text \<open>Only the handler of the phase \<open>RunningRecovery\<close> creates a pod, and only the one it builds.\<close>

lemma pods_update [simp]: "rw_Pods (snd (request env (StatusUpdateCall r) w)) = rw_Pods w"
  by (simp add: request_def Let_def split: option.split)

lemma pods_snapshot: "CreateSnapshot env r pvc w = (res, w') \<Longrightarrow> rw_Pods w' = rw_Pods w"
  by (auto simp: CreateSnapshot_def request_def Let_def split: sum.splits prod.splits option.splits)

lemma pods_CreatePod:
  assumes "CreatePod env r podName pvc h w = (res, w')"
  shows "rw_Pods w' = rw_Pods w \<or> (\<exists>p. ev_RefPod env (BuildPod r podName pvc h) = Inr p \<and> rw_Pods w' = p # rw_Pods w)"
  using assms by (auto simp: CreatePod_def request_def Let_def split: sum.splits prod.splits option.splits)

lemma pods_handle_phase:
  assumes "rw_Pods (snd (handle_phase p env r crd w)) \<noteq> rw_Pods w"
  shows "p = StuckHeightRecoveryPhaseRunningRecovery \<and>
    (\<exists>pvc pod. GetPVCForPod (ev_Pod env) (om_Namespace (shr_Meta r)) (ssr_StuckPodName (shr_Status r)) = Inr pvc \<and>
       ev_RefPod env (BuildPod r (ssr_StuckPodName (shr_Status r)) pvc (ssr_LastObservedHeight (shr_Status r))) = Inr pod \<and>
       rw_Pods (snd (handle_phase p env r crd w)) = pod # rw_Pods w)"
proof -
  have snap: "rw_Pods (snd (handleCreatingSnapshot env r w)) = rw_Pods w"
    by (auto simp: handleCreatingSnapshot_def dest: pods_snapshot split: sum.split prod.split)
  have mon: "rw_Pods (snd (handleMonitoring env r crd w)) = rw_Pods w"
    by (auto simp: handleMonitoring_def Let_def case_prod_beta split: sum.split option.split)
  have rest: "rw_Pods (snd (handleHeightStuck env r crd w)) = rw_Pods w" "rw_Pods (snd (handleWaitingForSnapshot env r w)) = rw_Pods w"
    "rw_Pods (snd (handleWaitingForRecovery env r w)) = rw_Pods w" "rw_Pods (snd (handleRecoveryComplete env r w)) = rw_Pods w"
    "rw_Pods (snd (handleRecoveryFailed env r w)) = rw_Pods w" "rw_Pods (snd (handleRateLimited env r crd w)) = rw_Pods w"
    by (auto simp: handleHeightStuck_def handleWaitingForSnapshot_def handleWaitingForRecovery_def handleRecoveryComplete_def
      handleRecoveryFailed_def handleRateLimited_def Let_def split: sum.split)
  have p: "p = StuckHeightRecoveryPhaseRunningRecovery"
    using assms snap mon rest by (cases p) simp_all
  have "rw_Pods (snd (handleRunningRecovery env r crd w)) \<noteq> rw_Pods w" using assms p by simp
  then show ?thesis unfolding p handle_phase.simps
    by (auto simp: handleRunningRecovery_def dest!: pods_CreatePod split: sum.splits prod.splits)
qed

text \<open>The server may refuse every snapshot, as it does where volume snapshots are not installed. Then none is created; and
  a recovery that asks for snapshots runs no script without one.\<close>

definition snapshots_refused :: "rec_env \<Rightarrow> bool" where
  "snapshots_refused env \<longleftrightarrow> (\<forall>cs s. ev_Server env cs (CreateSnapshotCall s) \<noteq> None)"

lemma snaps_update [simp]: "rw_Snapshots (snd (request env (StatusUpdateCall r) w)) = rw_Snapshots w"
  by (simp add: request_def Let_def split: option.split)

lemma snaps_refused: "snapshots_refused env \<Longrightarrow> CreateSnapshot env r pvc w = (res, w') \<Longrightarrow> rw_Snapshots w' = rw_Snapshots w"
  unfolding snapshots_refused_def
  by (auto simp: CreateSnapshot_def request_def Let_def simp del: not_None_eq split: sum.splits prod.splits option.splits)

lemma snaps_CreatePod: "CreatePod env r podName pvc h w = (res, w') \<Longrightarrow> rw_Snapshots w' = rw_Snapshots w"
  by (auto simp: CreatePod_def request_def Let_def split: sum.splits prod.splits option.splits)

lemma refused_handle_phase:
  assumes "snapshots_refused env"
  shows "rw_Snapshots (snd (handle_phase p env r crd w)) = rw_Snapshots w"
proof -
  have "rw_Snapshots (snd (handleCreatingSnapshot env r w)) = rw_Snapshots w"
    using assms by (auto simp: handleCreatingSnapshot_def dest: snaps_refused split: sum.split prod.split)
  moreover have "rw_Snapshots (snd (handleMonitoring env r crd w)) = rw_Snapshots w"
    by (auto simp: handleMonitoring_def Let_def case_prod_beta split: sum.split option.split)
  moreover have "rw_Snapshots (snd (handleRunningRecovery env r crd w)) = rw_Snapshots w"
    by (auto simp: handleRunningRecovery_def dest: snaps_CreatePod split: sum.split prod.split)
  moreover have "rw_Snapshots (snd (handleHeightStuck env r crd w)) = rw_Snapshots w"
      "rw_Snapshots (snd (handleWaitingForSnapshot env r w)) = rw_Snapshots w"
      "rw_Snapshots (snd (handleWaitingForRecovery env r w)) = rw_Snapshots w" "rw_Snapshots (snd (handleRecoveryComplete env r w)) = rw_Snapshots w"
      "rw_Snapshots (snd (handleRecoveryFailed env r w)) = rw_Snapshots w" "rw_Snapshots (snd (handleRateLimited env r crd w)) = rw_Snapshots w"
    by (auto simp: handleHeightStuck_def handleWaitingForSnapshot_def handleWaitingForRecovery_def handleRecoveryComplete_def
      handleRecoveryFailed_def handleRateLimited_def Let_def split: sum.split)
  ultimately show ?thesis by (cases p) simp_all
qed

lemma no_snapshot_no_script:
  assumes "reach fresh_recovery shr_step m" and "read_ok got (rm_World m)" and "snapshots_refused env"
    and "sr_CreateVolumeSnapshot (shr_Spec (rw_Stored (rm_World m)))" and "rw_Snapshots (rm_World m) = []"
  shows "rw_Snapshots (snd (StuckHeightRecovery_Reconcile env got (rm_World m))) = [] \<and>
    rw_Pods (snd (StuckHeightRecovery_Reconcile env got (rm_World m))) = rw_Pods (rm_World m)"
proof -
  let ?w = "rm_World m"
  have inv: "status_ok (rm_Seen m) ?w (shr_Status (rw_Stored ?w))"
    using shr.reach_inv [OF assms(1)] by (simp add: rec_inv_def)
  then have "ssr_Phase (shr_Status (rw_Stored ?w)) \<noteq> StuckHeightRecoveryPhaseRunningRecovery"
    using assms(4,5) by (auto simp: status_ok_def newest_of_def)
  then have "rw_Pods (snd (handle_phase (ssr_Phase (shr_Status (rw_Stored ?w))) env r crd ?w)) = rw_Pods ?w" for r crd
    using pods_handle_phase by blast
  with refused_handle_phase [OF assms(3)] show ?thesis
    using assms(2,5) by (auto simp: StuckHeightRecovery_Reconcile_def read_ok_def Let_def split: sum.split)
qed

text \<open>C32: The script runs on a saved volume. When a recovery asks for snapshots, a reconcile creates a
  recovery pod only while the newest snapshot that the operator created for the recovery is the one
  named in the status, was taken of a claim that an earlier reconcile found the stuck pod to mount, and was found
  ready to use by an earlier reconcile; the pod runs the configured script on the claim that the
  stuck pod mounts now. Reconciles read the stored resource, and the user suspends and resumes it.\<close>

theorem snapshot_before_script:
  assumes "reach fresh_recovery shr_step m" and "env_ok env" and "read_ok got (rm_World m)"
    and "sr_CreateVolumeSnapshot (shr_Spec (rw_Stored (rm_World m)))"
    and "rw_Pods (snd (StuckHeightRecovery_Reconcile env got (rm_World m))) \<noteq> rw_Pods (rm_World m)"
  shows "\<exists>p pvc s rest c. rw_Pods (snd (StuckHeightRecovery_Reconcile env got (rm_World m))) = p # rw_Pods (rm_World m) \<and>
    rw_Snapshots (rm_World m) = s # rest \<and> GetName s = ssr_VolumeSnapshotName (shr_Status (rw_Stored (rm_World m))) \<and>
    rm_Seen m (SeenReady (ObjectKey (om_Namespace (shr_Meta (rw_Stored (rm_World m)))) (GetName s))) \<and>
    vs_SourcePVC (ob_Body s) = Some c \<and>
    rm_Seen m (SeenClaim (ObjectKey (om_Namespace (shr_Meta (rw_Stored (rm_World m)))) (ssr_StuckPodName (shr_Status (rw_Stored (rm_World m))))) c) \<and>
    GetPVCForPod (ev_Pod env) (om_Namespace (shr_Meta (rw_Stored (rm_World m)))) (ssr_StuckPodName (shr_Status (rw_Stored (rm_World m)))) = Inr pvc \<and>
    map ct_Args (ps_Containers (pod_Spec p)) = [[''-c'', sr_RecoveryScript (shr_Spec (rw_Stored (rm_World m)))]] \<and>
    \<lparr>vol_Name = ''chain-data'', vol_Source = PersistentVolumeClaimSource pvc\<rparr> \<in> set (ps_Volumes (pod_Spec p))"
proof -
  let ?w = "rm_World m"
  have inv: "status_ok (rm_Seen m) ?w (shr_Status (rw_Stored ?w))"
    using shr.reach_inv [OF assms(1)] by (simp add: rec_inv_def)
  obtain r where got: "got = Inr r" using assms(5) by (cases got) (auto simp: StuckHeightRecovery_Reconcile_def split: if_splits)
  then have r: "r = rw_Stored ?w" using assms(3) by (simp add: read_ok_def)
  let ?r = "set_status (\<lambda>st. st\<lparr>ssr_ObservedGeneration := om_Generation (shr_Meta r)\<rparr>) r"
  obtain crd where e: "snd (StuckHeightRecovery_Reconcile env got ?w) = snd (handle_phase (ssr_Phase (shr_Status ?r)) env ?r crd ?w)"
    using assms(5) got by (auto simp: StuckHeightRecovery_Reconcile_def Let_def split: if_splits sum.splits)
  obtain pvc pod where p: "ssr_Phase (shr_Status ?r) = StuckHeightRecoveryPhaseRunningRecovery"
      "GetPVCForPod (ev_Pod env) (om_Namespace (shr_Meta ?r)) (ssr_StuckPodName (shr_Status ?r)) = Inr pvc"
      "ev_RefPod env (BuildPod ?r (ssr_StuckPodName (shr_Status ?r)) pvc (ssr_LastObservedHeight (shr_Status ?r))) = Inr pod"
      "rw_Pods (snd (handle_phase (ssr_Phase (shr_Status ?r)) env ?r crd ?w)) = pod # rw_Pods ?w"
    using pods_handle_phase [OF assms(5) [unfolded e]] by blast
  have body: "ob_Body pod = ob_Body (BuildPod ?r (ssr_StuckPodName (shr_Status ?r)) pvc (ssr_LastObservedHeight (shr_Status ?r)))"
    using assms(2) p(3) by (metis env_ok_def setref_body)
  obtain s rest c where "rw_Snapshots ?w = s # rest" "GetName s = ssr_VolumeSnapshotName (shr_Status (rw_Stored ?w))"
      "rm_Seen m (SeenReady (ObjectKey (om_Namespace (shr_Meta (rw_Stored ?w))) (GetName s)))" "vs_SourcePVC (ob_Body s) = Some c"
      "rm_Seen m (SeenClaim (ObjectKey (om_Namespace (shr_Meta (rw_Stored ?w))) (ssr_StuckPodName (shr_Status (rw_Stored ?w)))) c)"
    using inv p(1) assms(4) r by (auto simp: status_ok_def newest_of_def)
  moreover have "map ct_Args (ps_Containers (pod_Spec pod)) = [[''-c'', sr_RecoveryScript (shr_Spec (rw_Stored ?w))]]"
    "\<lparr>vol_Name = ''chain-data'', vol_Source = PersistentVolumeClaimSource pvc\<rparr> \<in> set (ps_Volumes (pod_Spec pod))"
    by (simp_all add: body BuildPod_def Let_def r)
  ultimately show ?thesis unfolding e p(4) using p(2) r by auto
qed

theorem snapshot_before_script_witness:
  "\<exists>m env. reach fresh_recovery shr_step m \<and> env_ok env \<and>
     (\<exists>p s rest c. rw_Pods (snd (StuckHeightRecovery_Reconcile env (Inr (rw_Stored (rm_World m))) (rm_World m))) = p # rw_Pods (rm_World m) \<and>
        rw_Snapshots (rm_World m) = s # rest \<and> vs_SourcePVC (ob_Body s) = Some c \<and>
        rm_Seen m (SeenReady (ObjectKey (om_Namespace (shr_Meta (rw_Stored (rm_World m)))) (GetName s))))"
proof -
  let ?m = "machine_run sample_machine (map sample_env [1, 700, 701, 702, 703])" and ?env = "sample_env 704"
  let ?w' = "snd (StuckHeightRecovery_Reconcile ?env (Inr (rw_Stored (rm_World ?m))) (rm_World ?m))"
  have "rm_World (machine_run sample_machine (map sample_env [1, 700, 701, 702, 703, 704])) = ?w'"
    by (simp add: machine_run_def reconcile_machine_def)
  then have pods: "rw_Pods ?w' \<noteq> rw_Pods (rm_World ?m)" using sample_run_pods by (metis list.distinct(1))
  have cvs: "sr_CreateVolumeSnapshot (shr_Spec (rw_Stored (rm_World ?m)))" by code_simp
  have "read_ok (Inr (rw_Stored (rm_World ?m))) (rm_World ?m)" by (simp add: read_ok_def)
  from snapshot_before_script [OF sample_reach sample_env_ok this cvs pods]
  show ?thesis using sample_reach sample_env_ok by blast
qed

text \<open>A suspended recovery never resumes. Once the phase is \<open>Suspended\<close>, it stays so through every
  sequence of reconciles that find the full node, whether or not the user has lifted the suspension
  before each of them, and no snapshot or pod is ever created: no case of the switch handles the
  phase.\<close>

theorem suspended_forever:
  assumes "ssr_Phase (shr_Status (rw_Stored w)) = StuckHeightRecoveryPhaseSuspended"
    and "\<forall>(b, env) \<in> set steps. \<forall>k. \<exists>crd. ev_FullNode env k = Inr crd"
  shows "let w' = foldl (\<lambda>w (b, env). snd (StuckHeightRecovery_Reconcile env (Inr (rw_Stored (set_suspend b w))) (set_suspend b w))) w steps
    in ssr_Phase (shr_Status (rw_Stored w')) = StuckHeightRecoveryPhaseSuspended \<and>
       rw_Pods w' = rw_Pods w \<and> rw_Snapshots w' = rw_Snapshots w \<and> rw_Calls w' = rw_Calls w"
  using assms
proof (induction steps arbitrary: w)
  case (Cons step steps)
  obtain b env where step: "step = (b, env)" by (cases step)
  have found: "\<exists>crd. ev_FullNode env k = Inr crd" for k using Cons.prems(2) step by auto
  let ?v = "set_suspend b w"
  have v: "ssr_Phase (shr_Status (rw_Stored ?v)) = StuckHeightRecoveryPhaseSuspended"
    "rw_Pods ?v = rw_Pods w" "rw_Snapshots ?v = rw_Snapshots w" "rw_Calls ?v = rw_Calls w"
    using Cons.prems(1) by (simp_all add: set_suspend_def)
  obtain crd where "ev_FullNode env (ObjectKey (om_Namespace (shr_Meta (rw_Stored ?v)))
      (fr_Name (sr_FullNodeRef (shr_Spec (rw_Stored ?v))))) = Inr crd" using found by blast
  then have "snd (StuckHeightRecovery_Reconcile env (Inr (rw_Stored ?v)) ?v) = ?v"
    by (simp add: StuckHeightRecovery_Reconcile_def v Let_def)
  with Cons.IH [of ?v] Cons.prems(2) v step show ?case by (simp add: Let_def)
qed simp

theorem suspended_forever_witness:
  "let w = (rm_World sample_machine)\<lparr>rw_Stored := set_status (set_phase StuckHeightRecoveryPhaseSuspended []) sample_recovery\<rparr>;
       w' = foldl (\<lambda>w (b, env). snd (StuckHeightRecovery_Reconcile env (Inr (rw_Stored (set_suspend b w))) (set_suspend b w))) w
         [(True, sample_env 1), (False, sample_env 900), (False, sample_env 1800)]
   in \<not> sr_Suspend (shr_Spec (rw_Stored w)) \<and> ssr_Phase (shr_Status (rw_Stored w')) = StuckHeightRecoveryPhaseSuspended"
  using suspended_forever [of "(rm_World sample_machine)\<lparr>rw_Stored := set_status (set_phase StuckHeightRecoveryPhaseSuspended []) sample_recovery\<rparr>"
      "[(True, sample_env 1), (False, sample_env 900), (False, sample_env 1800)]"]
  unfolding Let_def by (simp add: sample_env_def sample_recovery_def del: foldl_Cons)

subsection \<open>A stuck height is recovered\<close>

definition favourable :: "string \<Rightarrow> uint64 \<Rightarrow> string \<Rightarrow> time \<Rightarrow> duration \<Rightarrow> rec_env \<Rightarrow> bool" where
  "favourable pod h pvc t d env \<longleftrightarrow> env_ok env \<and> (\<forall>cs c. ev_Server env cs c = None) \<and>
     (\<forall>k. \<exists>crd rest. ev_FullNode env k = Inr crd \<and> st_Height (fn_Status crd) = (pod, h) # rest) \<and>
     (\<forall>k. \<exists>p. ev_Pod env k = Inr p \<and> claim_loop (ps_Volumes (pod_Spec p)) = Some pvc) \<and>
     (\<forall>k. shown_ready env k) \<and> d \<le> time_Sub (ev_Clock env 0) t"

text \<open>What a step of a favourable run changes of the world, besides counters, messages and times.\<close>

definition moved :: "rec_env \<Rightarrow> rec_world \<Rightarrow> StuckHeightRecoveryPhase \<Rightarrow> string \<Rightarrow> Pod list \<Rightarrow> bool" where
  "moved env w phase stuck new \<longleftrightarrow>
     (let w' = snd (StuckHeightRecovery_Reconcile env (Inr (rw_Stored w)) w)
      in shr_Spec (rw_Stored w') = shr_Spec (rw_Stored w) \<and> shr_Meta (rw_Stored w') = shr_Meta (rw_Stored w) \<and>
         ssr_Phase (shr_Status (rw_Stored w')) = phase \<and> ssr_StuckPodName (shr_Status (rw_Stored w')) = stuck \<and>
         ssr_RateLimitWindowStart (shr_Status (rw_Stored w')) = map_option (ev_Trunc env)
           (if ssr_Phase (shr_Status (rw_Stored w)) = StuckHeightRecoveryPhaseHeightStuck
            then Some (ev_Clock env 1) else ssr_RateLimitWindowStart (shr_Status (rw_Stored w))) \<and>
         rw_Pods w' = new @ rw_Pods w)"

lemma favourable_request:
  "favourable pod h pvc t d env \<Longrightarrow> request env c w = (None, perform env c (w\<lparr>rw_Calls := rw_Calls w @ [c]\<rparr>))"
  by (simp add: favourable_def request_def Let_def)

lemma favourable_reads:
  assumes "favourable pod h pvc t d env"
  obtains crd rest where "ev_FullNode env k = Inr crd" "st_Height (fn_Status crd) = (pod, h) # rest"
  using assms unfolding favourable_def by metis

lemma favourable_claim: "favourable pod h pvc t d env \<Longrightarrow> GetPVCForPod (ev_Pod env) ns n = Inr pvc"
  unfolding favourable_def GetPVCForPod_def by (metis option.simps(5) sum.simps(6))

lemma favourable_snapshot: "favourable pod h pvc t d env \<Longrightarrow> CheckSnapshotReady (ev_Snapshot env) ns n = Inr True"
  unfolding favourable_def CheckSnapshotReady_def shown_ready_def by (auto split: sum.splits)

lemma reconcile_favourable:
  assumes "favourable pod h pvc t d env" and "\<not> sr_Suspend (shr_Spec (rw_Stored w))"
  obtains crd rest where "st_Height (fn_Status crd) = (pod, h) # rest"
    "StuckHeightRecovery_Reconcile env (Inr (rw_Stored w)) w =
       handle_phase (ssr_Phase (shr_Status (rw_Stored w))) env
         (set_status (\<lambda>st. st\<lparr>ssr_ObservedGeneration := om_Generation (shr_Meta (rw_Stored w))\<rparr>) (rw_Stored w)) crd w"
proof -
  obtain crd rest where crd: "st_Height (fn_Status crd) = (pod, h) # rest"
      "ev_FullNode env (ObjectKey (om_Namespace (shr_Meta (rw_Stored w))) (fr_Name (sr_FullNodeRef (shr_Spec (rw_Stored w))))) = Inr crd"
    using favourable_reads [OF assms(1)] by metis
  show ?thesis by (rule that [OF crd(1)]) (use crd(2) assms(2) in \<open>simp add: StuckHeightRecovery_Reconcile_def Let_def\<close>)
qed

lemmas step_defs = moved_def Let_def update_then_def set_status_def set_phase_def stored_status_def

lemma moved_Monitoring:
  assumes f: "favourable pod h pvc t d env" and w: "\<not> sr_Suspend (shr_Spec (rw_Stored w))"
    and s: "shr_Status (rw_Stored w) = st" "ssr_Phase st = StuckHeightRecoveryPhaseMonitoring" "ssr_LastObservedHeight st = h" "h \<noteq> 0"
    "ssr_LastHeightUpdateTime st = Some t" "ParseDuration (sr_StuckDuration (shr_Spec (rw_Stored w))) = Inr d"
  shows "moved env w StuckHeightRecoveryPhaseHeightStuck pod []"
proof -
  obtain crd rest where crd: "st_Height (fn_Status crd) = (pod, h) # rest" and e: "StuckHeightRecovery_Reconcile env (Inr (rw_Stored w)) w =
       handle_phase (ssr_Phase (shr_Status (rw_Stored w))) env
         (set_status (\<lambda>st. st\<lparr>ssr_ObservedGeneration := om_Generation (shr_Meta (rw_Stored w))\<rparr>) (rw_Stored w)) crd w"
    using reconcile_favourable [OF f w] by metis
  have "d \<le> time_Sub (ev_Clock env 0) t" using f by (simp add: favourable_def)
  then show ?thesis unfolding moved_def e
    using s crd by (simp add: handleMonitoring_def CheckStuckHeight_def favourable_request [OF f] step_defs)
qed

lemma moved_HeightStuck:
  assumes f: "favourable pod h pvc t d env" and w: "\<not> sr_Suspend (shr_Spec (rw_Stored w))"
    and s: "shr_Status (rw_Stored w) = st" "ssr_Phase st = StuckHeightRecoveryPhaseHeightStuck" "ssr_RateLimitWindowStart st = None"
    "ParseDuration (rateLimitWindow (shr_Spec (rw_Stored w))) = Inr wd"
  shows "moved env w (if sr_CreateVolumeSnapshot (shr_Spec (rw_Stored w)) then StuckHeightRecoveryPhaseCreatingSnapshot
    else StuckHeightRecoveryPhaseRunningRecovery) (ssr_StuckPodName st) []"
proof -
  obtain crd where e: "StuckHeightRecovery_Reconcile env (Inr (rw_Stored w)) w =
       handle_phase (ssr_Phase (shr_Status (rw_Stored w))) env
         (set_status (\<lambda>st. st\<lparr>ssr_ObservedGeneration := om_Generation (shr_Meta (rw_Stored w))\<rparr>) (rw_Stored w)) crd w"
    using reconcile_favourable [OF f w] by metis
  show ?thesis unfolding moved_def e
    using s by (simp add: handleHeightStuck_def CanAttemptRecovery_def RecordAttempt_def favourable_request [OF f] step_defs)
qed

lemma moved_CreatingSnapshot:
  assumes f: "favourable pod h pvc t d env" and w: "\<not> sr_Suspend (shr_Spec (rw_Stored w))"
    and s: "shr_Status (rw_Stored w) = st" "ssr_Phase st = StuckHeightRecoveryPhaseCreatingSnapshot"
  shows "moved env w StuckHeightRecoveryPhaseWaitingForSnapshot (ssr_StuckPodName st) []"
proof -
  obtain crd where e: "StuckHeightRecovery_Reconcile env (Inr (rw_Stored w)) w =
       handle_phase (ssr_Phase (shr_Status (rw_Stored w))) env
         (set_status (\<lambda>st. st\<lparr>ssr_ObservedGeneration := om_Generation (shr_Meta (rw_Stored w))\<rparr>) (rw_Stored w)) crd w"
    using reconcile_favourable [OF f w] by metis
  have "setref_ok (ev_RefSnapshot env)" using f by (simp add: favourable_def env_ok_def)
  from owned_simps(3) [OF this] show ?thesis unfolding moved_def e
    using s by (simp add: handleCreatingSnapshot_def CreateSnapshot_def favourable_claim [OF f] favourable_request [OF f] step_defs)
qed

lemma moved_WaitingForSnapshot:
  assumes f: "favourable pod h pvc t d env" and w: "\<not> sr_Suspend (shr_Spec (rw_Stored w))"
    and s: "shr_Status (rw_Stored w) = st" "ssr_Phase st = StuckHeightRecoveryPhaseWaitingForSnapshot"
  shows "moved env w StuckHeightRecoveryPhaseRunningRecovery (ssr_StuckPodName st) []"
proof -
  obtain crd where e: "StuckHeightRecovery_Reconcile env (Inr (rw_Stored w)) w =
       handle_phase (ssr_Phase (shr_Status (rw_Stored w))) env
         (set_status (\<lambda>st. st\<lparr>ssr_ObservedGeneration := om_Generation (shr_Meta (rw_Stored w))\<rparr>) (rw_Stored w)) crd w"
    using reconcile_favourable [OF f w] by metis
  show ?thesis unfolding moved_def e
    using s by (simp add: handleWaitingForSnapshot_def favourable_snapshot [OF f] favourable_request [OF f] step_defs)
qed

lemma moved_RunningRecovery:
  assumes f: "favourable pod h pvc t d env" and w: "\<not> sr_Suspend (shr_Spec (rw_Stored w))"
    and s: "shr_Status (rw_Stored w) = st" "ssr_Phase st = StuckHeightRecoveryPhaseRunningRecovery"
  shows "\<exists>p. moved env w StuckHeightRecoveryPhaseWaitingForRecovery (ssr_StuckPodName st) [p] \<and>
    GetName p = om_Name (shr_Meta (rw_Stored w)) @ ''-recovery-'' @ ssr_StuckPodName st \<and>
    map ct_Args (ps_Containers (pod_Spec p)) = [[''-c'', sr_RecoveryScript (shr_Spec (rw_Stored w))]]"
proof -
  obtain crd where e: "StuckHeightRecovery_Reconcile env (Inr (rw_Stored w)) w =
       handle_phase (ssr_Phase (shr_Status (rw_Stored w))) env
         (set_status (\<lambda>st. st\<lparr>ssr_ObservedGeneration := om_Generation (shr_Meta (rw_Stored w))\<rparr>) (rw_Stored w)) crd w"
    using reconcile_favourable [OF f w] by metis
  let ?p = "BuildPod (set_status (\<lambda>st. st\<lparr>ssr_ObservedGeneration := om_Generation (shr_Meta (rw_Stored w))\<rparr>) (rw_Stored w))
    (ssr_StuckPodName st) pvc (ssr_LastObservedHeight st)"
  have ref: "setref_ok (ev_RefPod env)" using f by (simp add: favourable_def env_ok_def)
  have "moved env w StuckHeightRecoveryPhaseWaitingForRecovery (ssr_StuckPodName st) [owned (ev_RefPod env) ?p]"
    unfolding moved_def e using s owned_simps(3) [OF ref]
    by (simp add: handleRunningRecovery_def CreatePod_def favourable_claim [OF f] favourable_request [OF f] step_defs)
  moreover have "GetName (owned (ev_RefPod env) ?p) = GetName ?p" "ob_Body (owned (ev_RefPod env) ?p) = ob_Body ?p"
    using owned_simps(1) [OF ref, of ?p] setref_body [OF ref owned_simps(3) [OF ref]] by (simp_all add: ObjectKeyFromObject_def)
  ultimately show ?thesis by (intro exI [of _ "owned (ev_RefPod env) ?p"]) (simp add: BuildPod_def Let_def GetName_def)
qed

text \<open>C33: A stuck height is recovered. When a node's height has not moved for the stuck duration, no
  attempt was counted yet and the cluster answers favourably, three reconciles (five, with a snapshot
  before the script) create one recovery pod, named after the stuck pod, that runs the script, and
  leave the resource waiting for it.\<close>

theorem recovery_starts:
  assumes "\<forall>env \<in> set envs. favourable pod h pvc t d env"
    and "length envs = (if sr_CreateVolumeSnapshot (shr_Spec (rw_Stored w)) then 5 else 3)"
    and "\<not> sr_Suspend (shr_Spec (rw_Stored w))" and "shr_Status (rw_Stored w) = st"
    and "ssr_Phase st = StuckHeightRecoveryPhaseMonitoring" and "ssr_LastObservedHeight st = h" and "h \<noteq> 0"
    and "ssr_LastHeightUpdateTime st = Some t" and "ssr_RateLimitWindowStart st = None"
    and "ParseDuration (sr_StuckDuration (shr_Spec (rw_Stored w))) = Inr d"
    and "ParseDuration (rateLimitWindow (shr_Spec (rw_Stored w))) = Inr wd"
  shows "let w' = foldl (\<lambda>w env. snd (StuckHeightRecovery_Reconcile env (Inr (rw_Stored w)) w)) w envs
    in ssr_Phase (shr_Status (rw_Stored w')) = StuckHeightRecoveryPhaseWaitingForRecovery \<and>
       (\<exists>p. rw_Pods w' = p # rw_Pods w \<and> GetName p = om_Name (shr_Meta (rw_Stored w)) @ ''-recovery-'' @ pod \<and>
          map ct_Args (ps_Containers (pod_Spec p)) = [[''-c'', sr_RecoveryScript (shr_Spec (rw_Stored w))]])"
proof -
  let ?step = "\<lambda>w env. snd (StuckHeightRecovery_Reconcile env (Inr (rw_Stored w)) w)"
  obtain e1 e2 es where es: "envs = e1 # e2 # es"
    using assms(2) by (auto simp: numeral_eq_Suc length_Suc_conv split: if_splits)
  define w1 where "w1 = ?step w e1"
  define w2 where "w2 = ?step w1 e2"
  have 1: "moved e1 w StuckHeightRecoveryPhaseHeightStuck pod []"
    using assms es by (intro moved_Monitoring [of pod h pvc t d]) simp_all
  then have w1: "\<not> sr_Suspend (shr_Spec (rw_Stored w1))" "shr_Spec (rw_Stored w1) = shr_Spec (rw_Stored w)"
      "shr_Meta (rw_Stored w1) = shr_Meta (rw_Stored w)" "ssr_Phase (shr_Status (rw_Stored w1)) = StuckHeightRecoveryPhaseHeightStuck"
      "ssr_StuckPodName (shr_Status (rw_Stored w1)) = pod" "ssr_RateLimitWindowStart (shr_Status (rw_Stored w1)) = None" "rw_Pods w1 = rw_Pods w"
    using assms(3-5,9) by (simp_all add: moved_def Let_def w1_def)
  have 2: "moved e2 w1 (if sr_CreateVolumeSnapshot (shr_Spec (rw_Stored w)) then StuckHeightRecoveryPhaseCreatingSnapshot
      else StuckHeightRecoveryPhaseRunningRecovery) pod []"
    using moved_HeightStuck [OF _ w1(1) refl w1(4,6), of pod h pvc t d e2 wd] assms(1,11) es unfolding w1(2,5) by simp
  then have w2: "shr_Spec (rw_Stored w2) = shr_Spec (rw_Stored w)" "shr_Meta (rw_Stored w2) = shr_Meta (rw_Stored w)"
      "ssr_Phase (shr_Status (rw_Stored w2)) = (if sr_CreateVolumeSnapshot (shr_Spec (rw_Stored w)) then StuckHeightRecoveryPhaseCreatingSnapshot
         else StuckHeightRecoveryPhaseRunningRecovery)" "ssr_StuckPodName (shr_Status (rw_Stored w2)) = pod" "rw_Pods w2 = rw_Pods w"
    using w1 by (simp_all add: moved_def Let_def w2_def)
  obtain v e where v: "foldl ?step w envs = ?step v e" "e \<in> set envs" "shr_Spec (rw_Stored v) = shr_Spec (rw_Stored w)"
      "shr_Meta (rw_Stored v) = shr_Meta (rw_Stored w)" "ssr_Phase (shr_Status (rw_Stored v)) = StuckHeightRecoveryPhaseRunningRecovery"
      "ssr_StuckPodName (shr_Status (rw_Stored v)) = pod" "rw_Pods v = rw_Pods w"
  proof (cases "sr_CreateVolumeSnapshot (shr_Spec (rw_Stored w))")
    case False
    then obtain e3 where "es = [e3]" using assms(2) es by (auto simp: length_Suc_conv)
    with False w2 show thesis by (intro that [of e3 w2]) (simp_all add: es w1_def w2_def)
  next
    case True
    then obtain e3 e4 e5 where es': "es = [e3, e4, e5]" using assms(2) es by (auto simp: numeral_eq_Suc length_Suc_conv)
    define w3 where "w3 = ?step w2 e3"
    have "moved e3 w2 StuckHeightRecoveryPhaseWaitingForSnapshot pod []"
      using moved_CreatingSnapshot [of pod h pvc t d e3 w2, OF _ _ refl] assms(1,3) es es' w2 True by simp
    then have w3: "shr_Spec (rw_Stored w3) = shr_Spec (rw_Stored w)" "shr_Meta (rw_Stored w3) = shr_Meta (rw_Stored w)"
        "ssr_Phase (shr_Status (rw_Stored w3)) = StuckHeightRecoveryPhaseWaitingForSnapshot"
        "ssr_StuckPodName (shr_Status (rw_Stored w3)) = pod" "rw_Pods w3 = rw_Pods w"
      using w2 by (simp_all add: moved_def Let_def w3_def)
    have "moved e4 w3 StuckHeightRecoveryPhaseRunningRecovery pod []"
      using moved_WaitingForSnapshot [of pod h pvc t d e4 w3, OF _ _ refl] assms(1,3) es es' w3 by simp
    with w3 show thesis by (intro that [of e5 "?step w3 e4"]) (simp_all add: es es' w1_def w2_def w3_def moved_def Let_def)
  qed
  obtain p where "moved e v StuckHeightRecoveryPhaseWaitingForRecovery pod [p]"
      "GetName p = om_Name (shr_Meta (rw_Stored w)) @ ''-recovery-'' @ pod"
      "map ct_Args (ps_Containers (pod_Spec p)) = [[''-c'', sr_RecoveryScript (shr_Spec (rw_Stored w))]]"
    using moved_RunningRecovery [of pod h pvc t d e v, OF _ _ refl v(5)] assms(1,3) v by auto
  with v show ?thesis by (simp add: moved_def Let_def)
qed

text \<open>The sample recovery after its first observation of the height.\<close>

definition observed_world :: rec_world where
  "observed_world = rm_World (machine_run sample_machine [sample_env 1])"

theorem recovery_starts_witness:
  "ssr_Phase (shr_Status (rw_Stored (foldl (\<lambda>w env. snd (StuckHeightRecovery_Reconcile env (Inr (rw_Stored w)) w))
     observed_world (map sample_env [700, 701, 702, 703, 704])))) = StuckHeightRecoveryPhaseWaitingForRecovery"
proof -
  have fav: "favourable ''osmo-0'' 150 ''pvc-osmo-0'' time_Second (600 * time_Second) (sample_env t)" if "700 \<le> t" "t \<le> 1000" for t
    using that sample_env_ok by (simp add: favourable_def sample_env_def sample_crd_defs chain_pod_def ready_snapshot_def shown_ready_def
      VolumeSnapshotIsReady_def time_Sub_def minDuration_def maxDuration_def time_Second_def)
  have o: "shr_Spec (rw_Stored observed_world) = shr_Spec sample_recovery"
      "ssr_Phase (shr_Status (rw_Stored observed_world)) = StuckHeightRecoveryPhaseMonitoring"
      "ssr_LastObservedHeight (shr_Status (rw_Stored observed_world)) = 150"
      "ssr_LastHeightUpdateTime (shr_Status (rw_Stored observed_world)) = Some time_Second"
      "ssr_RateLimitWindowStart (shr_Status (rw_Stored observed_world)) = None"
    by code_simp+
  have d: "ParseDuration (sr_StuckDuration (shr_Spec sample_recovery)) = Inr (600 * time_Second)"
      "ParseDuration (rateLimitWindow (shr_Spec sample_recovery)) = Inr (300 * time_Second)"
    by code_simp+
  show ?thesis
    using recovery_starts [of "map sample_env [700, 701, 702, 703, 704]" "''osmo-0''" 150 "''pvc-osmo-0''" time_Second "600 * time_Second"
        observed_world "shr_Status (rw_Stored observed_world)" "300 * time_Second"] fav o d
    by (simp add: Let_def sample_recovery_def del: foldl_Cons)
qed

end
