(* ===== verification/Recovery_Limit.thy ===== *)
theory Recovery_Limit
  imports Stuck_Height_Controller
begin

text \<open>
  The rate limit of recoveries, \<^verbatim>\<open>internal/stuckheight/rate_limiter.go\<close> as it is used by
  \<^verbatim>\<open>controllers/stuckheightrecovery_controller.go\<close>, against an abstract limiter. The abstract limiter sees what
  happens to the resource, not how the code counts: a recovery starts when the phase enters one of the
  phases of a recovery, and a new height ends the window. The status of the resource refines it.
\<close>

subsection \<open>The abstract limiter\<close>

record limiter =
  lm_Window :: "time option"
  lm_Count :: nat

definition closed_window :: limiter where "closed_window = \<lparr>lm_Window = None, lm_Count = 0\<rparr>"

text \<open>A window is open from its start for the duration of the spec. The first recovery that starts while none is
  open opens one.\<close>

definition window_open :: "StuckHeightRecoverySpec \<Rightarrow> time \<Rightarrow> limiter \<Rightarrow> bool" where
  "window_open spec now l =
     (case lm_Window l of
        None \<Rightarrow> False
      | Some start \<Rightarrow> (case ParseDuration (rateLimitWindow spec) of Inl _ \<Rightarrow> False | Inr d \<Rightarrow> time_Sub now start < d))"

definition recovery_started :: "StuckHeightRecoverySpec \<Rightarrow> time \<Rightarrow> time \<Rightarrow> limiter \<Rightarrow> limiter" where
  "recovery_started spec start now l =
     (if window_open spec now l then l\<lparr>lm_Count := Suc (lm_Count l)\<rparr> else \<lparr>lm_Window = Some start, lm_Count = 1\<rparr>)"

text \<open>What a reconcile does to the limiter, from the stored resource before and after it.\<close>

definition limiter_sees :: "rec_env \<Rightarrow> StuckHeightRecovery \<Rightarrow> StuckHeightRecovery \<Rightarrow> limiter \<Rightarrow> limiter" where
  "limiter_sees env before after l =
     (if ssr_LastObservedHeight (shr_Status after) \<noteq> ssr_LastObservedHeight (shr_Status before) then closed_window
      else if recovering (ssr_Phase (shr_Status after)) \<and> \<not> recovering (ssr_Phase (shr_Status before))
      then recovery_started (shr_Spec before) (ev_Trunc env (ev_Clock env 1)) (ev_Clock env 2) l
      else l)"

subsection \<open>Runs\<close>

text \<open>
  The controller with an abstract limiter beside it. Reconciles read the stored resource in any environment
  that stores times with the resolution \<open>trunc\<close>; the user may edit the spec, but for the limit.
\<close>

record limit_machine =
  lg_World :: rec_world
  lg_Limiter :: limiter

definition edit_spec :: "StuckHeightRecoverySpec \<Rightarrow> rec_world \<Rightarrow> rec_world" where
  "edit_spec spec w = w\<lparr>rw_Stored := (rw_Stored w)\<lparr>shr_Spec := spec\<rparr>\<rparr>"

definition fresh_limit :: "limit_machine \<Rightarrow> bool" where
  "fresh_limit m \<longleftrightarrow>
     (let st = shr_Status (rw_Stored (lg_World m))
      in ssr_Phase st = StuckHeightRecoveryPhaseNone \<and> ssr_RecoveryAttempts st = 0 \<and> ssr_RateLimitWindowStart st = None \<and>
         maxRetries (shr_Spec (rw_Stored (lg_World m))) < 2 ^ 31 \<and> lg_Limiter m = closed_window)"

inductive limit_step :: "(time \<Rightarrow> time) \<Rightarrow> limit_machine \<Rightarrow> limit_machine \<Rightarrow> bool" for trunc :: "time \<Rightarrow> time" where
  limit_reconcile: "env_ok env \<Longrightarrow> ev_Trunc env = trunc \<Longrightarrow> read_ok got (lg_World m) \<Longrightarrow>
     w' = snd (StuckHeightRecovery_Reconcile env got (lg_World m)) \<Longrightarrow>
     limit_step trunc m \<lparr>lg_World = w', lg_Limiter = limiter_sees env (rw_Stored (lg_World m)) (rw_Stored w') (lg_Limiter m)\<rparr>"
| limit_edit: "maxRetries spec = maxRetries (shr_Spec (rw_Stored (lg_World m))) \<Longrightarrow>
     rateLimitWindow spec = rateLimitWindow (shr_Spec (rw_Stored (lg_World m))) \<Longrightarrow>
     limit_step trunc m (m\<lparr>lg_World := edit_spec spec (lg_World m)\<rparr>)"

inductive_cases limit_stepE [elim]: "limit_step trunc m m'"

subsection \<open>What a reconcile does to the counters\<close>

lemma stored_height [simp]: "ssr_LastObservedHeight (stored_status env st) = ssr_LastObservedHeight st"
  "ssr_RateLimitWindowStart (stored_status env st) = map_option (ev_Trunc env) (ssr_RateLimitWindowStart st)"
  "ssr_LastObservedHeight (set_phase p msg st) = ssr_LastObservedHeight st"
  by (simp_all add: stored_status_def set_phase_def)

definition counters_kept :: "rec_env \<Rightarrow> StuckHeightRecoveryStatus \<Rightarrow> StuckHeightRecoveryStatus \<Rightarrow> bool" where
  "counters_kept env st st' \<longleftrightarrow> ssr_LastObservedHeight st' = ssr_LastObservedHeight st \<and>
     (recovering (ssr_Phase st') \<longrightarrow> recovering (ssr_Phase st)) \<and> ssr_RecoveryAttempts st' = ssr_RecoveryAttempts st \<and>
     ssr_RateLimitWindowStart st' \<in> {ssr_RateLimitWindowStart st, map_option (ev_Trunc env) (ssr_RateLimitWindowStart st)}"

definition counters_reset :: "StuckHeightRecoveryStatus \<Rightarrow> StuckHeightRecoveryStatus \<Rightarrow> bool" where
  "counters_reset st st' \<longleftrightarrow> ssr_LastObservedHeight st' \<noteq> ssr_LastObservedHeight st \<and> \<not> recovering (ssr_Phase st') \<and>
     ssr_RecoveryAttempts st' = 0 \<and> ssr_RateLimitWindowStart st' = None"

definition attempt_counted :: "rec_env \<Rightarrow> StuckHeightRecoverySpec \<Rightarrow> StuckHeightRecoveryStatus \<Rightarrow> StuckHeightRecoveryStatus \<Rightarrow> bool" where
  "attempt_counted env spec st st' \<longleftrightarrow> ssr_LastObservedHeight st' = ssr_LastObservedHeight st \<and>
     \<not> recovering (ssr_Phase st) \<and> recovering (ssr_Phase st') \<and>
     (\<exists>r msg. CanAttemptRecovery (ev_Clock env 0) r = Inr (True, msg) \<and> shr_Spec r = spec \<and>
        ssr_RecoveryAttempts (shr_Status r) = ssr_RecoveryAttempts st \<and> ssr_RateLimitWindowStart (shr_Status r) = ssr_RateLimitWindowStart st) \<and>
     (let st1 = RecordAttempt (ev_Clock env 1) (ev_Clock env 2) spec st
      in ssr_RecoveryAttempts st' = ssr_RecoveryAttempts st1 \<and>
         ssr_RateLimitWindowStart st' = map_option (ev_Trunc env) (ssr_RateLimitWindowStart st1))"

lemma counters_kept_refl [simp]: "counters_kept env st st"
  by (simp add: counters_kept_def)

lemma status_after_update:
  "shr_Status (rw_Stored (snd (request env (StatusUpdateCall r) w))) =
     (if ev_Server env (rw_Calls w) (StatusUpdateCall r) = None then stored_status env (shr_Status r) else shr_Status (rw_Stored w))"
  by (auto simp: request_def Let_def)

lemma status_after_create:
  "rw_Stored (snd (CreateSnapshot env r pvc w)) = rw_Stored w" "rw_Stored (snd (CreatePod env r podName pvc h w)) = rw_Stored w"
  by (auto simp: CreateSnapshot_def CreatePod_def request_def Let_def split: sum.split option.split)

lemma kept_update:
  assumes "ssr_LastObservedHeight (shr_Status r) = ssr_LastObservedHeight (shr_Status (rw_Stored w))"
    and "recovering (ssr_Phase (shr_Status r)) \<Longrightarrow> recovering (ssr_Phase (shr_Status (rw_Stored w)))"
    and "ssr_RecoveryAttempts (shr_Status r) = ssr_RecoveryAttempts (shr_Status (rw_Stored w))"
    and "ssr_RateLimitWindowStart (shr_Status r) = ssr_RateLimitWindowStart (shr_Status (rw_Stored w))"
  shows "counters_kept env (shr_Status (rw_Stored w)) (shr_Status (rw_Stored (snd (request env (StatusUpdateCall r) w))))"
  using assms by (auto simp: status_after_update counters_kept_def)

lemma copy_height: "copy_of w r \<Longrightarrow> ssr_LastObservedHeight (shr_Status r) = ssr_LastObservedHeight (shr_Status (rw_Stored w))"
  by (auto simp: copy_of_def)

lemma Monitoring_counters:
  fixes env :: rec_env and crd :: CosmosFullNode
  assumes c: "copy_of w r" and p: "\<not> recovering (ssr_Phase (shr_Status r))"
  defines "st \<equiv> shr_Status (rw_Stored w)" and "st' \<equiv> shr_Status (rw_Stored (snd (handleMonitoring env r crd w)))"
  shows "counters_kept env st st' \<or> counters_reset st st'"
proof (cases "CheckStuckHeight (ev_Clock env 0) crd r")
  case (Inl err)
  then show ?thesis unfolding st_def st'_def handleMonitoring_def
    by (auto intro!: kept_update disjI1 simp: copy_ofD [OF c] copy_height [OF c])
next
  case (Inr res)
  obtain stuck pod h where res: "res = (stuck, pod, h)" by (cases res)
  show ?thesis
  proof (cases "ssr_LastObservedHeight (shr_Status r) = h")
    case True
    then show ?thesis using Inr res p unfolding st_def st'_def handleMonitoring_def
      by (auto intro!: kept_update disjI1 simp: copy_ofD [OF c] copy_height [OF c] Let_def)
  next
    case False
    let ?r1 = "set_status (observeHeight (ev_Clock env (Suc 0)) h) r"
    obtain e w1 where w1: "request env (StatusUpdateCall ?r1) w = (e, w1)" by (cases "request env (StatusUpdateCall ?r1) w")
    have r1: "ssr_LastObservedHeight (shr_Status ?r1) = h" "ssr_RecoveryAttempts (shr_Status ?r1) = 0"
        "ssr_RateLimitWindowStart (shr_Status ?r1) = None" "ssr_Phase (shr_Status ?r1) = ssr_Phase (shr_Status r)"
      by (simp_all add: observeHeight_def ResetWindow_def)
    show ?thesis
    proof (cases e)
      case (Some err)
      then have "shr_Status (rw_Stored w1) = st"
        using w1 by (auto simp: request_def Let_def st_def split: option.splits)
      then show ?thesis using Inr res False w1 Some by (simp add: st'_def handleMonitoring_def Let_def)
    next
      case None
      then have "shr_Status (rw_Stored w1) = stored_status env (shr_Status ?r1)"
        using w1 by (auto simp: request_def Let_def split: option.splits)
      moreover have "h \<noteq> ssr_LastObservedHeight st" using False copy_height [OF c] by (simp add: st_def)
      ultimately have "counters_reset st st'"
        using Inr res False w1 None p r1 unfolding st'_def handleMonitoring_def
        by (simp add: Let_def status_after_update counters_reset_def del: set_status_simps(3)) (simp add: set_phase_def)
      then show ?thesis by simp
    qed
  qed
qed

lemma HeightStuck_counters:
  fixes env :: rec_env and crd :: CosmosFullNode
  assumes c: "copy_of w r" and p: "ssr_Phase (shr_Status r) = StuckHeightRecoveryPhaseHeightStuck"
  defines "st \<equiv> shr_Status (rw_Stored w)" and "st' \<equiv> shr_Status (rw_Stored (snd (handleHeightStuck env r crd w)))"
  shows "counters_kept env st st' \<or> attempt_counted env (shr_Spec (rw_Stored w)) st st'"
proof (cases "CanAttemptRecovery (ev_Clock env 0) r")
  case (Inl err)
  then show ?thesis by (simp add: st_def st'_def handleHeightStuck_def)
next
  case (Inr res)
  obtain can msg where res: "res = (can, msg)" by (cases res)
  show ?thesis
  proof (cases can)
    case False
    then show ?thesis using Inr res unfolding st_def st'_def handleHeightStuck_def
      by (auto intro!: kept_update disjI1 simp: copy_ofD [OF c] copy_height [OF c])
  next
    case True
    let ?st1 = "RecordAttempt (ev_Clock env 1) (ev_Clock env 2) (shr_Spec r)"
    have same: "ssr_RecoveryAttempts (?st1 (shr_Status r)) = ssr_RecoveryAttempts (?st1 st)"
        "ssr_RateLimitWindowStart (?st1 (shr_Status r)) = ssr_RateLimitWindowStart (?st1 st)"
        "ssr_LastObservedHeight (?st1 (shr_Status r)) = ssr_LastObservedHeight st"
      using copy_ofD [OF c] copy_height [OF c] unfolding st_def by (auto simp: RecordAttempt_def Let_def split: option.split)
    let ?q = "if sr_CreateVolumeSnapshot (shr_Spec r) then StuckHeightRecoveryPhaseCreatingSnapshot else StuckHeightRecoveryPhaseRunningRecovery"
    obtain r2 where r2: "snd (handleHeightStuck env r crd w) = snd (request env (StatusUpdateCall r2) w)"
        "ssr_Phase (shr_Status r2) = ?q" "ssr_RecoveryAttempts (shr_Status r2) = ssr_RecoveryAttempts (?st1 st)"
        "ssr_RateLimitWindowStart (shr_Status r2) = ssr_RateLimitWindowStart (?st1 st)" "ssr_LastObservedHeight (shr_Status r2) = ssr_LastObservedHeight st"
      using Inr res True same
      by (intro that [of "set_status (set_phase ?q (if sr_CreateVolumeSnapshot (shr_Spec r) then ''Creating VolumeSnapshot'' else ''Starting recovery script''))
            (set_status ?st1 r)"]) (simp_all add: handleHeightStuck_def Let_def)
    have "attempt_counted env (shr_Spec (rw_Stored w)) st (stored_status env (shr_Status r2))"
      unfolding attempt_counted_def Let_def
      using r2 Inr res True p copy_ofD [OF c] by (auto simp: st_def intro!: exI [of _ r])
    then show ?thesis unfolding st'_def r2(1) status_after_update by (simp add: st_def)
  qed
qed

lemma simple_counters:
  assumes c: "copy_of w r"
  shows "counters_kept env (shr_Status (rw_Stored w)) (shr_Status (rw_Stored (snd (handleRateLimited env r crd w))))"
    and "counters_kept env (shr_Status (rw_Stored w)) (shr_Status (rw_Stored (snd (handleRecoveryComplete env r w))))"
    and "counters_kept env (shr_Status (rw_Stored w)) (shr_Status (rw_Stored (snd (handleRecoveryFailed env r w))))"
    and "counters_kept env (shr_Status (rw_Stored w)) (shr_Status (rw_Stored (snd (handleWaitingForRecovery env r w))))"
    and "recovering (ssr_Phase (shr_Status r)) \<Longrightarrow>
      counters_kept env (shr_Status (rw_Stored w)) (shr_Status (rw_Stored (snd (handleWaitingForSnapshot env r w))))"
  unfolding handleRateLimited_def handleRecoveryComplete_def handleRecoveryFailed_def handleWaitingForRecovery_def handleWaitingForSnapshot_def
  by (auto intro!: kept_update simp: copy_ofD [OF c] copy_height [OF c] split: sum.split)

text \<open>The two handlers that create an object first; its creation leaves the stored resource as it is.\<close>

lemma creating_counters:
  assumes c: "copy_of w r" and p: "recovering (ssr_Phase (shr_Status r))"
  shows "counters_kept env (shr_Status (rw_Stored w)) (shr_Status (rw_Stored (snd (handleCreatingSnapshot env r w))))"
    and "counters_kept env (shr_Status (rw_Stored w)) (shr_Status (rw_Stored (snd (handleRunningRecovery env r crd w))))"
proof -
  have upd: "counters_kept env (shr_Status (rw_Stored w)) (shr_Status (rw_Stored (snd (request env (StatusUpdateCall r1) w1))))"
    if "rw_Stored w1 = rw_Stored w" "ssr_LastObservedHeight (shr_Status r1) = ssr_LastObservedHeight (shr_Status r)"
      "ssr_RecoveryAttempts (shr_Status r1) = ssr_RecoveryAttempts (shr_Status r)"
      "ssr_RateLimitWindowStart (shr_Status r1) = ssr_RateLimitWindowStart (shr_Status r)" for r1 w1
    using kept_update [of r1 w1 env] that p copy_ofD [OF c] copy_height [OF c] by simp
  show "counters_kept env (shr_Status (rw_Stored w)) (shr_Status (rw_Stored (snd (handleCreatingSnapshot env r w))))"
  proof (cases "GetPVCForPod (ev_Pod env) (om_Namespace (shr_Meta r)) (ssr_StuckPodName (shr_Status r))")
    case (Inr pvc)
    obtain res w1 where 1: "CreateSnapshot env r pvc w = (res, w1)" by (cases "CreateSnapshot env r pvc w")
    then have "rw_Stored w1 = rw_Stored w" using status_after_create(1) by (metis snd_conv)
    then show ?thesis using Inr 1 by (cases res) (simp_all add: handleCreatingSnapshot_def upd)
  qed (simp add: handleCreatingSnapshot_def upd)
  show "counters_kept env (shr_Status (rw_Stored w)) (shr_Status (rw_Stored (snd (handleRunningRecovery env r crd w))))"
  proof (cases "GetPVCForPod (ev_Pod env) (om_Namespace (shr_Meta r)) (ssr_StuckPodName (shr_Status r))")
    case (Inr pvc)
    let ?call = "CreatePod env r (ssr_StuckPodName (shr_Status r)) pvc (ssr_LastObservedHeight (shr_Status r)) w"
    obtain res w1 where 1: "?call = (res, w1)" by (cases ?call)
    then have "rw_Stored w1 = rw_Stored w" using status_after_create(2) by (metis snd_conv)
    then show ?thesis using Inr 1 by (cases res) (simp_all add: handleRunningRecovery_def upd)
  qed (simp add: handleRunningRecovery_def upd)
qed

lemma Reconcile_counters:
  fixes env :: rec_env
  assumes "read_ok got w"
  defines "st \<equiv> shr_Status (rw_Stored w)" and "st' \<equiv> shr_Status (rw_Stored (snd (StuckHeightRecovery_Reconcile env got w)))"
  shows "counters_kept env st st' \<or> counters_reset st st' \<or> attempt_counted env (shr_Spec (rw_Stored w)) st st'"
proof (cases got)
  case (Inl err)
  then show ?thesis by (simp add: st_def st'_def StuckHeightRecovery_Reconcile_def)
next
  case (Inr r)
  then have r: "r = rw_Stored w" using assms(1) by (simp add: read_ok_def)
  let ?r = "set_status (\<lambda>st. st\<lparr>ssr_ObservedGeneration := om_Generation (shr_Meta r)\<rparr>) r"
  have c: "copy_of w ?r" by (auto simp: copy_of_def r)
  have h: "counters_kept env st (shr_Status (rw_Stored (snd (handle_phase (ssr_Phase (shr_Status r)) env ?r crd w)))) \<or>
      counters_reset st (shr_Status (rw_Stored (snd (handle_phase (ssr_Phase (shr_Status r)) env ?r crd w)))) \<or>
      attempt_counted env (shr_Spec (rw_Stored w)) st (shr_Status (rw_Stored (snd (handle_phase (ssr_Phase (shr_Status r)) env ?r crd w))))" for crd
    using Monitoring_counters [OF c, of env crd] HeightStuck_counters [OF c, of env crd] simple_counters [OF c, of env]
      creating_counters [OF c, of env] unfolding st_def by (cases "ssr_Phase (shr_Status r)") auto
  have k: "counters_kept env st (shr_Status (rw_Stored (snd (request env (StatusUpdateCall (set_status (set_phase p msg) r)) w))))"
    if "\<not> recovering p" for p msg
    unfolding st_def by (rule kept_update) (use that r in simp_all)
  show ?thesis
    using h k Inr unfolding st'_def StuckHeightRecovery_Reconcile_def Let_def
    by (auto simp: st_def r split: sum.split)
qed

lemma handle_phase_spec: "shr_Spec (rw_Stored (snd (handle_phase p env r crd w))) = shr_Spec (rw_Stored w)"
proof -
  have new: "CreateSnapshot env r pvc w = (res, w1) \<Longrightarrow> rw_Stored w1 = rw_Stored w"
    "CreatePod env r podName pvc h w = (res, w1) \<Longrightarrow> rw_Stored w1 = rw_Stored w" for pvc podName h res w1
    using status_after_create by (metis snd_conv)+
  have "shr_Spec (rw_Stored (snd (handleMonitoring env r crd w))) = shr_Spec (rw_Stored w)"
    by (auto simp: handleMonitoring_def Let_def case_prod_beta split: sum.split option.split)
  moreover have "shr_Spec (rw_Stored (snd (handleCreatingSnapshot env r w))) = shr_Spec (rw_Stored w)"
      "shr_Spec (rw_Stored (snd (handleRunningRecovery env r crd w))) = shr_Spec (rw_Stored w)"
    by (auto simp: handleCreatingSnapshot_def handleRunningRecovery_def dest: new split: sum.split prod.split)
  ultimately show ?thesis
    by (cases p) (auto simp: handleHeightStuck_def handleWaitingForSnapshot_def handleWaitingForRecovery_def handleRecoveryComplete_def
        handleRecoveryFailed_def handleRateLimited_def Let_def split: sum.split)
qed

lemma Reconcile_spec: "shr_Spec (rw_Stored (snd (StuckHeightRecovery_Reconcile env got w))) = shr_Spec (rw_Stored w)"
  by (auto simp: StuckHeightRecovery_Reconcile_def Let_def handle_phase_spec split: sum.split)

subsection \<open>The status refines the limiter\<close>

definition limit_refines :: "(time \<Rightarrow> time) \<Rightarrow> StuckHeightRecoverySpec \<Rightarrow> StuckHeightRecoveryStatus \<Rightarrow> limiter \<Rightarrow> bool" where
  "limit_refines trunc spec st l \<longleftrightarrow> limit_ok spec st \<and> ssr_RateLimitWindowStart st = lm_Window l \<and>
     ssr_RecoveryAttempts st = int (lm_Count l) \<and> map_option trunc (lm_Window l) = lm_Window l"

definition limit_inv :: "(time \<Rightarrow> time) \<Rightarrow> limit_machine \<Rightarrow> bool" where
  "limit_inv trunc m \<longleftrightarrow> (\<forall>t. trunc (trunc t) = trunc t) \<longrightarrow>
     limit_refines trunc (shr_Spec (rw_Stored (lg_World m))) (shr_Status (rw_Stored (lg_World m))) (lg_Limiter m)"

lemma refines_attempt:
  assumes l: "limit_refines trunc spec st l" and a: "attempt_counted env spec st st'" and e: "env_ok env" "ev_Trunc env = trunc"
    and t: "\<forall>t. trunc (trunc t) = trunc t"
  shows "limit_refines trunc spec st' (recovery_started spec (ev_Trunc env (ev_Clock env 1)) (ev_Clock env 2) l)"
proof -
  let ?st1 = "RecordAttempt (ev_Clock env 1) (ev_Clock env 2) spec st"
  have lim: "limit_ok spec st" using l by (simp add: limit_refines_def)
  obtain r msg where r: "CanAttemptRecovery (ev_Clock env 0) r = Inr (True, msg)" "shr_Spec r = spec"
      "ssr_RecoveryAttempts (shr_Status r) = ssr_RecoveryAttempts st" "ssr_RateLimitWindowStart (shr_Status r) = ssr_RateLimitWindowStart st"
    and st': "recovering (ssr_Phase st')" "ssr_RecoveryAttempts st' = ssr_RecoveryAttempts ?st1"
      "ssr_RateLimitWindowStart st' = map_option trunc (ssr_RateLimitWindowStart ?st1)"
    using a e(2) by (auto simp: attempt_counted_def Let_def)
  have mono: "ev_Clock env 0 \<le> ev_Clock env 2" using e(1) by (auto simp: env_ok_def mono_def)
  have "limit_ok spec (set_phase StuckHeightRecoveryPhaseRunningRecovery [] ?st1)" by (rule limit_ok_attempt [OF lim r mono])
  then have ok: "limit_ok spec st'" using st' by (simp add: limit_ok_def)
  show ?thesis
  proof (cases "ssr_RateLimitWindowStart st")
    case None
    then show ?thesis using ok st' l t e(2)
      by (simp add: limit_refines_def RecordAttempt_def recovery_started_def window_open_def)
  next
    case (Some ws)
    obtain d where d: "ParseDuration (rateLimitWindow spec) = Inr d"
        "time_Sub (ev_Clock env 2) ws < d \<Longrightarrow> int32_wrap (ssr_RecoveryAttempts st + 1) = ssr_RecoveryAttempts st + 1"
      using attempt_below_limit [OF lim r mono Some] by metis
    moreover have "lm_Window l = Some ws" using Some l by (simp add: limit_refines_def)
    ultimately show ?thesis using ok st' l t e(2) Some
      by (auto simp: limit_refines_def RecordAttempt_def recovery_started_def window_open_def Let_def)
  qed
qed

lemma refines_step:
  assumes l: "limit_refines trunc (shr_Spec (rw_Stored w)) (shr_Status (rw_Stored w)) l" and e: "env_ok env" "ev_Trunc env = trunc"
    and t: "\<forall>t. trunc (trunc t) = trunc t" and got: "read_ok got w" and w': "w' = snd (StuckHeightRecovery_Reconcile env got w)"
  shows "limit_refines trunc (shr_Spec (rw_Stored w')) (shr_Status (rw_Stored w')) (limiter_sees env (rw_Stored w) (rw_Stored w') l)"
proof -
  let ?st = "shr_Status (rw_Stored w)" and ?st' = "shr_Status (rw_Stored w')" and ?spec = "shr_Spec (rw_Stored w)"
  have spec: "shr_Spec (rw_Stored w') = ?spec" unfolding w' by (rule Reconcile_spec)
  consider "counters_kept env ?st ?st'" | "counters_reset ?st ?st'" | "attempt_counted env ?spec ?st ?st'"
    using Reconcile_counters [OF got, of env] unfolding w' by blast
  then show ?thesis
  proof cases
    case 1
    moreover have "limiter_sees env (rw_Stored w) (rw_Stored w') l = l" using 1 by (auto simp: limiter_sees_def counters_kept_def)
    ultimately show ?thesis using l e(2) unfolding spec by (auto simp: limit_refines_def counters_kept_def limit_ok_def)
  next
    case 2
    then have "limiter_sees env (rw_Stored w) (rw_Stored w') l = closed_window" by (simp add: limiter_sees_def counters_reset_def)
    then show ?thesis using 2 l unfolding spec
      by (simp add: limit_refines_def counters_reset_def limit_ok_def closed_window_def)
  next
    case 3
    then have "limiter_sees env (rw_Stored w) (rw_Stored w') l = recovery_started ?spec (ev_Trunc env (ev_Clock env 1)) (ev_Clock env 2) l"
      by (simp add: limiter_sees_def attempt_counted_def)
    then show ?thesis using refines_attempt [OF l 3 e t] unfolding spec by simp
  qed
qed

interpretation limit: invariant_of fresh_limit "limit_step trunc" "limit_inv trunc" for trunc
proof
  show "limit_inv trunc m" if "fresh_limit m" for m
    using that by (simp add: fresh_limit_def limit_inv_def limit_refines_def limit_ok_def Let_def closed_window_def le_max_iff_disj)
next
  fix m m' assume inv: "limit_inv trunc m" and step: "limit_step trunc m m'"
  from step show "limit_inv trunc m'"
  proof cases
    case (limit_reconcile env got w')
    then show ?thesis using inv refines_step [OF _ limit_reconcile(2,3) _ limit_reconcile(4,5)] by (simp add: limit_inv_def)
  next
    case (limit_edit spec)
    then have "limit_ok spec st = limit_ok (shr_Spec (rw_Stored (lg_World m))) st" for st by (simp add: limit_ok_def)
    then show ?thesis using inv by (simp add: limit_inv_def limit_refines_def limit_edit edit_spec_def)
  qed
qed

text \<open>C31: Recoveries are rate limited. Take any run of the controller in which reconciles read the stored resource or an
  error, whatever else they read and however the server answers, in which the user edits anything of the spec but the
  limit, and in which times are stored as \<open>metav1.Time\<close> does, truncated. An abstract limiter that watches the resource
  counts each recovery that starts in the current window, and forgets the window when the height changes.
  In every reachable state the status holds this limiter's window and count, so no recovery
  goes uncounted; the count is at most the configured maximum (at least one recovery may always start);
  and a recovery under way was counted.\<close>

theorem recovery_rate_limited:
  assumes "\<And>t. trunc (trunc t) = trunc t" and "reach fresh_limit (limit_step trunc) m"
  shows "let spec = shr_Spec (rw_Stored (lg_World m)); st = shr_Status (rw_Stored (lg_World m)); l = lg_Limiter m
    in ssr_RateLimitWindowStart st = lm_Window l \<and> ssr_RecoveryAttempts st = int (lm_Count l) \<and>
       int (lm_Count l) \<le> max 1 (maxRetries spec) \<and>
       (recovering (ssr_Phase st) \<longrightarrow> 1 \<le> lm_Count l \<and> lm_Window l \<noteq> None)"
proof -
  let ?st = "shr_Status (rw_Stored (lg_World m))" and ?l = "lg_Limiter m"
  have ok: "limit_refines trunc (shr_Spec (rw_Stored (lg_World m))) ?st ?l"
    using limit.reach_inv [OF assms(2)] assms(1) by (simp add: limit_inv_def)
  then have "recovering (ssr_Phase ?st) \<longrightarrow> 1 \<le> lm_Count ?l \<and> lm_Window ?l \<noteq> None"
    by (metis limit_refines_def limit_ok_def of_nat_1 of_nat_le_iff not_one_le_zero of_nat_0)
  then show ?thesis using ok by (simp add: limit_refines_def limit_ok_def Let_def)
qed

text \<open>Two recoveries of the sample within one window: the first fails, because its snapshot is refused, and the height
  stays stuck.\<close>

definition limit_after :: "limit_machine \<Rightarrow> rec_env \<Rightarrow> limit_machine" where
  "limit_after m env = (let w = lg_World m; w' = snd (StuckHeightRecovery_Reconcile env (Inr (rw_Stored w)) w)
     in \<lparr>lg_World = w', lg_Limiter = limiter_sees env (rw_Stored w) (rw_Stored w') (lg_Limiter m)\<rparr>)"

definition refusing_env :: "time \<Rightarrow> rec_env" where
  "refusing_env t = (sample_env t)\<lparr>ev_Server := \<lambda>_ c. case c of CreateSnapshotCall _ \<Rightarrow> Some (errorNew ''refused'') | _ \<Rightarrow> None\<rparr>"

definition limit_sample :: limit_machine where
  "limit_sample = foldl limit_after \<lparr>lg_World = rm_World sample_machine, lg_Limiter = closed_window\<rparr>
     (map refusing_env [1, 700, 701, 702, 703, 704, 705])"

lemma limit_after_reach:
  assumes "reach fresh_limit (limit_step trunc) m" and "\<forall>env \<in> set envs. env_ok env \<and> ev_Trunc env = trunc"
  shows "reach fresh_limit (limit_step trunc) (foldl limit_after m envs)"
  using assms
proof (induction envs arbitrary: m)
  case (Cons env envs)
  have "limit_step trunc m (limit_after m env)"
    unfolding limit_after_def Let_def using Cons.prems(2) by (intro limit_reconcile) (simp_all add: read_ok_def)
  from Cons.IH [OF reach_step [OF Cons.prems(1) this]] Cons.prems(2) show ?case by simp
qed simp

lemma limit_sample_reach: "reach fresh_limit (limit_step id) limit_sample"
  unfolding limit_sample_def
proof (rule limit_after_reach)
  show "reach fresh_limit (limit_step id) \<lparr>lg_World = rm_World sample_machine, lg_Limiter = closed_window\<rparr>"
    by (rule reach_init) (simp add: fresh_limit_def sample_machine_def sample_recovery_def maxRetries_def DefaultMaxRetries_def)
  show "\<forall>env \<in> set (map refusing_env [1, 700, 701, 702, 703, 704, 705]). env_ok env \<and> ev_Trunc env = id"
    using sample_env_ok by (auto simp: refusing_env_def env_ok_def sample_env_def)
qed

lemma limit_sample_count:
  "lm_Count (lg_Limiter limit_sample) = 2 \<and> recovering (ssr_Phase (shr_Status (rw_Stored (lg_World limit_sample))))"
  by code_simp

theorem recovery_rate_limited_witness:
  "reach fresh_limit (limit_step id) limit_sample \<and> lm_Count (lg_Limiter limit_sample) = 2 \<and>
   ssr_RecoveryAttempts (shr_Status (rw_Stored (lg_World limit_sample))) = 2"
  using limit_sample_reach limit_sample_count recovery_rate_limited [OF _ limit_sample_reach] unfolding Let_def by simp

end
