(* ===== verification/Stateful_Job.thy ===== *)
theory Stateful_Job
  imports Api_V1alpha1 Controller_Results Go_Duration Control_Loops
begin

text \<open>
  \<^verbatim>\<open>internal/statefuljob\<close> and \<^verbatim>\<open>controllers/statefuljob_controller.go\<close>: a job that periodically processes
  the newest volume snapshot on a temporary claim. The state threaded through a reconcile is the
  history of its write calls; the server answers a call given the calls before it. Reads, the
  clock and the sort are parameters.
\<close>

datatype sj_call =
    SjDeletePVC ObjectKey
  | SjCreatePVC PVC
  | SjCreateJob Job
  | SjUpdate StatefulJob

type_synonym sj_history = "sj_call list"

record sj_env =
  je_Now :: time
  je_Job :: "ObjectKey \<Rightarrow> goerror + Job"
  je_Snapshots :: "goerror + VolumeSnapshot list"
  je_Server :: "sj_history \<Rightarrow> sj_call \<Rightarrow> goerror option"
  je_Sort :: "VolumeSnapshot list \<Rightarrow> VolumeSnapshot list"
  je_RefPVC :: "PVCBody setref"
  je_RefJob :: "JobBody setref"
  je_Missing :: bool

definition sj_request :: "sj_env \<Rightarrow> sj_call \<Rightarrow> sj_history \<Rightarrow> goerror option \<times> sj_history" where
  "sj_request env c h = (je_Server env h c, h @ [c])"

subsection \<open>internal/statefuljob\<close>

definition sj_defaultLabels :: labels where
  "sj_defaultLabels = [(ControllerLabel, ''cosmos-operator''), (ComponentLabel, StatefulJobController)]"

definition ResourceName :: "StatefulJob \<Rightarrow> string" where
  "ResourceName crd = ToName (om_Name (sj_Meta crd))"

definition resourceKey :: "StatefulJob \<Rightarrow> ObjectKey" where
  "resourceKey crd = ObjectKey (om_Namespace (sj_Meta crd)) (ResourceName crd)"

text \<open>\<open>FindActiveJob\<close>: the job, or nothing when it is not found.\<close>

definition FindActiveJob :: "sj_env \<Rightarrow> StatefulJob \<Rightarrow> goerror + Job option" where
  "FindActiveJob env crd =
     (case je_Job env (resourceKey crd) of
        Inl err \<Rightarrow> if IsNotFound (Some err) then Inr None else Inl err
      | Inr job \<Rightarrow> Inr (Some job))"

definition snapshotVolume :: "StatefulJob \<Rightarrow> Volume" where
  "snapshotVolume crd = \<lparr>vol_Name = ''snapshot'', vol_Source = PersistentVolumeClaimSource (ResourceName crd)\<rparr>"

definition BuildJobs :: "StatefulJob \<Rightarrow> Job list" where
  "BuildJobs crd =
     (let tpl = jp_JobTemplate (sj_Spec crd);
          dflt = (\<lambda>v d. case v of None \<Rightarrow> Some d | Some x \<Rightarrow> Some x);
          pod = jp_PodTemplate (sj_Spec crd);
          spec = (pt_Spec pod)\<lparr>ps_Volumes := ps_Volumes (pt_Spec pod) @ [snapshotVolume crd],
            ps_RestartPolicy := (if ps_RestartPolicy (pt_Spec pod) = [] then ''Never'' else ps_RestartPolicy (pt_Spec pod))\<rparr>
      in [\<lparr>ob_Kind = ''Job'', ob_APIVersion = ''batch/v1'',
           ob_Meta = emptyMeta\<lparr>om_Name := ResourceName crd, om_Namespace := om_Namespace (sj_Meta crd), om_Labels := sj_defaultLabels\<rparr>,
           ob_Body = \<lparr>jb_ActiveDeadlineSeconds = dflt (jt_ActiveDeadlineSeconds tpl) 86400, jb_BackoffLimit = dflt (jt_BackoffLimit tpl) 5,
             jb_TTLSecondsAfterFinished = dflt (jt_TTLSecondsAfterFinished tpl) 900,
             jb_Template = pod\<lparr>pt_Spec := spec\<rparr>, jb_Status = emptyJobStatus\<rparr>\<rparr>])"

definition findStorage :: "VolumeSnapshot \<Rightarrow> goerror + Quantity" where
  "findStorage vs =
     (case vs_Status (ob_Body vs) of
        None \<Rightarrow> Inl (errorNew (ob_Kind vs @ '' '' @ GetName vs @ '': missing status subresource''))
      | Some st \<Rightarrow>
          (case vss_RestoreSize st of
             None \<Rightarrow> Inl (errorNew (ob_Kind vs @ '' '' @ GetName vs @ '': missing status.restoreSize''))
           | Some q \<Rightarrow> Inr q))"

text \<open>The group of \<open>GroupVersionKind\<close>: what stands before the only slash of the API version.\<close>

definition groupOf :: "string \<Rightarrow> string" where
  "groupOf apiVersion = (case strings_Split CHR ''/'' apiVersion of [g, v] \<Rightarrow> g | _ \<Rightarrow> [])"

definition sj_BuildPVCs :: "StatefulJob \<Rightarrow> VolumeSnapshot \<Rightarrow> goerror + PVC list" where
  "sj_BuildPVCs crd vs =
     (case findStorage vs of
        Inl err \<Rightarrow> Inl err
      | Inr storage \<Rightarrow>
          Inr [\<lparr>ob_Kind = ''PersistentVolumeClaim'', ob_APIVersion = ''v1'',
            ob_Meta = emptyMeta\<lparr>om_Name := ResourceName crd, om_Namespace := om_Namespace (sj_Meta crd), om_Labels := sj_defaultLabels\<rparr>,
            ob_Body = emptyPVCBody\<lparr>pvc_StorageClassName := Some (jv_StorageClassName (jp_VolumeClaimTemplate (sj_Spec crd))),
              pvc_AccessModes := jv_AccessModes (jp_VolumeClaimTemplate (sj_Spec crd)),
              pvc_DataSource := Some \<lparr>tr_APIGroup = Some (groupOf (ob_APIVersion vs)), tr_Kind = ob_Kind vs, tr_Name = GetName vs\<rparr>,
              pvc_Resources := \<lparr>rr_Requests = Some [(ResourceStorage, storage)], rr_Limits = None\<rparr>\<rparr>\<rparr>])"

text \<open>\<open>Creator.Create\<close>: the owner reference is set on the object in memory after the call that creates it.\<close>

definition creator_step :: "sj_env \<Rightarrow> ('b kobject \<Rightarrow> sj_call) \<Rightarrow> 'b setref \<Rightarrow> 'b kobject \<Rightarrow> sj_history \<Rightarrow> goerror option \<times> sj_history" where
  "creator_step env call setRef r h =
     (case sj_request env (call r) h of
        (Some err, h') \<Rightarrow> (Some err, h')
      | (None, h') \<Rightarrow> ((case setRef r of Inl err \<Rightarrow> Some err | Inr _ \<Rightarrow> None), h'))"

definition Creator_Create ::
  "sj_env \<Rightarrow> ('b kobject \<Rightarrow> sj_call) \<Rightarrow> 'b setref \<Rightarrow> goerror + 'b kobject list \<Rightarrow> sj_history \<Rightarrow> goerror option \<times> sj_history" where
  "Creator_Create env call setRef built h =
     (case built of
        Inl err \<Rightarrow> (Some (wrap ''build resources: '' err), h)
      | Inr resources \<Rightarrow> each (creator_step env call setRef) resources h)"

definition AddJobStatus :: "JobStatus list \<Rightarrow> JobStatus \<Rightarrow> JobStatus list" where
  "AddJobStatus existing status = (let list = [status] @ existing in if length list > 5 then take 5 list else list)"

definition UpdateJobStatus :: "JobStatus list \<Rightarrow> JobStatus \<Rightarrow> JobStatus list" where
  "UpdateJobStatus existing status = (if length existing = 0 then existing else [status] @ drop 1 existing)"

text \<open>\<open>ReadyForSnapshot\<close> reads the start time of the most recent job, a pointer.\<close>

definition jobInterval :: "StatefulJobSpec \<Rightarrow> duration" where
  "jobInterval spec = (if jp_Interval spec \<le> 0 then 86400 * time_Second else jp_Interval spec)"

definition ReadyForSnapshot :: "StatefulJob \<Rightarrow> time \<Rightarrow> bool exec" where
  "ReadyForSnapshot crd now =
     (case jst_JobHistory (sj_Status crd) of
        [] \<Rightarrow> Ok True
      | status # _ \<Rightarrow>
          (case js_StartTime status of
             None \<Rightarrow> Panic ''nil start time''
           | Some t \<Rightarrow> Ok (time_Sub now t \<ge> jobInterval (sj_Spec crd))))"

subsection \<open>The controller\<close>

definition requeueStatefulJob :: Result where "requeueStatefulJob = requeueAfter (60 * time_Second)"

definition set_sj :: "(StatefulJobStatus \<Rightarrow> StatefulJobStatus) \<Rightarrow> StatefulJob \<Rightarrow> StatefulJob" where
  "set_sj f crd = crd\<lparr>sj_Status := f (sj_Status crd)\<rparr>"

definition reportErr :: "goerror \<Rightarrow> StatefulJob \<Rightarrow> StatefulJob" where
  "reportErr err = set_sj (\<lambda>st. st\<lparr>jst_StatusMessage := Some (ge_msg err)\<rparr>)"

definition createResources :: "sj_env \<Rightarrow> StatefulJob \<Rightarrow> sj_history \<Rightarrow> goerror option \<times> sj_history" where
  "createResources env crd h =
     (case RecentVolumeSnapshot (je_Sort env) (je_Snapshots env) of
        Inl err \<Rightarrow> (Some err, h)
      | Inr recent \<Rightarrow>
          (case Creator_Create env SjCreatePVC (je_RefPVC env) (sj_BuildPVCs crd recent) h of
             (Some err, h1) \<Rightarrow> (Some err, h1)
           | (None, h1) \<Rightarrow> Creator_Create env SjCreateJob (je_RefJob env) (Inr (BuildJobs crd)) h1))"

definition deletePVCs :: "sj_env \<Rightarrow> StatefulJob \<Rightarrow> sj_history \<Rightarrow> StatefulJob \<times> sj_history" where
  "deletePVCs env crd h =
     (case sj_request env (SjDeletePVC (resourceKey crd)) h of (err, h') \<Rightarrow>
        (if IsNotFound err then crd else (case err of None \<Rightarrow> crd | Some e \<Rightarrow> reportErr e crd), h'))"

text \<open>The body of the loop, between the reset of the status and the deferred update of it.\<close>

definition sj_body :: "sj_env \<Rightarrow> StatefulJob \<Rightarrow> sj_history \<Rightarrow> Result exec \<times> StatefulJob \<times> sj_history" where
  "sj_body env crd h =
     (case FindActiveJob env crd of
        Inl err \<Rightarrow> (Ok requeueStatefulJob, reportErr err crd, h)
      | Inr (Some active) \<Rightarrow>
          (Ok (requeueAfter (5 * time_Second)),
           set_sj (\<lambda>st. st\<lparr>jst_JobHistory := UpdateJobStatus (jst_JobHistory st) (jb_Status (ob_Body active))\<rparr>) crd, h)
      | Inr None \<Rightarrow>
          (case deletePVCs env crd h of (crd1, h1) \<Rightarrow>
             (case ReadyForSnapshot crd1 (je_Now env) of
                Panic m \<Rightarrow> (Panic m, crd1, h1)
              | Ok ready \<Rightarrow>
                  if \<not> ready then (Ok requeueResult, crd1, h1)
                  else case createResources env crd1 h1 of
                         (Some err, h2) \<Rightarrow> (Ok requeueStatefulJob, reportErr err crd1, h2)
                       | (None, h2) \<Rightarrow>
                           (Ok (requeueAfter time_Second),
                            set_sj (\<lambda>st. st\<lparr>jst_JobHistory := AddJobStatus (jst_JobHistory st) emptyJobStatus\<rparr>) crd1, h2))))"

definition errMissingCRD :: goerror where
  "errMissingCRD = errorNew ''cluster does not have VolumeSnapshot CRDs installed''"

text \<open>A reconcile: its result, the resource as it is in memory at the end, and the calls it made.\<close>

definition StatefulJob_Reconcile ::
  "sj_env \<Rightarrow> goerror + StatefulJob \<Rightarrow> (Result \<times> goerror option) exec \<times> StatefulJob option \<times> sj_history" where
  "StatefulJob_Reconcile env got =
     (case got of
        Inl err \<Rightarrow> (Ok (requeueStatefulJob, IgnoreNotFound (Some err)), None, [])
      | Inr crd0 \<Rightarrow>
          if je_Missing env then (Ok (stopResult, None), Some (reportErr errMissingCRD crd0), [])
          else let crd = set_sj (\<lambda>st. st\<lparr>jst_ObservedGeneration := om_Generation (sj_Meta crd0), jst_StatusMessage := None\<rparr>) crd0;
                   (res, crd1, h) = sj_body env crd []
               in (exec_bind res (\<lambda>r. Ok (r, None)), Some crd1, snd (sj_request env (SjUpdate crd1) h)))"

subsection \<open>The job runs on the newest snapshot\<close>

lemma set_sj_simps [simp]:
  "sj_Spec (set_sj f crd) = sj_Spec crd" "sj_Meta (set_sj f crd) = sj_Meta crd" "sj_Status (set_sj f crd) = f (sj_Status crd)"
  by (simp_all add: set_sj_def)

lemma deletePVCs_spec:
  assumes "deletePVCs env crd h = (crd1, h1)"
  shows "h1 = h @ [SjDeletePVC (resourceKey crd)] \<and> sj_Spec crd1 = sj_Spec crd \<and> sj_Meta crd1 = sj_Meta crd \<and>
    jst_JobHistory (sj_Status crd1) = jst_JobHistory (sj_Status crd)"
  using assms by (auto simp: deletePVCs_def sj_request_def reportErr_def split: if_splits option.splits)

lemma each_one:
  "each step [x] s = step x s"
  by (simp split: prod.split option.split)

text \<open>What \<open>createResources\<close> adds to the calls, when the job is among them.\<close>

lemma createResources_job:
  assumes "createResources env crd h = (err, h')" and "SjCreateJob j \<in> set h' - set h"
  obtains recent pvc where "RecentVolumeSnapshot (je_Sort env) (je_Snapshots env) = Inr recent"
    "sj_BuildPVCs crd recent = Inr [pvc]" "j \<in> set (BuildJobs crd)" "h' = h @ [SjCreatePVC pvc, SjCreateJob j]"
proof -
  obtain recent where r: "RecentVolumeSnapshot (je_Sort env) (je_Snapshots env) = Inr recent"
    using assms by (auto simp: createResources_def split: sum.splits)
  obtain storage where st: "findStorage recent = Inr storage"
    using assms r by (auto simp: createResources_def Creator_Create_def sj_BuildPVCs_def split: sum.splits)
  then obtain pvc where p: "sj_BuildPVCs crd recent = Inr [pvc]" by (simp add: sj_BuildPVCs_def)
  obtain b where b: "BuildJobs crd = [b]" by (simp add: BuildJobs_def Let_def)
  have "h' = h @ [SjCreatePVC pvc, SjCreateJob j] \<and> j = b"
    using assms r p b
    by (auto simp: createResources_def Creator_Create_def each_one creator_step_def sj_request_def simp del: each.simps(2)
      split: prod.splits option.splits sum.splits)
  with r p b show ?thesis by (intro that [of recent pvc]) auto
qed

text \<open>When a job is to start: none is there, and the last recorded one, if any, started at least the interval ago, a day
  where none is set. What it is to work on: the newest of the snapshots that are ready to use.\<close>

definition job_due :: "sj_env \<Rightarrow> StatefulJob \<Rightarrow> bool" where
  "job_due env crd \<longleftrightarrow> \<not> je_Missing env \<and> (\<exists>err. je_Job env (resourceKey crd) = Inl err \<and> IsNotFound (Some err)) \<and>
     (case jst_JobHistory (sj_Status crd) of [] \<Rightarrow> True
      | s # _ \<Rightarrow> \<exists>t. js_StartTime s = Some t \<and>
          (if jp_Interval (sj_Spec crd) \<le> 0 then 86400 * time_Second else jp_Interval (sj_Spec crd)) \<le> time_Sub (je_Now env) t)"

definition newest_ready :: "sj_env \<Rightarrow> VolumeSnapshot \<Rightarrow> bool" where
  "newest_ready env vs \<longleftrightarrow> (\<exists>items. je_Snapshots env = Inr items \<and> vs \<in> set items \<and> VolumeSnapshotIsReady (vs_Status (ob_Body vs)) \<and>
     (\<forall>s \<in> set items. VolumeSnapshotIsReady (vs_Status (ob_Body s)) \<longrightarrow>
        statusCreationTime (vs_Status (ob_Body s)) \<le> statusCreationTime (vs_Status (ob_Body vs))))"

definition job_runs_on :: "StatefulJob \<Rightarrow> VolumeSnapshot \<Rightarrow> PVC \<Rightarrow> Job \<Rightarrow> bool" where
  "job_runs_on crd vs pvc j \<longleftrightarrow> GetName pvc = ResourceName crd \<and> GetNamespace pvc = om_Namespace (sj_Meta crd) \<and>
     map_option tr_Name (pvc_DataSource (ob_Body pvc)) = Some (GetName vs) \<and>
     snapshotVolume crd \<in> set (ps_Volumes (pt_Spec (jb_Template (ob_Body j))))"

lemma job_only_when_due:
  assumes "ordering_of (je_Sort env) snapshot_age"
    and "StatefulJob_Reconcile env (Inr crd) = (res, fin, h)" and "SjCreateJob j \<in> set h"
  shows "job_due env crd \<and> (\<exists>vs pvc crd1. newest_ready env vs \<and> job_runs_on crd vs pvc j \<and>
    h = [SjDeletePVC (resourceKey crd), SjCreatePVC pvc, SjCreateJob j, SjUpdate crd1])"
proof -
  let ?crd = "set_sj (\<lambda>st. st\<lparr>jst_ObservedGeneration := om_Generation (sj_Meta crd), jst_StatusMessage := None\<rparr>) crd"
  have key: "resourceKey ?crd = resourceKey crd" "ResourceName ?crd = ResourceName crd" by (simp_all add: resourceKey_def ResourceName_def)
  obtain r crd2 h2 where body: "sj_body env ?crd [] = (r, crd2, h2)" by (cases "sj_body env ?crd []")
  then have h: "h = h2 @ [SjUpdate crd2]" and j: "SjCreateJob j \<in> set h2"
    using assms(2,3) by (auto simp: StatefulJob_Reconcile_def Let_def sj_request_def split: if_splits)
  have none: "FindActiveJob env ?crd = Inr None"
    using body j by (auto simp: sj_body_def split: sum.splits option.splits)
  obtain crd1 h1 where del: "deletePVCs env ?crd [] = (crd1, h1)" by (cases "deletePVCs env ?crd []")
  have d: "h1 = [SjDeletePVC (resourceKey crd)]" "sj_Spec crd1 = sj_Spec crd" "sj_Meta crd1 = sj_Meta crd"
      "jst_JobHistory (sj_Status crd1) = jst_JobHistory (sj_Status crd)"
    using deletePVCs_spec [OF del] key by simp_all
  have ready: "ReadyForSnapshot crd1 (je_Now env) = Ok True"
    using body none del j d(1) by (auto simp: sj_body_def split: exec.splits if_splits)
  obtain err h3 where cr: "createResources env crd1 h1 = (err, h3)" by (cases "createResources env crd1 h1")
  have h3: "h2 = h3" using body none del ready cr by (auto simp: sj_body_def split: option.splits)
  have "SjCreateJob j \<in> set h3 - set h1" using j h3 d(1) by simp
  then obtain vs pvc where vs: "RecentVolumeSnapshot (je_Sort env) (je_Snapshots env) = Inr vs" "sj_BuildPVCs crd1 vs = Inr [pvc]"
      "j \<in> set (BuildJobs crd1)" "h3 = h1 @ [SjCreatePVC pvc, SjCreateJob j]"
    using createResources_job [OF cr] by blast
  obtain items where items: "je_Snapshots env = Inr items" using vs(1) by (auto simp: RecentVolumeSnapshot_def split: sum.splits)
  have newest: "vs \<in> set items" "VolumeSnapshotIsReady (vs_Status (ob_Body vs))" "\<forall>s \<in> set items. VolumeSnapshotIsReady (vs_Status (ob_Body s)) \<longrightarrow>
       statusCreationTime (vs_Status (ob_Body s)) \<le> statusCreationTime (vs_Status (ob_Body vs))"
    using RecentVolumeSnapshot_spec [OF assms(1), of items] vs(1) items by simp_all
  have name: "ResourceName crd1 = ResourceName crd" using d(3) by (simp add: ResourceName_def)
  have pvc: "GetName pvc = ResourceName crd" "GetNamespace pvc = om_Namespace (sj_Meta crd)"
      "map_option tr_Name (pvc_DataSource (ob_Body pvc)) = Some (GetName vs)"
    using vs(2) name d(3) by (auto simp: sj_BuildPVCs_def object_defs split: sum.splits)
  have vol: "snapshotVolume crd \<in> set (ps_Volumes (pt_Spec (jb_Template (ob_Body j))))"
    using vs(3) name by (auto simp: BuildJobs_def Let_def snapshotVolume_def)
  have job: "\<exists>err. je_Job env (resourceKey crd) = Inl err \<and> IsNotFound (Some err)"
    using none by (auto simp: FindActiveJob_def key split: sum.splits if_splits)
  have start: "case jst_JobHistory (sj_Status crd) of [] \<Rightarrow> True
     | s # _ \<Rightarrow> \<exists>t. js_StartTime s = Some t \<and>
         (if jp_Interval (sj_Spec crd) \<le> 0 then 86400 * time_Second else jp_Interval (sj_Spec crd)) \<le> time_Sub (je_Now env) t"
    using ready d by (auto simp: ReadyForSnapshot_def jobInterval_def split: list.splits option.splits)
  have "je_Missing env = False" using assms(2,3) by (auto simp: StatefulJob_Reconcile_def)
  then have "job_due env crd" using job start by (simp add: job_due_def)
  moreover have "newest_ready env vs" using items newest by (auto simp: newest_ready_def)
  moreover have "job_runs_on crd vs pvc j" using pvc vol by (simp add: job_runs_on_def)
  ultimately show ?thesis using h h3 vs(4) d(1)
    by (intro conjI exI [of _ vs] exI [of _ pvc] exI [of _ crd2]) simp_all
qed


text \<open>A due job runs when a ready snapshot is listed, every ready snapshot has a size, and the server creates
  what it is asked for; the claim of the last job may well be gone already, or refuse to go.\<close>

definition can_create :: "sj_env \<Rightarrow> bool" where
  "can_create env \<longleftrightarrow> (\<forall>h p. je_Server env h (SjCreatePVC p) = None) \<and> (\<forall>h j. je_Server env h (SjCreateJob j) = None) \<and>
     (\<forall>p. \<exists>p'. je_RefPVC env p = Inr p') \<and> (\<forall>j. \<exists>j'. je_RefJob env j = Inr j') \<and>
     (\<exists>items. je_Snapshots env = Inr items \<and> (\<exists>s \<in> set items. VolumeSnapshotIsReady (vs_Status (ob_Body s))) \<and>
        (\<forall>s \<in> set items. VolumeSnapshotIsReady (vs_Status (ob_Body s)) \<longrightarrow> (\<exists>q. findStorage s = Inr q)))"

lemma createResources_runs:
  assumes "ordering_of (je_Sort env) snapshot_age" and "can_create env"
  obtains vs pvc j where "newest_ready env vs" "sj_BuildPVCs crd vs = Inr [pvc]" "BuildJobs crd = [j]"
    "createResources env crd h = (None, h @ [SjCreatePVC pvc, SjCreateJob j])"
proof -
  obtain items where items: "je_Snapshots env = Inr items" "\<exists>s \<in> set items. VolumeSnapshotIsReady (vs_Status (ob_Body s))"
      "\<forall>s \<in> set items. VolumeSnapshotIsReady (vs_Status (ob_Body s)) \<longrightarrow> (\<exists>q. findStorage s = Inr q)"
    using assms(2) by (auto simp: can_create_def)
  obtain vs where vs: "RecentVolumeSnapshot (je_Sort env) (Inr items) = Inr vs"
    using RecentVolumeSnapshot_spec [OF assms(1), of items] items(2) by (auto split: sum.splits)
  then have n: "newest_ready env vs"
    using RecentVolumeSnapshot_spec [OF assms(1), of items] items(1) by (auto simp: newest_ready_def)
  then obtain q where "findStorage vs = Inr q" using items(1,3) by (auto simp: newest_ready_def)
  then obtain pvc where pvc: "sj_BuildPVCs crd vs = Inr [pvc]" by (simp add: sj_BuildPVCs_def)
  obtain j where j: "BuildJobs crd = [j]" by (simp add: BuildJobs_def Let_def)
  obtain p' j' where ref: "je_RefPVC env pvc = Inr p'" "je_RefJob env j = Inr j'" using assms(2) unfolding can_create_def by metis
  have "createResources env crd h = (None, h @ [SjCreatePVC pvc, SjCreateJob j])"
    using vs items(1) pvc j ref assms(2)
    by (simp add: createResources_def Creator_Create_def each_one creator_step_def sj_request_def can_create_def del: each.simps(2))
  with n pvc j that show thesis by blast
qed

lemma due_job_runs:
  assumes "ordering_of (je_Sort env) snapshot_age" and "StatefulJob_Reconcile env (Inr crd) = (res, fin, h)"
    and "job_due env crd" and "can_create env"
  shows "\<exists>vs pvc j crd1. newest_ready env vs \<and> job_runs_on crd vs pvc j \<and>
    h = [SjDeletePVC (resourceKey crd), SjCreatePVC pvc, SjCreateJob j, SjUpdate crd1] \<and>
    jst_JobHistory (sj_Status crd1) = take 5 (emptyJobStatus # jst_JobHistory (sj_Status crd)) \<and>
    fin = Some crd1 \<and> res = Ok (requeueAfter time_Second, None)"
proof -
  let ?crd = "set_sj (\<lambda>st. st\<lparr>jst_ObservedGeneration := om_Generation (sj_Meta crd), jst_StatusMessage := None\<rparr>) crd"
  have key: "resourceKey ?crd = resourceKey crd" by (simp add: resourceKey_def ResourceName_def)
  have none: "FindActiveJob env ?crd = Inr None" using assms(3) by (auto simp: FindActiveJob_def key job_due_def)
  obtain crd1 h1 where del: "deletePVCs env ?crd [] = (crd1, h1)" by (cases "deletePVCs env ?crd []")
  have d: "h1 = [SjDeletePVC (resourceKey crd)]" "sj_Spec crd1 = sj_Spec crd" "sj_Meta crd1 = sj_Meta crd"
      "jst_JobHistory (sj_Status crd1) = jst_JobHistory (sj_Status crd)"
    using deletePVCs_spec [OF del] key by simp_all
  have ready: "ReadyForSnapshot crd1 (je_Now env) = Ok True"
    using assms(3) d by (auto simp: ReadyForSnapshot_def jobInterval_def job_due_def split: list.splits)
  obtain vs pvc j where c: "newest_ready env vs" "sj_BuildPVCs crd1 vs = Inr [pvc]" "BuildJobs crd1 = [j]"
      "createResources env crd1 h1 = (None, h1 @ [SjCreatePVC pvc, SjCreateJob j])"
    by (rule createResources_runs [OF assms(1,4)])
  let ?final = "set_sj (\<lambda>st. st\<lparr>jst_JobHistory := AddJobStatus (jst_JobHistory st) emptyJobStatus\<rparr>) crd1"
  have "StatefulJob_Reconcile env (Inr crd) =
      (Ok (requeueAfter time_Second, None), Some ?final, h1 @ [SjCreatePVC pvc, SjCreateJob j, SjUpdate ?final])"
    using assms(3) none del ready c(4)
    by (simp add: StatefulJob_Reconcile_def Let_def sj_body_def sj_request_def job_due_def)
  moreover have "job_runs_on crd vs pvc j"
    using c(2,3) d(3) by (auto simp: job_runs_on_def sj_BuildPVCs_def BuildJobs_def Let_def snapshotVolume_def ResourceName_def object_defs
        split: sum.splits)
  moreover have "jst_JobHistory (sj_Status ?final) = take 5 (emptyJobStatus # jst_JobHistory (sj_Status crd))"
    using d(4) by (auto simp: AddJobStatus_def Let_def)
  ultimately show ?thesis using assms(2) c(1) d(1)
    by (intro exI [of _ vs] exI [of _ pvc] exI [of _ j] exI [of _ ?final]) simp
qed

text \<open>C34: A stateful job runs when it is due, and only then, on the newest snapshot. A reconcile asks for a job only when
  none is found and the last recorded one, if any, started at least the interval ago; before it, it
  asks to delete the claim of the last job and to create a claim from the newest snapshot that is ready to use, which the
  job mounts. Conversely, when a job is due, a ready snapshot is listed, the ready snapshots have sizes and
  what is asked for is created, the reconcile makes exactly these calls, puts a new entry in front of the
  history, of which it keeps five, stores it last, and comes back after a second.\<close>

theorem StatefulJob_runs_newest:
  assumes "ordering_of (je_Sort env) snapshot_age" and "StatefulJob_Reconcile env (Inr crd) = (res, fin, h)"
  shows "(\<forall>j. SjCreateJob j \<in> set h \<longrightarrow> job_due env crd \<and> (\<exists>vs pvc crd1. newest_ready env vs \<and> job_runs_on crd vs pvc j \<and>
      h = [SjDeletePVC (resourceKey crd), SjCreatePVC pvc, SjCreateJob j, SjUpdate crd1])) \<and>
    (job_due env crd \<and> can_create env \<longrightarrow> (\<exists>vs pvc j crd1. newest_ready env vs \<and> job_runs_on crd vs pvc j \<and>
      h = [SjDeletePVC (resourceKey crd), SjCreatePVC pvc, SjCreateJob j, SjUpdate crd1] \<and>
      jst_JobHistory (sj_Status crd1) = take 5 (emptyJobStatus # jst_JobHistory (sj_Status crd)) \<and>
      fin = Some crd1 \<and> res = Ok (requeueAfter time_Second, None)))"
  using job_only_when_due [OF assms] due_job_runs [OF assms] by blast

text \<open>A daily job on two snapshots, in a cluster that accepts every call.\<close>

definition sample_sj :: StatefulJob where
  "sample_sj = \<lparr>sj_Meta = emptyMeta\<lparr>om_Name := ''upload'', om_Namespace := ''chains''\<rparr>,
     sj_Spec = \<lparr>jp_Selector = [], jp_Interval = 0,
       jp_JobTemplate = \<lparr>jt_ActiveDeadlineSeconds = None, jt_BackoffLimit = None, jt_TTLSecondsAfterFinished = None\<rparr>,
       jp_PodTemplate = \<lparr>pt_Meta = emptyMeta, pt_Spec = emptyPodSpec\<rparr>,
       jp_VolumeClaimTemplate = \<lparr>jv_StorageClassName = ''ssd'', jv_AccessModes = []\<rparr>\<rparr>,
     sj_Status = \<lparr>jst_ObservedGeneration = 0, jst_StatusMessage = None, jst_JobHistory = []\<rparr>\<rparr>"

definition sized_snapshot :: "string \<Rightarrow> time \<Rightarrow> VolumeSnapshot" where
  "sized_snapshot n t = (sample_snapshot n t True)\<lparr>ob_Body := \<lparr>vs_SourcePVC = None, vs_ClassName = None,
     vs_Status = Some \<lparr>vss_ReadyToUse = Some True, vss_CreationTime = Some t, vss_RestoreSize = Some \<lparr>q_Amount = 10, q_Format = []\<rparr>\<rparr>\<rparr>\<rparr>"

definition sample_sj_env :: sj_env where
  "sample_sj_env = \<lparr>je_Now = 0, je_Job = (\<lambda>_. Inl \<lparr>ge_msg = ''not found'', ge_reason = NotFound\<rparr>),
     je_Snapshots = Inr [sized_snapshot ''a'' 1, sized_snapshot ''b'' 2], je_Server = (\<lambda>_ _. None), je_Sort = sort_key snapshot_age,
     je_RefPVC = Inr, je_RefJob = Inr, je_Missing = False\<rparr>"

lemma sample_sj_run:
  "map (\<lambda>c. case c of SjCreatePVC p \<Rightarrow> map_option tr_Name (pvc_DataSource (ob_Body p)) | SjCreateJob j \<Rightarrow> Some (GetName j) | _ \<Rightarrow> None)
     (snd (snd (StatefulJob_Reconcile sample_sj_env (Inr sample_sj)))) = [None, Some ''b'', Some ''upload'', None]"
  by code_simp

lemma sample_sj_due: "job_due sample_sj_env sample_sj" "can_create sample_sj_env"
  by (simp_all add: job_due_def can_create_def sample_sj_env_def sample_sj_def IsNotFound_def sized_snapshot_def sample_snapshot_def
      VolumeSnapshotIsReady_def findStorage_def)

theorem StatefulJob_runs_newest_witness:
  "\<exists>j vs crd1. SjCreateJob j \<in> set (snd (snd (StatefulJob_Reconcile sample_sj_env (Inr sample_sj)))) \<and>
     vs \<in> set [sized_snapshot ''a'' 1, sized_snapshot ''b'' 2] \<and> 2 \<le> statusCreationTime (vs_Status (ob_Body vs)) \<and>
     fst (snd (StatefulJob_Reconcile sample_sj_env (Inr sample_sj))) = Some crd1 \<and> jst_JobHistory (sj_Status crd1) = [emptyJobStatus]"
proof -
  obtain res fin h where r: "StatefulJob_Reconcile sample_sj_env (Inr sample_sj) = (res, fin, h)"
    by (cases "StatefulJob_Reconcile sample_sj_env (Inr sample_sj)")
  have s: "ordering_of (je_Sort sample_sj_env) snapshot_age" using by_age.ordering_of_axioms by (simp add: sample_sj_env_def)
  obtain vs pvc j crd1 where n: "newest_ready sample_sj_env vs" "h = [SjDeletePVC (resourceKey sample_sj), SjCreatePVC pvc, SjCreateJob j, SjUpdate crd1]"
      "jst_JobHistory (sj_Status crd1) = take 5 (emptyJobStatus # jst_JobHistory (sj_Status sample_sj))" "fin = Some crd1"
    using StatefulJob_runs_newest [OF s r] sample_sj_due by metis
  have "VolumeSnapshotIsReady (vs_Status (ob_Body (sized_snapshot ''b'' 2)))" "statusCreationTime (vs_Status (ob_Body (sized_snapshot ''b'' 2))) = 2"
    by (simp_all add: sized_snapshot_def VolumeSnapshotIsReady_def statusCreationTime_def)
  then have "vs \<in> set [sized_snapshot ''a'' 1, sized_snapshot ''b'' 2]" "2 \<le> statusCreationTime (vs_Status (ob_Body vs))"
    using n(1) unfolding newest_ready_def by (auto simp: sample_sj_env_def simp del: set_simps) (simp_all add: list.set_intros)
  moreover have "jst_JobHistory (sj_Status sample_sj) = []" by (simp add: sample_sj_def)
  ultimately show ?thesis using n r by (intro exI [of _ j] exI [of _ vs] exI [of _ crd1]) simp
qed

text \<open>A job that is gone before its status was read stops the controller. A reconcile that creates a
  job records an empty status for it; if the next reconcile does not find the job, it has no start
  time to compare with, and panics.\<close>

theorem lost_job_panics:
  assumes "StatefulJob_Reconcile env (Inr crd) = (Ok (requeueAfter time_Second, None), Some crd1, h)"
    and "je_Job env2 (resourceKey crd) = Inl err" and "IsNotFound (Some err)" and "\<not> je_Missing env2"
  shows "is_panic (fst (StatefulJob_Reconcile env2 (Inr crd1)))"
proof -
  have differ: "requeueAfter time_Second \<notin> {requeueStatefulJob, requeueResult, requeueAfter (5 * time_Second), stopResult}"
    by (simp add: requeueStatefulJob_def requeueResult_def requeueAfter_def stopResult_def time_Second_def)
  let ?crd = "set_sj (\<lambda>st. st\<lparr>jst_ObservedGeneration := om_Generation (sj_Meta crd), jst_StatusMessage := None\<rparr>) crd"
  have miss: "\<not> je_Missing env" using assms(1) differ by (auto simp: StatefulJob_Reconcile_def)
  obtain r h2 where body: "sj_body env ?crd [] = (Ok r, crd1, h2)" "r = requeueAfter time_Second"
    using assms(1) miss by (auto simp: StatefulJob_Reconcile_def Let_def split: prod.splits)
  obtain crd0 h1 where del: "deletePVCs env ?crd [] = (crd0, h1)" by (cases "deletePVCs env ?crd []")
  have "crd1 = set_sj (\<lambda>st. st\<lparr>jst_JobHistory := AddJobStatus (jst_JobHistory st) emptyJobStatus\<rparr>) crd0"
    using body del differ by (auto simp: sj_body_def split: sum.splits option.splits exec.splits if_splits prod.splits)
  then have c1: "jst_JobHistory (sj_Status crd1) \<noteq> []" "hd (jst_JobHistory (sj_Status crd1)) = emptyJobStatus" "sj_Meta crd1 = sj_Meta crd"
    using deletePVCs_spec [OF del] by (auto simp: AddJobStatus_def Let_def)
  let ?crd1 = "set_sj (\<lambda>st. st\<lparr>jst_ObservedGeneration := om_Generation (sj_Meta crd1), jst_StatusMessage := None\<rparr>) crd1"
  obtain crd2 h3 where del2: "deletePVCs env2 ?crd1 [] = (crd2, h3)" by (cases "deletePVCs env2 ?crd1 []")
  have "jst_JobHistory (sj_Status crd2) = jst_JobHistory (sj_Status crd1)" using deletePVCs_spec [OF del2] by simp
  then have "is_panic (ReadyForSnapshot crd2 (je_Now env2))"
    using c1(1,2) by (auto simp: ReadyForSnapshot_def emptyJobStatus_def split: list.splits)
  moreover have "resourceKey ?crd1 = resourceKey crd" using c1(3) by (simp add: resourceKey_def ResourceName_def)
  ultimately show ?thesis
    using assms(2-4) del2 by (auto simp: StatefulJob_Reconcile_def Let_def sj_body_def FindActiveJob_def split: exec.splits)
qed

theorem lost_job_panics_witness:
  "\<exists>crd1. fst (snd (StatefulJob_Reconcile sample_sj_env (Inr sample_sj))) = Some crd1 \<and>
     is_panic (fst (StatefulJob_Reconcile sample_sj_env (Inr crd1)))"
proof -
  obtain res fin h where r: "StatefulJob_Reconcile sample_sj_env (Inr sample_sj) = (res, fin, h)"
    by (cases "StatefulJob_Reconcile sample_sj_env (Inr sample_sj)")
  have "fst (StatefulJob_Reconcile sample_sj_env (Inr sample_sj)) = Ok (requeueAfter time_Second, None)"
    "fst (snd (StatefulJob_Reconcile sample_sj_env (Inr sample_sj))) \<noteq> None"
    by (simp_all add: StatefulJob_Reconcile_def sample_sj_env_def sj_body_def FindActiveJob_def IsNotFound_def deletePVCs_def sj_request_def
      ReadyForSnapshot_def sample_sj_def set_sj_def createResources_def RecentVolumeSnapshot_def sized_snapshot_def sample_snapshot_def
      VolumeSnapshotIsReady_def snapshot_age_def statusCreationTime_def Creator_Create_def sj_BuildPVCs_def findStorage_def each_one
      creator_step_def BuildJobs_def Let_def del: each.simps(2))
  then obtain crd1 where "StatefulJob_Reconcile sample_sj_env (Inr sample_sj) = (Ok (requeueAfter time_Second, None), Some crd1, h)"
    using r by auto
  from lost_job_panics [OF this, of sample_sj_env "\<lparr>ge_msg = ''not found'', ge_reason = NotFound\<rparr>"] this
  show ?thesis by (simp add: sample_sj_env_def IsNotFound_def)
qed

end
