(* ===== verification/Manager.thy ===== *)
theory Manager
  imports Stateful_Job
begin

text \<open>
  \<^verbatim>\<open>main.go\<close> and the \<open>SetupWithManager\<close> of every controller: which fields are indexed, which objects
  are watched, which controllers run, in which order they are registered with the manager of
  controller-runtime, and what is undone when a step fails. The manager is a parameter that answers each call, given what
  was done before; which requests an event leads to is the interface \<open>event_library\<close>.
\<close>

subsection \<open>Events, predicates and watches\<close>

type_synonym object_meta = "unit kobject"

datatype event_type = CreateEvent | UpdateEvent | DeleteEvent | GenericEvent

text \<open>\<open>predicate.Funcs\<close>: a function per type of event, or nil.\<close>

datatype event_predicate =
    Funcs "event_type \<Rightarrow> (object_meta \<Rightarrow> bool) option"
  | LabelSelector labels

datatype event_handler =
    EnqueueRequestForOwner (ownerVersion: string) (ownerKind: string) (isController: bool)
  | EnqueueRequestForObject

record watch =
  wt_Kind :: string
  wt_Handler :: event_handler
  wt_Predicates :: "event_predicate list"

definition GroupVersion :: string where "GroupVersion = ''cosmos.bharvest.io/v1''"

text \<open>\<^verbatim>\<open>internal/statefuljob/predicate.go\<close>.\<close>

definition DeletePredicate :: event_predicate where
  "DeletePredicate = Funcs (\<lambda>t. if t = DeleteEvent then Some (\<lambda>_. True) else None)"

definition sj_LabelSelectorPredicate :: event_predicate where
  "sj_LabelSelectorPredicate = LabelSelector sj_defaultLabels"

subsection \<open>The manager\<close>

datatype reconciler =
    CacheReconciler
  | FullNodeReconciler
  | SelfHealingReconciler
  | StatefulJobReconciler (missingCRD: bool)
  | ScheduledVolumeSnapshotReconciler (missingCRD: bool)
  | StuckHeightRecoveryReconciler

record controller =
  cn_For :: string
  cn_Watches :: "watch list"
  cn_Reconciler :: reconciler

record manager_options =
  mo_MetricsBindAddress :: string
  mo_Port :: int
  mo_HealthProbeBindAddress :: string
  mo_LeaderElection :: bool
  mo_LeaderElectionID :: string

datatype mgr_call =
    NewManager manager_options
  | IndexField (index_kind: string) (index_field: string) (index_fun: "object_meta \<Rightarrow> string list")
  | CompleteController controller
  | AddHealthzCheck string
  | AddReadyzCheck string
  | StartManager

text \<open>What \<open>startManager\<close> does, in order: goroutines it starts, calls of the manager, what is deferred.\<close>

datatype action =
    ServePprof
  | SetLogger string string
  | StartProfile "string list"
  | LogInfo string
  | Ask mgr_call
  | CloseCache
  | StopProfile
  | SyncLogger

type_synonym manager = "action list \<Rightarrow> mgr_call \<Rightarrow> goerror option"

definition ask :: "manager \<Rightarrow> mgr_call \<Rightarrow> action list \<Rightarrow> goerror option \<times> action list" where
  "ask mgr c acts = (mgr acts c, acts @ [Ask c])"

subsection \<open>The set-up of the controllers\<close>

definition controllerOwnerField :: string where "controllerOwnerField = ''.metadata.controller''"

text \<open>The five indexes of the full node controller, with the word of the error message.\<close>

definition ownerIndexes :: "(string \<times> string) list" where
  "ownerIndexes = [(''pod'', ''Pod''), (''pvc'', ''PersistentVolumeClaim''), (''configmap'', ''ConfigMap''),
     (''secret'', ''Secret''), (''service'', ''Service'')]"

fun index_owners :: "manager \<Rightarrow> (string \<times> string) list \<Rightarrow> action list \<Rightarrow> goerror option \<times> action list" where
  "index_owners mgr [] acts = (None, acts)"
| "index_owners mgr ((what, kind) # rest) acts =
     (case ask mgr (IndexField kind controllerOwnerField (IndexOwner GroupVersion CosmosFullNodeController)) acts of
        (Some err, acts') \<Rightarrow> (Some (wrap (what @ '' index field '' @ controllerOwnerField @ '': '') err), acts')
      | (None, acts') \<Rightarrow> index_owners mgr rest acts')"

definition fullNodeWatches :: "watch list" where
  "fullNodeWatches = map (\<lambda>kind. \<lparr>wt_Kind = kind, wt_Handler = EnqueueRequestForOwner GroupVersion ''CosmosFullNode'' True,
       wt_Predicates = [Funcs (\<lambda>t. if t = DeleteEvent then Some (\<lambda>_. True) else None)]\<rparr>)
     [''Pod'', ''PersistentVolumeClaim'', ''ConfigMap'', ''Service'', ''Secret'']"

definition fullNodeController :: controller where
  "fullNodeController = \<lparr>cn_For = ''CosmosFullNode'', cn_Watches = fullNodeWatches, cn_Reconciler = FullNodeReconciler\<rparr>"

definition FullNode_SetupWithManager :: "manager \<Rightarrow> action list \<Rightarrow> goerror option \<times> action list" where
  "FullNode_SetupWithManager mgr acts =
     (case index_owners mgr ownerIndexes acts of
        (Some err, acts') \<Rightarrow> (Some err, acts')
      | (None, acts') \<Rightarrow>
          ask mgr (CompleteController fullNodeController) acts')"

definition SelfHealing_SetupWithManager :: "manager \<Rightarrow> action list \<Rightarrow> goerror option \<times> action list" where
  "SelfHealing_SetupWithManager mgr =
     ask mgr (CompleteController \<lparr>cn_For = ''CosmosFullNode'', cn_Watches = [], cn_Reconciler = SelfHealingReconciler\<rparr>)"

definition cacheController :: controller where
  "cacheController = \<lparr>cn_For = ''CosmosFullNode'', cn_Watches = [], cn_Reconciler = CacheReconciler\<rparr>"

definition Cache_SetupWithManager :: "manager \<Rightarrow> action list \<Rightarrow> goerror option \<times> action list" where
  "Cache_SetupWithManager mgr =
     ask mgr (CompleteController cacheController)"

definition IndexVolumeSnapshots :: "manager \<Rightarrow> action list \<Rightarrow> goerror option \<times> action list" where
  "IndexVolumeSnapshots mgr acts =
     (case ask mgr (IndexField ''VolumeSnapshot'' ''.metadata.name'' (\<lambda>ob. [GetName ob])) acts of
        (Some err, acts') \<Rightarrow> (Some (wrap ''volume snapshot index: '' err), acts')
      | (None, acts') \<Rightarrow> (None, acts'))"

definition jobWatch :: watch where
  "jobWatch = \<lparr>wt_Kind = ''Job'', wt_Handler = EnqueueRequestForObject,
     wt_Predicates = [sj_LabelSelectorPredicate, DeletePredicate]\<rparr>"

definition statefulJobController :: "bool \<Rightarrow> controller" where
  "statefulJobController missing = \<lparr>cn_For = ''StatefulJob'', cn_Watches = [jobWatch],
     cn_Reconciler = StatefulJobReconciler missing\<rparr>"

definition StatefulJob_SetupWithManager :: "manager \<Rightarrow> bool \<Rightarrow> action list \<Rightarrow> goerror option \<times> action list" where
  "StatefulJob_SetupWithManager mgr missing =
     ask mgr (CompleteController (statefulJobController missing))"

definition ScheduledVolumeSnapshot_SetupWithManager :: "manager \<Rightarrow> bool \<Rightarrow> action list \<Rightarrow> goerror option \<times> action list" where
  "ScheduledVolumeSnapshot_SetupWithManager mgr missing =
     ask mgr (CompleteController \<lparr>cn_For = ''ScheduledVolumeSnapshot'', cn_Watches = [],
       cn_Reconciler = ScheduledVolumeSnapshotReconciler missing\<rparr>)"

definition StuckHeightRecovery_SetupWithManager :: "manager \<Rightarrow> action list \<Rightarrow> goerror option \<times> action list" where
  "StuckHeightRecovery_SetupWithManager mgr =
     ask mgr (CompleteController \<lparr>cn_For = ''StuckHeightRecovery'', cn_Watches = [], cn_Reconciler = StuckHeightRecoveryReconciler\<rparr>)"

subsection \<open>\<^verbatim>\<open>startManager\<close>\<close>

text \<open>How the function ends: it returns an error or nil, panics, or the process exits (\<open>GetConfigOrDie\<close>).\<close>

datatype cmd_outcome = CmdReturned "goerror option" | CmdPanicked string | CmdExited int

definition profileOpts :: "string \<Rightarrow> string list exec" where
  "profileOpts mode =
     (let opts = [''ProfilePath .'', ''NoShutdownHook'']
      in if mode = ''cpu'' then Ok (opts @ [''CPUProfile''])
         else if mode = ''mem'' then Ok (opts @ [''MemProfile''])
         else Panic (''unknown profile mode '' @ [CHR 0x22] @ mode @ [CHR 0x22]))"

text \<open>\<open>defer d\<close> followed by the rest of the function: \<open>d\<close> runs on a return and on a panic, not on an exit.\<close>

definition deferring :: "action \<Rightarrow> (action list \<Rightarrow> cmd_outcome \<times> action list) \<Rightarrow> action list \<Rightarrow> cmd_outcome \<times> action list" where
  "deferring d body acts =
     (case body acts of (r, acts') \<Rightarrow> (case r of CmdExited n \<Rightarrow> (r, acts') | _ \<Rightarrow> (r, acts' @ [d])))"

definition try_step ::
  "(action list \<Rightarrow> goerror option \<times> action list) \<Rightarrow> string \<Rightarrow> (action list \<Rightarrow> cmd_outcome \<times> action list) \<Rightarrow>
   action list \<Rightarrow> cmd_outcome \<times> action list" where
  "try_step step what rest acts =
     (case step acts of
        (Some err, acts') \<Rightarrow> (CmdReturned (Some (wrap what err)), acts')
      | (None, acts') \<Rightarrow> rest acts')"

record manager_flags =
  mf_metricsAddr :: string
  mf_probeAddr :: string
  mf_enableLeaderElection :: bool
  mf_logLevel :: string
  mf_logFormat :: string
  mf_profileMode :: string

definition crdWarning :: string where
  "crdWarning = ''Warning: VolumeSnapshot CRD not found, StatefulJob and ScheduledVolumeSnapshot controllers will be disabled''"

text \<open>From the controllers of the volume snapshots to the end of the function.\<close>

definition start_rest :: "manager \<Rightarrow> bool \<Rightarrow> action list \<Rightarrow> cmd_outcome \<times> action list" where
  "start_rest mgr missing =
     try_step (StatefulJob_SetupWithManager mgr missing) ''unable to create StatefulJob controller: '' (
     try_step (ScheduledVolumeSnapshot_SetupWithManager mgr missing) ''unable to create ScheduledVolumeSnapshot controller: '' (
     try_step (StuckHeightRecovery_SetupWithManager mgr) ''unable to create StuckHeightRecovery controller: '' (
     try_step (ask mgr (AddHealthzCheck ''healthz'')) ''unable to set up health check: '' (
     try_step (ask mgr (AddReadyzCheck ''readyz'')) ''unable to set up ready check: '' (
     try_step (ask mgr StartManager o (\<lambda>acts. acts @ [LogInfo ''Starting Cosmos Operator manager''])) ''problem running manager: ''
       (\<lambda>acts. (CmdReturned None, acts)))))))"

definition start_snapshots :: "manager \<Rightarrow> action list \<Rightarrow> cmd_outcome \<times> action list" where
  "start_snapshots mgr acts =
     (case IndexVolumeSnapshots mgr acts of (snapshotErr, acts') \<Rightarrow>
        start_rest mgr (snapshotErr \<noteq> None) (if snapshotErr \<noteq> None then acts' @ [LogInfo crdWarning] else acts'))"

definition start_fullnode :: "manager \<Rightarrow> action list \<Rightarrow> cmd_outcome \<times> action list" where
  "start_fullnode mgr =
     try_step (FullNode_SetupWithManager mgr) ''unable to create CosmosFullNode controller: '' (
     try_step (SelfHealing_SetupWithManager mgr) ''unable to create SelfHealing controller: '' (start_snapshots mgr))"

definition start_controllers :: "manager \<Rightarrow> action list \<Rightarrow> cmd_outcome \<times> action list" where
  "start_controllers mgr =
     try_step (Cache_SetupWithManager mgr) ''unable to create CosmosCache controller: '' (start_fullnode mgr)"

definition managerOptions :: "manager_flags \<Rightarrow> manager_options" where
  "managerOptions fl = \<lparr>mo_MetricsBindAddress = mf_metricsAddr fl, mo_Port = 9443, mo_HealthProbeBindAddress = mf_probeAddr fl,
     mo_LeaderElection = mf_enableLeaderElection fl, mo_LeaderElectionID = ''16e1bc09.strange.love''\<rparr>"

definition run_manager :: "manager \<Rightarrow> bool \<Rightarrow> manager_flags \<Rightarrow> action list \<Rightarrow> cmd_outcome \<times> action list" where
  "run_manager mgr config fl acts =
     (if \<not> config then (CmdExited 1, acts)
      else try_step (ask mgr (NewManager (managerOptions fl))) ''unable to start manager: '' (deferring CloseCache (start_controllers mgr)) acts)"

definition startManager :: "manager \<Rightarrow> bool \<Rightarrow> manager_flags \<Rightarrow> action list \<Rightarrow> cmd_outcome \<times> action list" where
  "startManager mgr config fl acts =
     deferring SyncLogger (\<lambda>acts.
         if mf_profileMode fl = [] then run_manager mgr config fl acts
         else case profileOpts (mf_profileMode fl) of
                Panic m \<Rightarrow> (CmdPanicked m, acts)
              | Ok opts \<Rightarrow> deferring StopProfile (run_manager mgr config fl) (acts @ [StartProfile opts]))
       (acts @ [ServePprof, SetLogger (mf_logLevel fl) (mf_logFormat fl)])"

text \<open>The exit code of the process after the command: \<open>main\<close> exits with 1 on an error, a panic ends it with 2.\<close>

definition exit_code :: "cmd_outcome \<Rightarrow> int" where
  "exit_code r = (case r of CmdReturned None \<Rightarrow> 0 | CmdReturned (Some err) \<Rightarrow> 1 | CmdPanicked m \<Rightarrow> 2 | CmdExited n \<Rightarrow> n)"

subsection \<open>Which objects lead to which reconciles\<close>

text \<open>
  The documented behaviour of the predicates and handlers of controller-runtime. A nil function of \<open>Funcs\<close> lets
  an event through; the owner is the controller, of the given group and kind, in the namespace of the object.
\<close>

locale event_library =
  fixes passes :: "event_predicate \<Rightarrow> event_type \<Rightarrow> object_meta \<Rightarrow> bool"
    and requests :: "event_handler \<Rightarrow> object_meta \<Rightarrow> ObjectKey list"
  assumes funcs: "passes (Funcs f) t ob = (case f t of None \<Rightarrow> True | Some g \<Rightarrow> g ob)"
    and selector: "passes (LabelSelector ls) t ob \<longleftrightarrow> (\<forall>(k, v) \<in> set ls. map_of (om_Labels (ob_Meta ob)) k = Some v)"
    and for_owner: "requests (EnqueueRequestForOwner v k True) ob =
      (case GetControllerOf (om_OwnerReferences (ob_Meta ob)) of
         None \<Rightarrow> []
       | Some r \<Rightarrow> if groupOf (or_APIVersion r) = groupOf v \<and> or_Kind r = k then [ObjectKey (GetNamespace ob) (or_Name r)] else [])"
    and for_object: "requests EnqueueRequestForObject ob = [ObjectKeyFromObject ob]"

text \<open>The requests that an event for an object of a kind adds to the queue of a controller: the objects of the type that
  it is for ask for themselves, those of a watched type what the handler of the watch makes of them.\<close>

definition reconciles ::
  "(event_predicate \<Rightarrow> event_type \<Rightarrow> object_meta \<Rightarrow> bool) \<Rightarrow> (event_handler \<Rightarrow> object_meta \<Rightarrow> ObjectKey list) \<Rightarrow>
   controller \<Rightarrow> string \<Rightarrow> event_type \<Rightarrow> object_meta \<Rightarrow> ObjectKey list" where
  "reconciles passes requests ctl kind t ob =
     (if cn_For ctl = kind then requests EnqueueRequestForObject ob else []) @ concat (map (\<lambda>w. if wt_Kind w = kind \<and> list_all (\<lambda>p. passes p t ob) (wt_Predicates w) then requests (wt_Handler w) ob else [])
       (cn_Watches ctl))"

definition plain :: "'b kobject \<Rightarrow> object_meta" where
  "plain ob = \<lparr>ob_Kind = ob_Kind ob, ob_APIVersion = ob_APIVersion ob, ob_Meta = ob_Meta ob, ob_Body = ()\<rparr>"

lemma plain_simps [simp]:
  "ob_Meta (plain ob) = ob_Meta ob" "GetName (plain ob) = GetName ob" "GetNamespace (plain ob) = GetNamespace ob"
  "ObjectKeyFromObject (plain ob) = ObjectKeyFromObject ob" "IndexOwner v k (plain ob) = IndexOwner v k ob"
  by (simp_all add: plain_def object_defs IndexOwner_def)

context event_library
begin

lemma full_node_requests:
  "reconciles passes requests fullNodeController kind t ob =
     (if kind = ''CosmosFullNode'' then [ObjectKeyFromObject ob] else []) @
     (if kind \<in> snd ` set ownerIndexes then requests (EnqueueRequestForOwner GroupVersion ''CosmosFullNode'' True) ob else [])"
  by (auto simp: reconciles_def fullNodeController_def fullNodeWatches_def ownerIndexes_def funcs for_object)

lemma owner_requests:
  assumes "\<And>r. GetControllerOf (om_OwnerReferences (ob_Meta ob)) = Some r \<Longrightarrow> groupOf (or_APIVersion r) = groupOf GroupVersion \<Longrightarrow>
    or_APIVersion r = GroupVersion"
  shows "requests (EnqueueRequestForOwner GroupVersion ''CosmosFullNode'' True) ob =
    map (ObjectKey (GetNamespace ob)) (IndexOwner GroupVersion CosmosFullNodeController ob)"
  using assms by (auto simp: for_owner IndexOwner_def CosmosFullNodeController_def split: option.split)

lemma job_requests:
  "reconciles passes requests (statefulJobController missing) ''Job'' t ob =
     (if \<forall>(k, v) \<in> set sj_defaultLabels. map_of (om_Labels (ob_Meta ob)) k = Some v then [ObjectKeyFromObject ob] else [])"
  by (cases "t = DeleteEvent") (simp_all add: reconciles_def statefulJobController_def jobWatch_def sj_LabelSelectorPredicate_def
      DeletePredicate_def funcs selector for_object)

end

definition ref_passes :: "event_predicate \<Rightarrow> event_type \<Rightarrow> object_meta \<Rightarrow> bool" where
  "ref_passes p t ob = (case p of
     Funcs f \<Rightarrow> (case f t of None \<Rightarrow> True | Some g \<Rightarrow> g ob)
   | LabelSelector ls \<Rightarrow> list_all (\<lambda>(k, v). map_of (om_Labels (ob_Meta ob)) k = Some v) ls)"

definition ref_requests :: "event_handler \<Rightarrow> object_meta \<Rightarrow> ObjectKey list" where
  "ref_requests h ob = (case h of
     EnqueueRequestForOwner v k c \<Rightarrow>
       (case GetControllerOf (om_OwnerReferences (ob_Meta ob)) of
          None \<Rightarrow> []
        | Some r \<Rightarrow> if groupOf (or_APIVersion r) = groupOf v \<and> or_Kind r = k then [ObjectKey (GetNamespace ob) (or_Name r)] else [])
   | EnqueueRequestForObject \<Rightarrow> [ObjectKeyFromObject ob])"

interpretation ref_events: event_library ref_passes ref_requests
  by unfold_locales (simp_all add: ref_passes_def ref_requests_def list_all_iff)

text \<open>The reference that \<open>SetControllerReference\<close> adds for a full node, to an object that has no controller yet.\<close>

definition fullNodeReference :: "string \<Rightarrow> OwnerReference" where
  "fullNodeReference n = \<lparr>or_APIVersion = GroupVersion, or_Kind = ''CosmosFullNode'', or_Name = n, or_Controller = Some True\<rparr>"

lemma GetControllerOf_snoc: "GetControllerOf (rs @ [r]) = (case GetControllerOf rs of Some q \<Rightarrow> Some q | None \<Rightarrow> GetControllerOf [r])"
  by (induction rs) auto

text \<open>C38: The full node controller is told of exactly the objects that its field indexes list. With the
  documented behaviour of predicates and handlers, whatever happens to an object of any kind, be it created,
  changed or deleted, adds to the controller's queue its own key when it is a full node. When its kind has a field index
  of owners (pods, claims, config maps, secrets and services) it adds the key of the full node under which the
  index lists the object, and nothing when the index does not list it. An object of another kind adds nothing; that
  holds for the service accounts, roles and role bindings, which their controls list by label.
  An object that a control creates for a full node is listed under the name of that full node.\<close>

theorem watches_match_indexes:
  assumes "event_library passes requests"
    and "\<And>r. GetControllerOf (om_OwnerReferences (ob_Meta ob)) = Some r \<Longrightarrow> groupOf (or_APIVersion r) = groupOf GroupVersion \<Longrightarrow>
      or_APIVersion r = GroupVersion"
  shows "reconciles passes requests fullNodeController kind t (plain ob) =
      (if kind = ''CosmosFullNode'' then [ObjectKeyFromObject ob] else []) @
      (if kind \<in> snd ` set ownerIndexes then map (ObjectKey (GetNamespace ob)) (IndexOwner GroupVersion CosmosFullNodeController ob)
       else []) \<and>
    (GetControllerOf (om_OwnerReferences (ob_Meta new)) = None \<longrightarrow> ref_setref (fullNodeReference n) new = Inr ob \<longrightarrow>
      IndexOwner GroupVersion CosmosFullNodeController ob = [n])"
proof (intro conjI impI)
  show "reconciles passes requests fullNodeController kind t (plain ob) =
      (if kind = ''CosmosFullNode'' then [ObjectKeyFromObject ob] else []) @
      (if kind \<in> snd ` set ownerIndexes then map (ObjectKey (GetNamespace ob)) (IndexOwner GroupVersion CosmosFullNodeController ob)
       else [])"
    using event_library.full_node_requests [OF assms(1), of kind t "plain ob"] event_library.owner_requests [OF assms(1), of "plain ob"] assms(2)
    by simp
  assume "GetControllerOf (om_OwnerReferences (ob_Meta new)) = None" "ref_setref (fullNodeReference n) new = Inr ob"
  then show "IndexOwner GroupVersion CosmosFullNodeController ob = [n]"
    by (auto simp: ref_setref_def IndexOwner_def upd_meta_def GetControllerOf_snoc fullNodeReference_def CosmosFullNodeController_def)
qed

definition sample_pod_object :: object_meta where
  "sample_pod_object = \<lparr>ob_Kind = ''Pod'', ob_APIVersion = ''v1'', ob_Meta = emptyMeta\<lparr>om_Name := ''osmo-0'', om_Namespace := ''chains''\<rparr>, ob_Body = ()\<rparr>"

theorem watches_match_indexes_witness:
  "\<exists>ob. ref_setref (fullNodeReference ''osmo'') sample_pod_object = Inr ob \<and>
     reconciles ref_passes ref_requests fullNodeController ''Pod'' CreateEvent (plain ob) = [ObjectKey ''chains'' ''osmo''] \<and>
     reconciles ref_passes ref_requests fullNodeController ''Role'' CreateEvent (plain ob) = []"
proof -
  obtain ob where o: "ref_setref (fullNodeReference ''osmo'') sample_pod_object = Inr ob" by (simp add: ref_setref_def)
  have own: "GetControllerOf (om_OwnerReferences (ob_Meta ob)) = Some (fullNodeReference ''osmo'')" "GetNamespace ob = ''chains''"
    using o by (auto simp: ref_setref_def upd_meta_def sample_pod_object_def emptyMeta_def fullNodeReference_def GetNamespace_def)
  have none: "GetControllerOf (om_OwnerReferences (ob_Meta sample_pod_object)) = None" by (simp add: sample_pod_object_def emptyMeta_def)
  have "or_APIVersion r = GroupVersion" if "GetControllerOf (om_OwnerReferences (ob_Meta ob)) = Some r" for r
    using that own(1) by (auto simp: fullNodeReference_def)
  from watches_match_indexes [OF ref_events.event_library_axioms this, where t = CreateEvent and new = sample_pod_object and n = "''osmo''"] none o
  have "reconciles ref_passes ref_requests fullNodeController kind CreateEvent (plain ob) =
      (if kind = ''CosmosFullNode'' then [ObjectKeyFromObject ob] else []) @
      (if kind \<in> snd ` set ownerIndexes then map (ObjectKey (GetNamespace ob)) (IndexOwner GroupVersion CosmosFullNodeController ob)
       else [])"
      "IndexOwner GroupVersion CosmosFullNodeController ob = [''osmo'']" for kind by blast+
  with o own(2) show ?thesis by (auto simp: ownerIndexes_def)
qed

text \<open>The watch of the jobs asks for a reconcile of the stateful job itself, when its name is one that the
  API server accepts and that is kept by \<open>ToName\<close>; a job without the labels of the operator asks for nothing.\<close>

lemma job_event_key:
  assumes "event_library passes requests" and "j \<in> set (BuildJobs crd)" and "ToName (om_Name (sj_Meta crd)) = om_Name (sj_Meta crd)"
  shows "reconciles passes requests (statefulJobController missing) ''Job'' t (plain j) =
    [ObjectKey (om_Namespace (sj_Meta crd)) (om_Name (sj_Meta crd))]"
  using assms(2,3) unfolding event_library.job_requests [OF assms(1)]
  by (auto simp: BuildJobs_def Let_def sj_defaultLabels_def ControllerLabel_def ComponentLabel_def ObjectKeyFromObject_def GetName_def GetNamespace_def
      ResourceName_def)


subsection \<open>Errors and order\<close>

definition calls :: "action list \<Rightarrow> mgr_call list" where
  "calls acts = concat (map (\<lambda>a. case a of Ask c \<Rightarrow> [c] | _ \<Rightarrow> []) acts)"

lemma calls_simps [simp]:
  "calls [] = []" "calls (xs @ ys) = calls xs @ calls ys"
  "calls (a # xs) = (case a of Ask c \<Rightarrow> [c] | _ \<Rightarrow> []) @ calls xs"
  by (simp_all add: calls_def)

text \<open>A call is refused when it is answered by an error; the index of the volume snapshots may fail.\<close>

definition refused :: "manager \<Rightarrow> action list \<Rightarrow> action \<Rightarrow> bool" where
  "refused mgr pre a = (case a of
     Ask c \<Rightarrow> mgr pre c \<noteq> None \<and> (case c of IndexField k f g \<Rightarrow> k \<noteq> ''VolumeSnapshot'' | _ \<Rightarrow> True)
   | _ \<Rightarrow> False)"

fun fails :: "manager \<Rightarrow> action list \<Rightarrow> action list \<Rightarrow> bool" where
  "fails mgr pre [] = False"
| "fails mgr pre (a # new) = (refused mgr pre a \<or> fails mgr (pre @ [a]) new)"

text \<open>Nothing is asked of the manager after a refusal.\<close>

fun stops :: "manager \<Rightarrow> action list \<Rightarrow> action list \<Rightarrow> bool" where
  "stops mgr pre [] = True"
| "stops mgr pre (a # new) = ((refused mgr pre a \<longrightarrow> calls new = []) \<and> stops mgr (pre @ [a]) new)"

lemma fails_append: "fails mgr pre (xs @ ys) \<longleftrightarrow> fails mgr pre xs \<or> fails mgr (pre @ xs) ys"
  by (induction xs arbitrary: pre) auto

lemma no_calls_fails: "calls xs = [] \<Longrightarrow> \<not> fails mgr pre xs"
  by (induction xs arbitrary: pre) (auto simp: refused_def split: action.splits)

lemma no_calls_stops: "calls xs = [] \<Longrightarrow> stops mgr pre xs"
  by (induction xs arbitrary: pre) (auto simp: refused_def split: action.splits)

lemma stops_append:
  "stops mgr pre (xs @ ys) \<longleftrightarrow> stops mgr pre xs \<and> stops mgr (pre @ xs) ys \<and> (fails mgr pre xs \<longrightarrow> calls ys = [])"
proof (induction xs arbitrary: pre)
  case (Cons a xs)
  have "fails mgr (pre @ [a]) xs \<Longrightarrow> calls xs \<noteq> []" using no_calls_fails by blast
  then show ?case using Cons by auto
qed simp

fun is_release :: "action \<Rightarrow> bool" where
  "is_release CloseCache = True"
| "is_release StopProfile = True"
| "is_release SyncLogger = True"
| "is_release _ = False"

text \<open>A step adds actions and succeeds exactly when none of its calls is refused. A chain of steps adds
  actions, and returns an error exactly when a call is refused. Neither releases anything.\<close>

definition orderly_step :: "manager \<Rightarrow> (action list \<Rightarrow> goerror option \<times> action list) \<Rightarrow> bool" where
  "orderly_step mgr S \<longleftrightarrow> (\<forall>acts. \<exists>new. snd (S acts) = acts @ new \<and> stops mgr acts new \<and>
     \<not> list_ex is_release new \<and> (fst (S acts) = None \<longleftrightarrow> \<not> fails mgr acts new))"

definition orderly :: "manager \<Rightarrow> (action list \<Rightarrow> cmd_outcome \<times> action list) \<Rightarrow> bool" where
  "orderly mgr F \<longleftrightarrow> (\<forall>acts. \<exists>new. snd (F acts) = acts @ new \<and> stops mgr acts new \<and> \<not> list_ex is_release new \<and>
     (if fails mgr acts new then \<exists>e. fst (F acts) = CmdReturned (Some e) else fst (F acts) = CmdReturned None))"

named_theorems orderly_intros \<open>steps of the set-up that stop at the first error\<close>

lemma orderly_ask [orderly_intros]:
  "(\<And>k f g. c = IndexField k f g \<Longrightarrow> k \<noteq> ''VolumeSnapshot'') \<Longrightarrow> orderly_step mgr (ask mgr c)"
  unfolding orderly_step_def ask_def by (intro allI exI [of _ "[Ask c]"]) (auto simp: refused_def split: mgr_call.split)

lemma orderly_log [orderly_intros]:
  "orderly_step mgr S \<Longrightarrow> orderly_step mgr (S o (\<lambda>acts. acts @ [LogInfo m]))"
  unfolding orderly_step_def comp_def
proof (intro allI)
  fix acts
  assume "\<forall>acts. \<exists>new. snd (S acts) = acts @ new \<and> stops mgr acts new \<and>
     \<not> list_ex is_release new \<and> (fst (S acts) = None \<longleftrightarrow> \<not> fails mgr acts new)"
  then obtain new where n: "snd (S (acts @ [LogInfo m])) = (acts @ [LogInfo m]) @ new" "stops mgr (acts @ [LogInfo m]) new"
    "\<not> list_ex is_release new" "fst (S (acts @ [LogInfo m])) = None \<longleftrightarrow> \<not> fails mgr (acts @ [LogInfo m]) new" by blast
  then show "\<exists>new. snd (S (acts @ [LogInfo m])) = acts @ new \<and> stops mgr acts new \<and> \<not> list_ex is_release new \<and>
      (fst (S (acts @ [LogInfo m])) = None \<longleftrightarrow> \<not> fails mgr acts new)"
    by (intro exI [of _ "LogInfo m # new"]) (simp add: refused_def)
qed

lemma orderly_return [orderly_intros]: "orderly mgr (\<lambda>acts. (CmdReturned None, acts))"
  by (auto simp: orderly_def)

lemma orderly_try [orderly_intros]:
  assumes "orderly_step mgr S" and "orderly mgr F"
  shows "orderly mgr (try_step S what F)"
  unfolding orderly_def
proof (intro allI)
  fix acts
  obtain new where n: "snd (S acts) = acts @ new" "stops mgr acts new" "\<not> list_ex is_release new" "fst (S acts) = None \<longleftrightarrow> \<not> fails mgr acts new"
    using assms(1) unfolding orderly_step_def by blast
  obtain new2 where m: "snd (F (acts @ new)) = (acts @ new) @ new2" "stops mgr (acts @ new) new2" "\<not> list_ex is_release new2"
    "if fails mgr (acts @ new) new2 then \<exists>e. fst (F (acts @ new)) = CmdReturned (Some e) else fst (F (acts @ new)) = CmdReturned None"
    using assms(2) unfolding orderly_def by blast
  show "\<exists>new. snd (try_step S what F acts) = acts @ new \<and> stops mgr acts new \<and> \<not> list_ex is_release new \<and>
     (if fails mgr acts new then \<exists>e. fst (try_step S what F acts) = CmdReturned (Some e)
      else fst (try_step S what F acts) = CmdReturned None)"
  proof (cases "fst (S acts)")
    case None
    then have "S acts = (None, acts @ new)" using n(1) by (metis prod.collapse)
    then show ?thesis using n m None by (intro exI [of _ "new @ new2"]) (simp add: try_step_def stops_append fails_append)
  next
    case (Some err)
    then have "S acts = (Some err, acts @ new)" using n(1) by (metis prod.collapse)
    then show ?thesis using n Some by (intro exI [of _ new]) (simp add: try_step_def)
  qed
qed

lemma orderly_step_then:
  assumes "orderly_step mgr S" and "orderly_step mgr T"
    and "\<And>acts. U acts = (case S acts of (Some err, acts') \<Rightarrow> (Some (w err), acts') | (None, acts') \<Rightarrow> T acts')"
  shows "orderly_step mgr U"
  unfolding orderly_step_def
proof (intro allI)
  fix acts
  obtain new where n: "snd (S acts) = acts @ new" "stops mgr acts new" "\<not> list_ex is_release new" "fst (S acts) = None \<longleftrightarrow> \<not> fails mgr acts new"
    using assms(1) unfolding orderly_step_def by blast
  obtain new2 where m: "snd (T (acts @ new)) = (acts @ new) @ new2" "stops mgr (acts @ new) new2" "\<not> list_ex is_release new2"
    "fst (T (acts @ new)) = None \<longleftrightarrow> \<not> fails mgr (acts @ new) new2"
    using assms(2) unfolding orderly_step_def by blast
  show "\<exists>new. snd (U acts) = acts @ new \<and> stops mgr acts new \<and> \<not> list_ex is_release new \<and>
     (fst (U acts) = None \<longleftrightarrow> \<not> fails mgr acts new)"
  proof (cases "fst (S acts)")
    case None
    then have "S acts = (None, acts @ new)" using n(1) by (metis prod.collapse)
    then show ?thesis using n m None by (intro exI [of _ "new @ new2"]) (simp add: assms(3) stops_append fails_append)
  next
    case (Some err)
    then have "S acts = (Some err, acts @ new)" using n(1) by (metis prod.collapse)
    then show ?thesis using n Some by (intro exI [of _ new]) (simp add: assms(3))
  qed
qed

lemma orderly_index_owners:
  "\<forall>(what, kind) \<in> set xs. kind \<noteq> ''VolumeSnapshot'' \<Longrightarrow> orderly_step mgr (index_owners mgr xs)"
proof (induction xs)
  case Nil
  show ?case by (simp add: orderly_step_def)
next
  case (Cons x xs)
  obtain what kind where x: "x = (what, kind)" by (cases x)
  have k: "kind \<noteq> ''VolumeSnapshot''" using Cons.prems x by simp
  have "orderly_step mgr (ask mgr (IndexField kind controllerOwnerField (IndexOwner GroupVersion CosmosFullNodeController)))"
    by (rule orderly_ask) (simp add: k)
  then show ?case
    by (rule orderly_step_then [where T = "index_owners mgr xs"]) (use Cons x in auto)
qed

lemma orderly_complete [orderly_intros]: "orderly_step mgr (ask mgr (CompleteController c))"
  by (rule orderly_ask) simp

lemma orderly_FullNode [orderly_intros]: "orderly_step mgr (FullNode_SetupWithManager mgr)"
proof -
  have "orderly_step mgr (index_owners mgr ownerIndexes)"
    by (rule orderly_index_owners) (simp add: ownerIndexes_def)
  then show ?thesis
    by (rule orderly_step_then [where w = id, OF _ orderly_complete [where c = fullNodeController]]) (simp add: FullNode_SetupWithManager_def split: prod.split option.split)
qed

lemma orderly_controllers [orderly_intros]:
  "orderly_step mgr (SelfHealing_SetupWithManager mgr)" "orderly_step mgr (Cache_SetupWithManager mgr)"
  "orderly_step mgr (StatefulJob_SetupWithManager mgr missing)"
  "orderly_step mgr (ScheduledVolumeSnapshot_SetupWithManager mgr missing)"
  "orderly_step mgr (StuckHeightRecovery_SetupWithManager mgr)"
  unfolding SelfHealing_SetupWithManager_def Cache_SetupWithManager_def StatefulJob_SetupWithManager_def
      ScheduledVolumeSnapshot_SetupWithManager_def StuckHeightRecovery_SetupWithManager_def by (rule orderly_complete)+

lemma orderly_start_rest: "orderly mgr (start_rest mgr missing)"
  unfolding start_rest_def by (intro orderly_intros) simp_all

lemma orderly_start_snapshots: "orderly mgr (start_snapshots mgr)"
  unfolding orderly_def
proof (intro allI)
  fix acts
  define idx where "idx = Ask (IndexField ''VolumeSnapshot'' ''.metadata.name'' (\<lambda>ob. [GetName ob]))"
  define missing where "missing = (fst (IndexVolumeSnapshots mgr acts) \<noteq> None)"
  define xs where "xs = idx # (if missing then [LogInfo crdWarning] else [])"
  have F: "start_snapshots mgr acts = start_rest mgr missing (acts @ xs)"
    by (simp add: start_snapshots_def IndexVolumeSnapshots_def ask_def xs_def missing_def idx_def split: option.split)
  obtain new where n: "snd (start_rest mgr missing (acts @ xs)) = (acts @ xs) @ new" "stops mgr (acts @ xs) new" "\<not> list_ex is_release new"
    "if fails mgr (acts @ xs) new then \<exists>e. fst (start_rest mgr missing (acts @ xs)) = CmdReturned (Some e)
     else fst (start_rest mgr missing (acts @ xs)) = CmdReturned None"
    using orderly_start_rest [of mgr missing] unfolding orderly_def by blast
  have "stops mgr acts xs" "\<not> fails mgr acts xs" "\<not> list_ex is_release xs" by (simp_all add: xs_def idx_def refused_def)
  with n show "\<exists>new. snd (start_snapshots mgr acts) = acts @ new \<and> stops mgr acts new \<and> \<not> list_ex is_release new \<and>
      (if fails mgr acts new then \<exists>e. fst (start_snapshots mgr acts) = CmdReturned (Some e) else fst (start_snapshots mgr acts) = CmdReturned None)"
    unfolding F by (intro exI [of _ "xs @ new"]) (simp add: stops_append fails_append)
qed

lemma orderly_start_fullnode: "orderly mgr (start_fullnode mgr)"
  unfolding start_fullnode_def by (intro orderly_try orderly_controllers orderly_FullNode orderly_start_snapshots)

lemma orderly_start_controllers: "orderly mgr (start_controllers mgr)"
  unfolding start_controllers_def by (rule orderly_try [OF orderly_controllers(2) orderly_start_fullnode])

lemma start_controllers_first:
  "\<exists>new. snd (start_controllers mgr acts) = acts @ Ask (CompleteController cacheController) # new"
proof -
  let ?a = "acts @ [Ask (CompleteController cacheController)]"
  obtain new where "snd (start_fullnode mgr ?a) = ?a @ new"
    using orderly_start_fullnode [of mgr] unfolding orderly_def by blast
  then show ?thesis
    by (auto simp: start_controllers_def Cache_SetupWithManager_def ask_def try_step_def split: option.split)
qed

text \<open>\<open>nil\<close> is returned only after the manager was started.\<close>

lemma try_step_None:
  assumes "try_step S what F acts = (CmdReturned None, acts')"
  obtains acts1 where "S acts = (None, acts1)" "F acts1 = (CmdReturned None, acts')"
  using assms by (auto simp: try_step_def split: prod.splits option.splits)

lemma start_rest_None:
  assumes "start_rest mgr missing acts = (CmdReturned None, acts')"
  shows "last acts' = Ask StartManager"
  using assms unfolding start_rest_def by (auto elim!: try_step_None simp: ask_def)

lemma start_controllers_None:
  assumes "start_controllers mgr acts = (CmdReturned None, acts')"
  shows "last acts' = Ask StartManager"
  using assms unfolding start_controllers_def start_fullnode_def
  by (auto elim!: try_step_None simp: start_snapshots_def split: prod.splits dest: start_rest_None)

lemma in_calls: "Ask c \<in> set acts \<Longrightarrow> c \<in> set (calls acts)"
  by (induction acts) auto

text \<open>What a call of \<open>run_manager\<close> and of \<open>startManager\<close> adds: nothing is asked after a refusal, the result tells
  whether a call was refused, and what was acquired is released at the end, in the reverse order.\<close>

lemma run_manager_spec:
  assumes "run_manager mgr True fl acts = (r, acts')"
  shows "\<exists>new body. acts' = acts @ new \<and> stops mgr acts new \<and>
    (if fails mgr acts new then \<exists>e. r = CmdReturned (Some e) else r = CmdReturned None \<and> StartManager \<in> set (calls new)) \<and>
    new = body @ (if length (calls new) > 1 then [CloseCache] else []) \<and> \<not> list_ex is_release body"
proof (cases "mgr acts (NewManager (managerOptions fl))")
  case (Some err)
  then show ?thesis using assms
    by (intro exI [of _ "[Ask (NewManager (managerOptions fl))]"]) (auto simp: run_manager_def try_step_def ask_def refused_def)
next
  case None
  let ?a = "acts @ [Ask (NewManager (managerOptions fl))]"
  obtain new where n: "snd (start_controllers mgr ?a) = ?a @ new" "stops mgr ?a new" "\<not> list_ex is_release new"
    "if fails mgr ?a new then \<exists>e. fst (start_controllers mgr ?a) = CmdReturned (Some e) else fst (start_controllers mgr ?a) = CmdReturned None"
    using orderly_start_controllers unfolding orderly_def by blast
  obtain new' where "new = Ask (CompleteController cacheController) # new'"
    using start_controllers_first [of mgr ?a] n(1) by auto
  moreover from this have "fst (start_controllers mgr ?a) = CmdReturned None \<Longrightarrow> StartManager \<in> set (calls new)"
    using start_controllers_None [of mgr ?a "?a @ new"] n(1) by (intro in_calls) (metis last_appendR last_in_set list.distinct(1) prod.collapse)
  moreover have "r = fst (start_controllers mgr ?a)" "acts' = ?a @ new @ [CloseCache]"
  proof -
    have F: "start_controllers mgr ?a = (fst (start_controllers mgr ?a), ?a @ new)" using n(1) by (metis prod.collapse)
    have "\<And>k. fst (start_controllers mgr ?a) \<noteq> CmdExited k" using n(4) by (metis cmd_outcome.distinct(4))
    then show "r = fst (start_controllers mgr ?a)" "acts' = ?a @ new @ [CloseCache]"
      using assms None F
      by (auto simp: run_manager_def try_step_def [of "ask mgr (NewManager (managerOptions fl))"] ask_def deferring_def split: prod.splits cmd_outcome.splits)
  qed
  ultimately show ?thesis using n None
    by (intro exI [of _ "Ask (NewManager (managerOptions fl)) # new @ [CloseCache]"] exI [of _ "Ask (NewManager (managerOptions fl)) # new"])
      (auto simp: refused_def stops_append fails_append)
qed

lemma run_manager_within:
  assumes "run_manager mgr True fl (acts @ xs) = (r, a)" and "calls xs = []" "\<not> list_ex is_release xs" and "calls rel = []"
  shows "(\<forall>k. r \<noteq> CmdExited k) \<and> (\<exists>new body. a @ rel = acts @ new \<and> stops mgr acts new \<and>
    ((\<exists>err. r = CmdReturned (Some err)) \<longleftrightarrow> fails mgr acts new) \<and> (r = CmdReturned None \<longrightarrow> StartManager \<in> set (calls new)) \<and>
    new = body @ (if length (calls new) > 1 then [CloseCache] else []) @ rel \<and> \<not> list_ex is_release body)"
proof -
  obtain new body where n: "a = (acts @ xs) @ new" "stops mgr (acts @ xs) new"
    "if fails mgr (acts @ xs) new then \<exists>e. r = CmdReturned (Some e) else r = CmdReturned None \<and> StartManager \<in> set (calls new)"
    "new = body @ (if length (calls new) > 1 then [CloseCache] else [])" "\<not> list_ex is_release body"
    using run_manager_spec [OF assms(1)] by blast
  have c: "calls (xs @ new @ rel) = calls new" using assms(2,4) by simp
  have "xs @ new @ rel = (xs @ body) @ (if length (calls (xs @ new @ rel)) > 1 then [CloseCache] else []) @ rel"
    (is "?new = (xs @ body) @ ?close @ rel") unfolding c using n(4) by (metis append.assoc)
  moreover have "stops mgr acts (xs @ new @ rel)" "fails mgr acts (xs @ new @ rel) = fails mgr (acts @ xs) new"
    using n(2) assms(2,4) by (simp_all add: stops_append fails_append no_calls_stops no_calls_fails)
  moreover have "\<forall>k. r \<noteq> CmdExited k" using n(3) by (metis cmd_outcome.distinct(4))
  moreover have "(\<exists>err. r = CmdReturned (Some err)) \<longleftrightarrow> fails mgr (acts @ xs) new" "r = CmdReturned None \<longrightarrow> StartManager \<in> set (calls new)"
    using n(3) by (auto split: if_splits)
  moreover have "\<not> list_ex is_release (xs @ body)" using n(5) assms(3) by simp
  moreover have "a @ rel = acts @ xs @ new @ rel" using n(1) by simp
  ultimately show ?thesis unfolding c by (intro conjI, blast) (rule exI [of _ "xs @ new @ rel"], rule exI [of _ "xs @ body"], simp add: assms(2,4))
qed

text \<open>C36: The start of the operator stops at the first error and cleans up. Whatever the manager answers,
  nothing is asked of it after a refused call, and \<open>startManager\<close> returns an error exactly when a call was refused
  (the failed index of the volume snapshots, which is only logged, is not counted as refused):
  it returns nil only after the manager ran to its end. However it ends, short of an exit for a missing
  configuration, it last closes the cache of the status collectors, when the manager was created,
  then stops the profile that it started, then flushes the log, and releases nothing before.\<close>

theorem startManager_orderly:
  assumes "startManager mgr config fl acts = (res, acts')" and "\<forall>n. res \<noteq> CmdExited n"
  shows "\<exists>new body. acts' = acts @ new \<and> stops mgr acts new \<and>
    ((\<exists>err. res = CmdReturned (Some err)) \<longleftrightarrow> fails mgr acts new) \<and>
    (res = CmdReturned None \<longrightarrow> StartManager \<in> set (calls new)) \<and>
    new = body @ (if length (calls new) > 1 then [CloseCache] else []) @
      (if mf_profileMode fl \<in> {''cpu'', ''mem''} then [StopProfile] else []) @ [SyncLogger] \<and>
    \<not> list_ex is_release body"
proof -
  define xs where "xs = [ServePprof, SetLogger (mf_logLevel fl) (mf_logFormat fl)]"
  have xs: "calls xs = []" "\<not> list_ex is_release xs" by (simp_all add: xs_def)
  have c: "config" if "mf_profileMode fl \<in> {[], ''cpu'', ''mem''}"
  proof (rule ccontr)
    assume "\<not> config"
    then have "res = CmdExited 1" using assms(1) that by (auto simp: startManager_def deferring_def run_manager_def profileOpts_def)
    then show False using assms(2) by blast
  qed
  consider (off) "mf_profileMode fl = []" | (on) "mf_profileMode fl \<in> {''cpu'', ''mem''}" | (bad) "mf_profileMode fl \<notin> {[], ''cpu'', ''mem''}"
    by blast
  then show ?thesis
  proof cases
    case off
    obtain r a where R: "run_manager mgr True fl (acts @ xs) = (r, a)" by (metis surj_pair)
    note spec = run_manager_within [OF R xs, of "[SyncLogger]"]
    then have "res = r" "acts' = a @ [SyncLogger]"
      using assms(1) off c R by (auto simp: startManager_def deferring_def xs_def split: cmd_outcome.splits)
    then show ?thesis using spec off by simp
  next
    case on
    obtain opts where o: "profileOpts (mf_profileMode fl) = Ok opts" "mf_profileMode fl \<noteq> []" using on by (auto simp: profileOpts_def Let_def)
    obtain r a where R: "run_manager mgr True fl (acts @ xs @ [StartProfile opts]) = (r, a)" by (metis surj_pair)
    note spec = run_manager_within [OF R, of "[StopProfile, SyncLogger]"]
    then have "res = r" "acts' = a @ [StopProfile, SyncLogger]"
      using assms(1) o c on R xs by (auto simp: startManager_def deferring_def xs_def split: cmd_outcome.splits)
    then show ?thesis using spec on xs by auto
  next
    case bad
    then have "res = CmdPanicked (''unknown profile mode '' @ [CHR 0x22] @ mf_profileMode fl @ [CHR 0x22])" "acts' = acts @ xs @ [SyncLogger]"
      using assms(1) by (auto simp: startManager_def deferring_def profileOpts_def xs_def Let_def)
    then show ?thesis using bad xs no_calls_stops [of "xs @ [SyncLogger]"] no_calls_fails [of "xs @ [SyncLogger]"]
      by (intro exI [of _ "xs @ [SyncLogger]"] exI [of _ xs]) simp
  qed
qed

subsection \<open>The contract of the manager\<close>

definition indexed :: "action list \<Rightarrow> (string \<times> string) list" where
  "indexed acts = concat (map (\<lambda>c. case c of IndexField k f g \<Rightarrow> [(k, f)] | _ \<Rightarrow> []) (calls acts))"

definition reconcilers :: "action list \<Rightarrow> reconciler list" where
  "reconcilers acts = concat (map (\<lambda>c. case c of CompleteController ctl \<Rightarrow> [cn_Reconciler ctl] | _ \<Rightarrow> []) (calls acts))"

lemma indexed_simps [simp]:
  "indexed [] = []" "indexed (xs @ ys) = indexed xs @ indexed ys"
  "indexed (a # xs) = (case a of Ask (IndexField k f g) \<Rightarrow> [(k, f)] | _ \<Rightarrow> []) @ indexed xs"
  "reconcilers [] = []" "reconcilers (xs @ ys) = reconcilers xs @ reconcilers ys"
  "reconcilers (a # xs) = (case a of Ask (CompleteController ctl) \<Rightarrow> [cn_Reconciler ctl] | _ \<Rightarrow> []) @ reconcilers xs"
  by (auto simp: indexed_def reconcilers_def split: action.split mgr_call.split)

text \<open>The documented behaviour in a healthy cluster: a field of a type is indexed once, and the type has to exist.\<close>

definition manager_contract :: "manager \<Rightarrow> bool \<Rightarrow> bool" where
  "manager_contract mgr missing \<longleftrightarrow> (\<forall>acts c. mgr acts c = None \<longleftrightarrow>
     (case c of IndexField k f g \<Rightarrow> (k, f) \<notin> set (indexed acts) \<and> \<not> (missing \<and> k = ''VolumeSnapshot'') | _ \<Rightarrow> True))"

lemma contract_answers:
  assumes "manager_contract mgr missing"
  shows "mgr acts (NewManager opts) = None" "mgr acts (CompleteController c) = None" "mgr acts (AddHealthzCheck n) = None"
    "mgr acts (AddReadyzCheck n) = None" "mgr acts StartManager = None"
    "k \<noteq> ''VolumeSnapshot'' \<Longrightarrow> (k, f) \<notin> set (indexed acts) \<Longrightarrow> mgr acts (IndexField k f g) = None"
    "mgr acts (IndexField ''VolumeSnapshot'' f g) = None \<longleftrightarrow> (''VolumeSnapshot'', f) \<notin> set (indexed acts) \<and> \<not> missing"
  using assms by (auto simp: manager_contract_def)

lemma contract_index_owners:
  assumes "manager_contract mgr missing"
  shows "distinct (map snd xs) \<Longrightarrow> \<forall>k \<in> snd ` set xs. k \<noteq> ''VolumeSnapshot'' \<and> (k, controllerOwnerField) \<notin> set (indexed acts) \<Longrightarrow>
    \<exists>new. index_owners mgr xs acts = (None, acts @ new) \<and> indexed new = map (\<lambda>p. (snd p, controllerOwnerField)) xs \<and> reconcilers new = []"
proof (induction xs arbitrary: acts)
  case (Cons x xs)
  obtain what k where x: "x = (what, k)" by (cases x)
  let ?c = "IndexField k controllerOwnerField (IndexOwner GroupVersion CosmosFullNodeController)"
  have "mgr acts ?c = None" using contract_answers(6) [OF assms, of k controllerOwnerField] Cons.prems x by simp
  moreover obtain new where "index_owners mgr xs (acts @ [Ask ?c]) = (None, acts @ [Ask ?c] @ new)"
      "indexed new = map (\<lambda>p. (snd p, controllerOwnerField)) xs" "reconcilers new = []"
    using Cons.IH [of "acts @ [Ask ?c]"] Cons.prems x by auto
  ultimately show ?case by (intro exI [of _ "Ask ?c # new"]) (simp add: x ask_def)
qed simp

lemmas setup_defs = FullNode_SetupWithManager_def SelfHealing_SetupWithManager_def Cache_SetupWithManager_def
  StatefulJob_SetupWithManager_def ScheduledVolumeSnapshot_SetupWithManager_def StuckHeightRecovery_SetupWithManager_def
  start_controllers_def start_fullnode_def try_step_def ask_def ownerIndexes_def cacheController_def fullNodeController_def statefulJobController_def

text \<open>All controllers and indexes of the operator, in their order.\<close>

definition complete_setup :: "bool \<Rightarrow> action list \<Rightarrow> bool" where
  "complete_setup missing new \<longleftrightarrow> reconcilers new = [CacheReconciler, FullNodeReconciler, SelfHealingReconciler, StatefulJobReconciler missing,
      ScheduledVolumeSnapshotReconciler missing, StuckHeightRecoveryReconciler] \<and>
    indexed new = map (\<lambda>p. (snd p, controllerOwnerField)) ownerIndexes @ [(''VolumeSnapshot'', ''.metadata.name'')]"

lemma contract_setup:
  assumes "manager_contract mgr missing" and "indexed acts = []"
  shows "\<exists>new. start_controllers mgr acts = (CmdReturned None, acts @ new) \<and>
    complete_setup missing new"
proof -
  note c = contract_answers [OF assms(1)]
  have rest: "\<exists>new. start_rest mgr m a = (CmdReturned None, a @ new) \<and> indexed new = [] \<and> reconcilers new = [StatefulJobReconciler m,
      ScheduledVolumeSnapshotReconciler m, StuckHeightRecoveryReconciler]" for a m
    by (simp add: start_rest_def setup_defs c)
  have snaps: "\<exists>new. start_snapshots mgr a = (CmdReturned None, a @ new) \<and> indexed new = [(''VolumeSnapshot'', ''.metadata.name'')] \<and>
      reconcilers new = [StatefulJobReconciler missing, ScheduledVolumeSnapshotReconciler missing, StuckHeightRecoveryReconciler]"
    if "(''VolumeSnapshot'', ''.metadata.name'') \<notin> set (indexed a)" for a
  proof -
    define idx where "idx = Ask (IndexField ''VolumeSnapshot'' ''.metadata.name'' (\<lambda>ob. [GetName ob]))"
    define xs where "xs = idx # (if missing then [LogInfo crdWarning] else [])"
    have "start_snapshots mgr a = start_rest mgr missing (a @ xs)"
      using c(7) [of a "''.metadata.name''"] that
      by (auto simp: start_snapshots_def IndexVolumeSnapshots_def ask_def xs_def idx_def split: option.split)
    then show ?thesis using rest [of missing "a @ xs"] by (auto simp: xs_def idx_def)
  qed
  let ?a = "acts @ [Ask (CompleteController cacheController)]"
  obtain new1 where i: "index_owners mgr ownerIndexes ?a = (None, ?a @ new1)"
      "indexed new1 = map (\<lambda>p. (snd p, controllerOwnerField)) ownerIndexes" "reconcilers new1 = []"
    using contract_index_owners [OF assms(1), of ownerIndexes ?a] assms(2) by (auto simp: ownerIndexes_def)
  let ?b = "?a @ new1 @ [Ask (CompleteController fullNodeController),
    Ask (CompleteController \<lparr>cn_For = ''CosmosFullNode'', cn_Watches = [], cn_Reconciler = SelfHealingReconciler\<rparr>)]"
  have "(''VolumeSnapshot'', ''.metadata.name'') \<notin> set (indexed ?b)"
    using i(2) assms(2) by (auto simp: controllerOwnerField_def)
  from snaps [OF this] obtain new2 where s: "start_snapshots mgr ?b = (CmdReturned None, ?b @ new2)"
      "indexed new2 = [(''VolumeSnapshot'', ''.metadata.name'')]"
      "reconcilers new2 = [StatefulJobReconciler missing, ScheduledVolumeSnapshotReconciler missing, StuckHeightRecoveryReconciler]"
    by blast
  have "start_controllers mgr acts = start_snapshots mgr ?b"
    using i(1) by (simp add: start_controllers_def start_fullnode_def Cache_SetupWithManager_def FullNode_SetupWithManager_def
      SelfHealing_SetupWithManager_def try_step_def ask_def c)
  then show ?thesis using s i
    by (intro exI [of _ "drop (length acts) ?b @ new2"]) (simp add: cacheController_def fullNodeController_def complete_setup_def)
qed

text \<open>The set-up of the operator succeeds where it can. With a manager that indexes every field of a
  type once and fails only where the volume snapshots are not installed, \<open>startManager\<close> gets through: all
  six controllers run, those that a missing volume snapshot disables are told so, and those alone; the five types
  that the controls list by their owner are indexed, no index twice, and the process exits with 0.\<close>

lemma manager_sets_up:
  assumes "manager_contract mgr missing" and "mf_profileMode fl \<in> {[], ''cpu'', ''mem''}"
    and "startManager mgr True fl [] = (res, acts)"
  shows "exit_code res = 0 \<and> distinct (indexed acts) \<and>
    (\<forall>kind \<in> {''Pod'', ''PersistentVolumeClaim'', ''ConfigMap'', ''Secret'', ''Service''}. (kind, controllerOwnerField) \<in> set (indexed acts)) \<and>
    reconcilers acts = [CacheReconciler, FullNodeReconciler, SelfHealingReconciler, StatefulJobReconciler missing,
      ScheduledVolumeSnapshotReconciler missing, StuckHeightRecoveryReconciler]"
proof -
  have run: "\<exists>new. run_manager mgr True fl pre = (CmdReturned None, pre @ new) \<and>
      complete_setup missing new"
    if "indexed pre = []" for pre
    using contract_setup [OF assms(1), of "pre @ [Ask (NewManager (managerOptions fl))]"] that
    by (auto simp: run_manager_def try_step_def ask_def deferring_def contract_answers [OF assms(1)] complete_setup_def)
  have "\<exists>xs new rel. res = CmdReturned None \<and> acts = xs @ new @ rel \<and> indexed xs = [] \<and> reconcilers xs = [] \<and> indexed rel = [] \<and> reconcilers rel = [] \<and>
      complete_setup missing new"
  proof (cases "mf_profileMode fl = []")
    case True
    let ?xs = "[ServePprof, SetLogger (mf_logLevel fl) (mf_logFormat fl)]"
    obtain new where "run_manager mgr True fl ?xs = (CmdReturned None, ?xs @ new)" "complete_setup missing new"
      using run [of ?xs] by auto
    then show ?thesis using assms(3) True
      by (intro exI [of _ ?xs] exI [of _ new] exI [of _ "[SyncLogger]"]) (auto simp: startManager_def deferring_def)
  next
    case False
    then obtain opts where o: "profileOpts (mf_profileMode fl) = Ok opts" using assms(2) by (auto simp: profileOpts_def Let_def)
    let ?xs = "[ServePprof, SetLogger (mf_logLevel fl) (mf_logFormat fl), StartProfile opts]"
    obtain new where "run_manager mgr True fl ?xs = (CmdReturned None, ?xs @ new)" "complete_setup missing new"
      using run [of ?xs] by auto
    then show ?thesis using assms(3) False o
      by (intro exI [of _ ?xs] exI [of _ new] exI [of _ "[StopProfile, SyncLogger]"]) (auto simp: startManager_def deferring_def)
  qed
  then show ?thesis by (auto simp: complete_setup_def exit_code_def ownerIndexes_def controllerOwnerField_def)
qed

text \<open>A manager that keeps the contract, and one whose first index is refused.\<close>

definition ref_manager :: "bool \<Rightarrow> manager" where
  "ref_manager missing acts c = (case c of
     IndexField k f g \<Rightarrow> if (k, f) \<in> set (indexed acts) then Some (errorNew ''indexer conflict'')
       else if missing \<and> k = ''VolumeSnapshot'' then Some (errorNew ''no matches for kind'') else None
   | _ \<Rightarrow> None)"

definition no_index :: manager where
  "no_index acts c = (case c of IndexField k f g \<Rightarrow> Some (errorNew ''indexer conflict'') | _ \<Rightarrow> None)"

definition sample_flags :: "string \<Rightarrow> manager_flags" where
  "sample_flags mode = \<lparr>mf_metricsAddr = '':8080'', mf_probeAddr = '':8081'', mf_enableLeaderElection = False, mf_logLevel = ''info'', mf_logFormat = ''console'', mf_profileMode = mode\<rparr>"

lemma ref_manager_contract: "manager_contract (ref_manager missing) missing"
  by (simp add: manager_contract_def ref_manager_def split: mgr_call.split)

theorem startManager_orderly_witness:
  "\<exists>res acts err. startManager no_index True (sample_flags ''mem'') [] = (res, acts) \<and> res = CmdReturned (Some err) \<and>
     last acts = SyncLogger \<and> last (butlast acts) = StopProfile \<and> fails no_index [] acts"
proof -
  obtain res acts where r: "startManager no_index True (sample_flags ''mem'') [] = (res, acts)" by (metis surj_pair)
  have e: "\<exists>err. res = CmdReturned (Some err)"
    using r by (auto simp: startManager_def sample_flags_def profileOpts_def Let_def deferring_def run_manager_def setup_defs no_index_def)
  then have "\<forall>n. res \<noteq> CmdExited n" by auto
  from startManager_orderly [OF r this] obtain new body where n: "acts = [] @ new" "(\<exists>err. res = CmdReturned (Some err)) \<longleftrightarrow> fails no_index [] new"
      "new = body @ (if length (calls new) > 1 then [CloseCache] else []) @
        (if mf_profileMode (sample_flags ''mem'') \<in> {''cpu'', ''mem''} then [StopProfile] else []) @ [SyncLogger]" by blast
  define close where "close = (if length (calls new) > 1 then [CloseCache] else [])"
  have "acts = (body @ close) @ [StopProfile, SyncLogger]"
    unfolding close_def using n(1,3) by (simp add: sample_flags_def del: One_nat_def)
  then have "last acts = SyncLogger" "last (butlast acts) = StopProfile" by (simp_all add: butlast_append)
  with r e n(1,2) show ?thesis by auto
qed

end
