(* ===== verification/Version_Check.thy ===== *)
theory Version_Check
  imports Pod_Builder
begin

text \<open>
  \<^verbatim>\<open>cmd/versioncheck.go\<close>: the command that runs as an init container, and as a daemon beside the node.
  It reads the height from the application database, records it in the status of the full node and
  fails when the pod runs another image than the one for that height. The file system, the
  database and the API server are parameters.
\<close>

datatype BackendType = GoLevelDBBackend | MemDBBackend | RocksDBBackend | PebbleDBBackend

definition getBackend :: "string \<Rightarrow> BackendType exec" where
  "getBackend backend =
     (if backend = ''goleveldb'' then Ok GoLevelDBBackend
      else if backend = ''memdb'' then Ok MemDBBackend
      else if backend = ''rocksdb'' then Ok RocksDBBackend
      else if backend = ''pebbledb'' then Ok PebbleDBBackend
      else Panic (''unknown backend '' @ backend))"

text \<open>
  One check: opening the database yields the latest version (an \<open>int64\<close>) or an error; the read of the
  resource; the answer to the patch of the status.
\<close>

record vc_env =
  ve_OpenDB :: "BackendType \<Rightarrow> string \<Rightarrow> goerror + int"
  ve_Get :: "goerror + CosmosFullNode"
  ve_Patch :: "CosmosFullNode \<Rightarrow> goerror option"

text \<open>\<open>patchStatusHeightIfNecessary\<close>: the error, and the resource that was patched, if it was.\<close>

definition patchStatusHeightIfNecessary ::
  "(CosmosFullNode \<Rightarrow> goerror option) \<Rightarrow> CosmosFullNode \<Rightarrow> string \<Rightarrow> uint64 \<Rightarrow> goerror option \<times> CosmosFullNode option" where
  "patchStatusHeightIfNecessary patchCall crd podName height =
     (if map_of (st_Height (fn_Status crd)) podName = Some height then (None, None)
      else let patch = crd\<lparr>fn_Status := (fn_Status crd)\<lparr>st_Height := AList.update podName height (st_Height (fn_Status crd))\<rparr>\<rparr>
           in (map_option (wrap ''failed to patch status: '') (patchCall patch), Some patch))"

text \<open>The loop over the versions, which stops at the first one above the height.\<close>

fun expectedImage :: "string \<Rightarrow> ChainVersion list \<Rightarrow> uint64 \<Rightarrow> string" where
  "expectedImage img [] height = img"
| "expectedImage img (v # vs) height =
     (if height < cv_UpgradeHeight v then img else expectedImage (cv_Image v) vs height)"

text \<open>The image of the last container with the name \<open>node\<close>.\<close>

definition nodeImage :: "Pod \<Rightarrow> string" where
  "nodeImage pod = foldl (\<lambda>img c. if ct_Name c = ''node'' then ct_Image c else img) [] (ps_Containers (pod_Spec pod))"

text \<open>\<open>checkVersion\<close>: the error, the patched resource, and the line that is printed. Without a resource it
  runs for the daemon.\<close>

definition checkVersion ::
  "vc_env \<Rightarrow> CosmosFullNode option \<Rightarrow> Pod \<Rightarrow> string \<Rightarrow> string \<Rightarrow> (goerror option \<times> CosmosFullNode option \<times> string) exec" where
  "checkVersion env crd0 thisPod dataDir backend =
     exec_bind (getBackend backend) (\<lambda>b.
       case ve_OpenDB env b dataDir of
         Inl err \<Rightarrow>
           (case crd0 of
              None \<Rightarrow> Ok (None, None, ''Failed to open db: '' @ ge_msg err @ ''. The node is likely running.'')
            | Some _ \<Rightarrow> Ok (Some (wrap ''failed to open db: '' err), None, []))
       | Inr height \<Rightarrow>
           (case (case crd0 of Some crd \<Rightarrow> Inr crd | None \<Rightarrow> ve_Get env) of
              Inl err \<Rightarrow> Ok (Some (wrap ''failed to get crd: '' err), None, [])
            | Inr crd \<Rightarrow>
                (case patchStatusHeightIfNecessary (ve_Patch env) crd (GetName thisPod) (word_of_int height) of
                   (Some err, p) \<Rightarrow> Ok (Some err, p, [])
                 | (None, p) \<Rightarrow>
                     let img = expectedImage (tpl_Image (sp_PodTemplate (fn_Spec crd)))
                           (ch_Versions (sp_ChainSpec (fn_Spec crd))) (word_of_int height);
                         thisPodImage = nodeImage thisPod
                     in if thisPodImage \<noteq> img
                        then Ok (Some (errorNew (''image mismatch for height '' @ FormatInt height @ '': '' @ thisPodImage @ '' != '' @ img)), p, [])
                        else Ok (None, p, ''Verified correct image for height '' @ FormatInt height @ '': '' @ img))))"

text \<open>The command: its setup, each step of which panics on an error, and then one check or the daemon's
  checks, one per tick until the context is done.\<close>

record vc_setup =
  vs_Namespace :: "goerror + string"
  vs_InCluster :: "goerror option"
  vs_Clientset :: "goerror option"
  vs_ThisPod :: "string \<Rightarrow> string \<Rightarrow> goerror + Pod"
  vs_Client :: "goerror option"
  vs_GetCrd :: "ObjectKey \<Rightarrow> goerror + CosmosFullNode"
  vs_Stat :: "string \<Rightarrow> goerror + bool"

definition must :: "string \<Rightarrow> goerror + 'a \<Rightarrow> 'a exec" where
  "must what r = (case r of Inl err \<Rightarrow> Panic (what @ ge_msg err) | Inr x \<Rightarrow> Ok x)"

definition must_ok :: "string \<Rightarrow> goerror option \<Rightarrow> unit exec" where
  "must_ok what e = (case e of None \<Rightarrow> Ok () | Some err \<Rightarrow> Panic (what @ ge_msg err))"

definition check_or_panic :: "vc_env \<Rightarrow> CosmosFullNode option \<Rightarrow> Pod \<Rightarrow> string \<Rightarrow> string \<Rightarrow> string exec" where
  "check_or_panic env crd thisPod dataDir backend =
     exec_bind (checkVersion env crd thisPod dataDir backend) (\<lambda>(err, p, out).
       case err of Some e \<Rightarrow> Panic (ge_msg e) | None \<Rightarrow> Ok out)"

fun daemon_loop :: "Pod \<Rightarrow> string \<Rightarrow> string \<Rightarrow> vc_env list \<Rightarrow> string list exec" where
  "daemon_loop thisPod dataDir backend [] = Ok []"
| "daemon_loop thisPod dataDir backend (env # ticks) =
     exec_bind (check_or_panic env None thisPod dataDir backend) (\<lambda>out.
       exec_bind (daemon_loop thisPod dataDir backend ticks) (\<lambda>outs. Ok (out # outs)))"

definition VersionCheckCmd ::
  "vc_setup \<Rightarrow> string \<Rightarrow> string \<Rightarrow> string \<Rightarrow> bool \<Rightarrow> vc_env list \<Rightarrow> vc_env \<Rightarrow> string list exec" where
  "VersionCheckCmd su dataDir hostname backend daemon ticks env =
     exec_bind (must ''failed to read namespace from service account: '' (vs_Namespace su)) (\<lambda>ns.
     exec_bind (must_ok ''failed to get in cluster config: '' (vs_InCluster su)) (\<lambda>_.
     exec_bind (must_ok ''failed to create kube clientset: '' (vs_Clientset su)) (\<lambda>_.
     exec_bind (must ''failed to get this pod: '' (vs_ThisPod su ns hostname)) (\<lambda>thisPod.
     let cosmosFullNodeName = label_get (om_Labels (ob_Meta thisPod)) ''app.kubernetes.io/name''
     in exec_bind (must_ok ''failed to create kube client: '' (vs_Client su)) (\<lambda>_.
     exec_bind (must ''failed to get crd: '' (vs_GetCrd su (ObjectKey ns cosmosFullNodeName))) (\<lambda>crd.
       if length (ch_Versions (sp_ChainSpec (fn_Spec crd))) = 0 then Ok [''No versions specified, skipping version check'']
       else exec_bind (must (''failed to stat '' @ dataDir @ '': '') (vs_Stat su dataDir)) (\<lambda>isDir.
         if \<not> isDir then Panic (dataDir @ '' is not a directory'')
         else if daemon then daemon_loop thisPod dataDir backend ticks
         else exec_bind (check_or_panic env (Some crd) thisPod dataDir backend) (\<lambda>out. Ok [out]))))))))"

subsection \<open>The check and the pod builder agree\<close>

text \<open>The image that the operator gives to the main container for a height.\<close>

definition imageForHeight :: "CosmosFullNode \<Rightarrow> uint64 \<Rightarrow> string" where
  "imageForHeight crd h =
     (case findVersion (ch_Versions (sp_ChainSpec (fn_Spec crd))) h of
        None \<Rightarrow> tpl_Image (sp_PodTemplate (fn_Spec crd))
      | Some v \<Rightarrow> cv_Image v)"

lemma findVersion_loop_skip:
  "\<forall>v \<in> set vs. h < cv_UpgradeHeight v \<Longrightarrow> findVersion_loop sel vs h = sel"
  by (induction vs) auto

lemma expectedImage_loop:
  assumes "sorted_wrt (<) (map cv_UpgradeHeight vs)"
    and "\<And>s v. sel = Some s \<Longrightarrow> v \<in> set vs \<Longrightarrow> cv_UpgradeHeight s < cv_UpgradeHeight v"
    and "img = (case sel of None \<Rightarrow> tpl | Some s \<Rightarrow> cv_Image s)"
  shows "expectedImage img vs h = (case findVersion_loop sel vs h of None \<Rightarrow> tpl | Some s \<Rightarrow> cv_Image s)"
  using assms
proof (induction vs arbitrary: sel img)
  case (Cons v vs)
  show ?case
  proof (cases "h < cv_UpgradeHeight v")
    case True
    then have "\<forall>u \<in> set (v # vs). h < cv_UpgradeHeight u" using Cons.prems(1) by (auto intro: less_trans)
    then show ?thesis using True Cons.prems(3) findVersion_loop_skip [of "v # vs" h sel] by simp
  next
    case False
    have "(case sel of None \<Rightarrow> Some v | Some s \<Rightarrow> if cv_UpgradeHeight v > cv_UpgradeHeight s then Some v else sel) = Some v"
      using Cons.prems(2) by (auto split: option.split)
    moreover have "expectedImage (cv_Image v) vs h = (case findVersion_loop (Some v) vs h of None \<Rightarrow> tpl | Some s \<Rightarrow> cv_Image s)"
      using Cons.prems(1) by (intro Cons.IH) auto
    ultimately show ?thesis using False by (auto simp: not_less)
  qed
qed simp

lemma expectedImage_findVersion:
  assumes "sorted_wrt (<) (map cv_UpgradeHeight (ch_Versions (sp_ChainSpec (fn_Spec crd))))"
  shows "expectedImage (tpl_Image (sp_PodTemplate (fn_Spec crd))) (ch_Versions (sp_ChainSpec (fn_Spec crd))) h = imageForHeight crd h"
  using expectedImage_loop [OF assms, of None _ "tpl_Image (sp_PodTemplate (fn_Spec crd))" h]
  by (simp add: imageForHeight_def findVersion_def)

text \<open>C35: The version check and the operator choose the same image. With versions listed by ascending
  upgrade heights and a status that can be patched, the check of a pod with a readable database
  succeeds exactly when its container runs the image that the operator's version search picks for
  that height, and on success or mismatch alike the height of the pod is the recorded one.\<close>

theorem checkVersion_agrees:
  assumes "sorted_wrt (<) (map cv_UpgradeHeight (ch_Versions (sp_ChainSpec (fn_Spec crd))))"
    and "getBackend backend = Ok b" and "ve_OpenDB env b dataDir = Inr height" and "\<And>p. ve_Patch env p = None"
  shows "\<exists>err patched out. checkVersion env (Some crd) pod dataDir backend = Ok (err, patched, out) \<and>
    (err = None \<longleftrightarrow> nodeImage pod = imageForHeight crd (word_of_int height)) \<and>
    map_of (st_Height (fn_Status (case patched of None \<Rightarrow> crd | Some p \<Rightarrow> p))) (GetName pod) = Some (word_of_int height)"
proof -
  have "fst (patchStatusHeightIfNecessary (ve_Patch env) crd (GetName pod) (word_of_int height)) = None"
    using assms(4) by (simp add: patchStatusHeightIfNecessary_def Let_def)
  then obtain p where p: "patchStatusHeightIfNecessary (ve_Patch env) crd (GetName pod) (word_of_int height) = (None, p)"
    by (metis prod.collapse)
  have "map_of (st_Height (fn_Status (case p of None \<Rightarrow> crd | Some q \<Rightarrow> q))) (GetName pod) = Some (word_of_int height)"
    using p by (auto simp: patchStatusHeightIfNecessary_def Let_def update_conv' split: if_splits)
  then show ?thesis
    using assms(2,3) p expectedImage_findVersion [OF assms(1), of "word_of_int height"]
    by (auto simp: checkVersion_def Let_def)
qed

definition node_pod :: "string \<Rightarrow> Pod" where
  "node_pod img = \<lparr>ob_Kind = ''Pod'', ob_APIVersion = ''v1'', ob_Meta = emptyMeta\<lparr>om_Name := ''osmo-0''\<rparr>,
     ob_Body = \<lparr>pb_Spec = emptyPodSpec\<lparr>ps_Containers := [emptyContainer\<lparr>ct_Name := ''node'', ct_Image := img\<rparr>]\<rparr>, pb_Status = emptyPodStatus\<rparr>\<rparr>"

definition db_at :: "int \<Rightarrow> vc_env" where
  "db_at h = \<lparr>ve_OpenDB = (\<lambda>_ _. Inr h), ve_Get = Inl (errorNew ''down''), ve_Patch = (\<lambda>_. None)\<rparr>"

theorem checkVersion_agrees_witness:
  "\<exists>patched out. checkVersion (db_at 120) (Some sample_crd) (node_pod ''osmosis:v25'') ''/data'' ''goleveldb'' = Ok (None, patched, out)"
proof -
  have "sorted_wrt (<) (map cv_UpgradeHeight (ch_Versions (sp_ChainSpec (fn_Spec sample_crd))))" by (simp add: sample_crd_defs)
  moreover have "getBackend ''goleveldb'' = Ok GoLevelDBBackend" by (simp add: getBackend_def)
  moreover have "nodeImage (node_pod ''osmosis:v25'') = imageForHeight sample_crd (word_of_int 120)"
    by (simp add: nodeImage_def node_pod_def imageForHeight_def findVersion_def sample_crd_defs word_le_def)
  ultimately show ?thesis
    using checkVersion_agrees [of sample_crd "''goleveldb''" GoLevelDBBackend "db_at 120" "''/data''" 120 "node_pod ''osmosis:v25''"]
    by (auto simp: db_at_def)
qed

text \<open>Without the order the two choose differently: the check stops at the first version above the height.\<close>

lemma unsorted_versions_disagree:
  "\<exists>crd h. expectedImage (tpl_Image (sp_PodTemplate (fn_Spec crd))) (ch_Versions (sp_ChainSpec (fn_Spec crd))) h \<noteq> imageForHeight crd h"
proof -
  let ?crd = "sample_crd\<lparr>fn_Spec := (fn_Spec sample_crd)\<lparr>sp_ChainSpec := (sp_ChainSpec (fn_Spec sample_crd))\<lparr>
    ch_Versions := [sample_version 200 ''c'', sample_version 100 ''b'']\<rparr>\<rparr>\<rparr>"
  have "expectedImage (tpl_Image (sp_PodTemplate (fn_Spec ?crd))) (ch_Versions (sp_ChainSpec (fn_Spec ?crd))) 150 \<noteq> imageForHeight ?crd 150"
    by (simp add: imageForHeight_def findVersion_def sample_crd_defs)
  then show ?thesis by blast
qed

end
