(* ===== verification/Command_Line.thy ===== *)
theory Command_Line
  imports Manager Healthcheck Version_Check Machines
begin

text \<open>
  The command line of the operator's only binary (\<open>rootCmd\<close> of \<^verbatim>\<open>main.go\<close>, \<^verbatim>\<open>cmd/healtcheck.go\<close>,
  \<^verbatim>\<open>cmd/logger.go\<close>), the server of the health check sidecar as a state machine of its two goroutines,
  and the event reporter of \<^verbatim>\<open>internal/kube/reporter.go\<close>.
\<close>

subsection \<open>Commands and flags\<close>

datatype flag_value = FlagString string | FlagBool bool | FlagDuration duration

record flag =
  fg_Name :: string
  fg_Short :: string
  fg_Default :: flag_value

definition stringFlag :: "string \<Rightarrow> string \<Rightarrow> flag" where
  "stringFlag n d = \<lparr>fg_Name = n, fg_Short = [], fg_Default = FlagString d\<rparr>"

datatype command = Command (cmd_use: string) (cmd_short: string) (cmd_flags: "flag list") (cmd_subs: "command list")

definition HealthCheckCmd :: command where
  "HealthCheckCmd = Command ''healthcheck'' ''Start health check probe''
     [stringFlag ''rpc-host'' ''http://localhost:26657'', stringFlag ''log-format'' ''console'',
      \<lparr>fg_Name = ''timeout'', fg_Short = [], fg_Default = FlagDuration (5 * time_Second)\<rparr>,
      stringFlag ''addr'' ('':'' @ FormatInt healthCheckPort)] []"

definition VersionCheckCommand :: command where
  "VersionCheckCommand = Command ''versioncheck'' ''Confirm correct image used for current node height''
     [\<lparr>fg_Name = ''backend'', fg_Short = ''b'', fg_Default = FlagString ''goleveldb''\<rparr>,
      \<lparr>fg_Name = ''daemon'', fg_Short = ''d'', fg_Default = FlagBool False\<rparr>] []"

definition rootCmd :: command where
  "rootCmd = Command ''manager'' ''Run the operator''
     [stringFlag ''metrics-bind-address'' '':8080'', stringFlag ''health-probe-bind-address'' '':8081'',
      \<lparr>fg_Name = ''leader-elect'', fg_Short = [], fg_Default = FlagBool False\<rparr>,
      stringFlag ''profile'' [], stringFlag ''log-level'' ''info'', stringFlag ''log-format'' ''console'']
     [HealthCheckCmd, VersionCheckCommand, Command ''version'' ''Print the version'' [] []]"

text \<open>What the command \<open>version\<close> prints.\<close>

definition version_lines :: "build_env \<Rightarrow> string list" where
  "version_lines env = [''App Version: '' @ AppVersion env, ''Docker Tag: '' @ DockerTag env]"

text \<open>The command that the first word selects, or the root itself.\<close>

definition find_command :: "command \<Rightarrow> string list \<Rightarrow> command" where
  "find_command base args = (case args of [] \<Rightarrow> base
     | a # _ \<Rightarrow> (case filter (\<lambda>c. cmd_use c = a) (cmd_subs base) of c # _ \<Rightarrow> c | [] \<Rightarrow> base))"

definition flag_default :: "command \<Rightarrow> string \<Rightarrow> flag_value option" where
  "flag_default c n = map_option fg_Default (find (\<lambda>f. fg_Name f = n) (cmd_flags c))"

text \<open>
  \<open>ZapLogger\<close>: the encoder and the level; the parser of the level is a parameter, and a level that
  does not parse is \<open>info\<close>.
\<close>

datatype zap_encoder = ConsoleEncoder | JSONEncoder

definition ZapLogger :: "(string \<Rightarrow> goerror + 'level) \<Rightarrow> 'level \<Rightarrow> string \<Rightarrow> string \<Rightarrow> zap_encoder \<times> 'level" where
  "ZapLogger unmarshalText infoLevel level format =
     (if format = ''json'' then JSONEncoder else ConsoleEncoder,
      case unmarshalText level of Inl err \<Rightarrow> infoLevel | Inr l \<Rightarrow> l)"

subsection \<open>The event reporter\<close>

datatype log_entry = ErrorEntry goerror string | InfoEntry string | DebugEntry string

record reporter_state =
  rp_Log :: "log_entry list"
  rp_Events :: "(string \<times> string \<times> string) list"

definition Reporter_Error :: "goerror \<Rightarrow> string \<Rightarrow> reporter_state \<Rightarrow> reporter_state" where
  "Reporter_Error err msg s = s\<lparr>rp_Log := rp_Log s @ [ErrorEntry err msg]\<rparr>"
definition Reporter_Info :: "string \<Rightarrow> reporter_state \<Rightarrow> reporter_state" where
  "Reporter_Info msg s = s\<lparr>rp_Log := rp_Log s @ [InfoEntry msg]\<rparr>"
definition Reporter_Debug :: "string \<Rightarrow> reporter_state \<Rightarrow> reporter_state" where
  "Reporter_Debug msg s = s\<lparr>rp_Log := rp_Log s @ [DebugEntry msg]\<rparr>"
definition RecordError :: "string \<Rightarrow> goerror \<Rightarrow> reporter_state \<Rightarrow> reporter_state" where
  "RecordError reason err s = s\<lparr>rp_Events := rp_Events s @ [(''Warning'', reason, ge_msg err)]\<rparr>"
definition RecordInfo :: "string \<Rightarrow> string \<Rightarrow> reporter_state \<Rightarrow> reporter_state" where
  "RecordInfo reason msg s = s\<lparr>rp_Events := rp_Events s @ [(''Normal'', reason, msg)]\<rparr>"

subsection \<open>The server of the sidecar\<close>

text \<open>The handlers behind the two patterns of the multiplexer; a path other than \<open>/disk\<close> is left to \<open>/\<close>. The server recovers a
  panic of a handler, and answers nothing.\<close>

definition serve ::
  "statuser \<Rightarrow> string \<Rightarrow> (string \<Rightarrow> string) \<Rightarrow> (string \<Rightarrow> goerror + Statfs) \<Rightarrow> string \<Rightarrow> string \<Rightarrow> int \<Rightarrow>
   (((int \<times> healthResponse) + (int \<times> DiskUsageResponse)) \<times> int) exec" where
  "serve client rpcHost pathClean statfs path dir lastStatus =
     (if path = ''/disk'' then Ok (Inr (DiskUsage pathClean statfs dir), lastStatus)
      else exec_bind (Comet_ServeHTTP client rpcHost lastStatus) (\<lambda>(resp, _, last'). Ok (Inl resp, last')))"

text \<open>
  The two goroutines of \<open>startHealthCheckServer\<close>. The first one serves until \<open>ListenAndServe\<close> returns, always
  with an error; the second one waits for the end of the command's context and shuts the server down, which
  gives up after a time. The group keeps the first error, and \<open>Wait\<close> returns it when both have returned.
\<close>

datatype shutdown_state = WaitingForDone | ShuttingDown | ShutDone "goerror option"

record server_state =
  hs_Served :: "goerror option"
  hs_Done :: bool
  hs_Shutdown :: shutdown_state
  hs_First :: "goerror option"

definition errServerClosed :: goerror where "errServerClosed = errorNew ''http: Server closed''"

definition keepFirst :: "goerror option \<Rightarrow> goerror option \<Rightarrow> goerror option" where
  "keepFirst first err = (case first of None \<Rightarrow> err | Some e \<Rightarrow> Some e)"

definition server_init :: "server_state \<Rightarrow> bool" where
  "server_init s \<longleftrightarrow> s = \<lparr>hs_Served = None, hs_Done = False, hs_Shutdown = WaitingForDone, hs_First = None\<rparr>"

inductive server_step :: "server_state \<Rightarrow> server_state \<Rightarrow> bool" where
  listen_fails: "hs_Served s = None \<Longrightarrow>
    server_step s (s\<lparr>hs_Served := Some err, hs_First := keepFirst (hs_First s) (Some err)\<rparr>)"
| context_done: "\<not> hs_Done s \<Longrightarrow> server_step s (s\<lparr>hs_Done := True\<rparr>)"
| shutdown_starts: "hs_Done s \<Longrightarrow> hs_Shutdown s = WaitingForDone \<Longrightarrow> server_step s (s\<lparr>hs_Shutdown := ShuttingDown\<rparr>)"
| server_closed: "hs_Shutdown s \<noteq> WaitingForDone \<Longrightarrow> hs_Served s = None \<Longrightarrow>
    server_step s (s\<lparr>hs_Served := Some errServerClosed, hs_First := keepFirst (hs_First s) (Some errServerClosed)\<rparr>)"
| shutdown_ends: "hs_Shutdown s = ShuttingDown \<Longrightarrow>
    server_step s (s\<lparr>hs_Shutdown := ShutDone err, hs_First := keepFirst (hs_First s) err\<rparr>)"

text \<open>What \<open>startHealthCheckServer\<close> returns, once it does.\<close>

definition server_result :: "server_state \<Rightarrow> cmd_outcome option" where
  "server_result s = (case (hs_Served s, hs_Shutdown s) of
     (Some _, ShutDone _) \<Rightarrow> Some (CmdReturned (hs_First s))
   | _ \<Rightarrow> None)"

inductive_cases server_stepE [elim]: "server_step s t"

subsection \<open>Facts\<close>

text \<open>The sidecar as the pods start it: the command \<open>healthcheck\<close> listens at the port that the readiness probe
  and the client of the operator use, and the probe's path is answered by the status of the node.\<close>

lemma sidecar_defaults:
  "flag_default (find_command rootCmd [''healthcheck'']) ''addr'' = Some (FlagString '':1251'')"
  "flag_default (find_command rootCmd [''healthcheck'']) ''rpc-host'' = Some (FlagString ''http://localhost:26657'')"
  "flag_default (find_command rootCmd [''versioncheck'']) ''daemon'' = Some (FlagBool False)"
  "find_command rootCmd [] = rootCmd"
  by code_simp+

lemma serve_probe:
  "serve client host pathClean statfs ''/'' dir lst = Ok (Inl resp, lst') \<longleftrightarrow>
     (\<exists>changed. Comet_ServeHTTP client host lst = Ok (resp, changed, lst'))"
  by (cases resp) (auto simp: serve_def)

lemma serve_disk: "serve client host pathClean statfs ''/disk'' dir lst = Ok (Inr (DiskUsage pathClean statfs dir), lst)"
  by (simp add: serve_def)

text \<open>How many steps the two goroutines have left.\<close>

definition steps_left :: "server_state \<Rightarrow> nat" where
  "steps_left s = (if hs_Served s = None then 1 else 0) + (if hs_Done s then 0 else 1) +
     (case hs_Shutdown s of WaitingForDone \<Rightarrow> 2 | ShuttingDown \<Rightarrow> 1 | ShutDone _ \<Rightarrow> 0)"

definition server_inv :: "server_state \<Rightarrow> bool" where
  "server_inv s \<longleftrightarrow> (hs_Shutdown s \<noteq> WaitingForDone \<longrightarrow> hs_Done s) \<and> (hs_Served s \<noteq> None \<longrightarrow> hs_First s \<noteq> None)"

interpretation health_server: invariant_of server_init server_step server_inv
proof
  show "server_init s \<Longrightarrow> server_inv s" for s by (simp add: server_init_def server_inv_def)
  show "server_inv s \<Longrightarrow> server_step s t \<Longrightarrow> server_inv t" for s t
    by (erule server_stepE) (auto simp: server_inv_def keepFirst_def split: option.split)
qed

lemma server_step_less: "server_step s t \<Longrightarrow> steps_left t < steps_left s"
  by (erule server_stepE) (auto simp: steps_left_def split: shutdown_state.split)

lemma server_step_exists:
  assumes "hs_Done s" and "server_result s = None"
  shows "\<exists>t. server_step s t"
proof (cases "hs_Shutdown s")
  case (ShutDone err)
  then have "hs_Served s = None" using assms(2) by (auto simp: server_result_def split: option.splits)
  then show ?thesis using listen_fails by blast
qed (use assms(1) shutdown_starts shutdown_ends in blast)+

text \<open>C39: The health check server ends when it is told to, and only then. In every reachable state of
  its goroutines each step brings the end nearer; once the context is done there is a step left until the command has
  returned; it then has an error, also after an orderly shutdown, so that the process always exits
  with 1. While the context lives the command does not return: when the server could not listen, nothing
  but the end of the context is left to happen.\<close>

theorem health_server_ends:
  assumes "reach server_init server_step s"
  shows "(\<forall>t. server_step s t \<longrightarrow> steps_left t < steps_left s) \<and>
    (hs_Done s \<and> server_result s = None \<longrightarrow> (\<exists>t. server_step s t)) \<and>
    (\<forall>r. server_result s = Some r \<longrightarrow> hs_Done s \<and> exit_code r = 1) \<and>
    (\<not> hs_Done s \<and> hs_Served s \<noteq> None \<longrightarrow> (\<forall>t. server_step s t \<longrightarrow> t = s\<lparr>hs_Done := True\<rparr>))"
proof -
  have inv: "server_inv s" by (rule health_server.reach_inv [OF assms])
  have "hs_Done s \<and> exit_code r = 1" if "server_result s = Some r" for r
    using inv that by (auto simp: server_inv_def server_result_def exit_code_def split: option.splits shutdown_state.splits)
  moreover have "t = s\<lparr>hs_Done := True\<rparr>" if "\<not> hs_Done s" "hs_Served s \<noteq> None" "server_step s t" for t
    using that(3,1,2) inv by (auto elim!: server_stepE simp: server_inv_def)
  ultimately show ?thesis using server_step_less server_step_exists by blast
qed

theorem health_server_ends_witness:
  "\<exists>s. reach server_init server_step s \<and> hs_Served s = Some (errorNew ''address in use'') \<and> server_result s = None \<and>
     (\<forall>t. server_step s t \<longrightarrow> t = s\<lparr>hs_Done := True\<rparr>)"
proof -
  define s0 where "s0 = \<lparr>hs_Served = None, hs_Done = False, hs_Shutdown = WaitingForDone, hs_First = None\<rparr>"
  define s where "s = s0\<lparr>hs_Served := Some (errorNew ''address in use''), hs_First := keepFirst (hs_First s0) (Some (errorNew ''address in use''))\<rparr>"
  have r: "reach server_init server_step s"
    unfolding s_def by (rule reach_step [OF reach_init [of server_init s0]], simp add: server_init_def s0_def, rule listen_fails)
      (simp add: s0_def)
  moreover have "hs_Served s = Some (errorNew ''address in use'')" "\<not> hs_Done s" "server_result s = None"
    by (simp_all add: s_def s0_def server_result_def)
  ultimately show ?thesis using health_server_ends [OF r] by (intro exI [of _ s]) simp
qed

end
