(* ===== verification/Wiring.thy ===== *)
theory Wiring
  imports Fullnode_Controller Self_Healing Snapshot_Controller Stuck_Height_Controller Command_Line "HOL-Library.State_Monad"
begin

text \<open>
  Which objects the operator is built of and which of them are shared. The constructors of the packages
  (\<open>NewPodControl\<close>, \<open>NewStatusClient\<close>, \<open>NewFullNode\<close> and the others) allocate structs that point to each
  other; a heap of cells keeps the pointers apart from the values, so that it can be seen that two controllers hold the
  same semaphores or the same cache and not copies of them. \<open>startManager\<close> and \<open>startHealthCheckServer\<close> call them.
\<close>

subsection \<open>References and cells\<close>

text \<open>What a field can point to: objects of the manager and the system, or a cell. A method value such as
  \<open>client.Do\<close> keeps the pointer to its receiver.\<close>

datatype ref =
    ManagerClient
  | ManagerScheme
  | RecorderFor string
  | SystemClock
  | Logger
  | Heap nat

record StatusClient =
  stc_sems :: "(ObjectKey \<times> nat option) list"
  stc_client :: ref

record CometClient = cmc_httpDo :: ref

record StatusCollector =
  scl_comet :: ref
  scl_timeout :: duration

record CacheController =
  cac_cache :: ref
  cac_client :: ref
  cac_collector :: ref
  cac_interval :: duration
  cac_recorder :: ref

record PeerCollector = pcl_client :: ref

text \<open>The controls of one kind of objects hold the client only.\<close>

record KindControl = kdc_client :: ref

record ConfigMapControl =
  cmp_build :: "toml_lib \<Rightarrow> ConfigMapBody marshaler \<Rightarrow> CosmosFullNode \<Rightarrow> Peers \<Rightarrow> (goerror + ConfigMapBody Resource list) exec"
  cmp_client :: ref

record PodControl =
  pdc_client :: ref
  pdc_cacheInvalidator :: ref
  pdc_computeRollout :: "scaler \<Rightarrow> IntOrString option \<Rightarrow> int \<Rightarrow> int \<Rightarrow> int exec"

record PVCControl =
  pvc_client :: ref
  pvc_recentVolumeSnapshot :: "(VolumeSnapshot list \<Rightarrow> VolumeSnapshot list) \<Rightarrow> goerror + VolumeSnapshot list \<Rightarrow> goerror + VolumeSnapshot"

record DiskUsageCollector =
  duc_diskClient :: ref
  duc_client :: ref

record DriftDetection =
  drd_available :: "Pod list \<Rightarrow> duration \<Rightarrow> time \<Rightarrow> Pod list"
  drd_collector :: ref
  drd_computeRollout :: "scaler \<Rightarrow> IntOrString option \<Rightarrow> int \<Rightarrow> int \<Rightarrow> int exec"

record PVCAutoScaler =
  pas_client :: ref
  pas_now :: ref

record FullNodeControl =
  fnl_client :: ref
  fnl_statusClient :: ref

record VolumeSnapshotControl =
  vsl_client :: ref
  vsl_podFilter :: ref
  vsl_now :: ref

record Scheduler =
  shd_getter :: ref
  shd_now :: ref

record CosmosFullNodeReconciler =
  fnr_Client :: ref
  fnr_cacheController :: ref
  fnr_configMapControl :: ConfigMapControl
  fnr_nodeKeyControl :: KindControl
  fnr_peerCollector :: ref
  fnr_podControl :: PodControl
  fnr_pvcControl :: PVCControl
  fnr_recorder :: ref
  fnr_serviceControl :: KindControl
  fnr_statusClient :: ref
  fnr_serviceAccountControl :: KindControl
  fnr_clusterRoleControl :: KindControl
  fnr_clusterRoleBindingControl :: KindControl

record SelfHealingReconciler =
  shr_Client :: ref
  shr_cacheController :: ref
  shr_diskClient :: ref
  shr_driftDetector :: DriftDetection
  shr_pvcAutoScaler :: ref
  shr_recorder :: ref

record StatefulJobReconciler =
  sjr_Client :: ref
  sjr_recorder :: ref
  sjr_missingVolSnapshotCRD :: bool

record ScheduledVolumeSnapshotReconciler =
  ssr_Client :: ref
  ssr_fullNodeControl :: ref
  ssr_missingVolSnapshotCRD :: bool
  ssr_recorder :: ref
  ssr_scheduler :: ref
  ssr_volSnapshotControl :: ref

record StuckHeightRecoveryReconciler =
  skr_Client :: ref
  skr_Scheme :: ref
  skr_recorder :: ref
  skr_heightMonitor :: ref
  skr_snapshotCreator :: ref
  skr_rateLimiter :: ref
  skr_recoveryPodBuilder :: ref

record Comet =
  cmt_client :: ref
  cmt_lastStatus :: int
  cmt_logger :: ref
  cmt_rpcHost :: string
  cmt_timeout :: duration

datatype cell =
    HttpClientCell duration
  | StatusClientCell StatusClient
  | CometClientCell CometClient
  | StatusCollectorCell StatusCollector
  | CacheCell cache_state
  | CacheControllerCell CacheController
  | PeerCollectorCell PeerCollector
  | HealthClientCell CometClient
  | DiskUsageCollectorCell DiskUsageCollector
  | PVCAutoScalerCell PVCAutoScaler
  | FullNodeControlCell FullNodeControl
  | VolumeSnapshotControlCell VolumeSnapshotControl
  | SchedulerCell Scheduler
  | HeightMonitorCell KindControl
  | SnapshotCreatorCell KindControl
  | RateLimiterCell
  | RecoveryPodBuilderCell KindControl
  | FullNodeReconcilerCell CosmosFullNodeReconciler
  | SelfHealingReconcilerCell SelfHealingReconciler
  | StatefulJobReconcilerCell StatefulJobReconciler
  | ScheduledReconcilerCell ScheduledVolumeSnapshotReconciler
  | StuckHeightReconcilerCell StuckHeightRecoveryReconciler
  | CometCell Comet

type_synonym 'a wiring = "(cell list, 'a) state"

text \<open>\<open>&T{...}\<close>: a new cell.\<close>

definition alloc :: "cell \<Rightarrow> ref wiring" where
  "alloc c = State (\<lambda>heap. (Heap (length heap), heap @ [c]))"

lemma run_alloc [simp]: "run_state (alloc c) heap = (Heap (length heap), heap @ [c])"
  by (simp add: alloc_def)

subsection \<open>Constructors\<close>

definition NewStatusClient :: "ref \<Rightarrow> ref wiring" where
  "NewStatusClient c = alloc (StatusClientCell \<lparr>stc_sems = [], stc_client = c\<rparr>)"

definition NewCometClient :: "ref \<Rightarrow> ref wiring" where
  "NewCometClient client = alloc (CometClientCell \<lparr>cmc_httpDo = client\<rparr>)"

definition NewStatusCollector :: "ref \<Rightarrow> duration \<Rightarrow> ref wiring" where
  "NewStatusCollector comet timeout = alloc (StatusCollectorCell \<lparr>scl_comet = comet, scl_timeout = timeout\<rparr>)"

definition NewCacheController :: "ref \<Rightarrow> ref \<Rightarrow> ref \<Rightarrow> ref wiring" where
  "NewCacheController collector reader recorder = do {
     cache \<leftarrow> alloc (CacheCell newCache);
     alloc (CacheControllerCell \<lparr>cac_cache = cache, cac_client = reader, cac_collector = collector,
       cac_interval = 5 * time_Second, cac_recorder = recorder\<rparr>)
   }"

definition NewPeerCollector :: "ref \<Rightarrow> ref wiring" where
  "NewPeerCollector client = alloc (PeerCollectorCell \<lparr>pcl_client = client\<rparr>)"

definition NewConfigMapControl :: "ref \<Rightarrow> ConfigMapControl" where
  "NewConfigMapControl client = \<lparr>cmp_build = BuildConfigMaps, cmp_client = client\<rparr>"

definition NewPodControl :: "ref \<Rightarrow> ref \<Rightarrow> PodControl" where
  "NewPodControl client cacheInvalidator =
     \<lparr>pdc_client = client, pdc_cacheInvalidator = cacheInvalidator, pdc_computeRollout = ComputeRollout\<rparr>"

definition NewPVCControl :: "ref \<Rightarrow> PVCControl" where
  "NewPVCControl client = \<lparr>pvc_client = client, pvc_recentVolumeSnapshot = RecentVolumeSnapshot\<rparr>"

definition NewNodeKeyControl :: "ref \<Rightarrow> KindControl" where "NewNodeKeyControl client = \<lparr>kdc_client = client\<rparr>"
definition NewServiceControl :: "ref \<Rightarrow> KindControl" where "NewServiceControl client = \<lparr>kdc_client = client\<rparr>"
definition NewServiceAccountControl :: "ref \<Rightarrow> KindControl" where "NewServiceAccountControl client = \<lparr>kdc_client = client\<rparr>"
definition NewRoleControl :: "ref \<Rightarrow> KindControl" where "NewRoleControl client = \<lparr>kdc_client = client\<rparr>"
definition NewRoleBindingControl :: "ref \<Rightarrow> KindControl" where "NewRoleBindingControl client = \<lparr>kdc_client = client\<rparr>"

definition NewHealthClient :: "ref \<Rightarrow> ref wiring" where
  "NewHealthClient client = alloc (HealthClientCell \<lparr>cmc_httpDo = client\<rparr>)"

definition NewDiskUsageCollector :: "ref \<Rightarrow> ref \<Rightarrow> ref wiring" where
  "NewDiskUsageCollector diskClient lister = alloc (DiskUsageCollectorCell \<lparr>duc_diskClient = diskClient, duc_client = lister\<rparr>)"

definition NewDriftDetection :: "ref \<Rightarrow> DriftDetection" where
  "NewDriftDetection collector =
     \<lparr>drd_available = AvailablePods, drd_collector = collector, drd_computeRollout = ComputeRollout\<rparr>"

definition NewPVCAutoScaler :: "ref \<Rightarrow> ref wiring" where
  "NewPVCAutoScaler client = alloc (PVCAutoScalerCell \<lparr>pas_client = client, pas_now = SystemClock\<rparr>)"

definition NewFullNodeControl :: "ref \<Rightarrow> ref \<Rightarrow> ref wiring" where
  "NewFullNodeControl statusClient client =
     alloc (FullNodeControlCell \<lparr>fnl_client = client, fnl_statusClient = statusClient\<rparr>)"

definition NewVolumeSnapshotControl :: "ref \<Rightarrow> ref \<Rightarrow> ref wiring" where
  "NewVolumeSnapshotControl client filt =
     alloc (VolumeSnapshotControlCell \<lparr>vsl_client = client, vsl_podFilter = filt, vsl_now = SystemClock\<rparr>)"

definition NewScheduler :: "ref \<Rightarrow> ref wiring" where
  "NewScheduler getter = alloc (SchedulerCell \<lparr>shd_getter = getter, shd_now = SystemClock\<rparr>)"

definition NewHeightMonitor :: "ref \<Rightarrow> ref wiring" where
  "NewHeightMonitor client = alloc (HeightMonitorCell \<lparr>kdc_client = client\<rparr>)"
definition NewSnapshotCreator :: "ref \<Rightarrow> ref wiring" where
  "NewSnapshotCreator client = alloc (SnapshotCreatorCell \<lparr>kdc_client = client\<rparr>)"
definition NewRateLimiter :: "ref wiring" where "NewRateLimiter = alloc RateLimiterCell"
definition NewRecoveryPodBuilder :: "ref \<Rightarrow> ref wiring" where
  "NewRecoveryPodBuilder client = alloc (RecoveryPodBuilderCell \<lparr>kdc_client = client\<rparr>)"

text \<open>The reconcilers. The fields of a literal are evaluated in the order they are written.\<close>

definition NewFullNode :: "ref \<Rightarrow> ref \<Rightarrow> ref \<Rightarrow> ref \<Rightarrow> ref wiring" where
  "NewFullNode client recorder statusClient cacheCtl = do {
     peers \<leftarrow> NewPeerCollector client;
     alloc (FullNodeReconcilerCell \<lparr>fnr_Client = client, fnr_cacheController = cacheCtl,
       fnr_configMapControl = NewConfigMapControl client, fnr_nodeKeyControl = NewNodeKeyControl client,
       fnr_peerCollector = peers, fnr_podControl = NewPodControl client cacheCtl,
       fnr_pvcControl = NewPVCControl client, fnr_recorder = recorder, fnr_serviceControl = NewServiceControl client,
       fnr_statusClient = statusClient, fnr_serviceAccountControl = NewServiceAccountControl client,
       fnr_clusterRoleControl = NewRoleControl client, fnr_clusterRoleBindingControl = NewRoleBindingControl client\<rparr>)
   }"

definition NewSelfHealing :: "ref \<Rightarrow> ref \<Rightarrow> ref \<Rightarrow> ref \<Rightarrow> ref \<Rightarrow> ref wiring" where
  "NewSelfHealing client recorder statusClient httpClient cacheCtl = do {
     health \<leftarrow> NewHealthClient httpClient;
     disk \<leftarrow> NewDiskUsageCollector health client;
     scaler \<leftarrow> NewPVCAutoScaler statusClient;
     alloc (SelfHealingReconcilerCell \<lparr>shr_Client = client, shr_cacheController = cacheCtl, shr_diskClient = disk,
       shr_driftDetector = NewDriftDetection cacheCtl, shr_pvcAutoScaler = scaler, shr_recorder = recorder\<rparr>)
   }"

definition NewStatefulJob :: "ref \<Rightarrow> ref \<Rightarrow> bool \<Rightarrow> ref wiring" where
  "NewStatefulJob client recorder missing =
     alloc (StatefulJobReconcilerCell \<lparr>sjr_Client = client, sjr_recorder = recorder, sjr_missingVolSnapshotCRD = missing\<rparr>)"

definition NewScheduledVolumeSnapshotReconciler :: "ref \<Rightarrow> ref \<Rightarrow> ref \<Rightarrow> ref \<Rightarrow> bool \<Rightarrow> ref wiring" where
  "NewScheduledVolumeSnapshotReconciler client recorder statusClient cache missing = do {
     fullNode \<leftarrow> NewFullNodeControl statusClient client;
     scheduler \<leftarrow> NewScheduler client;
     control \<leftarrow> NewVolumeSnapshotControl client cache;
     alloc (ScheduledReconcilerCell \<lparr>ssr_Client = client, ssr_fullNodeControl = fullNode,
       ssr_missingVolSnapshotCRD = missing, ssr_recorder = recorder, ssr_scheduler = scheduler, ssr_volSnapshotControl = control\<rparr>)
   }"

definition NewStuckHeightRecoveryReconciler :: "ref \<Rightarrow> ref \<Rightarrow> ref \<Rightarrow> ref wiring" where
  "NewStuckHeightRecoveryReconciler client scheme recorder = do {
     monitor \<leftarrow> NewHeightMonitor client;
     creator \<leftarrow> NewSnapshotCreator client;
     limiter \<leftarrow> NewRateLimiter;
     builder \<leftarrow> NewRecoveryPodBuilder client;
     alloc (StuckHeightReconcilerCell \<lparr>skr_Client = client, skr_Scheme = scheme, skr_recorder = recorder,
       skr_heightMonitor = monitor, skr_snapshotCreator = creator, skr_rateLimiter = limiter, skr_recoveryPodBuilder = builder\<rparr>)
   }"

definition NewComet :: "ref \<Rightarrow> ref \<Rightarrow> string \<Rightarrow> duration \<Rightarrow> ref wiring" where
  "NewComet logger client rpcHost timeout =
     alloc (CometCell \<lparr>cmt_client = client, cmt_lastStatus = 0, cmt_logger = logger, cmt_rpcHost = rpcHost, cmt_timeout = timeout\<rparr>)"

subsection \<open>The objects of the manager\<close>

definition CacheControllerName :: string where "CacheControllerName = ''CosmosCache''"
definition SelfHealingController :: string where "SelfHealingController = ''SelfHealing''"

record operator =
  op_statusClient :: ref
  op_cacheController :: ref
  op_FullNode :: ref
  op_SelfHealing :: ref
  op_StatefulJob :: ref
  op_Scheduled :: ref
  op_StuckHeight :: ref

text \<open>The constructors that \<open>startManager\<close> calls, in its order; \<open>missing\<close> tells that the index of the volume snapshots failed.\<close>

definition wire_manager :: "bool \<Rightarrow> operator wiring" where
  "wire_manager missing = do {
     httpClient \<leftarrow> alloc (HttpClientCell (30 * time_Second));
     statusClient \<leftarrow> NewStatusClient ManagerClient;
     cometClient \<leftarrow> NewCometClient httpClient;
     collector \<leftarrow> NewStatusCollector cometClient (5 * time_Second);
     cacheCtl \<leftarrow> NewCacheController collector ManagerClient (RecorderFor CacheControllerName);
     fullNode \<leftarrow> NewFullNode ManagerClient (RecorderFor CosmosFullNodeController) statusClient cacheCtl;
     selfHealing \<leftarrow> NewSelfHealing ManagerClient (RecorderFor SelfHealingController) statusClient httpClient cacheCtl;
     jobCtl \<leftarrow> NewStatefulJob ManagerClient (RecorderFor StatefulJobController) missing;
     scheduled \<leftarrow> NewScheduledVolumeSnapshotReconciler ManagerClient (RecorderFor ScheduledVolumeSnapshotController)
       statusClient cacheCtl missing;
     stuck \<leftarrow> NewStuckHeightRecoveryReconciler ManagerClient ManagerScheme (RecorderFor ''StuckHeightRecovery'');
     State_Monad.return \<lparr>op_statusClient = statusClient, op_cacheController = cacheCtl, op_FullNode = fullNode,
       op_SelfHealing = selfHealing, op_StatefulJob = jobCtl, op_Scheduled = scheduled, op_StuckHeight = stuck\<rparr>
   }"

text \<open>The server of the sidecar: its timeouts and what answers a path.\<close>

record http_server =
  srv_Addr :: string
  srv_ReadTimeout :: duration
  srv_WriteTimeout :: duration
  srv_Handlers :: "(string \<times> ref option) list"

definition wire_health_server :: "string \<Rightarrow> string \<Rightarrow> duration \<Rightarrow> http_server wiring" where
  "wire_health_server listenAddr rpcHost timeout = do {
     httpClient \<leftarrow> alloc (HttpClientCell (30 * time_Second));
     cometClient \<leftarrow> NewCometClient httpClient;
     comet \<leftarrow> NewComet Logger cometClient rpcHost timeout;
     State_Monad.return \<lparr>srv_Addr = listenAddr, srv_ReadTimeout = 30 * time_Second, srv_WriteTimeout = 30 * time_Second,
       srv_Handlers = [(''/'', Some comet), (''/disk'', None)]\<rparr>
   }"

subsection \<open>Who holds what\<close>

text \<open>The pointers in a cell.\<close>

fun refs_of :: "cell \<Rightarrow> ref list" where
  "refs_of (HttpClientCell _) = []"
| "refs_of (StatusClientCell c) = [stc_client c]"
| "refs_of (CometClientCell c) = [cmc_httpDo c]"
| "refs_of (StatusCollectorCell c) = [scl_comet c]"
| "refs_of (CacheCell _) = []"
| "refs_of (CacheControllerCell c) = [cac_cache c, cac_client c, cac_collector c, cac_recorder c]"
| "refs_of (PeerCollectorCell c) = [pcl_client c]"
| "refs_of (HealthClientCell c) = [cmc_httpDo c]"
| "refs_of (DiskUsageCollectorCell c) = [duc_diskClient c, duc_client c]"
| "refs_of (PVCAutoScalerCell c) = [pas_client c, pas_now c]"
| "refs_of (FullNodeControlCell c) = [fnl_client c, fnl_statusClient c]"
| "refs_of (VolumeSnapshotControlCell c) = [vsl_client c, vsl_podFilter c, vsl_now c]"
| "refs_of (SchedulerCell c) = [shd_getter c, shd_now c]"
| "refs_of (HeightMonitorCell c) = [kdc_client c]"
| "refs_of (SnapshotCreatorCell c) = [kdc_client c]"
| "refs_of RateLimiterCell = []"
| "refs_of (RecoveryPodBuilderCell c) = [kdc_client c]"
| "refs_of (FullNodeReconcilerCell r) = [fnr_Client r, fnr_cacheController r, cmp_client (fnr_configMapControl r),
     kdc_client (fnr_nodeKeyControl r), fnr_peerCollector r, pdc_client (fnr_podControl r), pdc_cacheInvalidator (fnr_podControl r),
     pvc_client (fnr_pvcControl r), fnr_recorder r, kdc_client (fnr_serviceControl r), fnr_statusClient r,
     kdc_client (fnr_serviceAccountControl r), kdc_client (fnr_clusterRoleControl r), kdc_client (fnr_clusterRoleBindingControl r)]"
| "refs_of (SelfHealingReconcilerCell r) = [shr_Client r, shr_cacheController r, shr_diskClient r,
     drd_collector (shr_driftDetector r), shr_pvcAutoScaler r, shr_recorder r]"
| "refs_of (StatefulJobReconcilerCell r) = [sjr_Client r, sjr_recorder r]"
| "refs_of (ScheduledReconcilerCell r) = [ssr_Client r, ssr_fullNodeControl r, ssr_recorder r, ssr_scheduler r, ssr_volSnapshotControl r]"
| "refs_of (StuckHeightReconcilerCell r) = [skr_Client r, skr_Scheme r, skr_recorder r, skr_heightMonitor r,
     skr_snapshotCreator r, skr_rateLimiter r, skr_recoveryPodBuilder r]"
| "refs_of (CometCell c) = [cmt_client c, cmt_logger c]"

inductive holds :: "cell list \<Rightarrow> ref \<Rightarrow> ref \<Rightarrow> bool" for heap :: "cell list" where
  holds_refl: "holds heap r r"
| holds_step: "holds heap r (Heap a) \<Longrightarrow> a < length heap \<Longrightarrow> q \<in> set (refs_of (heap ! a)) \<Longrightarrow> holds heap r q"

text \<open>What has not a property that the pointers of cells with the property have is not held.\<close>

definition closed_under :: "cell list \<Rightarrow> (ref \<Rightarrow> bool) \<Rightarrow> bool" where
  "closed_under heap P \<longleftrightarrow> (\<forall>a < length heap. P (Heap a) \<longrightarrow> list_all P (refs_of (heap ! a)))"

lemma holds_closed: "holds heap r q \<Longrightarrow> closed_under heap P \<Longrightarrow> P r \<Longrightarrow> P q"
  unfolding closed_under_def list_all_iff by (induction rule: holds.induct) blast+

text \<open>The heap of the manager, cell by cell.\<close>

lemmas constructor_defs = NewStatusClient_def NewCometClient_def NewStatusCollector_def NewCacheController_def NewPeerCollector_def
  NewConfigMapControl_def NewPodControl_def NewPVCControl_def NewNodeKeyControl_def NewServiceControl_def
  NewServiceAccountControl_def NewRoleControl_def NewRoleBindingControl_def NewHealthClient_def NewDiskUsageCollector_def
  NewDriftDetection_def NewPVCAutoScaler_def NewFullNodeControl_def NewVolumeSnapshotControl_def NewScheduler_def
  NewHeightMonitor_def NewSnapshotCreator_def NewRateLimiter_def NewRecoveryPodBuilder_def NewFullNode_def NewSelfHealing_def
  NewStatefulJob_def NewScheduledVolumeSnapshotReconciler_def NewStuckHeightRecoveryReconciler_def NewComet_def

definition operator_refs :: operator where
  "operator_refs = \<lparr>op_statusClient = Heap 1, op_cacheController = Heap 5, op_FullNode = Heap 7, op_SelfHealing = Heap 11,
     op_StatefulJob = Heap 12, op_Scheduled = Heap 16, op_StuckHeight = Heap 21\<rparr>"

definition operator_heap :: "bool \<Rightarrow> cell list" where
  "operator_heap missing = snd (run_state (wire_manager missing) [])"

lemma wire_manager_refs: "fst (run_state (wire_manager missing) []) = operator_refs"
  by (simp add: wire_manager_def constructor_defs operator_refs_def)

definition operator_pointers :: "ref list list" where
  "operator_pointers =
    [[], [ManagerClient], [Heap 0], [Heap 2], [], [Heap 4, ManagerClient, Heap 3, RecorderFor CacheControllerName], [ManagerClient],
     [ManagerClient, Heap 5, ManagerClient, ManagerClient, Heap 6, ManagerClient, Heap 5, ManagerClient,
      RecorderFor CosmosFullNodeController, ManagerClient, Heap 1, ManagerClient, ManagerClient, ManagerClient],
     [Heap 0], [Heap 8, ManagerClient], [Heap 1, SystemClock],
     [ManagerClient, Heap 5, Heap 9, Heap 5, Heap 10, RecorderFor SelfHealingController],
     [ManagerClient, RecorderFor StatefulJobController], [ManagerClient, Heap 1], [ManagerClient, SystemClock],
     [ManagerClient, Heap 5, SystemClock],
     [ManagerClient, Heap 13, RecorderFor ScheduledVolumeSnapshotController, Heap 14, Heap 15],
     [ManagerClient], [ManagerClient], [], [ManagerClient],
     [ManagerClient, ManagerScheme, RecorderFor ''StuckHeightRecovery'', Heap 17, Heap 18, Heap 19, Heap 20]]"

lemma operator_heap_pointers: "map refs_of (operator_heap missing) = operator_pointers"
  unfolding operator_pointers_def by (simp add: operator_heap_def wire_manager_def constructor_defs)

lemma operator_length: "length (operator_heap missing) = 22"
proof -
  have "length (map refs_of (operator_heap missing)) = 22"
    unfolding operator_heap_pointers by (simp add: operator_pointers_def)
  then show ?thesis by simp
qed

lemma operator_nth: "a < 22 \<Longrightarrow> refs_of (operator_heap missing ! a) = operator_pointers ! a"
  using nth_map [of a "operator_heap missing" refs_of] by (simp add: operator_length operator_heap_pointers)

lemma operator_holds:
  assumes "holds (operator_heap missing) r (Heap a)" and "a < 22" and "List.member (operator_pointers ! a) q"
  shows "holds (operator_heap missing) r q"
  using holds_step [OF assms(1)] assms(2,3) by (simp add: operator_length operator_nth)

lemma operator_closed:
  assumes "list_all (\<lambda>a. P (Heap a) \<longrightarrow> list_all P (operator_pointers ! a)) [0..<22]"
  shows "closed_under (operator_heap missing) P"
  using assms by (simp add: closed_under_def list_all_iff operator_length operator_nth)

definition is_status_client :: "cell \<Rightarrow> bool" where
  "is_status_client c = (case c of StatusClientCell _ \<Rightarrow> True | _ \<Rightarrow> False)"

definition is_cache :: "cell \<Rightarrow> bool" where
  "is_cache c = (case c of CacheCell _ \<Rightarrow> True | _ \<Rightarrow> False)"

definition is_cache_controller :: "cell \<Rightarrow> bool" where
  "is_cache_controller c = (case c of CacheControllerCell _ \<Rightarrow> True | _ \<Rightarrow> False)"

definition places :: "(cell \<Rightarrow> bool) \<Rightarrow> cell list \<Rightarrow> ref list" where
  "places P heap = map (\<lambda>(a, c). Heap a) (filter (\<lambda>(a, c). P c) (enumerate 0 heap))"

lemma operator_places:
  "places is_status_client (operator_heap missing) = [Heap 1]" "places is_cache (operator_heap missing) = [Heap 4]"
  "places is_cache_controller (operator_heap missing) = [Heap 5]"
  by (simp_all add: places_def operator_heap_def wire_manager_def constructor_defs is_status_client_def is_cache_def is_cache_controller_def)

text \<open>What the three controllers that update the status of full nodes hold, and what the other two do not.\<close>

lemma operator_members:
  "List.member (operator_pointers ! 5) (Heap 4)" "List.member (operator_pointers ! 7) (Heap 1)" "List.member (operator_pointers ! 7) (Heap 5)"
  "List.member (operator_pointers ! 11) (Heap 5)" "List.member (operator_pointers ! 11) (Heap 10)" "List.member (operator_pointers ! 10) (Heap 1)"
  "List.member (operator_pointers ! 16) (Heap 13)" "List.member (operator_pointers ! 13) (Heap 1)" "List.member (operator_pointers ! 16) (Heap 15)"
  "List.member (operator_pointers ! 15) (Heap 5)"
  by code_simp+

lemma operator_shares:
  assumes "a = 7 \<or> a = 11 \<or> a = 16"
  shows "holds (operator_heap missing) (Heap a) (Heap 1)" and "holds (operator_heap missing) (Heap a) (Heap 4)"
proof -
  let ?h = "holds (operator_heap missing)"
  have step: "?h r q" if "?h r (Heap b)" "List.member (operator_pointers ! b) q" "b < 22" for r b q
    using operator_holds [OF that(1,3,2)] .
  have "?h (Heap 7) (Heap 1)" "?h (Heap 7) (Heap 5)"
    by (rule step [OF holds_refl], rule operator_members, simp)+
  moreover have "?h (Heap 11) (Heap 5)" and 10: "?h (Heap 11) (Heap 10)"
    by (rule step [OF holds_refl], rule operator_members, simp)+
  moreover have "?h (Heap 11) (Heap 1)"
    by (rule step [OF 10 operator_members(6)]) simp
  moreover have 13: "?h (Heap 16) (Heap 13)" and 15: "?h (Heap 16) (Heap 15)"
    by (rule step [OF holds_refl], rule operator_members, simp)+
  moreover have "?h (Heap 16) (Heap 1)" by (rule step [OF 13 operator_members(8)]) simp
  moreover have "?h (Heap 16) (Heap 5)" by (rule step [OF 15 operator_members(10)]) simp
  ultimately have h: "?h (Heap a) (Heap 1)" "?h (Heap a) (Heap 5)" using assms by blast+
  show "?h (Heap a) (Heap 1)" by (rule h(1))
  show "?h (Heap a) (Heap 4)" by (rule step [OF h(2) operator_members(1)]) simp
qed

fun apart :: "ref \<Rightarrow> bool" where
  "apart (Heap n) = (n = 12 \<or> 17 \<le> n)"
| "apart SystemClock = False"
| "apart Logger = False"
| "apart _ = True"

lemma operator_apart:
  assumes "a = 12 \<or> a = 21"
  shows "\<not> holds (operator_heap missing) (Heap a) (Heap 1)" and "\<not> holds (operator_heap missing) (Heap a) (Heap 4)"
proof -
  have "list_all (\<lambda>a. apart (Heap a) \<longrightarrow> list_all apart (operator_pointers ! a)) [0..<22]" by code_simp
  then have "closed_under (operator_heap missing) apart" by (rule operator_closed)
  moreover have "apart (Heap a)" using assms by auto
  ultimately have "apart q" if "holds (operator_heap missing) (Heap a) q" for q
    using holds_closed [OF that] by blast
  from this [of "Heap 1"] this [of "Heap 4"]
  show "\<not> holds (operator_heap missing) (Heap a) (Heap 1)" and "\<not> holds (operator_heap missing) (Heap a) (Heap 4)" by auto
qed

text \<open>C37: The controllers share what keeps them apart. Of all the objects that the start of the operator
  builds, one holds the semaphores of the status updates and one is the cache with its controller; the reconcilers of full nodes,
  of self healing and of scheduled snapshots reach these very objects through their fields, not copies of them, so that
  their updates of one status exclude each other and their reads are of one cache. The reconcilers of stateful jobs
  and of stuck heights reach neither.\<close>

theorem controllers_share_status_client:
  "let (op, heap) = run_state (wire_manager missing) [] in
     places is_status_client heap = [op_statusClient op] \<and> places is_cache_controller heap = [op_cacheController op] \<and>
     (\<exists>cache. places is_cache heap = [cache] \<and>
        list_all (\<lambda>r. holds heap r (op_statusClient op) \<and> holds heap r cache) [op_FullNode op, op_SelfHealing op, op_Scheduled op] \<and>
        list_all (\<lambda>r. \<not> holds heap r (op_statusClient op) \<and> \<not> holds heap r cache) [op_StatefulJob op, op_StuckHeight op])"
proof -
  have r: "run_state (wire_manager missing) [] = (operator_refs, operator_heap missing)"
    using wire_manager_refs [of missing] by (simp add: operator_heap_def prod_eq_iff)
  have refs: "op_statusClient operator_refs = Heap 1" "op_cacheController operator_refs = Heap 5" "op_FullNode operator_refs = Heap 7"
      "op_SelfHealing operator_refs = Heap 11" "op_StatefulJob operator_refs = Heap 12" "op_Scheduled operator_refs = Heap 16"
      "op_StuckHeight operator_refs = Heap 21"
    by (simp_all add: operator_refs_def)
  show ?thesis unfolding r
    by (simp add: operator_places refs operator_shares operator_apart del: One_nat_def)
qed

text \<open>The handler of the sidecar's status shares nothing with the manager: it has an HTTP client of its own, in its own process,
  and the time it may take for the node's status is within the time the server has to write the answer.\<close>

lemma health_server_wired:
  assumes "run_state (wire_health_server addr host t) [] = (srv, heap)"
  shows "map_of (srv_Handlers srv) ''/'' = Some (Some (Heap 2)) \<and> holds heap (Heap 2) (Heap 0) \<and>
    flag_default (find_command rootCmd [''healthcheck'']) ''timeout'' = Some (FlagDuration (5 * time_Second)) \<and>
    5 * time_Second < srv_WriteTimeout srv"
proof -
  have f: "flag_default (find_command rootCmd [''healthcheck'']) ''timeout'' = Some (FlagDuration (5 * time_Second))" by code_simp
  have h: "heap = [HttpClientCell (30 * time_Second), CometClientCell \<lparr>cmc_httpDo = Heap 0\<rparr>,
      CometCell \<lparr>cmt_client = Heap 1, cmt_lastStatus = 0, cmt_logger = Logger, cmt_rpcHost = host, cmt_timeout = t\<rparr>]"
    and s: "map_of (srv_Handlers srv) ''/'' = Some (Some (Heap 2))" "srv_WriteTimeout srv = 30 * time_Second"
    using assms by (auto simp: wire_health_server_def constructor_defs)
  have "holds heap (Heap 2) (Heap 1)" using holds_step [OF holds_refl, of 2 heap "Heap 1"] h by simp
  from holds_step [OF this, of "Heap 0"] have "holds heap (Heap 2) (Heap 0)" using h by simp
  with f s show ?thesis by (simp add: time_Second_def)
qed

end
