(* ===== verification/Type_Registry.thy ===== *)
theory Type_Registry
  imports Manager
begin

text \<open>
  The types that the operator registers: the scheme builders of \<^verbatim>\<open>api/v1\<close> and \<^verbatim>\<open>api/v1alpha1\<close>, which
  the \<open>init\<close> functions of the packages fill, and the \<open>init\<close> of \<^verbatim>\<open>main.go\<close>, which adds them to the
  scheme after those of Kubernetes and of the volume snapshots. The manager refuses a controller or an index for a type
  that is not registered. How a builder adds its types is the interface \<open>scheme_library\<close>.
\<close>

subsection \<open>Builders\<close>

type_synonym gvk = "string \<times> string"

type_synonym gvks = "gvk list"

record SchemeBuilder =
  sb_GroupVersion :: string
  sb_Kinds :: "string list"

definition Register :: "string list \<Rightarrow> SchemeBuilder \<Rightarrow> SchemeBuilder" where
  "Register kinds b = b\<lparr>sb_Kinds := sb_Kinds b @ kinds\<rparr>"

text \<open>Go runs the \<open>init\<close> functions of a package in the order of its files.\<close>

definition init_CosmosFullNode :: "SchemeBuilder \<Rightarrow> SchemeBuilder" where
  "init_CosmosFullNode = Register [''CosmosFullNode'', ''CosmosFullNodeList'']"
definition init_StuckHeightRecovery :: "SchemeBuilder \<Rightarrow> SchemeBuilder" where
  "init_StuckHeightRecovery = Register [''StuckHeightRecovery'', ''StuckHeightRecoveryList'']"
definition init_ScheduledVolumeSnapshot :: "SchemeBuilder \<Rightarrow> SchemeBuilder" where
  "init_ScheduledVolumeSnapshot = Register [''ScheduledVolumeSnapshot'', ''ScheduledVolumeSnapshotList'']"
definition init_StatefulJob :: "SchemeBuilder \<Rightarrow> SchemeBuilder" where
  "init_StatefulJob = Register [''StatefulJob'', ''StatefulJobList'']"

definition v1_SchemeBuilder :: SchemeBuilder where
  "v1_SchemeBuilder = init_StuckHeightRecovery (init_CosmosFullNode \<lparr>sb_GroupVersion = GroupVersion, sb_Kinds = []\<rparr>)"

definition v1alpha1_SchemeBuilder :: SchemeBuilder where
  "v1alpha1_SchemeBuilder = init_StatefulJob (init_ScheduledVolumeSnapshot
     \<lparr>sb_GroupVersion = GroupVersion_Group @ ''/'' @ GroupVersion_Version, sb_Kinds = []\<rparr>)"

subsection \<open>The scheme of the binary\<close>

text \<open>\<open>utilruntime.Must\<close> panics on an error.\<close>

definition Must :: "goerror + gvks \<Rightarrow> gvks exec" where
  "Must r = (case r of Inl err \<Rightarrow> Panic (ge_msg err) | Inr scheme \<Rightarrow> Ok scheme)"

definition main_init ::
  "(SchemeBuilder \<Rightarrow> gvks \<Rightarrow> goerror + gvks) \<Rightarrow> (gvks \<Rightarrow> goerror + gvks) \<Rightarrow>
   (gvks \<Rightarrow> goerror + gvks) \<Rightarrow> gvks exec" where
  "main_init add clientgo snapshots =
     exec_bind (Must (clientgo [])) (\<lambda>s1.
     exec_bind (Must (snapshots s1)) (\<lambda>s2.
     exec_bind (Must (add v1_SchemeBuilder s2)) (\<lambda>s3. Must (add v1alpha1_SchemeBuilder s3))))"

locale scheme_library =
  fixes add :: "SchemeBuilder \<Rightarrow> gvks \<Rightarrow> goerror + gvks"
  assumes adds: "\<exists>scheme'. add b scheme = Inr scheme' \<and> set scheme' = set scheme \<union> Pair (sb_GroupVersion b) ` set (sb_Kinds b)"
begin

lemma main_init_kinds:
  assumes "clientgo [] = Inr s1" and "snapshots s1 = Inr s2"
  shows "\<exists>scheme. main_init add clientgo snapshots = Ok scheme \<and>
    set scheme = set s2 \<union> Pair (sb_GroupVersion v1_SchemeBuilder) ` set (sb_Kinds v1_SchemeBuilder) \<union>
      Pair (sb_GroupVersion v1alpha1_SchemeBuilder) ` set (sb_Kinds v1alpha1_SchemeBuilder)"
proof -
  obtain s3 where 3: "add v1_SchemeBuilder s2 = Inr s3"
      "set s3 = set s2 \<union> Pair (sb_GroupVersion v1_SchemeBuilder) ` set (sb_Kinds v1_SchemeBuilder)" using adds by blast
  obtain s4 where 4: "add v1alpha1_SchemeBuilder s3 = Inr s4"
      "set s4 = set s3 \<union> Pair (sb_GroupVersion v1alpha1_SchemeBuilder) ` set (sb_Kinds v1alpha1_SchemeBuilder)" using adds by blast
  show ?thesis using assms 3 4 by (simp add: main_init_def Must_def)
qed

end

definition ref_add :: "SchemeBuilder \<Rightarrow> gvks \<Rightarrow> goerror + gvks" where
  "ref_add b scheme = Inr (scheme @ map (Pair (sb_GroupVersion b)) (sb_Kinds b))"

interpretation ref_scheme: scheme_library ref_add
  by unfold_locales (simp add: ref_add_def)

subsection \<open>A manager with a scheme\<close>

definition errNoKind :: "string \<Rightarrow> goerror" where
  "errNoKind kind = errorNew (''no kind is registered for the type '' @ kind)"

text \<open>A call for an unregistered type is refused, every other one is answered as before.\<close>

definition typed_manager :: "string list \<Rightarrow> manager \<Rightarrow> manager" where
  "typed_manager kinds mgr acts c =
     (case c of
        IndexField k f g \<Rightarrow> if List.member kinds k then mgr acts c else Some (errNoKind k)
      | CompleteController ctl \<Rightarrow>
          (case filter (\<lambda>k. \<not> List.member kinds k) (cn_For ctl # map wt_Kind (cn_Watches ctl)) of
             [] \<Rightarrow> mgr acts c
           | k # _ \<Rightarrow> Some (errNoKind k))
      | _ \<Rightarrow> mgr acts c)"

text \<open>The types of the set-up: the operator's own ones, and those of the libraries.\<close>

definition own_kinds :: "string list" where
  "own_kinds = [''CosmosFullNode'', ''StatefulJob'', ''ScheduledVolumeSnapshot'', ''StuckHeightRecovery'']"

definition library_kinds :: "string list" where
  "library_kinds = map snd ownerIndexes @ [''Job'', ''VolumeSnapshot'']"

lemma own_kinds_registered:
  "set own_kinds \<subseteq> set (sb_Kinds v1_SchemeBuilder) \<union> set (sb_Kinds v1alpha1_SchemeBuilder)"
  by (simp add: own_kinds_def v1_SchemeBuilder_def v1alpha1_SchemeBuilder_def init_CosmosFullNode_def init_StuckHeightRecovery_def
    init_ScheduledVolumeSnapshot_def init_StatefulJob_def Register_def)

lemma typed_ask:
  assumes "set own_kinds \<union> set library_kinds \<subseteq> set kinds"
  shows "kind \<in> set library_kinds \<Longrightarrow> ask (typed_manager kinds mgr) (IndexField kind f g) = ask mgr (IndexField kind f g)"
    and "cn_For ctl \<in> set own_kinds \<Longrightarrow> wt_Kind ` set (cn_Watches ctl) \<subseteq> set library_kinds \<Longrightarrow>
      ask (typed_manager kinds mgr) (CompleteController ctl) = ask mgr (CompleteController ctl)"
    and "ask (typed_manager kinds mgr) (NewManager opts) = ask mgr (NewManager opts)"
    and "ask (typed_manager kinds mgr) (AddHealthzCheck n) = ask mgr (AddHealthzCheck n)"
    and "ask (typed_manager kinds mgr) (AddReadyzCheck n) = ask mgr (AddReadyzCheck n)"
    and "ask (typed_manager kinds mgr) StartManager = ask mgr StartManager"
proof -
  assume "kind \<in> set library_kinds"
  then show "ask (typed_manager kinds mgr) (IndexField kind f g) = ask mgr (IndexField kind f g)"
    using assms by (auto simp: ask_def typed_manager_def fun_eq_iff)
next
  assume "cn_For ctl \<in> set own_kinds" "wt_Kind ` set (cn_Watches ctl) \<subseteq> set library_kinds"
  then have "filter (\<lambda>k. \<not> List.member kinds k) (cn_For ctl # map wt_Kind (cn_Watches ctl)) = []"
    using assms by (auto simp: filter_empty_conv)
  then show "ask (typed_manager kinds mgr) (CompleteController ctl) = ask mgr (CompleteController ctl)"
    by (simp add: ask_def typed_manager_def fun_eq_iff)
qed (simp_all add: ask_def typed_manager_def fun_eq_iff)

lemma typed_index_owners:
  assumes "set own_kinds \<union> set library_kinds \<subseteq> set kinds" and "snd ` set idx \<subseteq> set library_kinds"
  shows "index_owners (typed_manager kinds mgr) idx acts = index_owners mgr idx acts"
  using assms(2) by (induction idx arbitrary: acts) (auto simp: typed_ask [OF assms(1)] split: prod.split option.split)

lemma typed_setups:
  assumes "set own_kinds \<union> set library_kinds \<subseteq> set kinds"
  shows "FullNode_SetupWithManager (typed_manager kinds mgr) = FullNode_SetupWithManager mgr"
    and "SelfHealing_SetupWithManager (typed_manager kinds mgr) = SelfHealing_SetupWithManager mgr"
    and "Cache_SetupWithManager (typed_manager kinds mgr) = Cache_SetupWithManager mgr"
    and "IndexVolumeSnapshots (typed_manager kinds mgr) = IndexVolumeSnapshots mgr"
    and "StatefulJob_SetupWithManager (typed_manager kinds mgr) = StatefulJob_SetupWithManager mgr"
    and "ScheduledVolumeSnapshot_SetupWithManager (typed_manager kinds mgr) = ScheduledVolumeSnapshot_SetupWithManager mgr"
    and "StuckHeightRecovery_SetupWithManager (typed_manager kinds mgr) = StuckHeightRecovery_SetupWithManager mgr"
proof -
  have idx: "snd ` set ownerIndexes \<subseteq> set library_kinds" "''VolumeSnapshot'' \<in> set library_kinds"
    by (auto simp: library_kinds_def)
  have fn: "cn_For fullNodeController \<in> set own_kinds" "wt_Kind ` set (cn_Watches fullNodeController) \<subseteq> set library_kinds"
    by (simp_all add: fullNodeController_def fullNodeWatches_def own_kinds_def library_kinds_def ownerIndexes_def)
  have job: "cn_For (statefulJobController b) \<in> set own_kinds" "wt_Kind ` set (cn_Watches (statefulJobController b)) \<subseteq> set library_kinds" for b
    by (simp_all add: statefulJobController_def jobWatch_def own_kinds_def library_kinds_def)
  show "FullNode_SetupWithManager (typed_manager kinds mgr) = FullNode_SetupWithManager mgr"
    by (simp add: FullNode_SetupWithManager_def fun_eq_iff typed_index_owners [OF assms idx(1)] typed_ask(2) [OF assms fn]
      split: prod.split option.split)
  show "StatefulJob_SetupWithManager (typed_manager kinds mgr) = StatefulJob_SetupWithManager mgr"
    by (simp add: StatefulJob_SetupWithManager_def fun_eq_iff typed_ask(2) [OF assms job])
  show "IndexVolumeSnapshots (typed_manager kinds mgr) = IndexVolumeSnapshots mgr"
    by (simp add: IndexVolumeSnapshots_def fun_eq_iff typed_ask(1) [OF assms idx(2)])
  show "SelfHealing_SetupWithManager (typed_manager kinds mgr) = SelfHealing_SetupWithManager mgr"
      "Cache_SetupWithManager (typed_manager kinds mgr) = Cache_SetupWithManager mgr"
      "ScheduledVolumeSnapshot_SetupWithManager (typed_manager kinds mgr) = ScheduledVolumeSnapshot_SetupWithManager mgr"
      "StuckHeightRecovery_SetupWithManager (typed_manager kinds mgr) = StuckHeightRecovery_SetupWithManager mgr"
    by (simp_all add: SelfHealing_SetupWithManager_def Cache_SetupWithManager_def cacheController_def own_kinds_def
      ScheduledVolumeSnapshot_SetupWithManager_def StuckHeightRecovery_SetupWithManager_def fun_eq_iff typed_ask(2) [OF assms])
qed

lemma typed_start:
  assumes "set own_kinds \<union> set library_kinds \<subseteq> set kinds"
  shows "startManager (typed_manager kinds mgr) config fl acts = startManager mgr config fl acts"
proof -
  note eqs = typed_setups [OF assms, where mgr = mgr] typed_ask(3-6) [OF assms, where mgr = mgr]
  have "start_rest (typed_manager kinds mgr) = start_rest mgr"
    by (simp add: start_rest_def fun_eq_iff eqs)
  then have "start_snapshots (typed_manager kinds mgr) = start_snapshots mgr"
    by (simp add: start_snapshots_def fun_eq_iff eqs)
  then have "start_controllers (typed_manager kinds mgr) = start_controllers mgr"
    by (simp add: start_controllers_def start_fullnode_def eqs)
  then have "run_manager (typed_manager kinds mgr) = run_manager mgr"
    by (intro ext) (simp add: run_manager_def eqs)
  then show ?thesis unfolding startManager_def by (simp only:)
qed

text \<open>The set-up never lacks a type. When the libraries register the types of Kubernetes and of the volume snapshots,
  \<open>init\<close> ends without a panic, and with its scheme a manager that refuses every index and every controller for, or watching, an
  unregistered type answers the start of the operator as a manager that does not look at types.\<close>

theorem scheme_suffices:
  assumes "scheme_library add" and "clientgo [] = Inr s1" and "snapshots s1 = Inr s2" and "set library_kinds \<subseteq> snd ` set s2"
  shows "\<exists>scheme. main_init add clientgo snapshots = Ok scheme \<and>
    startManager (typed_manager (map snd scheme) mgr) config fl acts = startManager mgr config fl acts"
proof -
  obtain scheme where s: "main_init add clientgo snapshots = Ok scheme"
      "set scheme = set s2 \<union> Pair (sb_GroupVersion v1_SchemeBuilder) ` set (sb_Kinds v1_SchemeBuilder) \<union>
        Pair (sb_GroupVersion v1alpha1_SchemeBuilder) ` set (sb_Kinds v1alpha1_SchemeBuilder)"
    using scheme_library.main_init_kinds [where clientgo = clientgo and snapshots = snapshots, OF assms(1-3)] by blast
  have "set own_kinds \<union> set library_kinds \<subseteq> set (map snd scheme)"
    using own_kinds_registered assms(4) by (auto simp: s(2) image_Un image_image)
  from typed_start [OF this] s(1) show ?thesis by blast
qed

definition sample_clientgo :: "gvks \<Rightarrow> goerror + gvks" where
  "sample_clientgo scheme = Inr (scheme @ map (Pair ''v1'' o snd) ownerIndexes @ [(''batch/v1'', ''Job'')])"

definition sample_snapshots :: "gvks \<Rightarrow> goerror + gvks" where
  "sample_snapshots scheme = Inr (scheme @ [(''snapshot.storage.k8s.io/v1'', ''VolumeSnapshot'')])"

theorem scheme_suffices_witness:
  "\<exists>scheme. main_init ref_add sample_clientgo sample_snapshots = Ok scheme \<and>
     exit_code (fst (startManager (typed_manager (map snd scheme) (ref_manager False)) True (sample_flags []) [])) = 0"
proof -
  have k: "set library_kinds \<subseteq> snd ` set (map (Pair ''v1'' o snd) ownerIndexes @ [(''batch/v1'', ''Job''), (''snapshot.storage.k8s.io/v1'', ''VolumeSnapshot'')])"
    by (auto simp: library_kinds_def image_image)
  obtain scheme where "main_init ref_add sample_clientgo sample_snapshots = Ok scheme"
      "startManager (typed_manager (map snd scheme) (ref_manager False)) True (sample_flags []) [] = startManager (ref_manager False) True (sample_flags []) []"
    using scheme_suffices [OF ref_scheme.scheme_library_axioms _ _ k, of sample_clientgo _ sample_snapshots "ref_manager False" True "sample_flags []" "[]"]
    by (auto simp: sample_clientgo_def sample_snapshots_def)
  moreover have "exit_code (fst (startManager (ref_manager False) True (sample_flags []) [])) = 0"
    using manager_sets_up [OF ref_manager_contract, of "sample_flags []"] by (simp add: sample_flags_def prod_eq_iff)
  ultimately show ?thesis by metis
qed

end
