(* ===== verification/Spec2Isabelle.thy ===== *)
theory Spec2Isabelle
  imports Fullnode_Controller Pod_Rollout Autoscale Object_References Snapshot_Cycle Recovery_Limit Wiring Type_Registry
begin

text \<open>
  A verification library for the cosmos-operator, a Kubernetes operator in Go that runs blockchain full nodes built
  with the Cosmos SDK. It models the operator's own code under \<^verbatim>\<open>api/\<close>, \<^verbatim>\<open>cmd/\<close>,
  \<^verbatim>\<open>controllers/\<close>, \<^verbatim>\<open>internal/\<close> and \<^verbatim>\<open>main.go\<close>.

  \<^bold>\<open>The program.\<close> One binary with three commands. The manager (\<^verbatim>\<open>main.go\<close>) runs six controllers. The full node
  controller turns a resource \<open>CosmosFullNode\<close> into services, node keys, RBAC objects, config maps, pods and volume
  claims: builders compute the wanted objects, \<^verbatim>\<open>internal/diff\<close> compares them with the cluster by key and
  revision, and one control per kind carries the difference out, the pods with a rolling update. The cache
  controller polls the nodes of each full node; its statuses tell the rollout which pods are in sync. The self healing
  controller requests bigger claims and deletes lagging pods. The controller of scheduled snapshots
  asks the full node, through its status, to take a pod down while its volume is saved. Stateful jobs run on the newest
  snapshot. The stuck height recovery takes a snapshot of, and runs a script on, a node that stands still. All
  of them meet in the status of the full node, which is written with optimistic locking. The two other
  commands run inside the pods: the health check sidecar and the version check.

  \<^bold>\<open>How Go is modelled\<close> (\<open>Prelude\<close>). A call that can panic yields \<open>exec\<close>, a fallible one a sum with a \<open>goerror\<close> on the left;
  panics, errors and early returns are branches of every model. Heights, bytes and atomic counters are words of 64 bits,
  \<open>int32\<close> counts are integers with the range as a hypothesis or the wrap-around written out, sizes are rationals;
  \<open>Go_Float\<close> and \<open>Go_Duration\<close> define the parts of \<open>float64\<close> and \<open>time.Duration\<close> that are used. A Go map is a
  function where it is looked up and an association list where it is ranged over, in any order. Strings are byte
  lists. Pointers that the code dereferences are options, and nil panics.

  \<^bold>\<open>What is a parameter.\<close> The API server: a function that answers each call given the calls before it, so that a theorem over
  all servers covers every failure and interference; reads are arguments of one reconcile. The encoders, the
  strategic merge patch, TOML, the cron library, sorting functions, key generation, the scaling of \<open>IntOrString\<close>,
  the database of the version check, HTTP, and the manager of controller-runtime. What a theorem needs of them is a
  named hypothesis or a locale that states their documented behaviour (\<open>ordering_of\<close>, \<open>encodes\<close>, \<open>pod_patch\<close>,
  \<open>setref_ok\<close>, \<open>accepts\<close>, \<open>event_library\<close>, \<open>manager_contract\<close>, \<open>scheme_library\<close>), and each is instantiated by a function that has it.

  \<^bold>\<open>The theories.\<close>
  \<^item> \<open>Prelude\<close>, \<open>Machines\<close>, \<open>Controller_Results\<close>, \<open>Go_Float\<close>, \<open>Go_Duration\<close>: vocabulary, transition systems with the contract of an
    invariant, results of reconciles, arithmetic.
  \<^item> \<open>Kube_Labels\<close>, \<open>Kube_Client\<close>, \<open>Kube_Objects\<close>, \<open>Kube_Rollout\<close>: \<^verbatim>\<open>internal/kube\<close>. Names are valid and stay different for
    different ordinals; the newest ready snapshot; the rollout budget keeps the minimum available.
  \<^item> \<open>Diff\<close>, \<open>Control_Loops\<close>: \<^verbatim>\<open>internal/diff\<close> and the loops of the controls, refining the abstract cluster, a map from keys to
    revisions: a diff that is carried out reaches the wanted map, and a second one is empty.
  \<^item> \<open>Api_V1\<close>, \<open>Api_V1alpha1\<close>: the resources of \<^verbatim>\<open>api/\<close>, each struct a record, each enumeration a datatype.
  \<^item> \<open>Fullnode_Names\<close>, \<open>Pod_Builder\<close>, \<open>Build_Pods\<close>, \<open>Service_Builder\<close>, \<open>Rbac_Builder\<close>, \<open>Node_Keys\<close>, \<open>Peers\<close>,
    \<open>Configmap_Builder\<close>, \<open>Pvc_Builder\<close>: the builders of \<^verbatim>\<open>internal/fullnode\<close>, with what exactly they want;
    \<open>Object_References\<close> shows that the wanted objects refer to each other without gaps.
  \<^item> \<open>Resource_Controls\<close>, \<open>Pod_Control\<close>, \<open>Pod_Rollout\<close>, \<open>Pvc_Control\<close>, \<open>Fullnode_Controller\<close>: the controls of
    \<^verbatim>\<open>internal/fullnode\<close> and the reconcile loop of the full node. The controls converge; a rollout keeps the
    full node available and ends; claims in use are not deleted; one failing control does not stop the others;
    each reconcile, also a panicking one, reports its outcome.
  \<^item> \<open>Comet_Status\<close>, \<open>Status_Cache\<close>, \<open>Status_Updates\<close>: \<^verbatim>\<open>internal/cosmos\<close> and the status client. The goroutines of the cache, and
    the threads that update a status, are state machines in which every step interleaves.
  \<^item> \<open>Healthcheck\<close>, \<open>Self_Healing\<close>, \<open>Autoscale\<close>: \<^verbatim>\<open>internal/healthcheck\<close>, drift detection, disk usage and auto scaling,
    and the way of a resize from the disk to the claim.
  \<^item> \<open>Vol_Snapshot\<close>, \<open>Snapshot_Controller\<close>, \<open>Stateful_Job\<close>, \<open>Stuck_Height\<close>, \<open>Stuck_Height_Controller\<close>: the packages
    and controllers of the same names. The controllers' runs are state machines that alternate reconciles, with any reads
    and answers, with what users and other writers do; their invariants are proved by induction over all runs. In the runs of the
    snapshot controller the user keeps the full node and does not turn \<open>DeletePod\<close> on while a snapshot is taken, and the
    server accepts the status of a suspended resource; \<open>snapshot_of_running_pod\<close> and \<open>late_pod_deletion\<close> show what happens
    otherwise. \<open>Snapshot_Cycle\<close> shows that a snapshot that has begun is taken, recorded and its pod released;
    \<open>Recovery_Limit\<close> that the rate limit of the recoveries refines a limiter that counts attempts in a window.
  \<^item> \<open>Version_Check\<close>, \<open>Command_Line\<close>, \<open>Manager\<close>: \<^verbatim>\<open>cmd/\<close>, \<^verbatim>\<open>main.go\<close>, the set-up of the controllers with
    indexes and watches, the goroutines of the sidecar's server. \<open>Type_Registry\<close>: the types that \<^verbatim>\<open>api/\<close> and
    \<^verbatim>\<open>main.go\<close> register are those that the manager is asked for. \<open>Wiring\<close>: the constructors, with the heap of
    objects that they allocate; the controllers share one status client and one cache.
  \<^item> This theory: properties that span the full node controller and the snapshot controller, which get a pod out of the way and
    keep it down together, and the manager and the
    controllers that it starts.

  \<^bold>\<open>Bounds.\<close> No model uses fuel: each loop is structural, over a list that the code ranges over. Bounds in statements: a rollout of
  \<open>n\<close> pods ends within \<open>2 n + 1\<close> reconciles (each outdated pod is first deleted and then created); a snapshot's cycle ends after at most six reconciles that find
  what their phase waits for, however many others come between; the recovery of a
  stuck node starts within the number of reconciles that its theorem names; the sidecar's goroutines take at most four steps; ordinals are
  \<open>int32\<close>, and a sentry has fewer than \<open>2 ^ 30\<close> replicas, so that doubling does not overflow; volumes
  have at most \<open>2 ^ 61\<close> bytes, so that their next size fits into an \<open>int64\<close>.

  \<^bold>\<open>Where the code falls short.\<close> Some theorems show how the code departs from what it is for: a full node with disabled
  instances can refuse to roll for ever (\<open>rollout_blocked\<close>); a failing config map control makes all pods roll
  (\<open>checksums_lost\<close>); invalidating the cache has no effect and reading it twice can duplicate pods
  (\<open>Invalidate_no_effect\<close>, \<open>Collect_twice_duplicates\<close>); a lost job, a suspended recovery, a snapshot of
  a running pod, a snapshot taken twice in a cycle, a sidecar without listener, missing snapshot definitions, long names and capped requests
  have a lemma each.

  \<^bold>\<open>Not modelled.\<close> The generated deep copies (values here are immutable, a copy is the value itself); helpers that take an address,
  test doubles and tests; flag parsing, construction of loggers' sinks, the
  profiler and the debug server beyond their place in the order of actions; events and log entries of the controllers, which
  nothing reads back; manifests, charts and scripts, which are no Go.
\<close>

subsection \<open>The full node controller and the snapshot controller\<close>

text \<open>C25: A pod stays down while its volume is saved. Take any state that the snapshot controller reaches in the runs of
  \<open>Snapshot_Controller\<close>, with edits of the user and other writers of the full node's status, in which the snapshot of a deleted pod is about to be created or awaited. A reconcile of the full node that reads the status
  of that moment, whatever the API server answers it and even if it panics, creates no pod with the
  candidate's name; and the status update it sends is one of the steps that the snapshot controller's
  guarantees allow for.\<close>

theorem snapshot_pod_stays_down:
  assumes "reach fresh_svs svs_step m"
    and "vt_Phase (sv_Status (vw_Stored (sm_World m))) \<in> {SnapshotPhaseCreating, SnapshotPhaseWaitingForCreation}"
    and "vp_DeletePod (sv_Spec (vw_Stored (sm_World m)))" and "vt_Candidate (sv_Status (vw_Stored (sm_World m))) = Some c"
    and "fn_Status crd = vw_Status (sm_World m)"
    and "setref_ok (ke_setRef (fe_Pod env))" and "ordering_of (ke_sort (fe_Pod env)) rs_Ordinal"
    and "CosmosFullNode_Reconcile env (Inr crd) w = (res, w')"
  shows "(\<exists>cs. fw_Pods w' = fw_Pods w @ cs \<and> (\<forall>pod. Create pod \<in> set cs \<longrightarrow> GetName pod \<noteq> sd_PodName c)) \<and>
    (\<exists>f. fw_Updates w' = fw_Updates w @ [(ObjectKey (fn_Namespace crd) (om_Name (fn_Meta crd)), f)] \<and>
       svs_step m (m\<lparr>sm_World := (sm_World m)\<lparr>vw_Status := f (vw_Status (sm_World m))\<rparr>\<rparr>))"
proof -
  let ?w0 = "w\<lparr>fw_SyncInfo := SyncInfoStatus (fe_statuses env), fw_Deleted := []\<rparr>"
  obtain res1 w1 crd1 f where b: "fullnode_body env (Status_Updates.ResetStatus crd) ?w0 = (res1, w1)"
      "w' = w1\<lparr>fw_Updates := fw_Updates w @ [(ObjectKey (fn_Namespace crd) (om_Name (fn_Meta crd)), f)]\<rparr>"
      "f = updateStatus crd1 (fw_SyncInfo w') (fw_Deleted w')"
    using Reconcile_unfold [OF assms(8)] by blast
  have left: "fw_Pods w' = fw_Pods w1" "fw_Updates w' = fw_Updates w @ [(ObjectKey (fn_Namespace crd) (om_Name (fn_Meta crd)), f)]"
    by (subst b(2), simp)+
  have "svs_ok (vp_DeletePod (sv_Spec (vw_Stored (sm_World m)))) (sm_Absent m) (signalled (sm_World m)) (sv_Status (vw_Stored (sm_World m)))"
    using svs.reach_inv [OF assms(1)] by (simp add: svs_inv_def)
  then have "signalled (sm_World m) = Some (sd_PodName c)" using assms(2,3,4) by (auto simp: svs_ok_def)
  then have "sd_PodName c \<in> set (podCandidates crd)"
    using assms(5) by (force simp: signalled_def podCandidates_def dest: map_of_SomeD)
  moreover have "quiet_calls (podCandidates crd) (fw_Pods w) (fw_Pods w')"
    using body_quiet [OF assms(6,7), of "Status_Updates.ResetStatus crd" "fw_Pods w", unfolded keeps_def, rule_format, of ?w0] b(1) left(1) by simp
  ultimately have "\<exists>cs. fw_Pods w' = fw_Pods w @ cs \<and> (\<forall>pod. Create pod \<in> set cs \<longrightarrow> GetName pod \<noteq> sd_PodName c)"
    unfolding quiet_calls_def by metis
  moreover have "svs_step m (m\<lparr>sm_World := (sm_World m)\<lparr>vw_Status := f (vw_Status (sm_World m))\<rparr>\<rparr>)"
    by (rule svs_other) (simp add: signalled_def b(3) updateStatus_def)
  ultimately show ?thesis using left(2) by simp
qed

theorem snapshot_pod_stays_down_witness:
  "\<exists>A res w'. reach fresh_svs svs_step \<lparr>sm_World = svs_saving, sm_Absent = A\<rparr> \<and>
     map_option sd_PodName (vt_Candidate (sv_Status (vw_Stored svs_saving))) = Some ''osmo-0'' \<and>
     CosmosFullNode_Reconcile (down_env\<lparr>fe_listPods := Inr []\<rparr>) (Inr (sample_crd\<lparr>fn_Status := vw_Status svs_saving\<rparr>)) fresh_world = (res, w') \<and>
     (\<forall>pod. Create pod \<in> set (fw_Pods w') \<longrightarrow> GetName pod \<noteq> ''osmo-0'')"
proof -
  obtain A where r: "reach fresh_svs svs_step \<lparr>sm_World = svs_saving, sm_Absent = A\<rparr>" using svs_saving_reach by blast
  obtain c where c: "vt_Candidate (sv_Status (vw_Stored svs_saving)) = Some c" "sd_PodName c = ''osmo-0''"
    using svs_saving_facts(2) by auto
  let ?env = "down_env\<lparr>fe_listPods := Inr []\<rparr>" and ?crd = "sample_crd\<lparr>fn_Status := vw_Status svs_saving\<rparr>"
  obtain res w' where w': "CosmosFullNode_Reconcile ?env (Inr ?crd) fresh_world = (res, w')" (is "?e = _") by (cases ?e)
  have k: "setref_ok (ke_setRef (fe_Pod ?env))" "ordering_of (ke_sort (fe_Pod ?env)) rs_Ordinal"
    using good_kind_ok [where ?'a = PodBody] by (simp_all add: down_env_def kind_ok_def)
  have "\<exists>cs. fw_Pods w' = fw_Pods fresh_world @ cs \<and> (\<forall>pod. Create pod \<in> set cs \<longrightarrow> GetName pod \<noteq> sd_PodName c)"
    using snapshot_pod_stays_down [OF r _ _ _ _ k w', of c] svs_saving_facts(1,3) c(1) by simp
  moreover have "fw_Pods fresh_world = []" by (simp add: fresh_world_def)
  ultimately show ?thesis using r w' c(2) svs_saving_facts(2) by auto
qed

text \<open>The pod control deletes a pod that is not to run, in the first round that finds it, and creates none of its name.\<close>

lemma no_candidate_left:
  assumes ok: "rollout_ok e want u" and pods: "pods_ok (re_crd e) pods" and n: "n \<in> set (podCandidates (re_crd e))"
  shows "n \<notin> GetName ` set (pods_left (pcs_calls (snd (control_run e s pods))) pods)"
proof -
  let ?cs = "pcs_calls (snd (control_run e s pods))"
  obtain d where D: "Diff_New (re_sort e) pods want = Ok d" using ok_diff [OF ok pods] by blast
  have ord: "diff_order (re_sort e)" using ok by (simp add: rollout_ok_def diff_order.intro)
  have "quiet_calls (podCandidates (re_crd e)) [] ?cs"
    unfolding control_run_def using ok by (intro PodControl_quiet) (simp_all add: rollout_ok_def)
  then have quiet: "GetName ob \<noteq> n" if "Create ob \<in> set ?cs" for ob using that n by (auto simp: quiet_calls_def)
  have gone: "\<exists>q. Delete q \<in> set ?cs \<and> ObjectKeyFromObject q = ObjectKeyFromObject p" if p: "p \<in> set pods" "GetName p = n" for p
  proof -
    have "ObjectKeyFromObject p \<notin> rs_key ` set want"
    proof
      assume "ObjectKeyFromObject p \<in> rs_key ` set want"
      then obtain r where "r \<in> set want" "GetName (rs_Object r) = n" using p(2) by (auto simp: rs_key_def object_defs)
      with BuildPods_candidates n show False using ok unfolding rollout_ok_def by metis
    qed
    then have "stamp (currentAdapter p) \<in> set (df_deletes d)" using diff_order.deletes_iff [OF ord D] p(1) by blast
    moreover from this have "df_deletes d \<noteq> []" by auto
    ultimately have "Delete (stamp (currentAdapter p)) \<in> set ?cs" by (simp add: scaling_calls [OF ok D])
    then show ?thesis by (intro exI [of _ "stamp (currentAdapter p)"]) simp
  qed
  have "n \<notin> GetName ` set (pods_left cs ps)"
    if "\<And>ob. Create ob \<in> set cs \<Longrightarrow> GetName ob \<noteq> n"
      "\<And>p. p \<in> set ps \<Longrightarrow> GetName p = n \<Longrightarrow> \<exists>q. Delete q \<in> set cs \<and> ObjectKeyFromObject q = ObjectKeyFromObject p" for cs ps
    using that
  proof (induction cs arbitrary: ps)
    case (Cons c cs)
    have "\<exists>q. Delete q \<in> set cs \<and> ObjectKeyFromObject q = ObjectKeyFromObject p" if "p \<in> set (pods_after c ps)" "GetName p = n" for p
      using Cons.prems that by (cases c) (auto, metis+)
    with Cons show ?case by (simp add: pods_left_def)
  qed (auto simp: pods_left_def)
  with quiet gone show ?thesis by blast
qed

text \<open>C29: The two controllers get a pod out of the way together. Once the snapshot controller waits for
  its candidate's pod to be deleted, one round of the full node's pod control that reads the status of that moment, with
  whatever statuses its pods have, and a reconcile of the snapshot that lists the pods that this round left, bring
  the snapshot to the phase in which it is created; neither controller waits for the other for ever.\<close>

theorem full_node_releases_volume:
  assumes "reach fresh_svs svs_step m" and "w = sm_World m" and "\<not> vp_Suspend (sv_Spec (vw_Stored w))"
    and "vt_Phase (sv_Status (vw_Stored w)) = SnapshotPhaseWaitingForPodDeletion"
    and "fn_Status (re_crd e) = vw_Status w" and "rollout_ok e want u" and "pods_ok (re_crd e) pods"
    and "\<not> se_Missing env" and "\<forall>cs c. se_Server env cs c = None"
    and "se_Pods env = Inr (pods_left (pcs_calls (snd (control_run e s pods))) pods)"
  shows "vt_Phase (sv_Status (vw_Stored (snd (ScheduledVolumeSnapshot_Reconcile env (Inr (vw_Stored w)) w)))) = SnapshotPhaseCreating"
proof -
  let ?e = "Reconciled None env"
  have inv: "svs_inv m" using svs.reach_inv [OF assms(1)] .
  then obtain c where c: "vt_Candidate (sv_Status (vw_Stored w)) = Some c" "signalled w = Some (sd_PodName c)"
    using assms(2,4) by (auto simp: svs_inv_def svs_ok_def)
  then have "sd_PodName c \<in> set (podCandidates (re_crd e))"
    using assms(5) by (force simp: signalled_def podCandidates_def dest: map_of_SomeD)
  from no_candidate_left [OF assms(6,7) this] have "candidate_gone env (vw_Stored w)"
    using c(1) assms(10) by (simp add: candidate_gone_def lists_without_def)
  then have h: "helps w ?e" using assms(4,9) by simp
  have "moved_on (phase_of w) (phase_of (svs_after w ?e))" "phase_of (svs_after w ?e) \<noteq> phase_of w"
    using event_step(3,4) [OF inv _ _ _ refl, of ?e] assms(2-4,8) h by simp_all
  then have "rank (phase_of (svs_after w ?e)) = 3" using assms(4) by (auto simp: moved_on_def)
  then have "phase_of (svs_after w ?e) = SnapshotPhaseCreating" by (cases "phase_of (svs_after w ?e)") simp_all
  then show ?thesis by (simp add: svs_got_def)
qed

text \<open>The sample snapshot, waiting for the pod \<open>osmo-0\<close>; the full node that sees its status wants the other pod only.\<close>

definition svs_waiting :: svs_world where
  "svs_waiting = svs_run svs_sample_world
     [svs_sample_env 90000 [''osmo-0'', ''osmo-2''] (\<lambda>_. None), svs_sample_env 90001 [''osmo-0'', ''osmo-2''] (\<lambda>_. None),
      svs_sample_env 90002 [''osmo-0'', ''osmo-2''] (\<lambda>_. None)]"

lemma svs_waiting_facts:
  "vt_Phase (sv_Status (vw_Stored svs_waiting)) = SnapshotPhaseWaitingForPodDeletion" "\<not> vp_Suspend (sv_Spec (vw_Stored svs_waiting))"
  "map fs_PodCandidate (map snd (st_ScheduledSnapshotStatus (vw_Status svs_waiting))) = [''osmo-0'']"
proof -
  have "let w = svs_waiting in vt_Phase (sv_Status (vw_Stored w)) = SnapshotPhaseWaitingForPodDeletion \<and>
      \<not> vp_Suspend (sv_Spec (vw_Stored w)) \<and> map fs_PodCandidate (map snd (st_ScheduledSnapshotStatus (vw_Status w))) = [''osmo-0'']"
    by code_simp
  then show "vt_Phase (sv_Status (vw_Stored svs_waiting)) = SnapshotPhaseWaitingForPodDeletion" "\<not> vp_Suspend (sv_Spec (vw_Stored svs_waiting))"
    "map fs_PodCandidate (map snd (st_ScheduledSnapshotStatus (vw_Status svs_waiting))) = [''osmo-0'']"
    unfolding Let_def by simp_all
qed

lemma waiting_rollout_ok:
  "\<exists>want. rollout_ok (sample_rollout (sample_crd\<lparr>fn_Status := vw_Status svs_waiting\<rparr>)) want 0"
proof -
  let ?crd = "sample_crd\<lparr>fn_Status := vw_Status svs_waiting\<rparr>"
  have "case BuildPods Build_Pods.sample_env ref_marshal ref_patch ?crd [] of
      Ok (Inr rs) \<Rightarrow> map rs_key rs = [ObjectKey ''chains'' ''osmo-2''] \<and> list_all (runnable ?crd) rs | _ \<Rightarrow> False"
    by code_simp
  then obtain want where w: "BuildPods Build_Pods.sample_env ref_marshal ref_patch ?crd [] = Ok (Inr want)"
      "map rs_key want = [ObjectKey ''chains'' ''osmo-2'']" "list_all (runnable ?crd) want"
    by (auto split: exec.splits sum.splits)
  obtain want' where "rollout_ok (sample_rollout sample_crd) want' 0" using sample_rollout_ok [of sample_crd] by auto
  then have "rollout_ok (sample_rollout ?crd) want 0"
    using w by (auto simp: rollout_ok_def sample_rollout_def list_all_iff runnable_def)
  then show ?thesis by blast
qed

theorem full_node_releases_volume_witness:
  "\<exists>pods. pods = pods_left (pcs_calls (snd (control_run (sample_rollout (sample_crd\<lparr>fn_Status := vw_Status svs_waiting\<rparr>)) [] old_pods))) old_pods \<and>
     vt_Phase (sv_Status (vw_Stored (snd (ScheduledVolumeSnapshot_Reconcile
       ((svs_sample_env 90010 [] (\<lambda>_. None))\<lparr>se_Pods := Inr pods\<rparr>) (Inr (vw_Stored svs_waiting)) svs_waiting)))) = SnapshotPhaseCreating"
proof -
  let ?crd = "sample_crd\<lparr>fn_Status := vw_Status svs_waiting\<rparr>"
  let ?pods = "pods_left (pcs_calls (snd (control_run (sample_rollout ?crd) [] old_pods))) old_pods"
  let ?env = "(svs_sample_env 90010 [] (\<lambda>_. None))\<lparr>se_Pods := Inr ?pods\<rparr>"
  have "\<exists>A. reach fresh_svs svs_step \<lparr>sm_World = svs_waiting, sm_Absent = A\<rparr>"
    unfolding svs_waiting_def
  proof (rule svs_run_reach [where A = "\<lambda>_. False"])
    show "reach fresh_svs svs_step \<lparr>sm_World = svs_sample_world, sm_Absent = \<lambda>_. False\<rparr>"
      by (rule reach_init) (simp add: fresh_svs_def svs_sample_world_def sample_svs_def signalled_def sample_crd_def)
  qed (simp add: svs_sample_env_def)
  then obtain A where r: "reach fresh_svs svs_step \<lparr>sm_World = svs_waiting, sm_Absent = A\<rparr>" by blast
  obtain want where w: "rollout_ok (sample_rollout ?crd) want 0" using waiting_rollout_ok by blast
  have crd: "re_crd (sample_rollout ?crd) = ?crd" by (simp add: sample_rollout_def)
  have p: "pods_ok (re_crd (sample_rollout ?crd)) old_pods" using old_pods_ok [of sample_crd] unfolding crd by (simp add: pods_ok_def)
  have e: "fn_Status (re_crd (sample_rollout ?crd)) = vw_Status svs_waiting" "\<not> se_Missing ?env" "\<forall>cs c. se_Server ?env cs c = None"
      "se_Pods ?env = Inr ?pods"
    unfolding crd by (simp_all add: svs_sample_env_def)
  show ?thesis
    using full_node_releases_volume [OF r _ _ _ e(1) w p e(2-4)] svs_waiting_facts by simp
qed

subsection \<open>A cluster without volume snapshots\<close>

text \<open>C40: Where volume snapshots are not installed, nothing is made from one. When the definitions are
  missing, the operator starts with all of its controllers. The flags that it gives to the controllers of stateful
  jobs and of scheduled snapshots make every reconcile of a stateful job ask for nothing, and every
  reconcile of a scheduled snapshot ask for nothing but the update of its own status to the phase that
  tells the user. The controller of stuck heights gets no flag and keeps asking for snapshots; as long as the server
  refuses them, and none was created before, its reconciles create neither a snapshot nor a recovery pod for a
  recovery that is to run on a saved volume.\<close>

theorem without_snapshots_quiet:
  assumes "manager_contract mgr True" and "mf_profileMode fl \<in> {[], ''cpu'', ''mem''}"
    and "startManager mgr True fl [] = (res, acts)"
  shows "exit_code res = 0 \<and>
    (\<exists>b. StatefulJobReconciler b \<in> set (reconcilers acts)) \<and> (\<exists>b. ScheduledVolumeSnapshotReconciler b \<in> set (reconcilers acts)) \<and>
    StuckHeightRecoveryReconciler \<in> set (reconcilers acts) \<and>
    (\<forall>b env got. StatefulJobReconciler b \<in> set (reconcilers acts) \<longrightarrow> je_Missing env = b \<longrightarrow>
       snd (snd (StatefulJob_Reconcile env got)) = []) \<and>
    (\<forall>b env crd w. ScheduledVolumeSnapshotReconciler b \<in> set (reconcilers acts) \<longrightarrow> se_Missing env = b \<longrightarrow>
       (\<exists>crd1. snd (ScheduledVolumeSnapshot_Reconcile env (Inr crd) w) = snd (svs_request env (SvsUpdateCall crd1) w) \<and>
          vt_Phase (sv_Status crd1) = SnapshotPhaseMissingCRDs)) \<and>
    (\<forall>m env got. reach fresh_recovery shr_step m \<longrightarrow> read_ok got (rm_World m) \<longrightarrow> snapshots_refused env \<longrightarrow>
       sr_CreateVolumeSnapshot (shr_Spec (rw_Stored (rm_World m))) \<longrightarrow> rw_Snapshots (rm_World m) = [] \<longrightarrow>
       rw_Snapshots (snd (StuckHeightRecovery_Reconcile env got (rm_World m))) = [] \<and>
       rw_Pods (snd (StuckHeightRecovery_Reconcile env got (rm_World m))) = rw_Pods (rm_World m))"
proof -
  have e: "exit_code res = 0" and r: "reconcilers acts = [CacheReconciler, FullNodeReconciler, SelfHealingReconciler, StatefulJobReconciler True,
      ScheduledVolumeSnapshotReconciler True, StuckHeightRecoveryReconciler]"
    using manager_sets_up [OF assms] by blast+
  have j: "snd (snd (StatefulJob_Reconcile env got)) = []" if "je_Missing env" for env got
    using that by (simp add: StatefulJob_Reconcile_def split: sum.split)
  have s: "\<exists>crd1. snd (ScheduledVolumeSnapshot_Reconcile env (Inr crd) w) = snd (svs_request env (SvsUpdateCall crd1) w) \<and>
      vt_Phase (sv_Status crd1) = SnapshotPhaseMissingCRDs" if "se_Missing env" for env crd w
    using that by (intro exI [of _ "to_phase SnapshotPhaseMissingCRDs (reportError errMissingVolSnapCRD (Vol_Snapshot.ResetStatus (se_Clock env 0) crd))"])
      (simp add: ScheduledVolumeSnapshot_Reconcile_def Let_def to_phase_def)
  show ?thesis
  proof (intro conjI)
    show "\<forall>m env got. reach fresh_recovery shr_step m \<longrightarrow> read_ok got (rm_World m) \<longrightarrow> snapshots_refused env \<longrightarrow>
       sr_CreateVolumeSnapshot (shr_Spec (rw_Stored (rm_World m))) \<longrightarrow> rw_Snapshots (rm_World m) = [] \<longrightarrow>
       rw_Snapshots (snd (StuckHeightRecovery_Reconcile env got (rm_World m))) = [] \<and>
       rw_Pods (snd (StuckHeightRecovery_Reconcile env got (rm_World m))) = rw_Pods (rm_World m)"
      using no_snapshot_no_script by blast
  qed (unfold r, use e j s in auto)
qed

theorem without_snapshots_quiet_witness:
  "\<exists>res acts. startManager (ref_manager True) True (sample_flags []) [] = (res, acts) \<and> exit_code res = 0 \<and>
     snd (snd (StatefulJob_Reconcile (sample_sj_env\<lparr>je_Missing := True\<rparr>) (Inr sample_sj))) = [] \<and>
     (let w = rm_World sample_machine;
          w' = snd (StuckHeightRecovery_Reconcile ((sample_env 1)\<lparr>ev_Server := (\<lambda>_ _. Some (errorNew ''no matches for kind''))\<rparr>) (Inr (rw_Stored w)) w)
      in rw_Snapshots w' = [] \<and> rw_Pods w' = rw_Pods w)"
proof -
  obtain res acts where r: "startManager (ref_manager True) True (sample_flags []) [] = (res, acts)" by (metis surj_pair)
  have f: "mf_profileMode (sample_flags []) \<in> {[], ''cpu'', ''mem''}" by (simp add: sample_flags_def)
  note quiet = without_snapshots_quiet [OF ref_manager_contract f r]
  have j: "StatefulJobReconciler True \<in> set (reconcilers acts)"
    using manager_sets_up [OF ref_manager_contract f r] by simp
  let ?env = "(sample_env 1)\<lparr>ev_Server := (\<lambda>_ _. Some (errorNew ''no matches for kind''))\<rparr>"
  have m: "reach fresh_recovery shr_step sample_machine" using sample_reach [of "[]"] by (simp add: machine_run_def)
  have "read_ok (Inr (rw_Stored (rm_World sample_machine))) (rm_World sample_machine)" by (simp add: read_ok_def)
  moreover have "snapshots_refused ?env" by (simp add: snapshots_refused_def)
  moreover have "sr_CreateVolumeSnapshot (shr_Spec (rw_Stored (rm_World sample_machine)))" "rw_Snapshots (rm_World sample_machine) = []"
    by code_simp+
  ultimately show ?thesis using quiet j r m unfolding Let_def by simp
qed

text \<open>The phase that tells the user about missing definitions is final: once it is stored, a reconcile that does
  find the volume snapshots installed takes no snapshot and keeps the phase, until the user suspends the resource; and a
  pod that was down for a snapshot when the phase was stored stays down.\<close>

lemma missing_crds_for_ever:
  assumes "\<not> se_Missing env" and "vt_Phase (sv_Status crd) = SnapshotPhaseMissingCRDs" and "\<not> vp_Suspend (sv_Spec crd)"
  shows "\<exists>crd1. snd (ScheduledVolumeSnapshot_Reconcile env (Inr crd) w) = snd (svs_request env (SvsUpdateCall crd1) w) \<and>
    vt_Phase (sv_Status crd1) = SnapshotPhaseMissingCRDs"
proof -
  let ?crd = "Vol_Snapshot.ResetStatus (se_Clock env 0) crd"
  have "vt_Phase (sv_Status ?crd) = SnapshotPhaseMissingCRDs"
    using assms(2,3) by (simp add: Vol_Snapshot.ResetStatus_def set_svs_def)
  then show ?thesis
    using assms(1) by (intro exI [of _ ?crd]) (simp add: ScheduledVolumeSnapshot_Reconcile_def Let_def)
qed

end
